(* ===== verification/Prelude.thy ===== *)
theory Prelude
  imports
    Main
    "HOL-Library.Word"
    "HOL-Library.Finite_Map"
    "HOL-Library.List_Lexorder"
    "HOL-Library.Char_ord"
begin

text \<open>
  Shared vocabulary of the development.  It fixes how the Go types of CD-Raft are read in HOL
  and collects the generic facts the component theories share.

  \<^item> \<open>uint64\<close> is \<open>64 word\<close>: addition wraps, comparison is unsigned.
  \<^item> Go strings are byte strings: \<open>string\<close>, compared bytewise (\<open>List_Lexorder\<close>, \<open>Char_ord\<close>).
  \<^item> A Go map is a finite map \<open>('k, 'v) fmap\<close>.  A read of a missing key gives the zero value
    (\<open>getz\<close>); \<open>range\<close> over a map visits the entries in an order Go leaves open, which the model
    fixes to the ascending order of the keys (\<open>sorted_list_of_fmap\<close>).  A nil map and an empty map
    are identified: every state of the program passes through \<open>initMaps\<close>.
  \<^item> \<open>time.Time\<close> and \<open>time.Duration\<close> are integers counting nanoseconds; Go's zero time is 0.
  \<^item> \<open>float64\<close> is idealised to an exact rational.
\<close>

type_synonym u64 = "64 word"
type_synonym 'v gomap = "(string, 'v) fmap"
type_synonym time = int
type_synonym duration = int

definition millisecond :: duration where "millisecond = 1000000"
definition second :: duration where "second = 1000 * millisecond"

text \<open>Collections the component theories extend.\<close>

named_theorems wf_intros \<open>introduction rules for well-formedness predicates\<close>
named_theorems wf_dests \<open>consequences of well-formedness predicates\<close>
named_theorems frame_simps \<open>fields that an operation leaves unchanged\<close>

subsection \<open>Reading Go maps\<close>

definition getz :: "('k, 'v::zero) fmap \<Rightarrow> 'k \<Rightarrow> 'v" where
  "getz m k = (case fmlookup m k of None \<Rightarrow> 0 | Some v \<Rightarrow> v)"

definition get_or :: "'v \<Rightarrow> ('k, 'v) fmap \<Rightarrow> 'k \<Rightarrow> 'v" where
  "get_or z m k = (case fmlookup m k of None \<Rightarrow> z | Some v \<Rightarrow> v)"

lemma getz_fmupd [simp]: "getz (fmupd k v m) k' = (if k' = k then v else getz m k')"
  by (simp add: getz_def)

lemma getz_fmempty [simp]: "getz fmempty k = 0"
  by (simp add: getz_def)

lemma get_or_fmupd [simp]: "get_or z (fmupd k v m) k' = (if k' = k then v else get_or z m k')"
  by (simp add: get_or_def)

lemma get_or_fmempty [simp]: "get_or z fmempty k = z"
  by (simp add: get_or_def)

lemma fmdrop_lookup_iff: "fmlookup (fmdrop a m) b = (if a = b then None else fmlookup m b)"
  by simp

text \<open>Rebuilding a map from its entries, as a decoder does, gives the map back.\<close>

definition fm_insert_all :: "('k \<times> 'v) list \<Rightarrow> ('k, 'v) fmap \<Rightarrow> ('k, 'v) fmap" where
  "fm_insert_all kvs m = fold (\<lambda>(k, v). fmupd k v) kvs m"

lemma fm_insert_all_simps [simp]:
  "fm_insert_all [] m = m"
  "fm_insert_all ((k, v) # kvs) m = fm_insert_all kvs (fmupd k v m)"
  by (simp_all add: fm_insert_all_def)

lemma fm_insert_all_lookup:
  "distinct (map fst kvs) \<Longrightarrow>
   fmlookup (fm_insert_all kvs m) k =
     (case map_of kvs k of None \<Rightarrow> fmlookup m k | Some v \<Rightarrow> Some v)"
proof (induction kvs arbitrary: m)
  case Nil
  show ?case by simp
next
  case (Cons kv kvs)
  obtain a b where kv: "kv = (a, b)" by (cases kv)
  have "map_of kvs a = None" using Cons.prems kv by (auto simp: map_of_eq_None_iff)
  then show ?case using Cons kv by (auto split: option.splits)
qed

lemma fm_insert_all_None_iff:
  "fmlookup (fm_insert_all kvs m) k = None \<longleftrightarrow> k \<notin> fst ` set kvs \<and> fmlookup m k = None"
proof (induction kvs arbitrary: m)
  case Nil
  show ?case by simp
next
  case (Cons kv kvs)
  then show ?case by (cases kv) simp
qed

lemma distinct_keys_sorted_list_of_fmap [simp]: "distinct (map fst (sorted_list_of_fmap m))"
proof -
  have "map fst (sorted_list_of_fmap m) = sorted_list_of_fset (fmdom m)"
    by (simp add: sorted_list_of_fmap_def comp_def)
  then show ?thesis by (simp add: sorted_list_of_fset.rep_eq)
qed

lemma fm_insert_all_sorted [simp]: "fm_insert_all (sorted_list_of_fmap m) fmempty = m"
  by (rule fmap_ext) (simp add: fm_insert_all_lookup split: option.splits)

lemma in_sorted_list_of_fmap:
  "(k, v) \<in> set (sorted_list_of_fmap m) \<longleftrightarrow> fmlookup m k = Some v"
  using map_of_sorted_list [of m] distinct_keys_sorted_list_of_fmap [of m]
  by (metis map_of_eq_Some_iff)

subsection \<open>Unsigned 64-bit arithmetic\<close>

definition max_u64 :: u64 where "max_u64 = - 1"

lemma unat_u64_lt: "unat (x :: u64) < 2 ^ 64"
  using unsigned_less [of x] by simp

lemma unat_max_u64_const: "unat max_u64 = 2 ^ 64 - 1"
  unfolding max_u64_def by (simp add: unsigned_minus_1_eq_mask mask_eq_exp_minus_1)

lemma neq_max_u64_iff: "x \<noteq> max_u64 \<longleftrightarrow> unat x < 2 ^ 64 - 1"
  using unat_u64_lt [of x] unat_max_u64_const by (auto simp: word_unat_eq_iff)

lemma unat_u64_plus1: "x \<noteq> max_u64 \<Longrightarrow> unat (x + 1 :: u64) = unat x + 1"
  unfolding max_u64_def
  by (metis Suc_eq_plus1 add.commute add.right_neutral add_cancel_right_left
      eq_neg_iff_add_eq_0 unatSuc)

lemma u64_less_plus1: "x \<noteq> max_u64 \<Longrightarrow> x < (x + 1 :: u64)"
  by (simp add: word_less_nat_alt unat_u64_plus1)

lemma u64_le_minus1: "i \<noteq> 0 \<Longrightarrow> j \<le> (i - 1 :: u64) \<longleftrightarrow> j < i"
  using unat_gt_0 [of i] by (auto simp: word_le_nat_alt word_less_nat_alt unat_minus_one)

lemma u64_minus1_less: "i \<noteq> 0 \<Longrightarrow> (i - 1 :: u64) < i"
  using u64_le_minus1 [of i "i - 1"] by simp

lemma unat_max_u64: "unat (max a b :: u64) = max (unat a) (unat b)"
  by (simp add: max_def word_le_nat_alt)

lemma unat_min_u64: "unat (min a b :: u64) = min (unat a) (unat b)"
  by (simp add: min_def word_le_nat_alt)

subsection \<open>Signed 64-bit arithmetic\<close>

text \<open>\<open>int\<close>, \<open>int64\<close> and \<open>time.Duration\<close> are integers; where a product or a conversion can leave the
  range, \<open>i64\<close> writes out the wrap-around.\<close>

definition i64 :: "int \<Rightarrow> int" where
  "i64 x = (x + 2 ^ 63) mod 2 ^ 64 - 2 ^ 63"

lemma i64_id: "- (2 ^ 63) \<le> x \<Longrightarrow> x < 2 ^ 63 \<Longrightarrow> i64 x = x"
  by (simp add: i64_def)

lemma i64_0 [simp]: "i64 0 = 0"
  by (simp add: i64_def)

lemma i64_range: "- (2 ^ 63) \<le> i64 x \<and> i64 x < 2 ^ 63"
  using pos_mod_bound [of "2 ^ 64" "x + 2 ^ 63"] pos_mod_sign [of "2 ^ 64" "x + 2 ^ 63"]
  by (auto simp: i64_def)

subsection \<open>Folds that keep a relation\<close>

text \<open>
  A Go loop over a list that updates the state is a \<open>fold\<close>.  A reflexive and transitive relation
  that every iteration respects relates the state before and after the loop.
\<close>

lemma fold_rel:
  assumes refl: "\<And>s. R s s"
    and trans: "\<And>s t u. R s t \<Longrightarrow> R t u \<Longrightarrow> R s u"
    and step: "\<And>x s. x \<in> set xs \<Longrightarrow> R s (f x s)"
  shows "R s (fold f xs s)"
  using step
proof (induction xs arbitrary: s)
  case Nil
  show ?case by (simp add: refl)
next
  case (Cons x xs)
  have "R s (f x s)" using Cons.prems by simp
  moreover have "R (f x s) (fold f xs (f x s))" using Cons by simp
  ultimately show ?case by (simp add: trans)
qed

lemma fold_inv:
  assumes "P s" and "\<And>x s. x \<in> set xs \<Longrightarrow> P s \<Longrightarrow> P (f x s)"
  shows "P (fold f xs s)"
  using assms by (induction xs arbitrary: s) auto

lemma fold_eq:
  assumes "\<And>x s. x \<in> set xs \<Longrightarrow> g (f x s) = g s"
  shows "g (fold f xs s) = g s"
  using assms by (induction xs arbitrary: s) auto

end
