(* ===== verification/Types.thy ===== *)
theory Types
  imports Prelude
begin

text \<open>
  The protocol vocabulary of \<open>internal/cdraft/types.go\<close>: stages, roles, message kinds, errors,
  leader identities, log entries, client results and the two quorum sizes.  The quorum sizes are
  shown to be quorum systems (\<open>quorum_system\<close>), the interface on which the election proofs rest.
\<close>

section \<open>Stages, roles and message kinds\<close>

datatype Stage = Booting | DomainElecting | DomainReady | GlobalElecting | Serving

datatype Role = Follower | Candidate | Leader

datatype MessageKind =
    DomainVoteMessage | DomainHeartbeatMessage | DomainReadyMessage
  | GlobalVoteMessage | GlobalHeartbeatMessage | ReplicateEntryMessage
  | DomainQuorumAckMessage | GlobalDomainQuorumAckMessage | CommitNoticeMessage

record RPCPolicy =
  Deadline :: duration
  MaxRetries :: int

definition DefaultRPCPolicy :: RPCPolicy where
  "DefaultRPCPolicy = \<lparr>Deadline = 500 * millisecond, MaxRetries = 3\<rparr>"

text \<open>
  The sentinel errors of \<open>types.go\<close>, followed by the formatted errors the other components
  build with \<open>fmt.Errorf\<close>.
\<close>

datatype error =
    ErrNodeStopped | ErrNoDomainQuorum | ErrNotDomainLeader | ErrNotGlobalLeader
  | ErrNoGlobalQuorum | ErrNotServing | ErrNoCommit | ErrReadBarrier | ErrDeadline
  | ErrBothPathsFailed | ErrInvalidResult | ErrInconsistentResult
  | ErrNoDomainQuorumOf string
  | ErrUnknownNode string
  | ErrNotInDomain string string
  | ErrInvalidWriteRequest
  | ErrRequestReused
  | ErrBoundaryUnknown u64
  | ErrIO
  | ErrDecode

section \<open>Log summaries\<close>

record LogSummary =
  LastGlobalTerm :: u64
  LastGlobalIndex :: u64

definition AtLeast :: "LogSummary \<Rightarrow> LogSummary \<Rightarrow> bool" where
  "AtLeast l other =
     (if LastGlobalTerm l \<noteq> LastGlobalTerm other
      then LastGlobalTerm l > LastGlobalTerm other
      else LastGlobalIndex l \<ge> LastGlobalIndex other)"

text \<open>Summaries are ordered lexicographically, term first; \<open>AtLeast\<close> is that order.\<close>

instantiation LogSummary_ext :: (linorder) linorder
begin

definition less_eq_LogSummary_ext :: "'a LogSummary_scheme \<Rightarrow> 'a LogSummary_scheme \<Rightarrow> bool" where
  "less_eq_LogSummary_ext a b =
     (LastGlobalTerm a < LastGlobalTerm b \<or> LastGlobalTerm a = LastGlobalTerm b \<and>
       (LastGlobalIndex a < LastGlobalIndex b \<or> LastGlobalIndex a = LastGlobalIndex b \<and>
          LogSummary.more a \<le> LogSummary.more b))"

definition less_LogSummary_ext :: "'a LogSummary_scheme \<Rightarrow> 'a LogSummary_scheme \<Rightarrow> bool" where
  "less_LogSummary_ext a b = (a \<le> b \<and> \<not> b \<le> a)"

instance
proof
  fix x y z :: "'a LogSummary_scheme"
  show "(x < y) = (x \<le> y \<and> \<not> y \<le> x)" by (rule less_LogSummary_ext_def)
  show "x \<le> x" by (simp add: less_eq_LogSummary_ext_def)
  show "x \<le> z" if "x \<le> y" "y \<le> z"
    using that by (auto simp: less_eq_LogSummary_ext_def)
  show "x = y" if "x \<le> y" "y \<le> x"
    using that by (auto simp: less_eq_LogSummary_ext_def intro: LogSummary.equality)
  show "x \<le> y \<or> y \<le> x"
    by (auto simp: less_eq_LogSummary_ext_def)
qed

end

lemma AtLeast_iff_ge: "AtLeast l other \<longleftrightarrow> other \<le> l"
  by (auto simp: AtLeast_def less_eq_LogSummary_ext_def)

section \<open>Leader identities\<close>

record DomainLeaderIdentity =
  DomainID :: string
  NodeID :: string
  DomainTerm :: u64

definition no_dli :: DomainLeaderIdentity where
  "no_dli = \<lparr>DomainID = [], NodeID = [], DomainTerm = 0\<rparr>"

definition dli_Valid :: "DomainLeaderIdentity \<Rightarrow> bool" where
  "dli_Valid i \<longleftrightarrow> DomainID i \<noteq> [] \<and> NodeID i \<noteq> [] \<and> DomainTerm i > 0"

record GlobalLeaderIdentity =
  gli_DomainLeader :: DomainLeaderIdentity
  gli_GlobalTerm :: u64

definition no_gli :: GlobalLeaderIdentity where
  "no_gli = \<lparr>gli_DomainLeader = no_dli, gli_GlobalTerm = 0\<rparr>"

definition gli_Valid :: "GlobalLeaderIdentity \<Rightarrow> bool" where
  "gli_Valid i \<longleftrightarrow> dli_Valid (gli_DomainLeader i) \<and> gli_GlobalTerm i > 0"

lemma no_dli_invalid [simp]: "\<not> dli_Valid no_dli"
  by (simp add: dli_Valid_def no_dli_def)

lemma no_gli_invalid [simp]: "\<not> gli_Valid no_gli"
  by (simp add: gli_Valid_def no_gli_def)

section \<open>Votes, commands, entries and results\<close>

record DomainVoteRequest =
  dvr_DomainID :: string
  dvr_Candidate :: string
  dvr_DomainTerm :: u64
  dvr_Log :: LogSummary

record DomainVoteResponse =
  dvp_DomainTerm :: u64
  dvp_Granted :: bool

record GlobalVoteRequest =
  gvr_Candidate :: DomainLeaderIdentity
  gvr_GlobalTerm :: u64
  gvr_Log :: LogSummary

record GlobalVoteResponse =
  gvp_Voter :: DomainLeaderIdentity
  gvp_GlobalTerm :: u64
  gvp_Granted :: bool

record Command =
  Key :: string
  Val :: string

record LogEntry =
  GlobalTerm :: u64
  GlobalIndex :: u64
  RequestID :: string
  OriginDomain :: string
  Cmd :: Command
  Result :: string

record ClientWriteRequest =
  cwr_RequestID :: string
  cwr_OriginDomain :: string
  cwr_ReplyRoute :: string
  cwr_Command :: Command

type_synonym ResultSource = string

definition GlobalResponse :: ResultSource where "GlobalResponse = ''global-leader''"
definition FastResponse :: ResultSource where "FastResponse = ''domain-leader-fast-return''"

record ClientResult =
  cr_RequestID :: string
  cr_GlobalTerm :: u64
  cr_GlobalIndex :: u64
  cr_Result :: string
  cr_Source :: ResultSource
  cr_Committed :: bool
  cr_ResponderDomain :: string

definition Validate :: "ClientResult \<Rightarrow> string \<Rightarrow> error option" where
  "Validate r requestID =
     (if \<not> cr_Committed r \<or> cr_RequestID r \<noteq> requestID \<or> cr_GlobalTerm r = 0 \<or> cr_GlobalIndex r = 0
      then Some ErrInvalidResult
      else if cr_Source r \<noteq> GlobalResponse \<and> cr_Source r \<noteq> FastResponse
      then Some ErrInvalidResult
      else None)"

definition SameDecision :: "ClientResult \<Rightarrow> ClientResult \<Rightarrow> bool" where
  "SameDecision r other \<longleftrightarrow>
     cr_RequestID r = cr_RequestID other \<and> cr_GlobalTerm r = cr_GlobalTerm other \<and>
     cr_GlobalIndex r = cr_GlobalIndex other \<and> cr_Result r = cr_Result other"

record WriteOutcome =
  wo_Normal :: "ClientResult option"
  wo_NormalErr :: "error option"
  wo_Fast :: "ClientResult option"
  wo_FastErr :: "error option"

definition commandResult :: "Command \<Rightarrow> string" where
  "commandResult c = Key c @ ''='' @ Val c"

section \<open>Quorum sizes\<close>

text \<open>Both functions are applied to lengths only, so Go's \<open>int\<close> is a natural number here.\<close>

definition majority :: "nat \<Rightarrow> nat" where
  "majority n = n div 2 + 1"

definition globalElectionThreshold :: "nat \<Rightarrow> nat" where
  "globalElectionThreshold domains =
     (if domains \<le> 1 then domains
      else if domains - 1 < majority domains then majority domains
      else domains - 1)"

text \<open>
  The interface of an election: a finite electorate and the number of votes that wins.  Its one
  law says that two winning sets overlap in a voter; the client lemma is the argument every vote
  count of the program rests on.
\<close>

locale quorum_system =
  fixes voters :: "'v set" and threshold :: nat
  assumes finite_voters: "finite voters"
    and overlap: "card voters < 2 * threshold"
begin

lemma quorums_intersect:
  assumes "A \<subseteq> voters" "B \<subseteq> voters" "threshold \<le> card A" "threshold \<le> card B"
  shows "A \<inter> B \<noteq> {}"
proof
  assume "A \<inter> B = {}"
  then have "card A + card B = card (A \<union> B)"
    using assms finite_voters by (metis card_Un_disjoint finite_subset)
  also have "\<dots> \<le> card voters"
    using assms finite_voters by (simp add: card_mono)
  finally show False using assms overlap by linarith
qed

lemma one_winner:
  assumes "A \<subseteq> voters" "B \<subseteq> voters" "threshold \<le> card A" "threshold \<le> card B"
    and "\<And>v. v \<in> A \<Longrightarrow> ballot v = a" "\<And>v. v \<in> B \<Longrightarrow> ballot v = b"
  shows "a = b"
proof -
  obtain v where "v \<in> A" "v \<in> B" using quorums_intersect [of A B] assms(1-4) by auto
  then show ?thesis using assms(5,6) by metis
qed

end

lemma majority_quorum: "finite V \<Longrightarrow> quorum_system V (majority (card V))"
  by unfold_locales (auto simp: majority_def)

lemma threshold_quorum:
  "finite V \<Longrightarrow> V \<noteq> {} \<Longrightarrow> quorum_system V (globalElectionThreshold (card V))"
proof unfold_locales
  assume "finite V" "V \<noteq> {}"
  then have "card V \<ge> 1" by (simp add: Suc_leI card_gt_0_iff)
  then show "card V < 2 * globalElectionThreshold (card V)"
    by (auto simp: globalElectionThreshold_def majority_def)
qed

interpretation member_majority: quorum_system "set members" "majority (card (set members))"
  for members :: "string list"
  by (rule majority_quorum) simp

interpretation domain_threshold:
  quorum_system "insert d (set ds)" "globalElectionThreshold (card (insert d (set ds)))"
  for d :: string and ds :: "string list"
  by (rule threshold_quorum) simp_all

section \<open>Properties\<close>

lemma SameDecision_equiv:
  "SameDecision r r"
  "SameDecision r s \<Longrightarrow> SameDecision s r"
  "SameDecision r s \<Longrightarrow> SameDecision s t \<Longrightarrow> SameDecision r t"
  by (simp_all add: SameDecision_def)

lemma Validate_None_iff:
  "Validate r requestID = None \<longleftrightarrow>
     cr_Committed r \<and> cr_RequestID r = requestID \<and> cr_GlobalTerm r \<noteq> 0 \<and> cr_GlobalIndex r \<noteq> 0 \<and>
     (cr_Source r = GlobalResponse \<or> cr_Source r = FastResponse)"
  by (auto simp: Validate_def)

lemma globalElectionThreshold_eq:
  "globalElectionThreshold n = (if n \<le> 1 then n else max (n - 1) (majority n))"
  by (auto simp: globalElectionThreshold_def max_def)

end
