(* ===== verification/Json.thy ===== *)
theory Json
  imports Types "HOL-Library.Monad_Syntax"
begin

text \<open>
  What the program uses of Go's \<open>encoding/json\<close>: documents as trees, the replacement of invalid
  UTF-8 that marshalling performs on every string, and the decoders for numbers, strings, arrays
  and string-keyed maps.  A missing or null field decodes to the zero value, a field of the wrong
  shape is an error.
\<close>

section \<open>UTF-8\<close>

definition byte :: "char \<Rightarrow> nat" where "byte c = of_char c"

definition is_cont :: "char \<Rightarrow> bool" where "is_cont c \<longleftrightarrow> 128 \<le> byte c \<and> byte c \<le> 191"

text \<open>The bytes allowed after a lead byte: overlong forms, surrogates and values past U+10FFFF
  are excluded.\<close>

definition second_ok :: "nat \<Rightarrow> nat \<Rightarrow> bool" where
  "second_ok b c \<longleftrightarrow>
     (if b = 224 then 160 \<le> c \<and> c \<le> 191
      else if b = 237 then 128 \<le> c \<and> c \<le> 159
      else if b = 240 then 144 \<le> c \<and> c \<le> 191
      else if b = 244 then 128 \<le> c \<and> c \<le> 143
      else 128 \<le> c \<and> c \<le> 191)"

text \<open>\<open>rune_tail a s\<close>: how many bytes of \<open>s\<close> complete the rune that starts with \<open>a\<close>.\<close>

definition rune_tail :: "char \<Rightarrow> string \<Rightarrow> nat option" where
  "rune_tail a s =
     (let b = byte a in
      if b < 128 then Some 0
      else if 194 \<le> b \<and> b \<le> 223 then
        (case s of c # _ \<Rightarrow> if is_cont c then Some 1 else None | _ \<Rightarrow> None)
      else if 224 \<le> b \<and> b \<le> 239 then
        (case s of c # d # _ \<Rightarrow> if second_ok b (byte c) \<and> is_cont d then Some 2 else None
         | _ \<Rightarrow> None)
      else if 240 \<le> b \<and> b \<le> 244 then
        (case s of c # d # e # _ \<Rightarrow>
           if second_ok b (byte c) \<and> is_cont d \<and> is_cont e then Some 3 else None
         | _ \<Rightarrow> None)
      else None)"

definition replacement :: string where
  "replacement = [char_of (239::nat), char_of (191::nat), char_of (189::nat)]"

fun coerce :: "string \<Rightarrow> string" where
  "coerce [] = []"
| "coerce (a # s) =
     (case rune_tail a s of
        None \<Rightarrow> replacement @ coerce s
      | Some n \<Rightarrow> a # take n s @ coerce (drop n s))"

fun valid_utf8 :: "string \<Rightarrow> bool" where
  "valid_utf8 [] = True"
| "valid_utf8 (a # s) =
     (case rune_tail a s of None \<Rightarrow> False | Some n \<Rightarrow> valid_utf8 (drop n s))"

lemma coerce_valid [simp]: "valid_utf8 s \<Longrightarrow> coerce s = s"
  by (induction s rule: valid_utf8.induct) (auto split: option.splits)

lemma valid_utf8_ascii: "list_all (\<lambda>c. byte c < 128) s \<Longrightarrow> valid_utf8 s"
  by (induction s) (auto simp: rune_tail_def)

lemma rune_tail_append:
  assumes "rune_tail a s = Some n"
  shows "rune_tail a (take n s @ t) = Some n" "n \<le> length s"
proof -
  have "rune_tail a (take n s @ t) = Some n \<and> n \<le> length s"
    using assms
    by (auto simp: rune_tail_def Let_def numeral_2_eq_2 numeral_3_eq_3
        split: if_splits list.splits)
  then show "rune_tail a (take n s @ t) = Some n" "n \<le> length s" by auto
qed

lemma valid_replacement: "valid_utf8 t \<Longrightarrow> valid_utf8 (replacement @ t)"
  by (simp add: replacement_def rune_tail_def byte_def second_ok_def is_cont_def numeral_2_eq_2)

lemma valid_coerce [simp]: "valid_utf8 (coerce s)"
proof (induction s rule: coerce.induct)
  case 1
  show ?case by simp
next
  case (2 a s)
  show ?case
  proof (cases "rune_tail a s")
    case None
    with 2 show ?thesis by (simp add: valid_replacement)
  next
    case (Some n)
    note r = rune_tail_append(1) [OF Some, of "coerce (drop n s)"] rune_tail_append(2) [OF Some]
    have "valid_utf8 (coerce (drop n s))" using 2 Some by simp
    then show ?thesis using Some r by simp
  qed
qed

section \<open>Documents\<close>

datatype json =
    JNull | JBool bool | JNum int | JStr string | JArr "json list" | JObj "(string \<times> json) list"

definition enc_u64 :: "u64 \<Rightarrow> json" where "enc_u64 w = JNum (uint w)"

definition enc_str :: "string \<Rightarrow> json" where "enc_str s = JStr (coerce s)"

definition enc_list :: "('a \<Rightarrow> json) \<Rightarrow> 'a list \<Rightarrow> json" where
  "enc_list f xs = JArr (map f xs)"

definition enc_map :: "('a \<Rightarrow> json) \<Rightarrow> 'a gomap \<Rightarrow> json" where
  "enc_map f m = JObj (map (\<lambda>(k, v). (coerce k, f v)) (sorted_list_of_fmap m))"

definition jfield :: "json \<Rightarrow> string \<Rightarrow> json" where
  "jfield j k =
     (case j of JObj kvs \<Rightarrow> (case map_of kvs k of None \<Rightarrow> JNull | Some v \<Rightarrow> v) | _ \<Rightarrow> JNull)"

definition is_struct :: "json \<Rightarrow> bool" where
  "is_struct j = (case j of JObj _ \<Rightarrow> True | JNull \<Rightarrow> True | _ \<Rightarrow> False)"

fun dec_u64 :: "json \<Rightarrow> u64 option" where
  "dec_u64 JNull = Some 0"
| "dec_u64 (JNum i) = (if 0 \<le> i \<and> i < 2 ^ 64 then Some (word_of_int i) else None)"
| "dec_u64 _ = None"

fun dec_str :: "json \<Rightarrow> string option" where
  "dec_str JNull = Some []"
| "dec_str (JStr s) = Some s"
| "dec_str _ = None"

fun dec_bool :: "json \<Rightarrow> bool option" where
  "dec_bool JNull = Some False"
| "dec_bool (JBool b) = Some b"
| "dec_bool _ = None"

fun dec_list :: "(json \<Rightarrow> 'a option) \<Rightarrow> json \<Rightarrow> 'a list option" where
  "dec_list f JNull = Some []"
| "dec_list f (JArr xs) = those (map f xs)"
| "dec_list f _ = None"

fun dec_map :: "(json \<Rightarrow> 'a option) \<Rightarrow> json \<Rightarrow> 'a gomap option" where
  "dec_map f JNull = Some fmempty"
| "dec_map f (JObj kvs) =
     map_option (\<lambda>l. fm_insert_all l fmempty)
       (those (map (\<lambda>(k, j). map_option (Pair k) (f j)) kvs))"
| "dec_map f _ = None"

section \<open>Round trips\<close>

lemma dec_enc_u64 [simp]: "dec_u64 (enc_u64 w) = Some w"
  using uint_bounded [of w] by (simp add: enc_u64_def)

lemma dec_enc_str [simp]: "dec_str (enc_str s) = Some (coerce s)"
  by (simp add: enc_str_def)

lemma those_map_Some: "(\<And>x. x \<in> set xs \<Longrightarrow> f x = Some (g x)) \<Longrightarrow> those (map f xs) = Some (map g xs)"
  by (induction xs) auto

lemma dec_enc_list:
  "(\<And>x. d (e x) = Some (g x)) \<Longrightarrow> dec_list d (enc_list e xs) = Some (map g xs)"
  by (simp add: enc_list_def those_map_Some comp_def)

text \<open>What a map becomes when it is written and read back.\<close>

definition coerce_map :: "('a \<Rightarrow> 'a) \<Rightarrow> 'a gomap \<Rightarrow> 'a gomap" where
  "coerce_map g m =
     fm_insert_all (map (\<lambda>(k, v). (coerce k, g v)) (sorted_list_of_fmap m)) fmempty"

lemma dec_enc_map:
  assumes "\<And>x. d (e x) = Some (g x)"
  shows "dec_map d (enc_map e m) = Some (coerce_map g m)"
proof -
  have "those (map (\<lambda>(k, j). map_option (Pair k) (d j))
          (map (\<lambda>(k, v). (coerce k, e v)) (sorted_list_of_fmap m))) =
        Some (map (\<lambda>(k, v). (coerce k, g v)) (sorted_list_of_fmap m))"
    unfolding map_map by (rule those_map_Some) (auto simp: assms)
  then show ?thesis by (simp add: enc_map_def coerce_map_def)
qed

definition valid_map :: "('a \<Rightarrow> bool) \<Rightarrow> 'a gomap \<Rightarrow> bool" where
  "valid_map P m \<longleftrightarrow> fmpred (\<lambda>k v. valid_utf8 k \<and> P v) m"

lemma coerce_map_valid:
  assumes "valid_map P m" and "\<And>v. P v \<Longrightarrow> g v = v"
  shows "coerce_map g m = m"
proof -
  have "map (\<lambda>(k, v). (coerce k, g v)) (sorted_list_of_fmap m) = sorted_list_of_fmap m"
  proof (rule map_idI)
    fix kv assume kv: "kv \<in> set (sorted_list_of_fmap m)"
    obtain k v where p: "kv = (k, v)" by (cases kv)
    then have "fmlookup m k = Some v" using kv by (simp add: in_sorted_list_of_fmap)
    then have "valid_utf8 k" "P v" using assms(1) by (auto simp: valid_map_def fmpred_iff)
    then show "(case kv of (k, v) \<Rightarrow> (coerce k, g v)) = kv" by (simp add: p assms(2))
  qed
  then show ?thesis by (simp add: coerce_map_def)
qed

lemma valid_map_insert_all:
  "valid_map P m \<Longrightarrow> (\<forall>(k, v) \<in> set kvs. valid_utf8 k \<and> P v) \<Longrightarrow> valid_map P (fm_insert_all kvs m)"
proof (induction kvs arbitrary: m)
  case Nil
  then show ?case by simp
next
  case (Cons kv kvs)
  obtain k v where kv: "kv = (k, v)" by (cases kv)
  have "valid_map P (fmupd k v m)"
    using Cons.prems kv by (auto simp: valid_map_def fmpred_iff)
  then show ?case using Cons kv by simp
qed

lemma valid_map_coerce: "(\<And>v. P (g v)) \<Longrightarrow> valid_map P (coerce_map g m)"
  unfolding coerce_map_def
  by (rule valid_map_insert_all) (auto simp: valid_map_def)

lemma coerce_map_lookup_valid:
  assumes "fmlookup m k \<noteq> None" "valid_utf8 k"
  shows "fmlookup (coerce_map g m) k \<noteq> None"
proof -
  obtain v where "(k, v) \<in> set (sorted_list_of_fmap m)"
    using assms(1) by (auto simp: in_sorted_list_of_fmap)
  then have "(coerce k, g v) \<in> (\<lambda>(k, v). (coerce k, g v)) ` set (sorted_list_of_fmap m)" by force
  then show ?thesis
    using assms(2) by (simp only: coerce_map_def fm_insert_all_None_iff) force
qed

end
