(* ===== verification/Persistence.thy ===== *)
theory Persistence
  imports Json
begin

text \<open>
  \<open>internal/cdraft/store.go\<close>: the persistent state of a node, its JSON form, the in-memory store
  and the file store.  \<open>Clone\<close> copies through JSON, so it replaces invalid UTF-8 and nothing else
  (\<open>coerce_state\<close>).  The interface \<open>store\<close> is what the rest of the program relies on; both
  implementations are interpreted.
\<close>

section \<open>The persistent state\<close>

record PersistentState =
  ps_DomainTerm :: u64
  ps_DomainVotedFor :: string
  ps_DomainLeader :: DomainLeaderIdentity
  ps_GlobalTerm :: u64
  ps_GlobalVotedFor :: DomainLeaderIdentity
  ps_GlobalLeader :: GlobalLeaderIdentity
  ps_Log :: "LogEntry list"
  ps_DomainQuorumIndex :: "u64 gomap"
  ps_KnownGlobalCommitIndex :: u64
  ps_AppliedIndex :: u64
  ps_Results :: "ClientResult gomap"
  ps_StateMachine :: "string gomap"
  ps_SnapshotLastIndex :: u64
  ps_SnapshotLastTerm :: u64
  ps_SnapshotLastRequestID :: string

definition empty_state :: PersistentState where
  "empty_state =
     \<lparr>ps_DomainTerm = 0, ps_DomainVotedFor = [], ps_DomainLeader = no_dli,
      ps_GlobalTerm = 0, ps_GlobalVotedFor = no_dli, ps_GlobalLeader = no_gli,
      ps_Log = [], ps_DomainQuorumIndex = fmempty, ps_KnownGlobalCommitIndex = 0,
      ps_AppliedIndex = 0, ps_Results = fmempty, ps_StateMachine = fmempty,
      ps_SnapshotLastIndex = 0, ps_SnapshotLastTerm = 0, ps_SnapshotLastRequestID = []\<rparr>"

definition LastLogIndex :: "PersistentState \<Rightarrow> u64" where
  "LastLogIndex s = ps_SnapshotLastIndex s + of_nat (length (ps_Log s))"

definition Summary :: "PersistentState \<Rightarrow> LogSummary" where
  "Summary s =
     (if ps_Log s = []
      then \<lparr>LastGlobalTerm = ps_SnapshotLastTerm s, LastGlobalIndex = ps_SnapshotLastIndex s\<rparr>
      else let l = last (ps_Log s)
           in \<lparr>LastGlobalTerm = GlobalTerm l, LastGlobalIndex = GlobalIndex l\<rparr>)"

section \<open>JSON form\<close>

definition enc_dli :: "DomainLeaderIdentity \<Rightarrow> json" where
  "enc_dli i = JObj [(''DomainID'', enc_str (DomainID i)), (''NodeID'', enc_str (NodeID i)),
                     (''DomainTerm'', enc_u64 (DomainTerm i))]"

definition enc_gli :: "GlobalLeaderIdentity \<Rightarrow> json" where
  "enc_gli i = JObj [(''DomainLeader'', enc_dli (gli_DomainLeader i)),
                     (''GlobalTerm'', enc_u64 (gli_GlobalTerm i))]"

definition enc_entry :: "LogEntry \<Rightarrow> json" where
  "enc_entry e =
     JObj [(''GlobalTerm'', enc_u64 (GlobalTerm e)), (''GlobalIndex'', enc_u64 (GlobalIndex e)),
           (''RequestID'', enc_str (RequestID e)), (''OriginDomain'', enc_str (OriginDomain e)),
           (''Command'', JObj [(''Key'', enc_str (Key (Cmd e))), (''Value'', enc_str (Val (Cmd e)))]),
           (''Result'', enc_str (Result e))]"

definition enc_result :: "ClientResult \<Rightarrow> json" where
  "enc_result r =
     JObj [(''RequestID'', enc_str (cr_RequestID r)), (''GlobalTerm'', enc_u64 (cr_GlobalTerm r)),
           (''GlobalIndex'', enc_u64 (cr_GlobalIndex r)), (''Result'', enc_str (cr_Result r)),
           (''Source'', enc_str (cr_Source r)), (''Committed'', JBool (cr_Committed r)),
           (''ResponderDomain'', enc_str (cr_ResponderDomain r))]"

text \<open>The three documents that have keys of their own in the key-value layout (log, results, state
  machine) are arguments, since \<open>KVStore.Save\<close> writes them as null in its meta document.\<close>

definition marshal_with :: "json \<Rightarrow> json \<Rightarrow> json \<Rightarrow> PersistentState \<Rightarrow> json" where
  "marshal_with log res sm s =
     JObj ([(''domainTerm'', enc_u64 (ps_DomainTerm s)),
            (''domainVotedFor'', enc_str (ps_DomainVotedFor s)),
            (''domainLeader'', enc_dli (ps_DomainLeader s)),
            (''globalTerm'', enc_u64 (ps_GlobalTerm s)),
            (''globalVotedFor'', enc_dli (ps_GlobalVotedFor s)),
            (''globalLeader'', enc_gli (ps_GlobalLeader s)),
            (''log'', log),
            (''domainQuorumIndex'', enc_map enc_u64 (ps_DomainQuorumIndex s)),
            (''knownGlobalCommitIndex'', enc_u64 (ps_KnownGlobalCommitIndex s)),
            (''appliedIndex'', enc_u64 (ps_AppliedIndex s)),
            (''results'', res),
            (''stateMachine'', sm)]
       @ (if ps_SnapshotLastIndex s = 0 then []
          else [(''snapshotLastIndex'', enc_u64 (ps_SnapshotLastIndex s))])
       @ (if ps_SnapshotLastTerm s = 0 then []
          else [(''snapshotLastTerm'', enc_u64 (ps_SnapshotLastTerm s))])
       @ (if ps_SnapshotLastRequestID s = [] then []
          else [(''snapshotLastRequestId'', enc_str (ps_SnapshotLastRequestID s))]))"

definition marshal :: "PersistentState \<Rightarrow> json" where
  "marshal s =
     marshal_with (enc_list enc_entry (ps_Log s)) (enc_map enc_result (ps_Results s))
       (enc_map enc_str (ps_StateMachine s)) s"

definition dec_dli :: "json \<Rightarrow> DomainLeaderIdentity option" where
  "dec_dli j =
     (if \<not> is_struct j then None else
      do { a \<leftarrow> dec_str (jfield j ''DomainID'');
           b \<leftarrow> dec_str (jfield j ''NodeID'');
           c \<leftarrow> dec_u64 (jfield j ''DomainTerm'');
           Some \<lparr>DomainID = a, NodeID = b, DomainTerm = c\<rparr> })"

definition dec_gli :: "json \<Rightarrow> GlobalLeaderIdentity option" where
  "dec_gli j =
     (if \<not> is_struct j then None else
      do { a \<leftarrow> dec_dli (jfield j ''DomainLeader'');
           b \<leftarrow> dec_u64 (jfield j ''GlobalTerm'');
           Some \<lparr>gli_DomainLeader = a, gli_GlobalTerm = b\<rparr> })"

definition dec_command :: "json \<Rightarrow> Command option" where
  "dec_command j =
     (if \<not> is_struct j then None else
      do { a \<leftarrow> dec_str (jfield j ''Key'');
           b \<leftarrow> dec_str (jfield j ''Value'');
           Some \<lparr>Key = a, Val = b\<rparr> })"

definition dec_entry :: "json \<Rightarrow> LogEntry option" where
  "dec_entry j =
     (if \<not> is_struct j then None else
      do { a \<leftarrow> dec_u64 (jfield j ''GlobalTerm'');
           b \<leftarrow> dec_u64 (jfield j ''GlobalIndex'');
           c \<leftarrow> dec_str (jfield j ''RequestID'');
           d \<leftarrow> dec_str (jfield j ''OriginDomain'');
           e \<leftarrow> dec_command (jfield j ''Command'');
           f \<leftarrow> dec_str (jfield j ''Result'');
           Some \<lparr>GlobalTerm = a, GlobalIndex = b, RequestID = c, OriginDomain = d,
                  Cmd = e, Result = f\<rparr> })"

definition dec_result :: "json \<Rightarrow> ClientResult option" where
  "dec_result j =
     (if \<not> is_struct j then None else
      do { a \<leftarrow> dec_str (jfield j ''RequestID'');
           b \<leftarrow> dec_u64 (jfield j ''GlobalTerm'');
           c \<leftarrow> dec_u64 (jfield j ''GlobalIndex'');
           d \<leftarrow> dec_str (jfield j ''Result'');
           e \<leftarrow> dec_str (jfield j ''Source'');
           f \<leftarrow> dec_bool (jfield j ''Committed'');
           g \<leftarrow> dec_str (jfield j ''ResponderDomain'');
           Some \<lparr>cr_RequestID = a, cr_GlobalTerm = b, cr_GlobalIndex = c, cr_Result = d,
                  cr_Source = e, cr_Committed = f, cr_ResponderDomain = g\<rparr> })"

definition unmarshal :: "json \<Rightarrow> PersistentState option" where
  "unmarshal j =
     (if \<not> is_struct j then None else
      do { dt \<leftarrow> dec_u64 (jfield j ''domainTerm'');
           dv \<leftarrow> dec_str (jfield j ''domainVotedFor'');
           dl \<leftarrow> dec_dli (jfield j ''domainLeader'');
           gt \<leftarrow> dec_u64 (jfield j ''globalTerm'');
           gv \<leftarrow> dec_dli (jfield j ''globalVotedFor'');
           gl \<leftarrow> dec_gli (jfield j ''globalLeader'');
           lg \<leftarrow> dec_list dec_entry (jfield j ''log'');
           dq \<leftarrow> dec_map dec_u64 (jfield j ''domainQuorumIndex'');
           ci \<leftarrow> dec_u64 (jfield j ''knownGlobalCommitIndex'');
           ai \<leftarrow> dec_u64 (jfield j ''appliedIndex'');
           rs \<leftarrow> dec_map dec_result (jfield j ''results'');
           sm \<leftarrow> dec_map dec_str (jfield j ''stateMachine'');
           si \<leftarrow> dec_u64 (jfield j ''snapshotLastIndex'');
           st \<leftarrow> dec_u64 (jfield j ''snapshotLastTerm'');
           sr \<leftarrow> dec_str (jfield j ''snapshotLastRequestId'');
           Some \<lparr>ps_DomainTerm = dt, ps_DomainVotedFor = dv, ps_DomainLeader = dl,
                  ps_GlobalTerm = gt, ps_GlobalVotedFor = gv, ps_GlobalLeader = gl,
                  ps_Log = lg, ps_DomainQuorumIndex = dq, ps_KnownGlobalCommitIndex = ci,
                  ps_AppliedIndex = ai, ps_Results = rs, ps_StateMachine = sm,
                  ps_SnapshotLastIndex = si, ps_SnapshotLastTerm = st,
                  ps_SnapshotLastRequestID = sr\<rparr> })"

definition Clone :: "PersistentState \<Rightarrow> PersistentState" where
  "Clone s = (case unmarshal (marshal s) of None \<Rightarrow> empty_state | Some t \<Rightarrow> t)"

section \<open>What a copy through JSON keeps\<close>

definition coerce_dli :: "DomainLeaderIdentity \<Rightarrow> DomainLeaderIdentity" where
  "coerce_dli i = i\<lparr>DomainID := coerce (DomainID i), NodeID := coerce (NodeID i)\<rparr>"

definition coerce_gli :: "GlobalLeaderIdentity \<Rightarrow> GlobalLeaderIdentity" where
  "coerce_gli i = i\<lparr>gli_DomainLeader := coerce_dli (gli_DomainLeader i)\<rparr>"

definition coerce_entry :: "LogEntry \<Rightarrow> LogEntry" where
  "coerce_entry e =
     e\<lparr>RequestID := coerce (RequestID e), OriginDomain := coerce (OriginDomain e),
       Cmd := \<lparr>Key = coerce (Key (Cmd e)), Val = coerce (Val (Cmd e))\<rparr>,
       Result := coerce (Result e)\<rparr>"

definition coerce_result :: "ClientResult \<Rightarrow> ClientResult" where
  "coerce_result r =
     r\<lparr>cr_RequestID := coerce (cr_RequestID r), cr_Result := coerce (cr_Result r),
       cr_Source := coerce (cr_Source r), cr_ResponderDomain := coerce (cr_ResponderDomain r)\<rparr>"

definition coerce_state :: "PersistentState \<Rightarrow> PersistentState" where
  "coerce_state s =
     s\<lparr>ps_DomainVotedFor := coerce (ps_DomainVotedFor s),
       ps_DomainLeader := coerce_dli (ps_DomainLeader s),
       ps_GlobalVotedFor := coerce_dli (ps_GlobalVotedFor s),
       ps_GlobalLeader := coerce_gli (ps_GlobalLeader s),
       ps_Log := map coerce_entry (ps_Log s),
       ps_DomainQuorumIndex := coerce_map id (ps_DomainQuorumIndex s),
       ps_Results := coerce_map coerce_result (ps_Results s),
       ps_StateMachine := coerce_map coerce (ps_StateMachine s),
       ps_SnapshotLastRequestID := coerce (ps_SnapshotLastRequestID s)\<rparr>"

lemma coerce_state_simps [simp]:
  "ps_DomainTerm (coerce_state s) = ps_DomainTerm s"
  "ps_DomainVotedFor (coerce_state s) = coerce (ps_DomainVotedFor s)"
  "ps_DomainLeader (coerce_state s) = coerce_dli (ps_DomainLeader s)"
  "ps_GlobalTerm (coerce_state s) = ps_GlobalTerm s"
  "ps_GlobalVotedFor (coerce_state s) = coerce_dli (ps_GlobalVotedFor s)"
  "ps_GlobalLeader (coerce_state s) = coerce_gli (ps_GlobalLeader s)"
  "ps_Log (coerce_state s) = map coerce_entry (ps_Log s)"
  "ps_KnownGlobalCommitIndex (coerce_state s) = ps_KnownGlobalCommitIndex s"
  "ps_AppliedIndex (coerce_state s) = ps_AppliedIndex s"
  "ps_SnapshotLastIndex (coerce_state s) = ps_SnapshotLastIndex s"
  "ps_SnapshotLastTerm (coerce_state s) = ps_SnapshotLastTerm s"
  by (simp_all add: coerce_state_def)

lemma coerce_entry_simps [simp]:
  "GlobalTerm (coerce_entry e) = GlobalTerm e"
  "GlobalIndex (coerce_entry e) = GlobalIndex e"
  by (simp_all add: coerce_entry_def)

lemma dec_enc_dli [simp]: "dec_dli (enc_dli i) = Some (coerce_dli i)"
  by (simp add: dec_dli_def enc_dli_def coerce_dli_def jfield_def is_struct_def)

lemma dec_enc_gli [simp]: "dec_gli (enc_gli i) = Some (coerce_gli i)"
  by (simp add: dec_gli_def enc_gli_def coerce_gli_def jfield_def is_struct_def)

lemma dec_enc_entry [simp]: "dec_entry (enc_entry e) = Some (coerce_entry e)"
  by (simp add: dec_entry_def enc_entry_def coerce_entry_def dec_command_def jfield_def is_struct_def)

lemma dec_enc_result [simp]: "dec_result (enc_result r) = Some (coerce_result r)"
  by (simp add: dec_result_def enc_result_def coerce_result_def jfield_def is_struct_def)

lemmas dec_enc_containers [simp] =
  dec_enc_list [of dec_entry enc_entry coerce_entry]
  dec_enc_map [of dec_u64 enc_u64 id]
  dec_enc_map [of dec_result enc_result coerce_result]
  dec_enc_map [of dec_str enc_str coerce]

lemma unmarshal_marshal_with:
  assumes "dec_list dec_entry lg = Some es" "dec_map dec_result rs = Some r"
    "dec_map dec_str sm = Some m"
  shows "unmarshal (marshal_with lg rs sm s) =
     Some ((coerce_state s)\<lparr>ps_Log := es, ps_Results := r, ps_StateMachine := m\<rparr>)"
proof -
  have fields:
    "jfield (marshal_with lg rs sm s) ''snapshotLastIndex'' =
       (if ps_SnapshotLastIndex s = 0 then JNull else enc_u64 (ps_SnapshotLastIndex s))"
    "jfield (marshal_with lg rs sm s) ''snapshotLastTerm'' =
       (if ps_SnapshotLastTerm s = 0 then JNull else enc_u64 (ps_SnapshotLastTerm s))"
    "jfield (marshal_with lg rs sm s) ''snapshotLastRequestId'' =
       (if ps_SnapshotLastRequestID s = [] then JNull else enc_str (ps_SnapshotLastRequestID s))"
    by (simp_all add: marshal_with_def jfield_def)
  have rest: "is_struct (marshal_with lg rs sm s)"
    "jfield (marshal_with lg rs sm s) ''domainTerm'' = enc_u64 (ps_DomainTerm s)"
    "jfield (marshal_with lg rs sm s) ''domainVotedFor'' = enc_str (ps_DomainVotedFor s)"
    "jfield (marshal_with lg rs sm s) ''domainLeader'' = enc_dli (ps_DomainLeader s)"
    "jfield (marshal_with lg rs sm s) ''globalTerm'' = enc_u64 (ps_GlobalTerm s)"
    "jfield (marshal_with lg rs sm s) ''globalVotedFor'' = enc_dli (ps_GlobalVotedFor s)"
    "jfield (marshal_with lg rs sm s) ''globalLeader'' = enc_gli (ps_GlobalLeader s)"
    "jfield (marshal_with lg rs sm s) ''log'' = lg"
    "jfield (marshal_with lg rs sm s) ''domainQuorumIndex'' = enc_map enc_u64 (ps_DomainQuorumIndex s)"
    "jfield (marshal_with lg rs sm s) ''knownGlobalCommitIndex'' = enc_u64 (ps_KnownGlobalCommitIndex s)"
    "jfield (marshal_with lg rs sm s) ''appliedIndex'' = enc_u64 (ps_AppliedIndex s)"
    "jfield (marshal_with lg rs sm s) ''results'' = rs"
    "jfield (marshal_with lg rs sm s) ''stateMachine'' = sm"
    by (simp_all add: marshal_with_def jfield_def is_struct_def)
  show ?thesis
    by (simp add: unmarshal_def fields rest assms coerce_state_def)
qed

lemma unmarshal_marshal: "unmarshal (marshal s) = Some (coerce_state s)"
  by (simp add: marshal_def unmarshal_marshal_with) (simp add: coerce_state_def)

lemma Clone_eq: "Clone s = coerce_state s"
  by (simp add: Clone_def unmarshal_marshal)

definition valid_dli :: "DomainLeaderIdentity \<Rightarrow> bool" where
  "valid_dli i \<longleftrightarrow> valid_utf8 (DomainID i) \<and> valid_utf8 (NodeID i)"

definition valid_entry :: "LogEntry \<Rightarrow> bool" where
  "valid_entry e \<longleftrightarrow> valid_utf8 (RequestID e) \<and> valid_utf8 (OriginDomain e) \<and>
     valid_utf8 (Key (Cmd e)) \<and> valid_utf8 (Val (Cmd e)) \<and> valid_utf8 (Result e)"

definition valid_result :: "ClientResult \<Rightarrow> bool" where
  "valid_result r \<longleftrightarrow> valid_utf8 (cr_RequestID r) \<and> valid_utf8 (cr_Result r) \<and>
     valid_utf8 (cr_Source r) \<and> valid_utf8 (cr_ResponderDomain r)"

text \<open>A state in which every string is valid UTF-8.\<close>

definition valid_state :: "PersistentState \<Rightarrow> bool" where
  "valid_state s \<longleftrightarrow>
     valid_utf8 (ps_DomainVotedFor s) \<and> valid_dli (ps_DomainLeader s) \<and>
     valid_dli (ps_GlobalVotedFor s) \<and> valid_dli (gli_DomainLeader (ps_GlobalLeader s)) \<and>
     list_all valid_entry (ps_Log s) \<and> valid_map (\<lambda>_. True) (ps_DomainQuorumIndex s) \<and>
     valid_map valid_result (ps_Results s) \<and> valid_map valid_utf8 (ps_StateMachine s) \<and>
     valid_utf8 (ps_SnapshotLastRequestID s)"

lemma coerce_dli_valid [simp]: "valid_dli i \<Longrightarrow> coerce_dli i = i"
  by (simp add: valid_dli_def coerce_dli_def)

lemma coerce_entry_valid [simp]: "valid_entry e \<Longrightarrow> coerce_entry e = e"
  by (simp add: valid_entry_def coerce_entry_def)

lemma coerce_result_valid [simp]: "valid_result r \<Longrightarrow> coerce_result r = r"
  by (simp add: valid_result_def coerce_result_def)

lemma coerce_state_valid:
  assumes "valid_state s"
  shows "coerce_state s = s"
proof -
  have "map coerce_entry (ps_Log s) = ps_Log s"
    using assms by (auto simp: valid_state_def list_all_iff intro: map_idI)
  moreover have "coerce_map id (ps_DomainQuorumIndex s) = ps_DomainQuorumIndex s"
    "coerce_map coerce_result (ps_Results s) = ps_Results s"
    "coerce_map coerce (ps_StateMachine s) = ps_StateMachine s"
    using assms by (auto simp: valid_state_def intro: coerce_map_valid)
  ultimately show ?thesis
    using assms by (simp add: coerce_state_def coerce_gli_def valid_state_def)
qed

lemma valid_coerce_state: "valid_state (coerce_state s)"
proof -
  have dli: "valid_dli (coerce_dli i)" for i by (simp add: valid_dli_def coerce_dli_def)
  have "valid_entry (coerce_entry e)" for e by (simp add: valid_entry_def coerce_entry_def)
  moreover have "valid_result (coerce_result r)" for r
    by (simp add: valid_result_def coerce_result_def)
  ultimately show ?thesis
    by (simp add: valid_state_def coerce_state_def coerce_gli_def dli list_all_iff valid_map_coerce)
qed

lemma coerce_state_idem [simp]: "coerce_state (coerce_state s) = coerce_state s"
  by (rule coerce_state_valid) (rule valid_coerce_state)

lemma coerce_state_empty [simp]: "coerce_state empty_state = empty_state"
  by (rule coerce_state_valid)
     (simp add: valid_state_def empty_state_def no_dli_def no_gli_def valid_dli_def valid_map_def)

end
