(* ===== verification/Stores.thy ===== *)
theory Stores
  imports Persistence
begin

text \<open>
  The \<open>Store\<close> interface of \<open>store.go\<close> and its two implementations there.  \<open>MemoryStore\<close> keeps a
  clone.  \<open>FileStore\<close> writes a temporary file and renames it over the target; the file system is a
  finite map from paths to contents, every system call may fail, and a write that fails may leave
  a truncated file behind.
\<close>

section \<open>MemoryStore\<close>

definition NewMemoryStore :: PersistentState where
  "NewMemoryStore = empty_state"

definition MemoryStore_Load :: "PersistentState \<Rightarrow> error + PersistentState" where
  "MemoryStore_Load st = Inr (Clone st)"

definition MemoryStore_Save ::
    "PersistentState \<Rightarrow> PersistentState \<Rightarrow> PersistentState \<times> error option" where
  "MemoryStore_Save st s = (Clone s, None)"

section \<open>FileStore\<close>

datatype content = JsonDoc json | Truncated

type_synonym disk = "(string, content) fmap"

datatype fsop = MkdirAll | WriteFile string content | Rename string string

text \<open>Which system calls the file system currently refuses.\<close>

record io_faults =
  mkdir_fails :: bool
  write_fails :: bool
  rename_fails :: bool
  read_fails :: bool

record FileStore =
  fs_path :: string
  fs_disk :: disk
  fs_faults :: io_faults

fun fsop_run :: "fsop \<Rightarrow> disk \<Rightarrow> disk" where
  "fsop_run MkdirAll d = d"
| "fsop_run (WriteFile p c) d = fmupd p c d"
| "fsop_run (Rename p q) d =
     (case fmlookup d p of None \<Rightarrow> d | Some c \<Rightarrow> fmupd q c (fmdrop p d))"

definition tmp_path :: "string \<Rightarrow> string" where
  "tmp_path p = p @ ''.tmp''"

text \<open>The system calls one \<open>Save\<close> issues, in order.\<close>

definition save_ops :: "string \<Rightarrow> PersistentState \<Rightarrow> fsop list" where
  "save_ops p s =
     [MkdirAll, WriteFile (tmp_path p) (JsonDoc (marshal s)), Rename (tmp_path p) p]"

definition FileStore_Load :: "FileStore \<Rightarrow> error + PersistentState" where
  "FileStore_Load st =
     (case fmlookup (fs_disk st) (fs_path st) of
        None \<Rightarrow> Inr empty_state
      | Some c \<Rightarrow>
          if read_fails (fs_faults st) then Inl ErrIO
          else (case c of
                  Truncated \<Rightarrow> Inl ErrDecode
                | JsonDoc j \<Rightarrow> (case unmarshal j of None \<Rightarrow> Inl ErrDecode | Some s \<Rightarrow> Inr s)))"

definition FileStore_Save :: "FileStore \<Rightarrow> PersistentState \<Rightarrow> FileStore \<times> error option" where
  "FileStore_Save st s =
     (let p = fs_path st; d = fs_disk st; f = fs_faults st in
      if mkdir_fails f then (st, Some ErrIO)
      else if write_fails f
      then (st\<lparr>fs_disk := fsop_run (WriteFile (tmp_path p) Truncated) d\<rparr>, Some ErrIO)
      else let d' = fsop_run (WriteFile (tmp_path p) (JsonDoc (marshal s))) d in
           if rename_fails f then (st\<lparr>fs_disk := d'\<rparr>, Some ErrIO)
           else (st\<lparr>fs_disk := fsop_run (Rename (tmp_path p) p) d'\<rparr>, None))"

section \<open>The interface\<close>

datatype Store = MemoryStore PersistentState | FileStore FileStore

fun store_Load :: "Store \<Rightarrow> error + PersistentState" where
  "store_Load (MemoryStore st) = MemoryStore_Load st"
| "store_Load (FileStore st) = FileStore_Load st"

fun store_Save :: "Store \<Rightarrow> PersistentState \<Rightarrow> Store \<times> error option" where
  "store_Save (MemoryStore st) s = apfst MemoryStore (MemoryStore_Save st s)"
| "store_Save (FileStore st) s = apfst FileStore (FileStore_Save st s)"

text \<open>Whether the medium can be read at all; an in-memory store always can.\<close>

fun readable :: "Store \<Rightarrow> bool" where
  "readable (MemoryStore _) = True"
| "readable (FileStore st) = (\<not> read_fails (fs_faults st))"

text \<open>
  What callers rely on: a save that reports success is what the next load returns (up to the
  replacement of invalid UTF-8), a save that reports an error leaves the old state in place.
\<close>

locale store =
  fixes load :: "'st \<Rightarrow> error + PersistentState"
    and save :: "'st \<Rightarrow> PersistentState \<Rightarrow> 'st \<times> error option"
    and ready :: "'st \<Rightarrow> bool"
  assumes load_saved: "ready st \<Longrightarrow> save st s = (st', None) \<Longrightarrow> load st' = Inr (coerce_state s)"
    and load_unsaved: "save st s = (st', Some e) \<Longrightarrow> load st' = load st"
    and ready_save: "save st s = (st', r) \<Longrightarrow> ready st' = ready st"
begin

text \<open>After any save the store holds the new state or, with an error, still the old one.\<close>

lemma load_after_save:
  assumes "ready st" "save st s = (st', r)"
  shows "load st' = (case r of None \<Rightarrow> Inr (coerce_state s) | Some _ \<Rightarrow> load st)"
  using assms load_saved load_unsaved by (cases r) auto

text \<open>Loading and saving back changes nothing.\<close>

lemma resave:
  assumes "ready st" "load st = Inr s" "save st s = (st', r)" "coerce_state s = s"
  shows "load st' = load st"
  using load_after_save [OF assms(1,3)] assms(2,4) by (cases r) auto

text \<open>The last successful save of a sequence is what a restart sees.\<close>

lemma load_after_two_saves:
  assumes "ready st" "save st s1 = (st1, None)" "save st1 s2 = (st2, r)"
  shows "load st2 = Inr (coerce_state (if r = None then s2 else s1))"
  using assms load_after_save [of st s1 st1 None] load_after_save [of st1 s2 st2 r] ready_save
  by (cases r) auto

end

interpretation mem: store MemoryStore_Load MemoryStore_Save "\<lambda>_. True"
  by unfold_locales (auto simp: MemoryStore_Load_def MemoryStore_Save_def Clone_eq)

lemma tmp_path_neq [simp]: "tmp_path p \<noteq> p" "p \<noteq> tmp_path p"
  by (simp_all add: tmp_path_def)

interpretation fileio: store FileStore_Load FileStore_Save "\<lambda>st. \<not> read_fails (fs_faults st)"
  by unfold_locales
     (auto simp: FileStore_Load_def FileStore_Save_def Let_def unmarshal_marshal
       split: if_splits option.splits content.splits)

lemma store_Save_cases:
  assumes "store_Save st s = (st', r)"
  obtains m m' where "st = MemoryStore m" "st' = MemoryStore m'" "MemoryStore_Save m s = (m', r)"
  | f f' where "st = FileStore f" "st' = FileStore f'" "FileStore_Save f s = (f', r)"
  using assms by (cases st) (auto simp: apfst_def map_prod_def split: prod.splits)

interpretation anystore: store store_Load store_Save readable
proof
  fix st st' s e r
  show "store_Load st' = Inr (coerce_state s)"
    if "readable st" "store_Save st s = (st', None)"
    using that(2,1) by (cases rule: store_Save_cases) (auto intro: mem.load_saved fileio.load_saved)
  show "store_Load st' = store_Load st" if "store_Save st s = (st', Some e)"
    using that by (cases rule: store_Save_cases) (auto dest: mem.load_unsaved fileio.load_unsaved)
  show "readable st' = readable st" if "store_Save st s = (st', r)"
    using that by (cases rule: store_Save_cases) (auto dest: fileio.ready_save)
qed

section \<open>Crash safety of the file store\<close>

text \<open>A crash stops a save after any number of its system calls.\<close>

definition crashed_save :: "nat \<Rightarrow> FileStore \<Rightarrow> PersistentState \<Rightarrow> FileStore" where
  "crashed_save n st s = st\<lparr>fs_disk := fold fsop_run (take n (save_ops (fs_path st) s)) (fs_disk st)\<rparr>"

lemma FileStore_Save_is_save_ops:
  assumes "FileStore_Save st s = (st', None)"
  shows "st' = crashed_save 3 st s"
  using assms
  by (auto simp: FileStore_Save_def crashed_save_def save_ops_def Let_def split: if_splits)

lemma crashed_save_disk:
  "fmlookup (fs_disk (crashed_save n st s)) (fs_path st) =
     (if n \<ge> 3 then Some (JsonDoc (marshal s)) else fmlookup (fs_disk st) (fs_path st))"
proof -
  consider "n = 0" | "n = 1" | "n = 2" | "n \<ge> 3" by linarith
  then show ?thesis
    by cases (simp_all add: crashed_save_def save_ops_def numeral_2_eq_2 numeral_3_eq_3)
qed

end
