(* ===== verification/Raft_Log.thy ===== *)
theory Raft_Log
  imports Persistence
begin

text \<open>
  \<open>internal/cdraft/log.go\<close>: the log and quorum primitives that the production node and the
  simulation share.  A slice expression whose bound exceeds the length of the log is the value
  \<open>None\<close>; on well-formed states (\<open>wf_state\<close>) it never occurs.  The lemmas show that every
  primitive keeps the log contiguous, that committed entries are never replaced, that an accepted
  append makes the receiver agree with the sender (log matching), and that compaction and snapshot
  installation do not change what a node has applied.
\<close>

section \<open>Operations\<close>

definition findEntryByRequest :: "LogEntry list \<Rightarrow> string \<Rightarrow> LogEntry option" where
  "findEntryByRequest log requestID = List.find (\<lambda>e. RequestID e = requestID) log"

definition findEntryByIndex :: "LogEntry list \<Rightarrow> u64 \<Rightarrow> LogEntry option" where
  "findEntryByIndex log index =
     (if index = 0 \<or> log = [] then None
      else let first = GlobalIndex (hd log) in
           if index < first \<or> index \<ge> first + of_nat (length log) then None
           else let entry = log ! unat (index - first) in
                if GlobalIndex entry = index then Some entry else None)"

definition hasEntry :: "LogEntry list \<Rightarrow> u64 \<Rightarrow> string \<Rightarrow> bool" where
  "hasEntry log index requestID =
     (case findEntryByIndex log index of None \<Rightarrow> False | Some e \<Rightarrow> RequestID e = requestID)"

definition appendEntry :: "PersistentState \<Rightarrow> LogEntry \<Rightarrow> PersistentState \<times> bool" where
  "appendEntry state entry =
     (if GlobalIndex entry \<le> ps_SnapshotLastIndex state then (state, True)
      else case findEntryByIndex (ps_Log state) (GlobalIndex entry) of
        Some existing \<Rightarrow>
          (state, GlobalTerm existing = GlobalTerm entry \<and> RequestID existing = RequestID entry)
      | None \<Rightarrow>
          if GlobalIndex entry \<noteq> LastLogIndex state + 1 then (state, False)
          else (state\<lparr>ps_Log := ps_Log state @ [entry]\<rparr>, True))"

datatype appendOutcome = appendAccepted | appendPrefixMismatch | appendCommittedConflict

definition rollbackQuorumAbove :: "PersistentState \<Rightarrow> u64 \<Rightarrow> PersistentState" where
  "rollbackQuorumAbove state ceil =
     state\<lparr>ps_DomainQuorumIndex :=
       fmmap (\<lambda>idx. if idx > ceil then ceil else idx) (ps_DomainQuorumIndex state)\<rparr>"

definition appendEntryChecked ::
    "PersistentState \<Rightarrow> LogEntry \<Rightarrow> u64 \<Rightarrow> u64 \<Rightarrow> (PersistentState \<times> appendOutcome) option" where
  "appendEntryChecked state entry prevIndex prevTerm =
     (if GlobalIndex entry \<le> ps_SnapshotLastIndex state then Some (state, appendAccepted)
      else if prevIndex > 0 \<and>
              (if prevIndex = ps_SnapshotLastIndex state then prevTerm \<noteq> ps_SnapshotLastTerm state
               else case findEntryByIndex (ps_Log state) prevIndex of
                      None \<Rightarrow> True
                    | Some prev \<Rightarrow> GlobalTerm prev \<noteq> prevTerm)
      then Some (state, appendPrefixMismatch)
      else case findEntryByIndex (ps_Log state) (GlobalIndex entry) of
        Some existing \<Rightarrow>
          if GlobalTerm existing = GlobalTerm entry \<and> RequestID existing = RequestID entry
          then Some (state, appendAccepted)
          else if GlobalIndex entry \<le> ps_KnownGlobalCommitIndex state
          then Some (state, appendCommittedConflict)
          else let keep = unat (GlobalIndex entry - ps_SnapshotLastIndex state - 1) in
               if keep > length (ps_Log state) then None
               else Some (rollbackQuorumAbove
                            (state\<lparr>ps_Log := take keep (ps_Log state) @ [entry]\<rparr>)
                            (GlobalIndex entry - 1), appendAccepted)
      | None \<Rightarrow>
          if GlobalIndex entry \<noteq> LastLogIndex state + 1 then Some (state, appendPrefixMismatch)
          else Some (state\<lparr>ps_Log := ps_Log state @ [entry]\<rparr>, appendAccepted))"

definition entry_result :: "LogEntry \<Rightarrow> ClientResult" where
  "entry_result e =
     \<lparr>cr_RequestID = RequestID e, cr_GlobalTerm = GlobalTerm e, cr_GlobalIndex = GlobalIndex e,
      cr_Result = Result e, cr_Source = GlobalResponse, cr_Committed = True,
      cr_ResponderDomain = []\<rparr>"

definition applyEntry :: "PersistentState \<Rightarrow> LogEntry \<Rightarrow> PersistentState" where
  "applyEntry state entry =
     (if GlobalIndex entry \<noteq> ps_KnownGlobalCommitIndex state + 1 \<and>
         GlobalIndex entry > ps_KnownGlobalCommitIndex state
      then state
      else let s1 = state\<lparr>ps_KnownGlobalCommitIndex :=
                       max (ps_KnownGlobalCommitIndex state) (GlobalIndex entry)\<rparr>;
               s2 = (if GlobalIndex entry = ps_AppliedIndex s1 + 1
                     then s1\<lparr>ps_StateMachine :=
                               fmupd (Key (Cmd entry)) (Val (Cmd entry)) (ps_StateMachine s1),
                             ps_AppliedIndex := GlobalIndex entry\<rparr>
                     else s1)
           in s2\<lparr>ps_Results := fmupd (RequestID entry) (entry_result entry) (ps_Results s2)\<rparr>)"

definition compactLog :: "PersistentState \<Rightarrow> u64 \<Rightarrow> (PersistentState \<times> bool) option" where
  "compactLog state compactIndex =
     (if compactIndex \<le> ps_SnapshotLastIndex state \<or> compactIndex > ps_AppliedIndex state
      then Some (state, False)
      else case findEntryByIndex (ps_Log state) compactIndex of
        None \<Rightarrow> Some (state, False)
      | Some boundary \<Rightarrow>
          let from = unat (compactIndex - ps_SnapshotLastIndex state) in
          if from > length (ps_Log state) then None
          else Some (state\<lparr>ps_Log := drop from (ps_Log state),
                           ps_SnapshotLastIndex := compactIndex,
                           ps_SnapshotLastTerm := GlobalTerm boundary,
                           ps_SnapshotLastRequestID := RequestID boundary\<rparr>, True))"

definition installSnapshotState ::
    "PersistentState \<Rightarrow> u64 \<Rightarrow> u64 \<Rightarrow> string \<Rightarrow> string gomap \<Rightarrow> ClientResult gomap \<Rightarrow>
     PersistentState \<times> bool" where
  "installSnapshotState state lastIndex lastTerm lastRequestID sm results =
     (if lastIndex \<le> ps_AppliedIndex state \<or> lastIndex \<le> ps_SnapshotLastIndex state
      then (state, True)
      else let kept = (case findEntryByIndex (ps_Log state) lastIndex of
                         None \<Rightarrow> False | Some existing \<Rightarrow> GlobalTerm existing = lastTerm);
               s1 = (if kept
                     then state\<lparr>ps_Log :=
                       drop (unat (lastIndex - GlobalIndex (hd (ps_Log state)) + 1)) (ps_Log state)\<rparr>
                     else rollbackQuorumAbove (state\<lparr>ps_Log := []\<rparr>) lastIndex)
           in (s1\<lparr>ps_SnapshotLastIndex := lastIndex,
                  ps_SnapshotLastTerm := lastTerm,
                  ps_SnapshotLastRequestID := lastRequestID,
                  ps_StateMachine := sm,
                  ps_Results := ps_Results s1 ++\<^sub>f results,
                  ps_AppliedIndex := lastIndex,
                  ps_KnownGlobalCommitIndex := max (ps_KnownGlobalCommitIndex s1) lastIndex\<rparr>, True))"

definition distinctDomains :: "string list \<Rightarrow> nat" where
  "distinctDomains domains = length (remdups (filter (\<lambda>d. d \<noteq> []) domains))"

section \<open>Loops over indices\<close>

text \<open>No log can hold an entry at the largest index, so a loop that counts an index up and stops at
  the first missing entry never wraps and ends.\<close>

lemma find_max_None [simp]: "findEntryByIndex log max_u64 = None"
proof -
  have "x \<le> max_u64" for x
    using unat_u64_lt [of x] unat_max_u64_const by (simp add: word_le_nat_alt)
  then show ?thesis by (auto simp: findEntryByIndex_def Let_def)
qed

lemma next_measure:
  assumes "next \<le> (target :: u64)" "findEntryByIndex log next = Some e"
  shows "Suc (unat target) - unat (next + 1) < Suc (unat target) - unat next"
proof -
  have "next \<noteq> max_u64" using assms(2) by auto
  then show ?thesis using assms(1) by (simp add: unat_u64_plus1 word_le_nat_alt)
qed

section \<open>Well-formed states\<close>

text \<open>The retained log starts right after the snapshot and its indices ascend by one; what is
  applied is exactly what is known to be committed, and it is held.
  The last index stays below the largest \<open>uint64\<close>, where the lookup by index would wrap.\<close>

definition contig :: "nat \<Rightarrow> LogEntry list \<Rightarrow> bool" where
  "contig base log \<longleftrightarrow> (\<forall>i < length log. unat (GlobalIndex (log ! i)) = base + i + 1)"

definition wf_state :: "PersistentState \<Rightarrow> bool" where
  "wf_state s \<longleftrightarrow>
     contig (unat (ps_SnapshotLastIndex s)) (ps_Log s) \<and>
     ps_SnapshotLastIndex s \<le> ps_AppliedIndex s \<and>
     ps_AppliedIndex s = ps_KnownGlobalCommitIndex s \<and>
     unat (ps_KnownGlobalCommitIndex s) \<le> unat (ps_SnapshotLastIndex s) + length (ps_Log s) \<and>
     unat (ps_SnapshotLastIndex s) + length (ps_Log s) < 2 ^ 64 - 1"

lemma contig_Nil [simp]: "contig b []"
  by (simp add: contig_def)

lemma contig_Cons:
  "contig b (x # xs) \<longleftrightarrow> unat (GlobalIndex x) = b + 1 \<and> contig (b + 1) xs"
  by (auto simp: contig_def less_Suc_eq_0_disj)

lemma contig_code [code]:
  "contig b [] = True"
  "contig b (x # xs) = (unat (GlobalIndex x) = b + 1 \<and> contig (b + 1) xs)"
  by (simp_all add: contig_Cons)

lemma contig_append:
  "contig b (xs @ [e]) \<longleftrightarrow> contig b xs \<and> unat (GlobalIndex e) = b + length xs + 1"
  by (auto simp: contig_def nth_append less_Suc_eq)

lemma contig_take: "contig b xs \<Longrightarrow> contig b (take n xs)"
  by (simp add: contig_def)

lemma contig_drop: "contig b xs \<Longrightarrow> n \<le> length xs \<Longrightarrow> contig (b + n) (drop n xs)"
  by (auto simp: contig_def)

lemma contig_hd: "contig b xs \<Longrightarrow> xs \<noteq> [] \<Longrightarrow> unat (GlobalIndex (hd xs)) = b + 1"
  by (cases xs) (auto simp: contig_def)

lemma contig_length: "contig b xs \<Longrightarrow> xs \<noteq> [] \<Longrightarrow> b + length xs < 2 ^ 64"
proof -
  assume "contig b xs" "xs \<noteq> []"
  then have "unat (GlobalIndex (last xs)) = b + (length xs - 1) + 1"
    by (simp add: contig_def last_conv_nth)
  moreover have "unat (GlobalIndex (last xs)) < 2 ^ 64" by (rule unat_u64_lt)
  ultimately show ?thesis using \<open>xs \<noteq> []\<close> by (cases xs) auto
qed


lemma wf_length: "wf_state s \<Longrightarrow> unat (ps_SnapshotLastIndex s) + length (ps_Log s) < 2 ^ 64 - 1"
  by (simp add: wf_state_def)

lemma wf_state_code [code]:
  "wf_state s \<longleftrightarrow>
     contig (unat (ps_SnapshotLastIndex s)) (ps_Log s) \<and>
     ps_SnapshotLastIndex s \<le> ps_AppliedIndex s \<and>
     ps_AppliedIndex s = ps_KnownGlobalCommitIndex s \<and>
     uint (ps_KnownGlobalCommitIndex s) \<le> uint (ps_SnapshotLastIndex s) + int (length (ps_Log s)) \<and>
     uint (ps_SnapshotLastIndex s) + int (length (ps_Log s)) < 2 ^ 64 - 1"
proof -
  have 1: "uint (ps_SnapshotLastIndex s) + int (length (ps_Log s)) =
      int (unat (ps_SnapshotLastIndex s) + length (ps_Log s))"
    and 2: "uint (ps_KnownGlobalCommitIndex s) = int (unat (ps_KnownGlobalCommitIndex s))" by simp_all
  have 3: "int m < 2 ^ 64 - 1 \<longleftrightarrow> m < 2 ^ 64 - 1" for m by simp
  show ?thesis unfolding wf_state_def 1 2 3 of_nat_le_iff ..
qed

lemma unat_LastLogIndex:
  "wf_state s \<Longrightarrow> unat (LastLogIndex s) = unat (ps_SnapshotLastIndex s) + length (ps_Log s)"
  using wf_length [of s] by (simp add: LastLogIndex_def unat_word_ariths unat_of_nat)

text \<open>On a contiguous log the lookup by index is a bounds check and an array access.\<close>

lemma findEntryByIndex_contig:
  assumes c: "contig b log" and b: "b + length log < 2 ^ 64 - 1"
  shows "findEntryByIndex log index =
     (if b < unat index \<and> unat index \<le> b + length log then Some (log ! (unat index - b - 1)) else None)"
proof (cases "index = 0 \<or> log = []")
  case True
  then show ?thesis by (auto simp: findEntryByIndex_def)
next
  case False
  define first where "first = GlobalIndex (hd log)"
  have f: "unat first = b + 1" using contig_hd [OF c] False by (simp add: first_def)
  have lo: "index < first \<longleftrightarrow> unat index \<le> b"
    using f by (auto simp: word_less_nat_alt)
  have hi: "index \<ge> first + of_nat (length log) \<longleftrightarrow> unat index \<ge> b + 1 + length log"
    using b f by (simp add: word_le_nat_alt unat_word_ariths unat_of_nat)
  have sub: "unat (index - first) = unat index - b - 1" if "\<not> unat index \<le> b"
    using that f lo by (metis diff_diff_left not_less unat_sub)
  have "GlobalIndex (log ! (unat index - b - 1)) = index"
    if "b < unat index" "unat index \<le> b + length log"
  proof -
    have k: "unat index - b - 1 < length log" using that by linarith
    have "unat (GlobalIndex (log ! (unat index - b - 1))) = b + (unat index - b - 1) + 1"
      using c k by (simp add: contig_def)
    then show ?thesis using that by (simp add: word_unat_eq_iff)
  qed
  then show ?thesis
    using False lo hi sub by (auto simp: findEntryByIndex_def Let_def simp flip: first_def)
qed

lemmas findEntryByIndex_wf =
  findEntryByIndex_contig [of "unat (ps_SnapshotLastIndex s)" "ps_Log s" for s]

lemma wf_find:
  assumes "wf_state s"
  shows "findEntryByIndex (ps_Log s) i =
     (if ps_SnapshotLastIndex s < i \<and> i \<le> LastLogIndex s
      then Some (ps_Log s ! (unat i - unat (ps_SnapshotLastIndex s) - 1)) else None)"
  using assms
  by (simp add: findEntryByIndex_wf wf_state_def unat_LastLogIndex [OF assms]
        word_less_nat_alt word_le_nat_alt)

lemma find_Some_index:
  "findEntryByIndex log i = Some e \<Longrightarrow> GlobalIndex e = i \<and> i \<noteq> 0"
  by (auto simp: findEntryByIndex_def Let_def split: if_splits)

lemma index_in_range:
  assumes "\<not> i < GlobalIndex (hd log)" "\<not> i \<ge> GlobalIndex (hd log) + of_nat (length log)"
  shows "unat (i - GlobalIndex (hd log)) < length log"
proof -
  have "unat i < unat (GlobalIndex (hd log) + of_nat (length log))"
    using assms(2) by (simp add: word_le_nat_alt)
  also have "\<dots> \<le> unat (GlobalIndex (hd log)) + length log"
    by (simp add: unat_word_ariths unat_of_nat)
  finally show ?thesis using assms(1) by (simp add: unat_sub not_less word_le_nat_alt)
qed

lemma find_Some_in_log: "findEntryByIndex log i = Some e \<Longrightarrow> e \<in> set log"
  using index_in_range [of i log]
  by (auto simp: findEntryByIndex_def Let_def split: if_splits) (metis nth_mem)

lemma findEntryByIndex_map:
  assumes "\<And>e. GlobalIndex (f e) = GlobalIndex e"
  shows "findEntryByIndex (map f log) i = map_option f (findEntryByIndex log i)"
  using assms index_in_range [of i log]
  by (cases "log = []") (auto simp: findEntryByIndex_def Let_def hd_map)

lemma wf_empty_state [simp]: "wf_state empty_state"
  by (simp add: wf_state_def empty_state_def)

lemma rollback_frame [frame_simps]:
  "ps_Log (rollbackQuorumAbove s c) = ps_Log s"
  "ps_SnapshotLastIndex (rollbackQuorumAbove s c) = ps_SnapshotLastIndex s"
  "ps_SnapshotLastTerm (rollbackQuorumAbove s c) = ps_SnapshotLastTerm s"
  "ps_AppliedIndex (rollbackQuorumAbove s c) = ps_AppliedIndex s"
  "ps_KnownGlobalCommitIndex (rollbackQuorumAbove s c) = ps_KnownGlobalCommitIndex s"
  "ps_StateMachine (rollbackQuorumAbove s c) = ps_StateMachine s"
  "ps_Results (rollbackQuorumAbove s c) = ps_Results s"
  by (simp_all add: rollbackQuorumAbove_def)

text \<open>A rolled back quorum index is never above the ceiling, and one below it keeps its value.\<close>

lemma rollback_getz:
  "getz (ps_DomainQuorumIndex (rollbackQuorumAbove s c)) d = min (getz (ps_DomainQuorumIndex s) d) c"
  by (auto simp: rollbackQuorumAbove_def getz_def min_def split: option.splits)

lemma appendEntry_wf [wf_intros]:
  assumes "wf_state s" "GlobalIndex e \<noteq> max_u64"
  shows "wf_state (fst (appendEntry s e))"
proof -
  have "wf_state (s\<lparr>ps_Log := ps_Log s @ [e]\<rparr>)" if "GlobalIndex e = LastLogIndex s + 1"
  proof -
    have "LastLogIndex s \<noteq> max_u64"
      using assms(1) wf_length [of s] unat_LastLogIndex [of s] by (simp add: neq_max_u64_iff)
    then have i: "unat (GlobalIndex e) = unat (ps_SnapshotLastIndex s) + length (ps_Log s) + 1"
      using that assms(1) by (simp add: unat_u64_plus1 unat_LastLogIndex)
    moreover have "unat (GlobalIndex e) < 2 ^ 64 - 1"
      using assms(2) by (simp add: neq_max_u64_iff)
    ultimately show ?thesis using assms(1) by (auto simp: wf_state_def contig_append)
  qed
  then show ?thesis using assms(1) by (auto simp: appendEntry_def split: option.splits)
qed

abbreviation entry_at :: "PersistentState \<Rightarrow> u64 \<Rightarrow> LogEntry option" where
  "entry_at s i \<equiv> findEntryByIndex (ps_Log s) i"

section \<open>Replacing the tail of the log\<close>

text \<open>Overwriting and extending are one operation: cut before the entry's index, then add it.\<close>

definition replace_tail :: "LogEntry \<Rightarrow> PersistentState \<Rightarrow> PersistentState" where
  "replace_tail e s =
     s\<lparr>ps_Log := take (unat (GlobalIndex e) - unat (ps_SnapshotLastIndex s) - 1) (ps_Log s) @ [e]\<rparr>"

definition fits :: "PersistentState \<Rightarrow> LogEntry \<Rightarrow> bool" where
  "fits s e \<longleftrightarrow> ps_KnownGlobalCommitIndex s < GlobalIndex e \<and> GlobalIndex e \<noteq> max_u64 \<and>
     unat (GlobalIndex e) \<le> unat (LastLogIndex s) + 1"

lemma replace_tail_wf [wf_intros]:
  assumes "wf_state s" "fits s e"
  shows "wf_state (replace_tail e s)"
  using assms unat_LastLogIndex [OF assms(1)]
  by (auto simp: wf_state_def replace_tail_def fits_def contig_append contig_take neq_max_u64_iff
        word_less_nat_alt word_le_nat_alt min_def)

lemma replace_tail_entry_at:
  assumes "wf_state s" "fits s e"
  shows "entry_at (replace_tail e s) j =
     (if j = GlobalIndex e then Some e else if j < GlobalIndex e then entry_at s j else None)"
proof -
  define n where "n = unat (GlobalIndex e) - unat (ps_SnapshotLastIndex s) - 1"
  have e: "unat (GlobalIndex e) = unat (ps_SnapshotLastIndex s) + n + 1" and n: "n \<le> length (ps_Log s)"
    using assms unat_LastLogIndex [OF assms(1)]
    by (auto simp: n_def fits_def wf_state_def word_less_nat_alt word_le_nat_alt)
  have log: "ps_Log (replace_tail e s) = take n (ps_Log s) @ [e]"
    and snap: "ps_SnapshotLastIndex (replace_tail e s) = ps_SnapshotLastIndex s"
    by (simp_all add: replace_tail_def n_def)
  have "LastLogIndex (replace_tail e s) = GlobalIndex e"
    using unat_LastLogIndex [OF replace_tail_wf [OF assms]] e n
    by (simp add: log snap word_unat_eq_iff)
  then have *: "entry_at (replace_tail e s) j =
     (if ps_SnapshotLastIndex s < j \<and> j \<le> GlobalIndex e
      then Some ((take n (ps_Log s) @ [e]) ! (unat j - unat (ps_SnapshotLastIndex s) - 1)) else None)"
    using wf_find [OF replace_tail_wf [OF assms], of j] by (simp add: log snap)
  consider "j = GlobalIndex e" | "j < GlobalIndex e" | "j > GlobalIndex e" by fastforce
  then show ?thesis
  proof cases
    case 1
    then show ?thesis unfolding * using e n by (simp add: nth_append word_less_nat_alt)
  next
    case 2
    then have "j \<le> LastLogIndex s" using e n unat_LastLogIndex [OF assms(1)]
      by (simp add: word_less_nat_alt word_le_nat_alt)
    then show ?thesis using 2 e n
      by (auto simp: * wf_find [OF assms(1)] nth_append word_less_nat_alt word_le_nat_alt)
  next
    case 3
    then show ?thesis by (auto simp: *)
  qed
qed

lemma replace_tail_frame [frame_simps]:
  "ps_SnapshotLastIndex (replace_tail e s) = ps_SnapshotLastIndex s"
  "ps_SnapshotLastTerm (replace_tail e s) = ps_SnapshotLastTerm s"
  "ps_KnownGlobalCommitIndex (replace_tail e s) = ps_KnownGlobalCommitIndex s"
  "ps_AppliedIndex (replace_tail e s) = ps_AppliedIndex s"
  "ps_StateMachine (replace_tail e s) = ps_StateMachine s"
  "ps_Results (replace_tail e s) = ps_Results s"
  "ps_DomainQuorumIndex (replace_tail e s) = ps_DomainQuorumIndex s"
  by (simp_all add: replace_tail_def)

text \<open>An append either leaves the log as it is, extends it, or overwrites an uncommitted tail and
  lowers the quorum marks.\<close>

lemma appendEntryChecked_cases:
  assumes wf: "wf_state s" and room: "GlobalIndex e \<noteq> max_u64"
  obtains (held) "appendEntryChecked s e p t = Some (s, appendAccepted)"
      "GlobalIndex e \<le> ps_SnapshotLastIndex s \<or>
       (\<exists>x. entry_at s (GlobalIndex e) = Some x \<and> GlobalTerm x = GlobalTerm e \<and> RequestID x = RequestID e)"
  | (mismatch) "appendEntryChecked s e p t = Some (s, appendPrefixMismatch)"
  | (conflict) x where "appendEntryChecked s e p t = Some (s, appendCommittedConflict)"
      "entry_at s (GlobalIndex e) = Some x" "GlobalIndex e \<le> ps_KnownGlobalCommitIndex s"
      "\<not> (GlobalTerm x = GlobalTerm e \<and> RequestID x = RequestID e)"
  | (overwrite) x where "fits s e"
      "appendEntryChecked s e p t =
         Some (rollbackQuorumAbove (replace_tail e s) (GlobalIndex e - 1), appendAccepted)"
      "p = 0 \<or> (p = ps_SnapshotLastIndex s \<and> t = ps_SnapshotLastTerm s) \<or>
         (\<exists>y. entry_at s p = Some y \<and> GlobalTerm y = t)"
      "entry_at s (GlobalIndex e) = Some x"
  | (extend) "fits s e" "appendEntryChecked s e p t = Some (replace_tail e s, appendAccepted)"
      "GlobalIndex e = LastLogIndex s + 1"
      "p = 0 \<or> (p = ps_SnapshotLastIndex s \<and> t = ps_SnapshotLastTerm s) \<or>
         (\<exists>y. entry_at s p = Some y \<and> GlobalTerm y = t)"
proof -
  have keep: "unat (GlobalIndex e - ps_SnapshotLastIndex s - 1) =
      unat (GlobalIndex e) - unat (ps_SnapshotLastIndex s) - 1"
    if "ps_SnapshotLastIndex s < GlobalIndex e"
    using that by (simp add: unat_sub word_le_nat_alt word_less_nat_alt)
  have ext: "replace_tail e s = s\<lparr>ps_Log := ps_Log s @ [e]\<rparr>" "fits s e"
    if "GlobalIndex e = LastLogIndex s + 1"
  proof -
    have "LastLogIndex s \<noteq> max_u64"
      using wf wf_length [of s] unat_LastLogIndex [of s] by (simp add: neq_max_u64_iff)
    then have "unat (GlobalIndex e) = unat (LastLogIndex s) + 1"
      using that by (simp add: unat_u64_plus1)
    then show "replace_tail e s = s\<lparr>ps_Log := ps_Log s @ [e]\<rparr>" "fits s e"
      using wf room unat_LastLogIndex [OF wf]
      by (auto simp: replace_tail_def fits_def wf_state_def word_less_nat_alt)
  qed
  have ovw: "fits s e" if "entry_at s (GlobalIndex e) = Some x"
      "\<not> GlobalIndex e \<le> ps_KnownGlobalCommitIndex s" for x
    using that room wf_find [OF wf]
    by (auto simp: fits_def word_le_nat_alt word_less_nat_alt split: if_splits)
  define bad where "bad \<longleftrightarrow> p > 0 \<and>
      (if p = ps_SnapshotLastIndex s then t \<noteq> ps_SnapshotLastTerm s
       else case entry_at s p of None \<Rightarrow> True | Some prev \<Rightarrow> GlobalTerm prev \<noteq> t)"
  have prev: "p = 0 \<or> (p = ps_SnapshotLastIndex s \<and> t = ps_SnapshotLastTerm s) \<or>
         (\<exists>y. entry_at s p = Some y \<and> GlobalTerm y = t)" if "\<not> bad"
    using that by (auto simp: bad_def word_gt_0 split: if_splits option.splits)
  note app = appendEntryChecked_def [of s e p t, folded bad_def]
  consider (snap) "GlobalIndex e \<le> ps_SnapshotLastIndex s"
    | (bad) "ps_SnapshotLastIndex s < GlobalIndex e" bad
    | (none) "ps_SnapshotLastIndex s < GlobalIndex e" "\<not> bad" "entry_at s (GlobalIndex e) = None"
    | (some) x where "ps_SnapshotLastIndex s < GlobalIndex e" "\<not> bad"
        "entry_at s (GlobalIndex e) = Some x"
    by fastforce
  then show thesis
  proof cases
    case snap
    then show ?thesis by (intro held) (simp_all add: app)
  next
    case bad
    then show ?thesis by (intro mismatch) (simp add: app)
  next
    case none
    show ?thesis
    proof (cases "GlobalIndex e = LastLogIndex s + 1")
      case True
      then show ?thesis using none ext prev by (intro extend) (simp_all add: app)
    next
      case False
      then show ?thesis using none by (intro mismatch) (simp add: app)
    qed
  next
    case some
    have len: "unat (GlobalIndex e) - Suc (unat (ps_SnapshotLastIndex s)) \<le> length (ps_Log s)"
      using some wf_find [OF wf, of "GlobalIndex e"] unat_LastLogIndex [OF wf]
      by (auto simp: word_le_nat_alt split: if_splits)
    show ?thesis
    proof (cases "GlobalTerm x = GlobalTerm e \<and> RequestID x = RequestID e")
      case True
      then show ?thesis using some by (intro held) (simp_all add: app)
    next
      case ne: False
      show ?thesis
      proof (cases "GlobalIndex e \<le> ps_KnownGlobalCommitIndex s")
        case True
        then show ?thesis using some ne by (intro conflict) (auto simp: app)
      next
        case False
        have "appendEntryChecked s e p t =
            Some (rollbackQuorumAbove (replace_tail e s) (GlobalIndex e - 1), appendAccepted)"
          using some ne False len keep by (auto simp: app replace_tail_def Let_def)
        then show ?thesis using some False prev ovw by (intro overwrite) auto
      qed
    qed
  qed
qed

section \<open>Appending\<close>

lemma rollback_wf [wf_intros]: "wf_state s \<Longrightarrow> wf_state (rollbackQuorumAbove s c)"
  by (auto simp: wf_state_def frame_simps)

lemma wf_index_below:
  "wf_state s \<Longrightarrow> fits s e \<Longrightarrow> j \<le> ps_KnownGlobalCommitIndex s \<Longrightarrow>
   entry_at (replace_tail e s) j = entry_at s j"
  by (auto simp: replace_tail_entry_at fits_def)

lemma appendEntryChecked_spec:
  assumes "wf_state s" "GlobalIndex e \<noteq> max_u64"
  shows "\<exists>s' out. appendEntryChecked s e prevIndex prevTerm = Some (s', out) \<and> wf_state s' \<and>
     (\<forall>j. j \<le> ps_KnownGlobalCommitIndex s \<longrightarrow> entry_at s' j = entry_at s j) \<and>
     ps_KnownGlobalCommitIndex s' = ps_KnownGlobalCommitIndex s \<and>
     ps_StateMachine s' = ps_StateMachine s \<and> ps_Results s' = ps_Results s \<and>
     (out \<noteq> appendAccepted \<longrightarrow> s' = s)"
  using assms
  by (cases rule: appendEntryChecked_cases [OF assms, of prevIndex prevTerm])
     (auto simp: frame_simps wf_index_below intro: wf_intros)

text \<open>C22: the consistency-checked append never slices out of range on a well-formed state, keeps the
  state well-formed, keeps every committed entry and the applied state machine as they are, and
  changes nothing at all unless it accepts.\<close>

theorem appendEntryChecked_safe:
  assumes "wf_state s" "GlobalIndex e \<noteq> max_u64"
  shows "\<exists>s' out. appendEntryChecked s e prevIndex prevTerm = Some (s', out) \<and> wf_state s' \<and>
     (\<forall>j. j \<le> ps_KnownGlobalCommitIndex s \<longrightarrow> entry_at s' j = entry_at s j) \<and>
     ps_KnownGlobalCommitIndex s' = ps_KnownGlobalCommitIndex s \<and>
     ps_StateMachine s' = ps_StateMachine s \<and> ps_Results s' = ps_Results s \<and>
     (out \<noteq> appendAccepted \<longrightarrow> s' = s)"
  using assms by (rule appendEntryChecked_spec)

text \<open>When an append overwrites an uncommitted tail, no domain keeps a quorum mark at or above the
  replaced index, and marks below it are untouched.\<close>

theorem appendEntryChecked_quorum_rollback:
  assumes "wf_state s" "GlobalIndex e \<noteq> max_u64"
    and "appendEntryChecked s e prevIndex prevTerm = Some (s', appendAccepted)"
    and "entry_at s (GlobalIndex e) = Some old" "entry_at s' (GlobalIndex e) \<noteq> Some old"
  shows "getz (ps_DomainQuorumIndex s') d < GlobalIndex e \<and>
     (getz (ps_DomainQuorumIndex s) d < GlobalIndex e \<longrightarrow>
       getz (ps_DomainQuorumIndex s') d = getz (ps_DomainQuorumIndex s) d)"
proof (cases rule: appendEntryChecked_cases [OF assms(1,2), of prevIndex prevTerm,
      case_names held mismatch conflict overwrite extend])
  case (overwrite x)
  have nz: "GlobalIndex e \<noteq> 0" using find_Some_index [OF overwrite(4)] by simp
  then show ?thesis using overwrite assms(3) u64_minus1_less [OF nz] u64_le_minus1 [OF nz]
    by (auto simp: rollback_getz frame_simps min_def)
next
  case extend
  then have "entry_at s (GlobalIndex e) = None"
    using assms(1) wf_find [OF assms(1)] wf_length [OF assms(1)] unat_LastLogIndex [OF assms(1)]
    by (simp add: word_le_nat_alt unat_u64_plus1 neq_max_u64_iff)
  then show ?thesis using assms(4) by simp
qed (use assms in auto)

section \<open>Log matching\<close>

text \<open>The term a node can vouch for at an index: of a retained entry, or of the snapshot boundary.\<close>

definition term_at :: "PersistentState \<Rightarrow> u64 \<Rightarrow> u64 option" where
  "term_at s i =
     (if i \<noteq> 0 \<and> i = ps_SnapshotLastIndex s then Some (ps_SnapshotLastTerm s)
      else map_option GlobalTerm (entry_at s i))"

definition agree_upto :: "u64 \<Rightarrow> PersistentState \<Rightarrow> PersistentState \<Rightarrow> bool" where
  "agree_upto i s l \<longleftrightarrow>
     (\<forall>j x y. j \<le> i \<longrightarrow> entry_at s j = Some x \<longrightarrow> entry_at l j = Some y \<longrightarrow> x = y)"

text \<open>Raft's Log Matching: equal terms at an index imply equal entries up to it.\<close>

definition log_matching :: "PersistentState \<Rightarrow> PersistentState \<Rightarrow> bool" where
  "log_matching s l \<longleftrightarrow> (\<forall>i t. term_at s i = Some t \<longrightarrow> term_at l i = Some t \<longrightarrow> agree_upto i s l)"

lemma term_at_entry: "entry_at s i = Some x \<Longrightarrow> wf_state s \<Longrightarrow> term_at s i = Some (GlobalTerm x)"
  using wf_find [of s i] by (auto simp: term_at_def split: if_splits)

lemma entry_at_rollback [simp]: "entry_at (rollbackQuorumAbove s c) j = entry_at s j"
  by (simp add: frame_simps)

lemma term_at_rollback [simp]: "term_at (rollbackQuorumAbove s c) j = term_at s j"
  by (simp add: term_at_def frame_simps)

lemma term_at_replace_tail:
  assumes "wf_state s" "fits s e" "term_at (replace_tail e s) j = Some t"
  shows "j \<le> GlobalIndex e \<and> (j < GlobalIndex e \<longrightarrow> term_at s j = Some t)"
proof -
  have "ps_SnapshotLastIndex s < GlobalIndex e"
    using assms(1,2) by (auto simp: wf_state_def fits_def)
  then show ?thesis using assms
    by (auto simp: term_at_def frame_simps replace_tail_entry_at split: if_splits)
qed

lemma log_matching_rollback [simp]:
  "log_matching (rollbackQuorumAbove s c) l = log_matching s l"
  "agree_upto i (rollbackQuorumAbove s c) l = agree_upto i s l"
  by (simp_all add: log_matching_def agree_upto_def)

lemma replace_tail_matching:
  assumes wf: "wf_state s" and fit: "fits s e" and m: "log_matching s l"
    and e: "entry_at l (GlobalIndex e) = Some e"
    and pre: "agree_upto (GlobalIndex e - 1) s l"
  shows "log_matching (replace_tail e s) l \<and> agree_upto (GlobalIndex e) (replace_tail e s) l"
proof -
  have below: "j \<le> GlobalIndex e - 1 \<longleftrightarrow> j < GlobalIndex e" for j
    using find_Some_index [OF e] by (simp add: u64_le_minus1)
  have *: "agree_upto (GlobalIndex e) (replace_tail e s) l"
    using pre e by (auto simp: agree_upto_def replace_tail_entry_at [OF wf fit] below)
  then have "agree_upto i (replace_tail e s) l" if "i \<le> GlobalIndex e" for i
    using that by (meson agree_upto_def order_trans)
  then have "log_matching (replace_tail e s) l"
    unfolding log_matching_def using term_at_replace_tail [OF wf fit] by blast
  then show ?thesis using * by blast
qed

lemma append_matching:
  assumes "wf_state s" "log_matching s l" "entry_at l (GlobalIndex e) = Some e"
    and "wf_state l" "GlobalIndex e \<noteq> max_u64"
    and "GlobalIndex e = 1 \<or> term_at l (GlobalIndex e - 1) = Some prevTerm"
    and "appendEntryChecked s e (GlobalIndex e - 1) prevTerm = Some (s', appendAccepted)"
  shows "log_matching s' l \<and> (ps_SnapshotLastIndex s < GlobalIndex e \<longrightarrow> agree_upto (GlobalIndex e) s' l)"
proof -
  let ?p = "GlobalIndex e - 1"
  have pre: "agree_upto ?p s l" if "?p = 0 \<or> (?p = ps_SnapshotLastIndex s \<and> prevTerm = ps_SnapshotLastTerm s) \<or>
         (\<exists>y. entry_at s ?p = Some y \<and> GlobalTerm y = prevTerm)"
  proof (cases "?p = 0")
    case True
    have "entry_at s 0 = None" by (simp add: findEntryByIndex_def)
    then show ?thesis using True by (auto simp: agree_upto_def)
  next
    case False
    then have "term_at s ?p = Some prevTerm"
      using that term_at_entry [OF _ assms(1), of ?p] by (auto simp: term_at_def)
    then show ?thesis using False assms(2,6) by (auto simp: log_matching_def)
  qed
  show ?thesis
  proof (cases rule: appendEntryChecked_cases [OF assms(1,5), of ?p prevTerm,
        case_names held mismatch conflict overwrite extend])
    case held
    then have "s' = s" using assms(7) by simp
    moreover have "agree_upto (GlobalIndex e) s l" if "ps_SnapshotLastIndex s < GlobalIndex e"
      using held that assms(1-4) term_at_entry by (fastforce simp: log_matching_def)
    ultimately show ?thesis using assms(2) by simp
  next
    case overwrite
    then show ?thesis using assms(7) replace_tail_matching [OF assms(1) _ assms(2,3)] pre by auto
  next
    case extend
    then show ?thesis using assms(7) replace_tail_matching [OF assms(1) _ assms(2,3)] pre by auto
  qed (use assms(7) in auto)
qed


section \<open>Applying\<close>

text \<open>Applying the entry after the commit point advances it by one and runs its command; applying an
  older entry again only refreshes its result.\<close>

lemma applyEntry_next:
  assumes "wf_state s" "GlobalIndex e = ps_KnownGlobalCommitIndex s + 1"
  shows "applyEntry s e =
     s\<lparr>ps_KnownGlobalCommitIndex := max (ps_KnownGlobalCommitIndex s) (GlobalIndex e),
       ps_StateMachine := fmupd (Key (Cmd e)) (Val (Cmd e)) (ps_StateMachine s),
       ps_AppliedIndex := GlobalIndex e,
       ps_Results := fmupd (RequestID e) (entry_result e) (ps_Results s)\<rparr>"
  using assms by (simp add: applyEntry_def wf_state_def Let_def)

lemma applyEntry_old:
  assumes "wf_state s" "GlobalIndex e \<le> ps_KnownGlobalCommitIndex s" "GlobalIndex e \<noteq> 0"
  shows "applyEntry s e = s\<lparr>ps_Results := fmupd (RequestID e) (entry_result e) (ps_Results s)\<rparr>"
proof -
  have "GlobalIndex e \<noteq> ps_KnownGlobalCommitIndex s + 1"
  proof
    assume "GlobalIndex e = ps_KnownGlobalCommitIndex s + 1"
    then have "ps_KnownGlobalCommitIndex s = max_u64"
      using assms(2) u64_less_plus1 [of "ps_KnownGlobalCommitIndex s"] by fastforce
    then show False using assms(1) by (auto simp: wf_state_def unat_max_u64_const)
  qed
  then show ?thesis using assms by (simp add: applyEntry_def wf_state_def max_def Let_def)
qed

lemma applyEntry_beyond:
  "GlobalIndex e \<noteq> ps_KnownGlobalCommitIndex s + 1 \<Longrightarrow> ps_KnownGlobalCommitIndex s < GlobalIndex e \<Longrightarrow>
   applyEntry s e = s"
  by (simp add: applyEntry_def)

lemma applyEntry_frame [frame_simps]:
  "ps_Log (applyEntry s e) = ps_Log s"
  "ps_SnapshotLastIndex (applyEntry s e) = ps_SnapshotLastIndex s"
  "ps_SnapshotLastTerm (applyEntry s e) = ps_SnapshotLastTerm s"
  "ps_DomainQuorumIndex (applyEntry s e) = ps_DomainQuorumIndex s"
  "ps_DomainTerm (applyEntry s e) = ps_DomainTerm s"
  "ps_DomainVotedFor (applyEntry s e) = ps_DomainVotedFor s"
  "ps_DomainLeader (applyEntry s e) = ps_DomainLeader s"
  "ps_GlobalTerm (applyEntry s e) = ps_GlobalTerm s"
  "ps_GlobalVotedFor (applyEntry s e) = ps_GlobalVotedFor s"
  "ps_GlobalLeader (applyEntry s e) = ps_GlobalLeader s"
  by (simp_all add: applyEntry_def Let_def)

lemma wf_known_lt_max: "wf_state s \<Longrightarrow> ps_KnownGlobalCommitIndex s \<noteq> max_u64"
  by (auto simp: wf_state_def neq_max_u64_iff)

lemma applyEntry_wf [wf_intros]:
  assumes "wf_state s" "GlobalIndex e \<noteq> 0" "GlobalIndex e \<le> LastLogIndex s"
  shows "wf_state (applyEntry s e)"
proof -
  consider "GlobalIndex e = ps_KnownGlobalCommitIndex s + 1"
    | "GlobalIndex e \<le> ps_KnownGlobalCommitIndex s"
    | "GlobalIndex e \<noteq> ps_KnownGlobalCommitIndex s + 1" "ps_KnownGlobalCommitIndex s < GlobalIndex e"
    by fastforce
  then show ?thesis
  proof cases
    case 1
    have "ps_KnownGlobalCommitIndex s < GlobalIndex e"
      using 1 u64_less_plus1 wf_known_lt_max [OF assms(1)] by simp
    then show ?thesis
      using assms unat_LastLogIndex [OF assms(1)]
      by (auto simp: applyEntry_next [OF assms(1) 1] wf_state_def max_def word_le_nat_alt
          word_less_nat_alt)
  next
    case 2
    then show ?thesis using assms by (auto simp: applyEntry_old wf_state_def)
  next
    case 3
    then show ?thesis using assms by (simp add: applyEntry_beyond)
  qed
qed

section \<open>Compaction\<close>

lemma compactLog_cases:
  assumes "wf_state s"
  obtains (refused) "compactLog s i = Some (s, False)"
      "i \<le> ps_SnapshotLastIndex s \<or> ps_AppliedIndex s < i"
  | (compacted) b where "ps_SnapshotLastIndex s < i" "i \<le> ps_AppliedIndex s" "entry_at s i = Some b"
      "unat i - unat (ps_SnapshotLastIndex s) \<le> length (ps_Log s)"
      "compactLog s i =
         Some (s\<lparr>ps_Log := drop (unat i - unat (ps_SnapshotLastIndex s)) (ps_Log s),
                 ps_SnapshotLastIndex := i, ps_SnapshotLastTerm := GlobalTerm b,
                 ps_SnapshotLastRequestID := RequestID b\<rparr>, True)"
proof (cases "i \<le> ps_SnapshotLastIndex s \<or> ps_AppliedIndex s < i")
  case True
  then show thesis by (intro refused) (auto simp: compactLog_def)
next
  case False
  then have lt: "ps_SnapshotLastIndex s < i" "i \<le> ps_AppliedIndex s" by auto
  have "ps_AppliedIndex s \<le> LastLogIndex s"
    using assms unat_LastLogIndex [OF assms] by (simp add: wf_state_def word_le_nat_alt)
  then obtain b where b: "entry_at s i = Some b"
    and len: "unat i - unat (ps_SnapshotLastIndex s) \<le> length (ps_Log s)"
    using lt wf_find [OF assms, of i] unat_LastLogIndex [OF assms]
    by (auto simp: word_le_nat_alt)
  have "unat (i - ps_SnapshotLastIndex s) = unat i - unat (ps_SnapshotLastIndex s)"
    using lt by (simp add: unat_sub)
  then show thesis using lt b len by (intro compacted) (auto simp: compactLog_def)
qed

lemma drop_wf_entry_at:
  fixes t :: u64 and r :: string
  assumes wf: "wf_state s" and lt: "ps_SnapshotLastIndex s < i" "i \<le> ps_AppliedIndex s"
  defines "n \<equiv> unat i - unat (ps_SnapshotLastIndex s)"
  defines "s' \<equiv> s\<lparr>ps_Log := drop n (ps_Log s), ps_SnapshotLastIndex := i, ps_SnapshotLastTerm := t,
      ps_SnapshotLastRequestID := r\<rparr>"
  shows "wf_state s'" "LastLogIndex s' = LastLogIndex s"
    "entry_at s' j = (if i < j then entry_at s j else None)"
proof -
  have n: "unat i = unat (ps_SnapshotLastIndex s) + n" "n \<le> length (ps_Log s)" "0 < n"
    using wf lt by (auto simp: n_def wf_state_def word_le_nat_alt word_less_nat_alt)
  show wf': "wf_state s'"
    using wf lt n contig_drop [of "unat (ps_SnapshotLastIndex s)" "ps_Log s" n]
    by (auto simp: s'_def wf_state_def word_le_nat_alt)
  show last: "LastLogIndex s' = LastLogIndex s"
    using unat_LastLogIndex [OF wf'] unat_LastLogIndex [OF wf] n
    by (simp add: s'_def word_unat_eq_iff)
  show "entry_at s' j = (if i < j then entry_at s j else None)"
    using n lt(1)
    by (auto simp: wf_find [OF wf'] wf_find [OF wf] last)
       (auto simp: s'_def word_less_nat_alt nth_drop add.commute)
qed

lemma entry_at_last: "wf_state s \<Longrightarrow> ps_Log s \<noteq> [] \<Longrightarrow> entry_at s (LastLogIndex s) = Some (last (ps_Log s))"
  using unat_LastLogIndex [of s]
  by (auto simp: wf_find word_less_nat_alt last_conv_nth)

lemma Summary_index: "wf_state s \<Longrightarrow> LastGlobalIndex (Summary s) = LastLogIndex s"
  using find_Some_index [OF entry_at_last, of s]
  by (cases "ps_Log s = []") (simp_all add: Summary_def Let_def LastLogIndex_def)

text \<open>The entry that a leader orders next.\<close>

lemma new_entry_wf:
  assumes wf: "wf_state s" and "GlobalIndex e = LastGlobalIndex (Summary s) + 1" "GlobalIndex e \<noteq> max_u64"
  shows "wf_state (s\<lparr>ps_Log := ps_Log s @ [e]\<rparr>)"
proof -
  have i: "GlobalIndex e = LastLogIndex s + 1" using assms(2) wf by (simp add: Summary_index)
  have "LastLogIndex s \<noteq> max_u64" using wf wf_length [OF wf] by (simp add: neq_max_u64_iff unat_LastLogIndex)
  then have lt: "LastLogIndex s < GlobalIndex e" using i u64_less_plus1 by simp
  moreover have "ps_SnapshotLastIndex s \<le> LastLogIndex s"
    using wf by (simp add: word_le_nat_alt unat_LastLogIndex)
  ultimately have "appendEntry s e = (s\<lparr>ps_Log := ps_Log s @ [e]\<rparr>, True)"
    using i wf by (auto simp: appendEntry_def wf_find)
  then show ?thesis using appendEntry_wf [of s e] assms(1,3) by simp
qed

lemma Summary_drop:
  assumes "wf_state s" "entry_at s i = Some b" "unat i - unat (ps_SnapshotLastIndex s) \<le> length (ps_Log s)"
  shows "Summary (s\<lparr>ps_Log := drop (unat i - unat (ps_SnapshotLastIndex s)) (ps_Log s),
       ps_SnapshotLastIndex := i, ps_SnapshotLastTerm := GlobalTerm b, ps_SnapshotLastRequestID := r\<rparr>) =
     Summary s"
proof (cases "drop (unat i - unat (ps_SnapshotLastIndex s)) (ps_Log s) = []")
  case True
  have lt: "ps_SnapshotLastIndex s < i" using assms(1,2) wf_find by (auto split: if_splits)
  then have ne: "ps_Log s \<noteq> []" using assms(2) by (auto simp: findEntryByIndex_def)
  have "i = LastLogIndex s"
    using True assms(3) unat_LastLogIndex [OF assms(1)] lt
    by (simp add: word_less_nat_alt word_unat_eq_iff)
  then have "b = last (ps_Log s)" "GlobalIndex b = i"
    using entry_at_last [OF assms(1) ne] assms(2) find_Some_index [OF assms(2)] by auto
  then show ?thesis using True ne by (simp add: Summary_def Let_def)
next
  case False
  then have "ps_Log s \<noteq> []" by auto
  then show ?thesis using False by (simp add: Summary_def Let_def)
qed

lemma compactLog_spec:
  assumes "wf_state s"
  shows "\<exists>s' ok. compactLog s i = Some (s', ok) \<and>
     (ok \<longleftrightarrow> ps_SnapshotLastIndex s < i \<and> i \<le> ps_AppliedIndex s) \<and> (\<not> ok \<longrightarrow> s' = s) \<and>
     wf_state s' \<and> ps_StateMachine s' = ps_StateMachine s \<and> ps_Results s' = ps_Results s \<and>
     ps_KnownGlobalCommitIndex s' = ps_KnownGlobalCommitIndex s \<and>
     LastLogIndex s' = LastLogIndex s \<and> Summary s' = Summary s \<and>
     (\<forall>j. ps_SnapshotLastIndex s' < j \<longrightarrow> entry_at s' j = entry_at s j)"
proof (cases rule: compactLog_cases [OF assms, of i, case_names refused compacted])
  case refused
  then show ?thesis using assms by auto
next
  case (compacted b)
  note facts = drop_wf_entry_at [OF assms compacted(1,2), where t = "GlobalTerm b" and r = "RequestID b"]
    Summary_drop [OF assms compacted(3,4), of "RequestID b"]
  show ?thesis
    by (intro exI conjI, rule compacted(5)) (simp_all add: facts [simplified] compacted(1,2))
qed

text \<open>Compaction is total on well-formed states; it succeeds exactly for a held, applied point
  beyond the snapshot, and then it keeps the state well-formed, the state machine, the results, the
  commit point, the last index, the log summary that elections compare, and every entry above the
  new boundary.\<close>

theorem compactLog_preserves:
  assumes "wf_state s"
  shows "\<exists>s' ok. compactLog s i = Some (s', ok) \<and>
     (ok \<longleftrightarrow> ps_SnapshotLastIndex s < i \<and> i \<le> ps_AppliedIndex s) \<and> (\<not> ok \<longrightarrow> s' = s) \<and>
     wf_state s' \<and> ps_StateMachine s' = ps_StateMachine s \<and> ps_Results s' = ps_Results s \<and>
     ps_KnownGlobalCommitIndex s' = ps_KnownGlobalCommitIndex s \<and>
     LastLogIndex s' = LastLogIndex s \<and> Summary s' = Summary s \<and>
     (\<forall>j. ps_SnapshotLastIndex s' < j \<longrightarrow> entry_at s' j = entry_at s j)"
  using assms by (rule compactLog_spec)

section \<open>Installing a snapshot\<close>

lemma hd_index: "wf_state s \<Longrightarrow> ps_Log s \<noteq> [] \<Longrightarrow> unat (GlobalIndex (hd (ps_Log s))) = unat (ps_SnapshotLastIndex s) + 1"
  using contig_hd by (auto simp: wf_state_def)

lemma install_keep_length:
  assumes wf: "wf_state s" and x: "entry_at s i = Some x"
  shows "unat (i - GlobalIndex (hd (ps_Log s)) + 1) = unat i - unat (ps_SnapshotLastIndex s)"
    "unat i - unat (ps_SnapshotLastIndex s) \<le> length (ps_Log s)"
    "ps_SnapshotLastIndex s < i"
proof -
  show lt: "ps_SnapshotLastIndex s < i" using x wf_find [OF wf] by (auto split: if_splits)
  show "unat i - unat (ps_SnapshotLastIndex s) \<le> length (ps_Log s)"
    using x wf_find [OF wf, of i] unat_LastLogIndex [OF wf] by (auto simp: word_le_nat_alt split: if_splits)
  have ne: "ps_Log s \<noteq> []" using x by (auto simp: findEntryByIndex_def)
  have le: "GlobalIndex (hd (ps_Log s)) \<le> i"
    using lt hd_index [OF wf ne] by (simp add: word_le_nat_alt word_less_nat_alt)
  have d: "unat (i - GlobalIndex (hd (ps_Log s))) = unat i - unat (ps_SnapshotLastIndex s) - 1"
    using le hd_index [OF wf ne] by (simp add: unat_sub)
  then have "i - GlobalIndex (hd (ps_Log s)) \<noteq> max_u64"
    using unat_u64_lt [of i] lt by (simp add: neq_max_u64_iff word_less_nat_alt)
  then show "unat (i - GlobalIndex (hd (ps_Log s)) + 1) = unat i - unat (ps_SnapshotLastIndex s)"
    using d lt by (simp add: unat_u64_plus1 word_less_nat_alt)
qed

lemma install_cases:
  assumes wf: "wf_state s"
  obtains (covered) "i \<le> ps_AppliedIndex s" "installSnapshotState s i t r sm res = (s, True)"
  | (kept) x where "ps_AppliedIndex s < i" "entry_at s i = Some x" "GlobalTerm x = t"
      "installSnapshotState s i t r sm res =
        (s\<lparr>ps_Log := drop (unat i - unat (ps_SnapshotLastIndex s)) (ps_Log s), ps_SnapshotLastIndex := i,
           ps_SnapshotLastTerm := t, ps_SnapshotLastRequestID := r, ps_StateMachine := sm,
           ps_Results := ps_Results s ++\<^sub>f res, ps_AppliedIndex := i, ps_KnownGlobalCommitIndex := i\<rparr>, True)"
  | (replaced) "ps_AppliedIndex s < i"
      "installSnapshotState s i t r sm res =
        ((rollbackQuorumAbove s i)\<lparr>ps_Log := [], ps_SnapshotLastIndex := i,
           ps_SnapshotLastTerm := t, ps_SnapshotLastRequestID := r, ps_StateMachine := sm,
           ps_Results := ps_Results s ++\<^sub>f res, ps_AppliedIndex := i, ps_KnownGlobalCommitIndex := i\<rparr>, True)"
proof (cases "i \<le> ps_AppliedIndex s")
  case True
  then show thesis by (intro covered) (simp_all add: installSnapshotState_def)
next
  case False
  then have lt: "ps_AppliedIndex s < i" "\<not> i \<le> ps_SnapshotLastIndex s"
    and m: "max (ps_KnownGlobalCommitIndex s) i = i"
    using wf by (auto simp: wf_state_def)
  show thesis
  proof (cases "\<exists>x. entry_at s i = Some x \<and> GlobalTerm x = t")
    case True
    then obtain x where "entry_at s i = Some x" "GlobalTerm x = t" by blast
    then show thesis using lt m install_keep_length [OF wf]
      by (intro kept) (auto simp: installSnapshotState_def Let_def)
  next
    case False
    then show thesis using lt m
      by (intro replaced) (auto simp: installSnapshotState_def Let_def rollbackQuorumAbove_def split: option.splits)
  qed
qed

lemma installSnapshotState_wf [wf_intros]:
  assumes "wf_state s" "i \<noteq> max_u64"
  shows "wf_state (fst (installSnapshotState s i t r sm res))"
proof (cases rule: install_cases [OF assms(1), of i t r sm res, case_names covered kept replaced])
  case covered
  then show ?thesis using assms by simp
next
  case (kept x)
  note n = install_keep_length [OF assms(1) kept(2)]
  have "contig (unat i) (drop (unat i - unat (ps_SnapshotLastIndex s)) (ps_Log s))"
    using contig_drop [of "unat (ps_SnapshotLastIndex s)" "ps_Log s", OF _ n(2)] assms(1) n(3)
    by (simp add: wf_state_def word_less_nat_alt)
  then show ?thesis
    using n assms by (auto simp: kept(4) wf_state_def word_less_nat_alt)
next
  case replaced
  then show ?thesis using assms(2) by (simp add: wf_state_def neq_max_u64_iff)
qed

section \<open>Concrete instances\<close>

definition ex_entry :: "u64 \<Rightarrow> u64 \<Rightarrow> string \<Rightarrow> LogEntry" where
  "ex_entry t i r = \<lparr>GlobalTerm = t, GlobalIndex = i, RequestID = r, OriginDomain = ''a'',
     Cmd = \<lparr>Key = ''k'', Val = r\<rparr>, Result = ''k='' @ r\<rparr>"

text \<open>A follower with one committed entry and a divergent uncommitted one that domain \<open>b\<close> had
  counted, and the leader whose log replaces it.\<close>

definition ex_follower :: PersistentState where
  "ex_follower =
     (applyEntry (empty_state\<lparr>ps_Log := [ex_entry 1 1 ''r1'', ex_entry 1 2 ''rx'']\<rparr>) (ex_entry 1 1 ''r1''))
     \<lparr>ps_DomainQuorumIndex := fmupd ''b'' 2 fmempty\<rparr>"

definition ex_leader :: PersistentState where
  "ex_leader = empty_state\<lparr>ps_Log := [ex_entry 1 1 ''r1'', ex_entry 2 2 ''r2'']\<rparr>"

definition ex_follower' :: PersistentState where
  "ex_follower' = rollbackQuorumAbove (replace_tail (ex_entry 2 2 ''r2'') ex_follower) 1"

lemma ex_wf: "wf_state ex_follower" "wf_state ex_leader"
  by code_simp+

lemma ex_room: "GlobalIndex (ex_entry 2 2 ''r2'') \<noteq> max_u64" "GlobalIndex (ex_entry 2 2 ''r2'') = 2"
  by code_simp+

lemma ex_append:
  "appendEntryChecked ex_follower (ex_entry 2 2 ''r2'') 1 1 = Some (ex_follower', appendAccepted)"
  by code_simp

lemma appendEntryChecked_safe_witness:
  "wf_state ex_follower' \<and> entry_at ex_follower' 1 = entry_at ex_follower 1 \<and>
   ps_StateMachine ex_follower' = ps_StateMachine ex_follower"
proof -
  have "1 \<le> ps_KnownGlobalCommitIndex ex_follower" by code_simp
  then show ?thesis
    using appendEntryChecked_safe [OF ex_wf(1) ex_room(1), of 1 1] by (auto simp: ex_append)
qed

lemma appendEntryChecked_quorum_rollback_witness:
  "getz (ps_DomainQuorumIndex ex_follower) ''b'' = 2 \<and>
   getz (ps_DomainQuorumIndex ex_follower') ''b'' < 2"
proof -
  have "entry_at ex_follower (GlobalIndex (ex_entry 2 2 ''r2'')) = Some (ex_entry 1 2 ''rx'')"
    "entry_at ex_follower' (GlobalIndex (ex_entry 2 2 ''r2'')) \<noteq> Some (ex_entry 1 2 ''rx'')"
    "getz (ps_DomainQuorumIndex ex_follower) ''b'' = 2" by code_simp+
  then show ?thesis
    using appendEntryChecked_quorum_rollback [OF ex_wf(1) ex_room(1) ex_append, of _ "''b''"] ex_room(2)
    by auto
qed

lemma ex_matching: "log_matching ex_follower ex_leader"
proof -
  have small: "0 < j \<and> j \<le> 2 \<longleftrightarrow> j = 1 \<or> j = 2" for j :: u64
    by (auto simp: word_less_nat_alt word_le_nat_alt word_unat_eq_iff)
  have f: "entry_at ex_follower j =
      (if j = 1 then Some (ex_entry 1 1 ''r1'') else if j = 2 then Some (ex_entry 1 2 ''rx'') else None)" for j
  proof -
    have "LastLogIndex ex_follower = 2" "ps_SnapshotLastIndex ex_follower = 0"
      "ps_Log ex_follower = [ex_entry 1 1 ''r1'', ex_entry 1 2 ''rx'']" by code_simp+
    then show ?thesis unfolding wf_find [OF ex_wf(1)] using small [of j] by auto
  qed
  have l: "entry_at ex_leader j =
      (if j = 1 then Some (ex_entry 1 1 ''r1'') else if j = 2 then Some (ex_entry 2 2 ''r2'') else None)" for j
  proof -
    have "LastLogIndex ex_leader = 2" "ps_SnapshotLastIndex ex_leader = 0"
      "ps_Log ex_leader = [ex_entry 1 1 ''r1'', ex_entry 2 2 ''r2'']" by code_simp+
    then show ?thesis unfolding wf_find [OF ex_wf(2)] using small [of j] by auto
  qed
  have "ps_SnapshotLastIndex ex_follower = 0" "ps_SnapshotLastIndex ex_leader = 0" by code_simp+
  then show ?thesis
    by (auto simp: log_matching_def agree_upto_def term_at_def f l ex_entry_def word_le_nat_alt
        split: if_splits)
qed


lemma compactLog_preserves_witness:
  "\<exists>s'. compactLog ex_follower 1 = Some (s', True) \<and> ps_StateMachine s' = ps_StateMachine ex_follower \<and>
     Summary s' = Summary ex_follower"
proof -
  have "ps_SnapshotLastIndex ex_follower < 1 \<and> 1 \<le> ps_AppliedIndex ex_follower" by code_simp
  then show ?thesis using compactLog_preserves [OF ex_wf(1), of 1] by auto
qed

end
