(* ===== verification/Log_History.thy ===== *)
theory Log_History
  imports Raft_Log
begin

text \<open>
  The abstract specification of replication: there is one history of decided entries, and a node's
  state machine is the replay of the prefix it has applied.  \<open>tracks h s\<close> relates a concrete state
  to that specification.  The steps a node can take on its log (append, apply, compact, install a
  snapshot built by another node) are an inductive relation; every step keeps \<open>tracks\<close>, so
  nodes that have applied the same number of entries hold the same data, whatever they have
  compacted or received as snapshots.
\<close>

section \<open>Building a snapshot\<close>

record InstallSnapshotRequest =
  isr_GlobalTerm :: u64
  isr_SenderNodeId :: string
  isr_LastIncludedIndex :: u64
  isr_LastIncludedTerm :: u64
  isr_LastIncludedRequestId :: string
  isr_StateMachine :: json
  isr_Results :: json
  isr_FanoutToDomain :: bool

definition buildSnapshotRequestLocked ::
    "string \<Rightarrow> PersistentState \<Rightarrow> error + InstallSnapshotRequest" where
  "buildSnapshotRequestLocked localID state =
     (let lastIndex = ps_AppliedIndex state;
          request = (\<lambda>lastTerm lastRequestID.
            Inr \<lparr>isr_GlobalTerm = ps_GlobalTerm state, isr_SenderNodeId = localID,
                 isr_LastIncludedIndex = lastIndex, isr_LastIncludedTerm = lastTerm,
                 isr_LastIncludedRequestId = lastRequestID,
                 isr_StateMachine = enc_map enc_str (ps_StateMachine state),
                 isr_Results = enc_map enc_result (ps_Results state),
                 isr_FanoutToDomain = True\<rparr>)
      in if lastIndex = 0 then Inl (ErrBoundaryUnknown 0)
         else case findEntryByIndex (ps_Log state) lastIndex of
           Some entry \<Rightarrow> request (GlobalTerm entry) (RequestID entry)
         | None \<Rightarrow>
             if lastIndex = ps_SnapshotLastIndex state
             then request (ps_SnapshotLastTerm state) (ps_SnapshotLastRequestID state)
             else Inl (ErrBoundaryUnknown lastIndex))"

section \<open>The history\<close>

definition replay :: "LogEntry list \<Rightarrow> string gomap" where
  "replay es = fold (\<lambda>e. fmupd (Key (Cmd e)) (Val (Cmd e))) es fmempty"

text \<open>A history: decided entries with consecutive indices, all strings valid UTF-8.\<close>

definition history :: "LogEntry list \<Rightarrow> bool" where
  "history h \<longleftrightarrow> contig 0 h \<and> list_all valid_entry h"

definition tracks :: "LogEntry list \<Rightarrow> PersistentState \<Rightarrow> bool" where
  "tracks h s \<longleftrightarrow>
     wf_state s \<and>
     unat (ps_KnownGlobalCommitIndex s) \<le> length h \<and>
     (\<forall>j e. j \<le> ps_KnownGlobalCommitIndex s \<longrightarrow> entry_at s j = Some e \<longrightarrow> e = h ! (unat j - 1)) \<and>
     (ps_SnapshotLastIndex s \<noteq> 0 \<longrightarrow>
       ps_SnapshotLastTerm s = GlobalTerm (h ! (unat (ps_SnapshotLastIndex s) - 1))) \<and>
     ps_StateMachine s = replay (take (unat (ps_AppliedIndex s)) h) \<and>
     (\<forall>e \<in> set (take (unat (ps_AppliedIndex s)) h). fmlookup (ps_Results s) (RequestID e) \<noteq> None)"

text \<open>The states a node's log can reach: appends of arbitrary entries, application of the next decided
  entry or of an older one again, compaction, a restart that reloads a copy, and snapshots built by
  another node that follows the same history.\<close>

inductive log_reachable :: "LogEntry list \<Rightarrow> PersistentState \<Rightarrow> bool" for h where
  init: "log_reachable h empty_state"
| append: "log_reachable h s \<Longrightarrow> GlobalIndex e \<noteq> max_u64 \<Longrightarrow>
    appendEntryChecked s e p t = Some (s', out) \<Longrightarrow> log_reachable h s'"
| apply_next: "log_reachable h s \<Longrightarrow> unat (ps_KnownGlobalCommitIndex s) < length h \<Longrightarrow>
    entry_at s (ps_KnownGlobalCommitIndex s + 1) = Some e \<Longrightarrow>
    e = h ! unat (ps_KnownGlobalCommitIndex s) \<Longrightarrow> log_reachable h (applyEntry s e)"
| apply_again: "log_reachable h s \<Longrightarrow> entry_at s j = Some e \<Longrightarrow> j \<le> ps_KnownGlobalCommitIndex s \<Longrightarrow>
    log_reachable h (applyEntry s e)"
| compact: "log_reachable h s \<Longrightarrow> compactLog s i = Some (s', ok) \<Longrightarrow> log_reachable h s'"
| restart: "log_reachable h s \<Longrightarrow> log_reachable h (Clone s)"
| install: "log_reachable h s \<Longrightarrow> log_reachable h l \<Longrightarrow> buildSnapshotRequestLocked n l = Inr r \<Longrightarrow>
    dec_map dec_str (isr_StateMachine r) = Some sm \<Longrightarrow>
    dec_map dec_result (isr_Results r) = Some res \<Longrightarrow>
    log_reachable h (fst (installSnapshotState s (isr_LastIncludedIndex r) (isr_LastIncludedTerm r)
      (isr_LastIncludedRequestId r) sm res))"

lemma replay_snoc: "replay (es @ [e]) = fmupd (Key (Cmd e)) (Val (Cmd e)) (replay es)"
  by (simp add: replay_def)

lemma replay_valid: "list_all valid_entry es \<Longrightarrow> valid_map valid_utf8 (replay es)"
  by (induction es rule: rev_induct) (auto simp: replay_snoc valid_map_def valid_entry_def, simp add: replay_def)

lemma tracks_empty: "tracks h empty_state"
  by (simp add: tracks_def) (simp add: empty_state_def replay_def findEntryByIndex_def)

section \<open>Every step keeps the relation\<close>

lemma tracks_append:
  assumes "tracks h s" "GlobalIndex e \<noteq> max_u64" "appendEntryChecked s e p t = Some (s', out)"
  shows "tracks h s'"
proof -
  have wf: "wf_state s" using assms(1) by (simp add: tracks_def)
  have keep: "tracks h (replace_tail e s)" if "fits s e"
    using assms(1) replace_tail_wf [OF wf that] wf_index_below [OF wf that]
    by (simp add: tracks_def frame_simps)
  have roll: "tracks h (rollbackQuorumAbove s' c)" if "tracks h s'" for s' c
    using that by (auto simp: tracks_def frame_simps intro: wf_intros)
  show ?thesis
    by (cases rule: appendEntryChecked_cases [OF wf assms(2), of p t])
       (use assms(1,3) keep roll in auto)
qed

lemma tracks_apply_next:
  assumes "tracks h s" "history h" "unat (ps_KnownGlobalCommitIndex s) < length h"
    and e: "entry_at s (ps_KnownGlobalCommitIndex s + 1) = Some e" "e = h ! unat (ps_KnownGlobalCommitIndex s)"
  shows "tracks h (applyEntry s e)"
proof -
  let ?k = "ps_KnownGlobalCommitIndex s"
  have wf: "wf_state s" and app: "ps_AppliedIndex s = ?k" using assms(1) by (auto simp: tracks_def wf_state_def)
  have idx: "GlobalIndex e = ?k + 1" "?k + 1 \<noteq> 0" using find_Some_index [OF e(1)] by auto
  have u: "unat (?k + 1) = unat ?k + 1" using wf_known_lt_max [OF wf] by (rule unat_u64_plus1)
  have le: "GlobalIndex e \<le> LastLogIndex s" using e(1) idx wf_find [OF wf] by (auto split: if_splits)
  have wf': "wf_state (applyEntry s e)" using applyEntry_wf [OF wf] idx le by simp
  have mx: "max ?k (?k + 1) = ?k + 1" using u by (simp add: max_def word_le_nat_alt)
  have tk: "take (unat (?k + 1)) h = take (unat ?k) h @ [e]"
    using assms(3) e(2) by (simp add: u take_Suc_conv_app_nth)
  have ent: "x = h ! (unat j - 1)" if "j \<le> ?k + 1" "entry_at s j = Some x" for j x
    using that assms(1) e u by (cases "j = ?k + 1") (auto simp: tracks_def word_le_nat_alt
        word_unat_eq_iff)
  show ?thesis
    using assms(1,3) wf' ent
    by (auto simp: tracks_def applyEntry_next [OF wf idx(1)] idx(1) mx tk [unfolded u, simplified] replay_snoc app u)
qed

lemma tracks_apply_again:
  assumes "tracks h s" "entry_at s j = Some e" "j \<le> ps_KnownGlobalCommitIndex s"
  shows "tracks h (applyEntry s e)"
proof -
  have wf: "wf_state s" using assms(1) by (simp add: tracks_def)
  have idx: "GlobalIndex e = j" "j \<noteq> 0" using find_Some_index [OF assms(2)] by auto
  have le: "j \<le> LastLogIndex s" using assms(2) wf_find [OF wf] by (auto split: if_splits)
  have "wf_state (applyEntry s e)" using applyEntry_wf [OF wf] idx le by simp
  then show ?thesis
    using assms idx by (auto simp: tracks_def applyEntry_old [OF wf])
qed

lemma tracks_compact:
  assumes "tracks h s" "compactLog s i = Some (s', ok)"
  shows "tracks h s'"
proof -
  have wf: "wf_state s" using assms(1) by (simp add: tracks_def)
  show ?thesis
  proof (cases rule: compactLog_cases [OF wf, of i, case_names refused compacted])
    case refused
    then show ?thesis using assms by simp
  next
    case (compacted b)
    note facts = drop_wf_entry_at [OF wf compacted(1,2), where t = "GlobalTerm b" and r = "RequestID b"]
    have "b = h ! (unat i - 1)"
      using assms(1) compacted(2,3) by (auto simp: tracks_def wf_state_def)
    then show ?thesis using assms compacted(5) facts [simplified]
      by (auto simp: tracks_def split: if_splits)
  qed
qed

text \<open>What a node that tracks the history puts into a snapshot request.\<close>

lemma buildSnapshotRequest_tracks:
  assumes "tracks h l" "buildSnapshotRequestLocked n l = Inr r"
  shows "isr_LastIncludedIndex r = ps_AppliedIndex l" "ps_AppliedIndex l \<noteq> 0"
    "isr_LastIncludedTerm r = GlobalTerm (h ! (unat (ps_AppliedIndex l) - 1))"
    "isr_StateMachine r = enc_map enc_str (ps_StateMachine l)"
    "isr_Results r = enc_map enc_result (ps_Results l)"
proof -
  have "ps_AppliedIndex l = ps_KnownGlobalCommitIndex l" using assms(1) by (simp add: tracks_def wf_state_def)
  then have "e = h ! (unat (ps_AppliedIndex l) - 1)" if "entry_at l (ps_AppliedIndex l) = Some e" for e
    using assms(1) that by (simp add: tracks_def)
  then show "isr_LastIncludedIndex r = ps_AppliedIndex l" "ps_AppliedIndex l \<noteq> 0"
    "isr_LastIncludedTerm r = GlobalTerm (h ! (unat (ps_AppliedIndex l) - 1))"
    "isr_StateMachine r = enc_map enc_str (ps_StateMachine l)"
    "isr_Results r = enc_map enc_result (ps_Results l)"
    using assms
    by (auto simp: buildSnapshotRequestLocked_def Let_def tracks_def split: if_splits option.splits)
qed

lemma tracks_install:
  assumes "tracks h s" "history h" "tracks h l" "buildSnapshotRequestLocked n l = Inr r"
    and "dec_map dec_str (isr_StateMachine r) = Some sm" "dec_map dec_result (isr_Results r) = Some res"
  shows "tracks h (fst (installSnapshotState s (isr_LastIncludedIndex r) (isr_LastIncludedTerm r)
      (isr_LastIncludedRequestId r) sm res))"
proof -
  note b = buildSnapshotRequest_tracks [OF assms(3,4)]
  let ?i = "ps_AppliedIndex l"
  have wf: "wf_state s" and wfl: "wf_state l" using assms(1,3) by (simp_all add: tracks_def)
  have imax: "?i \<noteq> max_u64" using wf_known_lt_max [OF wfl] wfl by (simp add: wf_state_def)
  have len: "unat ?i \<le> length h" using assms(3) wfl by (simp add: tracks_def wf_state_def)
  have "sm = coerce_map coerce (ps_StateMachine l)" using assms(5) b(4) by simp
  moreover have "list_all valid_entry (take (unat ?i) h)"
    using assms(2) by (auto simp: history_def list_all_iff dest: in_set_takeD)
  ultimately have sm: "sm = replay (take (unat ?i) h)"
    using assms(3) coerce_map_valid [OF replay_valid coerce_valid] by (simp add: tracks_def)
  have "res = coerce_map coerce_result (ps_Results l)" using assms(6) b(5) by simp
  then have res: "\<forall>e \<in> set (take (unat ?i) h). fmlookup res (RequestID e) \<noteq> None"
    using assms(3) \<open>list_all valid_entry _\<close> coerce_map_lookup_valid
    by (fastforce simp: tracks_def list_all_iff valid_entry_def)
  then have res': "\<forall>e \<in> set (take (unat ?i) h). fmlookup (ps_Results s ++\<^sub>f res) (RequestID e) \<noteq> None"
    by (auto simp: fmlookup_dom_iff)
  have wf': "wf_state (fst (installSnapshotState s ?i (isr_LastIncludedTerm r)
      (isr_LastIncludedRequestId r) sm res))"
    by (rule installSnapshotState_wf [OF wf imax])
  have none: "unat j \<le> unat ?i \<Longrightarrow> findEntryByIndex (drop (unat ?i - unat (ps_SnapshotLastIndex s)) (ps_Log s)) j = None"
    if "entry_at s ?i = Some x" for j x
  proof -
    note n = install_keep_length [OF wf that]
    have "contig (unat ?i) (drop (unat ?i - unat (ps_SnapshotLastIndex s)) (ps_Log s))"
      using contig_drop [of "unat (ps_SnapshotLastIndex s)" "ps_Log s", OF _ n(2)] wf n(3)
      by (simp add: wf_state_def word_less_nat_alt)
    moreover have "unat ?i + length (drop (unat ?i - unat (ps_SnapshotLastIndex s)) (ps_Log s)) < 2 ^ 64 - 1"
      using wf_length [OF wf] n by (simp add: word_less_nat_alt)
    ultimately show "unat j \<le> unat ?i \<Longrightarrow> ?thesis"
      by (simp add: findEntryByIndex_contig)
  qed
  show ?thesis
  proof (cases rule: install_cases [OF wf, of ?i "isr_LastIncludedTerm r" "isr_LastIncludedRequestId r" sm res,
        case_names covered kept replaced])
    case covered
    then show ?thesis using assms(1) by (simp add: b(1))
  next
    case (kept x)
    then show ?thesis using wf' len res' b(3) sm none [OF kept(2)]
      by (auto simp: b(1) tracks_def word_le_nat_alt)
  next
    case replaced
    then show ?thesis using wf' len res' b(3) sm
      by (auto simp: b(1) tracks_def findEntryByIndex_def)
  qed
qed

lemma tracks_restart:
  assumes "tracks h s" "history h"
  shows "tracks h (Clone s)"
proof -
  let ?k = "ps_KnownGlobalCommitIndex s"
  have k: "unat ?k \<le> length h" "ps_AppliedIndex s = ?k" "wf_state s"
    using assms(1) by (auto simp: tracks_def wf_state_def)
  have v: "list_all valid_entry (take n h)" for n
    using assms(2) by (auto simp: history_def list_all_iff dest: in_set_takeD)
  have "wf_state (coerce_state s)" using k(3) by (auto simp: wf_state_def contig_def)
  moreover have "coerce_entry e = h ! (unat j - 1)" if "j \<le> ?k" "entry_at s j = Some e" for j e
  proof -
    have e: "e = h ! (unat j - 1)" using assms(1) that by (simp add: tracks_def)
    have "unat j - 1 < length h"
      using that(1) k(1) find_Some_index [OF that(2)] unat_gt_0 [of j] by (simp add: word_le_nat_alt)
    then have "valid_entry e" using assms(2) e by (auto simp: history_def list_all_length)
    then show ?thesis using e by simp
  qed
  moreover have "ps_StateMachine (coerce_state s) = ps_StateMachine s"
    using assms(1) coerce_map_valid [OF replay_valid [OF v] coerce_valid]
    by (simp add: coerce_state_def tracks_def)
  moreover have "fmlookup (ps_Results (coerce_state s)) (RequestID e) \<noteq> None"
    if "e \<in> set (take (unat ?k) h)" for e
    using assms(1) that k(2) v [of "unat ?k"] coerce_map_lookup_valid [of "ps_Results s" "RequestID e"]
    by (simp add: coerce_state_def tracks_def list_all_iff valid_entry_def)
  ultimately show ?thesis
    using assms(1) k by (auto simp: tracks_def Clone_eq findEntryByIndex_map)
qed

lemma log_reachable_tracks: "log_reachable h s \<Longrightarrow> history h \<Longrightarrow> tracks h s"
  by (induction rule: log_reachable.induct)
     (auto intro: tracks_empty tracks_append tracks_apply_next tracks_apply_again tracks_compact
       tracks_restart tracks_install)

section \<open>State machine safety\<close>

text \<open>C21: whatever appends, overwrites, compactions, restarts and snapshot transfers two replicas of one
  decided history went through, each state machine is the replay of the applied prefix of that
  history; replicas that applied equally many entries hold the same data.\<close>

theorem replicas_agree:
  assumes "history h" "log_reachable h s" "log_reachable h s'"
    and "ps_AppliedIndex s = ps_AppliedIndex s'"
  shows "ps_StateMachine s = replay (take (unat (ps_AppliedIndex s)) h) \<and>
    ps_StateMachine s' = ps_StateMachine s"
  using log_reachable_tracks [OF assms(2,1)] log_reachable_tracks [OF assms(3,1)] assms(4)
  by (simp add: tracks_def)

text \<open>A node never forgets the outcome of a decided request: after any such run, every entry of the
  applied prefix still has a recorded client result, compacted or not.\<close>

theorem applied_results_kept:
  assumes "history h" "log_reachable h s" "e \<in> set (take (unat (ps_AppliedIndex s)) h)"
  shows "fmlookup (ps_Results s) (RequestID e) \<noteq> None"
  using log_reachable_tracks [OF assms(2,1)] assms(3) by (auto simp: tracks_def)

section \<open>A concrete run\<close>

definition ex_history :: "LogEntry list" where
  "ex_history = [ex_entry 1 1 ''r1'', ex_entry 2 2 ''r2'']"

text \<open>One node appends and applies the first entry; another receives it as a snapshot.\<close>

definition ex_appended :: PersistentState where
  "ex_appended = empty_state\<lparr>ps_Log := [ex_entry 1 1 ''r1'']\<rparr>"

definition ex_applied :: PersistentState where
  "ex_applied = applyEntry ex_appended (ex_entry 1 1 ''r1'')"

definition ex_installed :: PersistentState where
  "ex_installed = fst (installSnapshotState empty_state 1 1 ''r1'' (ps_StateMachine ex_applied)
     (ps_Results ex_applied))"

definition ex_request :: InstallSnapshotRequest where
  "ex_request = \<lparr>isr_GlobalTerm = 0, isr_SenderNodeId = ''n'', isr_LastIncludedIndex = 1,
     isr_LastIncludedTerm = 1, isr_LastIncludedRequestId = ''r1'',
     isr_StateMachine = enc_map enc_str (ps_StateMachine ex_applied),
     isr_Results = enc_map enc_result (ps_Results ex_applied), isr_FanoutToDomain = True\<rparr>"

lemma ex_history: "history ex_history"
  by code_simp

lemma ex_applied_reachable: "log_reachable ex_history ex_applied"
proof -
  have "appendEntryChecked empty_state (ex_entry 1 1 ''r1'') 0 0 = Some (ex_appended, appendAccepted)"
    "GlobalIndex (ex_entry 1 1 ''r1'') \<noteq> max_u64" by code_simp+
  then have 1: "log_reachable ex_history ex_appended"
    using log_reachable.append log_reachable.init by blast
  have "unat (ps_KnownGlobalCommitIndex ex_appended) < length ex_history \<and>
    entry_at ex_appended (ps_KnownGlobalCommitIndex ex_appended + 1) = Some (ex_entry 1 1 ''r1'') \<and>
    ex_entry 1 1 ''r1'' = ex_history ! unat (ps_KnownGlobalCommitIndex ex_appended)" by code_simp
  then show ?thesis unfolding ex_applied_def using log_reachable.apply_next [OF 1] by blast
qed

lemma ex_installed_reachable: "log_reachable ex_history ex_installed"
proof -
  have "buildSnapshotRequestLocked ''n'' ex_applied = Inr ex_request"
    "dec_map dec_str (isr_StateMachine ex_request) = Some (ps_StateMachine ex_applied)"
    "dec_map dec_result (isr_Results ex_request) = Some (ps_Results ex_applied)"
    by code_simp+
  from log_reachable.install [OF log_reachable.init ex_applied_reachable this]
  show ?thesis by (simp add: ex_installed_def ex_request_def)
qed

lemma replicas_agree_witness:
  "ps_StateMachine ex_applied = replay (take 1 ex_history) \<and>
   ps_StateMachine ex_installed = ps_StateMachine ex_applied"
proof -
  have "ps_AppliedIndex ex_applied = ps_AppliedIndex ex_installed" "unat (ps_AppliedIndex ex_applied) = 1"
    by code_simp+
  then show ?thesis
    using replicas_agree [OF ex_history ex_applied_reachable ex_installed_reachable] by simp
qed

lemma applied_results_kept_witness:
  "fmlookup (ps_Results ex_installed) (RequestID (ex_entry 1 1 ''r1'')) \<noteq> None"
proof -
  have "ex_entry 1 1 ''r1'' \<in> set (take (unat (ps_AppliedIndex ex_installed)) ex_history)"
    by code_simp
  then show ?thesis by (rule applied_results_kept [OF ex_history ex_installed_reachable])
qed

end
