(* ===== verification/Transitions.thy ===== *)
theory Transitions
  imports Raft_Log
begin

text \<open>
  \<open>internal/cdraft/transitions.go\<close>: the election transitions that the production node and the
  simulation share.  Each takes the persistent state and the role (and stage) it may change and
  returns them.  Terms never decrease and a vote, once cast, is never changed within its term
  (\<open>voter\<close>, interpreted for the domain and for the global layer); a leader that sees a higher
  term steps down.
\<close>

section \<open>Domain layer\<close>

definition transitionStartDomainCampaign ::
    "PersistentState \<Rightarrow> Role \<Rightarrow> string \<Rightarrow> PersistentState \<times> Role \<times> u64 \<times> LogSummary" where
  "transitionStartDomainCampaign state domainRole candidateID =
     (let s = state\<lparr>ps_DomainTerm := ps_DomainTerm state + 1, ps_DomainVotedFor := candidateID,
                    ps_DomainLeader := no_dli\<rparr>
      in (s, Candidate, ps_DomainTerm s, Summary s))"

definition transitionObserveHigherDomainTerm ::
    "PersistentState \<Rightarrow> Role \<Rightarrow> u64 \<Rightarrow> PersistentState \<times> Role \<times> bool" where
  "transitionObserveHigherDomainTerm state domainRole term =
     (if term \<le> ps_DomainTerm state then (state, domainRole, False)
      else (state\<lparr>ps_DomainTerm := term, ps_DomainVotedFor := [], ps_DomainLeader := no_dli\<rparr>,
            Follower, True))"

definition transitionDomainVote ::
    "PersistentState \<Rightarrow> Role \<Rightarrow> DomainVoteRequest \<Rightarrow>
     PersistentState \<times> Role \<times> DomainVoteResponse \<times> bool" where
  "transitionDomainVote state domainRole request =
     (if dvr_DomainTerm request < ps_DomainTerm state
      then (state, domainRole,
            \<lparr>dvp_DomainTerm = ps_DomainTerm state, dvp_Granted = False\<rparr>, False)
      else let (s, r) =
             (if dvr_DomainTerm request > ps_DomainTerm state
              then (case transitionObserveHigherDomainTerm state domainRole (dvr_DomainTerm request) of
                      (s, r, _) \<Rightarrow> (s, r))
              else (state, domainRole));
             granted = ((ps_DomainVotedFor s = [] \<or> ps_DomainVotedFor s = dvr_Candidate request) \<and>
                        AtLeast (dvr_Log request) (Summary s));
             s' = (if granted then s\<lparr>ps_DomainVotedFor := dvr_Candidate request\<rparr> else s)
           in (s', r, \<lparr>dvp_DomainTerm = ps_DomainTerm s', dvp_Granted = granted\<rparr>, granted))"

definition transitionAcceptDomainLeader ::
    "PersistentState \<Rightarrow> Role \<Rightarrow> string \<Rightarrow> DomainLeaderIdentity \<Rightarrow> PersistentState \<times> Role \<times> bool" where
  "transitionAcceptDomainLeader state domainRole localNodeID identity =
     (if DomainTerm identity < ps_DomainTerm state then (state, domainRole, False)
      else let (s, r) =
             (if DomainTerm identity > ps_DomainTerm state
              then (case transitionObserveHigherDomainTerm state domainRole (DomainTerm identity) of
                      (s, r, _) \<Rightarrow> (s, r))
              else (state, domainRole))
           in (s\<lparr>ps_DomainLeader := identity\<rparr>,
               if NodeID identity \<noteq> localNodeID then Follower else r, True))"

definition transitionBecomeDomainLeader ::
    "PersistentState \<Rightarrow> Role \<Rightarrow> DomainLeaderIdentity \<Rightarrow> PersistentState \<times> Role" where
  "transitionBecomeDomainLeader state domainRole identity =
     (state\<lparr>ps_DomainTerm := max (ps_DomainTerm state) (DomainTerm identity),
            ps_DomainLeader := identity\<rparr>, Leader)"

section \<open>Global layer\<close>

definition transitionStartGlobalCampaign ::
    "PersistentState \<Rightarrow> Role \<Rightarrow> DomainLeaderIdentity \<Rightarrow> PersistentState \<times> Role \<times> u64 \<times> LogSummary" where
  "transitionStartGlobalCampaign state globalRole candidate =
     (let s = state\<lparr>ps_GlobalTerm := ps_GlobalTerm state + 1, ps_GlobalVotedFor := candidate,
                    ps_GlobalLeader := no_gli\<rparr>
      in (s, Candidate, ps_GlobalTerm s, Summary s))"

definition transitionObserveHigherGlobalTerm ::
    "PersistentState \<Rightarrow> Role \<Rightarrow> Stage \<Rightarrow> u64 \<Rightarrow> PersistentState \<times> Role \<times> Stage \<times> bool" where
  "transitionObserveHigherGlobalTerm state globalRole stage term =
     (if term \<le> ps_GlobalTerm state then (state, globalRole, stage, False)
      else (state\<lparr>ps_GlobalTerm := term, ps_GlobalVotedFor := no_dli, ps_GlobalLeader := no_gli\<rparr>,
            Follower, if stage = Serving then GlobalElecting else stage, True))"

definition transitionGlobalVote ::
    "PersistentState \<Rightarrow> Role \<Rightarrow> Stage \<Rightarrow> GlobalVoteRequest \<Rightarrow>
     PersistentState \<times> Role \<times> Stage \<times> GlobalVoteResponse \<times> bool \<times> bool" where
  "transitionGlobalVote state globalRole stage request =
     (if gvr_GlobalTerm request < ps_GlobalTerm state
      then (state, globalRole, stage,
            \<lparr>gvp_Voter = no_dli, gvp_GlobalTerm = ps_GlobalTerm state, gvp_Granted = False\<rparr>, False, False)
      else let (s, r, g, higherTerm) =
             (if gvr_GlobalTerm request > ps_GlobalTerm state
              then (case transitionObserveHigherGlobalTerm state globalRole stage (gvr_GlobalTerm request) of
                      (s, r, g, _) \<Rightarrow> (s, r, g, True))
              else (state, globalRole, stage, False));
             granted = ((\<not> dli_Valid (ps_GlobalVotedFor s) \<or> ps_GlobalVotedFor s = gvr_Candidate request) \<and>
                        AtLeast (gvr_Log request) (Summary s));
             s' = (if granted then s\<lparr>ps_GlobalVotedFor := gvr_Candidate request\<rparr> else s)
           in (s', r, g,
               \<lparr>gvp_Voter = no_dli, gvp_GlobalTerm = ps_GlobalTerm s', gvp_Granted = granted\<rparr>,
               granted, higherTerm))"

definition transitionAcceptGlobalLeader ::
    "PersistentState \<Rightarrow> Role \<Rightarrow> Stage \<Rightarrow> string \<Rightarrow> GlobalLeaderIdentity \<Rightarrow>
     PersistentState \<times> Role \<times> Stage \<times> bool" where
  "transitionAcceptGlobalLeader state globalRole stage localNodeID identity =
     (if gli_GlobalTerm identity < ps_GlobalTerm state then (state, globalRole, stage, False)
      else let (s, r) =
             (if gli_GlobalTerm identity > ps_GlobalTerm state
              then (case transitionObserveHigherGlobalTerm state globalRole stage (gli_GlobalTerm identity) of
                      (s, r, _) \<Rightarrow> (s, r))
              else (state, globalRole))
           in (s\<lparr>ps_GlobalLeader := identity\<rparr>,
               if NodeID (gli_DomainLeader identity) \<noteq> localNodeID then Follower else r, Serving, True))"

definition transitionBecomeGlobalLeader ::
    "PersistentState \<Rightarrow> Role \<Rightarrow> Stage \<Rightarrow> GlobalLeaderIdentity \<Rightarrow> PersistentState \<times> Role \<times> Stage" where
  "transitionBecomeGlobalLeader state globalRole stage identity =
     (state\<lparr>ps_GlobalTerm := max (ps_GlobalTerm state) (gli_GlobalTerm identity),
            ps_GlobalLeader := identity\<rparr>, Leader, Serving)"

definition transitionRevokeGlobalLeadership ::
    "PersistentState \<Rightarrow> Role \<Rightarrow> Stage \<Rightarrow> PersistentState \<times> Role \<times> Stage" where
  "transitionRevokeGlobalLeadership state globalRole stage =
     (state\<lparr>ps_GlobalLeader := no_gli\<rparr>, Follower, if stage = Serving then GlobalElecting else stage)"

lemmas transition_defs =
  transitionStartDomainCampaign_def transitionObserveHigherDomainTerm_def transitionDomainVote_def
  transitionAcceptDomainLeader_def transitionBecomeDomainLeader_def
  transitionStartGlobalCampaign_def transitionObserveHigherGlobalTerm_def transitionGlobalVote_def
  transitionAcceptGlobalLeader_def transitionBecomeGlobalLeader_def transitionRevokeGlobalLeadership_def

section \<open>Voters\<close>

text \<open>What an election relies on in a voter: its term only grows, and within a term the vote it has
  cast stays.\<close>

locale voter =
  fixes "term" :: "'s \<Rightarrow> u64" and vote :: "'s \<Rightarrow> 'c" and cast :: "'c \<Rightarrow> bool"
    and step :: "'s \<Rightarrow> 's \<Rightarrow> bool"
  assumes term_mono: "step s s' \<Longrightarrow> term s \<le> term s'"
    and vote_kept: "step s s' \<Longrightarrow> term s' = term s \<Longrightarrow> cast (vote s) \<Longrightarrow> vote s' = vote s"
begin

lemma run_term_mono: "step\<^sup>*\<^sup>* s s' \<Longrightarrow> term s \<le> term s'"
  by (induction rule: rtranclp_induct) (auto dest: term_mono)

lemma run_vote_kept: "step\<^sup>*\<^sup>* s s' \<Longrightarrow> term s' = term s \<Longrightarrow> cast (vote s) \<Longrightarrow> vote s' = vote s"
proof (induction rule: rtranclp_induct)
  case base
  then show ?case by simp
next
  case (step s1 s2)
  have "term s \<le> term s1" "term s1 \<le> term s2"
    using run_term_mono [OF step(1)] term_mono [OF step(2)] by auto
  then have "term s1 = term s" using step.prems by simp
  then show ?case using step vote_kept [OF step(2)] by simp
qed

end

definition dvote_le :: "PersistentState \<Rightarrow> PersistentState \<Rightarrow> bool" where
  "dvote_le s s' \<longleftrightarrow> ps_DomainTerm s \<le> ps_DomainTerm s' \<and>
     (ps_DomainTerm s' = ps_DomainTerm s \<longrightarrow> ps_DomainVotedFor s \<noteq> [] \<longrightarrow>
        ps_DomainVotedFor s' = ps_DomainVotedFor s)"

definition gvote_le :: "PersistentState \<Rightarrow> PersistentState \<Rightarrow> bool" where
  "gvote_le s s' \<longleftrightarrow> ps_GlobalTerm s \<le> ps_GlobalTerm s' \<and>
     (ps_GlobalTerm s' = ps_GlobalTerm s \<longrightarrow> dli_Valid (ps_GlobalVotedFor s) \<longrightarrow>
        ps_GlobalVotedFor s' = ps_GlobalVotedFor s)"

interpretation domain_voter: voter ps_DomainTerm ps_DomainVotedFor "\<lambda>v. v \<noteq> []" dvote_le
  by unfold_locales (auto simp: dvote_le_def)

interpretation global_voter: voter ps_GlobalTerm ps_GlobalVotedFor dli_Valid gvote_le
  by unfold_locales (auto simp: gvote_le_def)

lemma dvote_le_refl [simp]: "dvote_le s s"
  by (simp add: dvote_le_def)

lemma gvote_le_refl [simp]: "gvote_le s s"
  by (simp add: gvote_le_def)

lemma dvote_le_trans: "dvote_le s t \<Longrightarrow> dvote_le t u \<Longrightarrow> dvote_le s u"
  unfolding dvote_le_def by (metis order.antisym order.trans)

lemma gvote_le_trans: "gvote_le s t \<Longrightarrow> gvote_le t u \<Longrightarrow> gvote_le s u"
  unfolding gvote_le_def by (metis order.antisym order.trans)

section \<open>What each transition does to terms, votes and roles\<close>

lemma Observe_domain:
  assumes "transitionObserveHigherDomainTerm s r t = (s', r', b)"
  shows "dvote_le s s'" "gvote_le s s'" "ps_Log s' = ps_Log s" "ps_DomainTerm s' = max (ps_DomainTerm s) t"
    "r' = Leader \<Longrightarrow> r = Leader \<and> ps_DomainTerm s' = ps_DomainTerm s"
  using assms by (auto simp: transition_defs dvote_le_def gvote_le_def max_def split: if_splits)

lemma DomainVote_cases:
  assumes "transitionDomainVote s r req = (s', r', resp, granted)"
  shows "dvote_le s s'" "gvote_le s s'"
    "granted \<Longrightarrow> ps_DomainTerm s' = dvr_DomainTerm req \<and> ps_DomainVotedFor s' = dvr_Candidate req \<and>
       AtLeast (dvr_Log req) (Summary s) \<and>
       (ps_DomainTerm s = dvr_DomainTerm req \<longrightarrow>
          ps_DomainVotedFor s = [] \<or> ps_DomainVotedFor s = dvr_Candidate req)"
    "dvp_Granted resp = granted" "dvp_DomainTerm resp = ps_DomainTerm s'"
    "r' = Leader \<Longrightarrow> r = Leader \<and> ps_DomainTerm s' = ps_DomainTerm s"
  using assms
  by (auto simp: transition_defs dvote_le_def gvote_le_def Let_def Summary_def split: if_splits prod.splits)

lemma AcceptDomain_cases:
  assumes "transitionAcceptDomainLeader s r n i = (s', r', b)"
  shows "dvote_le s s'" "gvote_le s s'" "b \<longleftrightarrow> ps_DomainTerm s \<le> DomainTerm i"
    "b \<Longrightarrow> ps_DomainLeader s' = i \<and> ps_DomainTerm s' = DomainTerm i"
    "\<not> b \<Longrightarrow> s' = s \<and> r' = r"
    "r' = Leader \<Longrightarrow> r = Leader \<and> ps_DomainTerm s' = ps_DomainTerm s"
  using assms
  by (auto simp: transition_defs dvote_le_def gvote_le_def split: if_splits)

lemma BecomeDomain_cases:
  assumes "transitionBecomeDomainLeader s r i = (s', r')"
  shows "dvote_le s s'" "gvote_le s s'" "r' = Leader" "ps_DomainLeader s' = i"
    "ps_DomainTerm s' = max (ps_DomainTerm s) (DomainTerm i)"
    "ps_DomainVotedFor s' = ps_DomainVotedFor s"
  using assms
  by (auto simp: transition_defs dvote_le_def gvote_le_def)

lemma StartDomain_cases:
  assumes "transitionStartDomainCampaign s r c = (s', r', t, l)" "ps_DomainTerm s \<noteq> max_u64"
  shows "dvote_le s s'" "gvote_le s s'" "ps_DomainTerm s < ps_DomainTerm s'" "t = ps_DomainTerm s'"
    "ps_DomainVotedFor s' = c" "r' = Candidate" "l = Summary s"
  using assms u64_less_plus1 [OF assms(2)]
  by (auto simp: transition_defs dvote_le_def gvote_le_def Let_def Summary_def)

lemma Observe_global:
  assumes "transitionObserveHigherGlobalTerm s r g t = (s', r', g', b)"
  shows "dvote_le s s'" "gvote_le s s'" "ps_GlobalTerm s' = max (ps_GlobalTerm s) t"
    "r' = Leader \<Longrightarrow> r = Leader \<and> ps_GlobalTerm s' = ps_GlobalTerm s"
  using assms by (auto simp: transition_defs dvote_le_def gvote_le_def max_def split: if_splits)

lemma GlobalVote_cases:
  assumes "transitionGlobalVote s r g req = (s', r', g', resp, granted, higher)"
  shows "dvote_le s s'" "gvote_le s s'"
    "granted \<Longrightarrow> ps_GlobalTerm s' = gvr_GlobalTerm req \<and> ps_GlobalVotedFor s' = gvr_Candidate req \<and>
       AtLeast (gvr_Log req) (Summary s) \<and>
       (ps_GlobalTerm s = gvr_GlobalTerm req \<longrightarrow>
          \<not> dli_Valid (ps_GlobalVotedFor s) \<or> ps_GlobalVotedFor s = gvr_Candidate req)"
    "gvp_Granted resp = granted" "gvp_GlobalTerm resp = ps_GlobalTerm s'"
    "higher \<longleftrightarrow> ps_GlobalTerm s < gvr_GlobalTerm req"
    "r' = Leader \<Longrightarrow> r = Leader \<and> ps_GlobalTerm s' = ps_GlobalTerm s"
  using assms
  by (auto simp: transition_defs dvote_le_def gvote_le_def Let_def Summary_def split: if_splits prod.splits)

lemma AcceptGlobal_cases:
  assumes "transitionAcceptGlobalLeader s r g n i = (s', r', g', b)"
  shows "dvote_le s s'" "gvote_le s s'" "b \<longleftrightarrow> ps_GlobalTerm s \<le> gli_GlobalTerm i"
    "b \<Longrightarrow> ps_GlobalLeader s' = i \<and> ps_GlobalTerm s' = gli_GlobalTerm i \<and> g' = Serving"
    "\<not> b \<Longrightarrow> s' = s \<and> r' = r \<and> g' = g"
    "r' = Leader \<Longrightarrow> r = Leader \<and> ps_GlobalTerm s' = ps_GlobalTerm s"
  using assms
  by (auto simp: transition_defs dvote_le_def gvote_le_def split: if_splits)

lemma BecomeGlobal_cases:
  assumes "transitionBecomeGlobalLeader s r g i = (s', r', g')"
  shows "dvote_le s s'" "gvote_le s s'" "r' = Leader" "g' = Serving" "ps_GlobalLeader s' = i"
    "ps_GlobalTerm s' = max (ps_GlobalTerm s) (gli_GlobalTerm i)"
    "ps_GlobalVotedFor s' = ps_GlobalVotedFor s"
  using assms by (auto simp: transition_defs dvote_le_def gvote_le_def)

lemma StartGlobal_cases:
  assumes "transitionStartGlobalCampaign s r c = (s', r', t, l)" "ps_GlobalTerm s \<noteq> max_u64"
  shows "dvote_le s s'" "gvote_le s s'" "ps_GlobalTerm s < ps_GlobalTerm s'" "t = ps_GlobalTerm s'"
    "ps_GlobalVotedFor s' = c" "r' = Candidate" "l = Summary s"
  using assms u64_less_plus1 [OF assms(2)]
  by (auto simp: transition_defs dvote_le_def gvote_le_def Let_def Summary_def)

lemma Revoke_cases:
  assumes "transitionRevokeGlobalLeadership s r g = (s', r', g')"
  shows "dvote_le s s'" "gvote_le s s'" "r' = Follower" "ps_GlobalLeader s' = no_gli" "g' \<noteq> Serving"
    "ps_GlobalTerm s' = ps_GlobalTerm s"
  using assms by (auto simp: transition_defs dvote_le_def gvote_le_def split: if_splits)

lemma wf_state_frame:
  assumes "ps_Log s' = ps_Log s" "ps_SnapshotLastIndex s' = ps_SnapshotLastIndex s"
    "ps_AppliedIndex s' = ps_AppliedIndex s" "ps_KnownGlobalCommitIndex s' = ps_KnownGlobalCommitIndex s"
  shows "wf_state s' = wf_state s"
  by (simp add: wf_state_def assms)

section \<open>Runs of a node\<close>

text \<open>The election part of a node, and every way the transitions change it.  Log operations leave the
  election fields alone (\<open>other\<close>).  A campaign needs a term that can still grow.\<close>

record Elector =
  el_State :: PersistentState
  el_DomainRole :: Role
  el_GlobalRole :: Role
  el_Stage :: Stage

inductive election_step :: "Elector \<Rightarrow> Elector \<Rightarrow> bool" where
  start_domain: "transitionStartDomainCampaign (el_State c) (el_DomainRole c) n = (s, r, t, l) \<Longrightarrow>
    ps_DomainTerm (el_State c) \<noteq> max_u64 \<Longrightarrow> election_step c (c\<lparr>el_State := s, el_DomainRole := r\<rparr>)"
| observe_domain: "transitionObserveHigherDomainTerm (el_State c) (el_DomainRole c) t = (s, r, b) \<Longrightarrow>
    election_step c (c\<lparr>el_State := s, el_DomainRole := r\<rparr>)"
| vote_domain: "transitionDomainVote (el_State c) (el_DomainRole c) req = (s, r, p, b) \<Longrightarrow>
    election_step c (c\<lparr>el_State := s, el_DomainRole := r\<rparr>)"
| accept_domain: "transitionAcceptDomainLeader (el_State c) (el_DomainRole c) n i = (s, r, b) \<Longrightarrow>
    election_step c (c\<lparr>el_State := s, el_DomainRole := r\<rparr>)"
| become_domain: "transitionBecomeDomainLeader (el_State c) (el_DomainRole c) i = (s, r) \<Longrightarrow>
    election_step c (c\<lparr>el_State := s, el_DomainRole := r\<rparr>)"
| start_global: "transitionStartGlobalCampaign (el_State c) (el_GlobalRole c) d = (s, r, t, l) \<Longrightarrow>
    ps_GlobalTerm (el_State c) \<noteq> max_u64 \<Longrightarrow> election_step c (c\<lparr>el_State := s, el_GlobalRole := r\<rparr>)"
| observe_global:
    "transitionObserveHigherGlobalTerm (el_State c) (el_GlobalRole c) (el_Stage c) t = (s, r, g, b) \<Longrightarrow>
    election_step c (c\<lparr>el_State := s, el_GlobalRole := r, el_Stage := g\<rparr>)"
| vote_global: "transitionGlobalVote (el_State c) (el_GlobalRole c) (el_Stage c) req' = (s, r, g, q, b, h) \<Longrightarrow>
    election_step c (c\<lparr>el_State := s, el_GlobalRole := r, el_Stage := g\<rparr>)"
| accept_global:
    "transitionAcceptGlobalLeader (el_State c) (el_GlobalRole c) (el_Stage c) n j = (s, r, g, b) \<Longrightarrow>
    election_step c (c\<lparr>el_State := s, el_GlobalRole := r, el_Stage := g\<rparr>)"
| become_global:
    "transitionBecomeGlobalLeader (el_State c) (el_GlobalRole c) (el_Stage c) j = (s, r, g) \<Longrightarrow>
    election_step c (c\<lparr>el_State := s, el_GlobalRole := r, el_Stage := g\<rparr>)"
| revoke_global: "transitionRevokeGlobalLeadership (el_State c) (el_GlobalRole c) (el_Stage c) = (s, r, g) \<Longrightarrow>
    election_step c (c\<lparr>el_State := s, el_GlobalRole := r, el_Stage := g\<rparr>)"
| other: "ps_DomainTerm s = ps_DomainTerm (el_State c) \<Longrightarrow> ps_DomainVotedFor s = ps_DomainVotedFor (el_State c) \<Longrightarrow>
    ps_GlobalTerm s = ps_GlobalTerm (el_State c) \<Longrightarrow> ps_GlobalVotedFor s = ps_GlobalVotedFor (el_State c) \<Longrightarrow>
    election_step c (c\<lparr>el_State := s\<rparr>)"

lemma election_step_votes:
  "election_step c c' \<Longrightarrow> dvote_le (el_State c) (el_State c') \<and> gvote_le (el_State c) (el_State c')"
proof (induction rule: election_step.induct)
  case (other s c)
  then show ?case by (simp add: dvote_le_def gvote_le_def)
qed (auto dest: Observe_domain DomainVote_cases AcceptDomain_cases BecomeDomain_cases StartDomain_cases
    Observe_global GlobalVote_cases AcceptGlobal_cases BecomeGlobal_cases StartGlobal_cases Revoke_cases)

interpretation domain_elector: voter "\<lambda>c. ps_DomainTerm (el_State c)" "\<lambda>c. ps_DomainVotedFor (el_State c)"
  "\<lambda>v. v \<noteq> []" election_step
  by unfold_locales (auto dest!: election_step_votes simp: dvote_le_def)

interpretation global_elector: voter "\<lambda>c. ps_GlobalTerm (el_State c)" "\<lambda>c. ps_GlobalVotedFor (el_State c)"
  dli_Valid election_step
  by unfold_locales (auto dest!: election_step_votes simp: gvote_le_def)

text \<open>A node that granted its domain vote to a candidate never grants it to another candidate in
  the same domain term, whatever election transitions and log operations lie between.\<close>

theorem domain_vote_once:
  assumes "transitionDomainVote (el_State c) (el_DomainRole c) req = (s, r, resp, True)"
    and "dvr_Candidate req \<noteq> []"
    and "election_step\<^sup>*\<^sup>* (c\<lparr>el_State := s, el_DomainRole := r\<rparr>) c'"
    and "transitionDomainVote (el_State c') (el_DomainRole c') req' = (s', r', resp', True)"
    and "dvr_DomainTerm req' = dvr_DomainTerm req"
  shows "dvr_Candidate req' = dvr_Candidate req"
proof -
  note g = DomainVote_cases(3) [OF assms(1)] DomainVote_cases(3) [OF assms(4)]
  have le: "ps_DomainTerm s \<le> ps_DomainTerm (el_State c')"
    using domain_elector.run_term_mono [OF assms(3)] by simp
  moreover have "ps_DomainTerm (el_State c') \<le> ps_DomainTerm s'"
    using DomainVote_cases(1) [OF assms(4)] by (simp add: dvote_le_def)
  ultimately have eq: "ps_DomainTerm (el_State c') = ps_DomainTerm s" using g assms(5) by simp
  then have "ps_DomainVotedFor (el_State c') = dvr_Candidate req"
    using domain_elector.run_vote_kept [OF assms(3)] g assms(2) by simp
  then show ?thesis using g eq assms(2,5) by auto
qed

text \<open>A Domain Leader that granted its global vote to a candidate identity never grants it to
  another identity in the same global term.\<close>

theorem global_vote_once:
  assumes "transitionGlobalVote (el_State c) (el_GlobalRole c) (el_Stage c) req = (s, r, g, resp, True, h)"
    and "dli_Valid (gvr_Candidate req)"
    and "election_step\<^sup>*\<^sup>* (c\<lparr>el_State := s, el_GlobalRole := r, el_Stage := g\<rparr>) c'"
    and "transitionGlobalVote (el_State c') (el_GlobalRole c') (el_Stage c') req' = (s', r', g', resp', True, h')"
    and "gvr_GlobalTerm req' = gvr_GlobalTerm req"
  shows "gvr_Candidate req' = gvr_Candidate req"
proof -
  note gr = GlobalVote_cases(3) [OF assms(1)] GlobalVote_cases(3) [OF assms(4)]
  have "ps_GlobalTerm s \<le> ps_GlobalTerm (el_State c')"
    using global_elector.run_term_mono [OF assms(3)] by simp
  moreover have "ps_GlobalTerm (el_State c') \<le> ps_GlobalTerm s'"
    using GlobalVote_cases(2) [OF assms(4)] by (simp add: gvote_le_def)
  ultimately have eq: "ps_GlobalTerm (el_State c') = ps_GlobalTerm s" using gr assms(5) by simp
  then have "ps_GlobalVotedFor (el_State c') = gvr_Candidate req"
    using global_elector.run_vote_kept [OF assms(3)] gr assms(2) by simp
  then show ?thesis using gr eq assms(2,5) by auto
qed

text \<open>A granted vote means the candidate's log is at least as up to date as the voter's (term first,
  then index), in both layers, and the voter's term is exactly the request's.\<close>

theorem granted_votes_up_to_date:
  assumes "transitionDomainVote s r req = (s1, r1, resp1, True)"
    and "transitionGlobalVote s r' g req' = (s2, r2, g2, resp2, True, h)"
  shows "Summary s \<le> dvr_Log req \<and> ps_DomainTerm s1 = dvr_DomainTerm req \<and>
     Summary s \<le> gvr_Log req' \<and> ps_GlobalTerm s2 = gvr_GlobalTerm req'"
  using DomainVote_cases(3) [OF assms(1)] GlobalVote_cases(3) [OF assms(2)] by (simp add: AtLeast_iff_ge)

text \<open>Leadership comes only from the \<open>Become\<close> transitions; every other transition leaves a node
  leader of a layer only if it was leader before and its term of that layer did not move, so a leader
  that learns of a higher term has stepped down.\<close>

theorem leader_only_in_its_term:
  assumes "election_step c c'"
  shows "(el_DomainRole c' = Leader \<longrightarrow>
      el_DomainRole c = Leader \<and> ps_DomainTerm (el_State c') = ps_DomainTerm (el_State c) \<or>
      (\<exists>i. transitionBecomeDomainLeader (el_State c) (el_DomainRole c) i = (el_State c', Leader))) \<and>
    (el_GlobalRole c' = Leader \<longrightarrow>
      el_GlobalRole c = Leader \<and> ps_GlobalTerm (el_State c') = ps_GlobalTerm (el_State c) \<or>
      (\<exists>j. transitionBecomeGlobalLeader (el_State c) (el_GlobalRole c) (el_Stage c) j =
        (el_State c', Leader, el_Stage c')))"
  using assms
  by (induction rule: election_step.induct)
     (auto simp: transition_defs Let_def split: if_splits prod.splits)

section \<open>Concrete instances\<close>

definition ex_elector :: Elector where
  "ex_elector = \<lparr>el_State = empty_state, el_DomainRole = Follower, el_GlobalRole = Follower,
     el_Stage = DomainReady\<rparr>"

definition ex_dvr :: DomainVoteRequest where
  "ex_dvr = \<lparr>dvr_DomainID = ''d'', dvr_Candidate = ''n1'', dvr_DomainTerm = 3,
     dvr_Log = \<lparr>LastGlobalTerm = 1, LastGlobalIndex = 4\<rparr>\<rparr>"

definition ex_gvr :: GlobalVoteRequest where
  "ex_gvr = \<lparr>gvr_Candidate = \<lparr>DomainID = ''d'', NodeID = ''n1'', DomainTerm = 3\<rparr>, gvr_GlobalTerm = 2,
     gvr_Log = \<lparr>LastGlobalTerm = 1, LastGlobalIndex = 4\<rparr>\<rparr>"

definition ex_voted :: PersistentState where
  "ex_voted = empty_state\<lparr>ps_DomainTerm := 3, ps_DomainVotedFor := ''n1''\<rparr>"

definition ex_gvoted :: PersistentState where
  "ex_gvoted = empty_state\<lparr>ps_GlobalTerm := 2, ps_GlobalVotedFor := gvr_Candidate ex_gvr\<rparr>"

lemma ex_domain_vote:
  "transitionDomainVote (el_State ex_elector) (el_DomainRole ex_elector) ex_dvr =
     (ex_voted, Follower, \<lparr>dvp_DomainTerm = 3, dvp_Granted = True\<rparr>, True)"
  "transitionDomainVote ex_voted Follower ex_dvr =
     (ex_voted, Follower, \<lparr>dvp_DomainTerm = 3, dvp_Granted = True\<rparr>, True)"
  by code_simp+

lemma ex_global_vote:
  "transitionGlobalVote (el_State ex_elector) (el_GlobalRole ex_elector) (el_Stage ex_elector) ex_gvr =
     (ex_gvoted, Follower, DomainReady,
      \<lparr>gvp_Voter = no_dli, gvp_GlobalTerm = 2, gvp_Granted = True\<rparr>, True, True)"
  "transitionGlobalVote ex_gvoted Follower DomainReady ex_gvr =
     (ex_gvoted, Follower, DomainReady,
      \<lparr>gvp_Voter = no_dli, gvp_GlobalTerm = 2, gvp_Granted = True\<rparr>, True, False)"
  by code_simp+

text \<open>Between the two votes the node appends a log entry.\<close>

lemma domain_vote_once_witness:
  "dvr_Candidate ex_dvr = ''n1'' \<and> dvr_Candidate (ex_dvr\<lparr>dvr_DomainID := ''e''\<rparr>) = dvr_Candidate ex_dvr"
proof -
  let ?c = "ex_elector\<lparr>el_State := ex_voted, el_DomainRole := Follower\<rparr>"
  let ?s = "ex_voted\<lparr>ps_Log := [ex_entry 1 1 ''r1'']\<rparr>"
  have ne: "dvr_Candidate ex_dvr \<noteq> []" by code_simp
  have "election_step ?c (?c\<lparr>el_State := ?s\<rparr>)" by (rule election_step.other) simp_all
  then have run: "election_step\<^sup>*\<^sup>* ?c (?c\<lparr>el_State := ?s\<rparr>)" by simp
  have vote: "transitionDomainVote (el_State (?c\<lparr>el_State := ?s\<rparr>)) (el_DomainRole (?c\<lparr>el_State := ?s\<rparr>))
      (ex_dvr\<lparr>dvr_DomainID := ''e''\<rparr>) = (?s, Follower, \<lparr>dvp_DomainTerm = 3, dvp_Granted = True\<rparr>, True)"
    by code_simp
  show ?thesis
    using domain_vote_once [OF ex_domain_vote(1) ne run vote] by (simp add: ex_dvr_def)
qed

lemma global_vote_once_witness:
  "gvr_Candidate (ex_gvr\<lparr>gvr_Log := \<lparr>LastGlobalTerm = 9, LastGlobalIndex = 9\<rparr>\<rparr>) = gvr_Candidate ex_gvr"
proof -
  let ?c = "ex_elector\<lparr>el_State := ex_gvoted, el_GlobalRole := Follower, el_Stage := DomainReady\<rparr>"
  let ?r = "ex_gvr\<lparr>gvr_Log := \<lparr>LastGlobalTerm = 9, LastGlobalIndex = 9\<rparr>\<rparr>"
  have ne: "dli_Valid (gvr_Candidate ex_gvr)" by code_simp
  have run: "election_step\<^sup>*\<^sup>* ?c ?c" by simp
  have vote: "transitionGlobalVote (el_State ?c) (el_GlobalRole ?c) (el_Stage ?c) ?r =
     (ex_gvoted, Follower, DomainReady,
      \<lparr>gvp_Voter = no_dli, gvp_GlobalTerm = 2, gvp_Granted = True\<rparr>, True, False)" by code_simp
  show ?thesis
    using global_vote_once [OF ex_global_vote(1) ne run vote] by (simp add: ex_gvr_def)
qed

lemma granted_votes_up_to_date_witness:
  "Summary empty_state \<le> dvr_Log ex_dvr \<and> Summary empty_state \<le> gvr_Log ex_gvr"
proof -
  have s: "el_State ex_elector = empty_state" by (simp add: ex_elector_def)
  show ?thesis
    using granted_votes_up_to_date [OF ex_domain_vote(1) ex_global_vote(1) [unfolded s, folded s]]
    by (simp add: s)
qed

lemma leader_only_in_its_term_witness:
  "el_DomainRole (ex_elector\<lparr>el_State := ex_voted, el_DomainRole := Leader\<rparr>) = Leader \<and>
   (\<exists>i. transitionBecomeDomainLeader ex_voted Follower i =
      (ex_voted\<lparr>ps_DomainLeader := \<lparr>DomainID = ''d'', NodeID = ''n1'', DomainTerm = 3\<rparr>\<rparr>, Leader))"
proof -
  let ?c = "ex_elector\<lparr>el_State := ex_voted\<rparr>"
  let ?i = "\<lparr>DomainID = ''d'', NodeID = ''n1'', DomainTerm = 3\<rparr> :: DomainLeaderIdentity"
  let ?c' = "?c\<lparr>el_State := ex_voted\<lparr>ps_DomainLeader := ?i\<rparr>, el_DomainRole := Leader\<rparr>"
  have "transitionBecomeDomainLeader (el_State ?c) (el_DomainRole ?c) ?i =
      (ex_voted\<lparr>ps_DomainLeader := ?i\<rparr>, Leader)" by code_simp
  then have "election_step ?c ?c'" by (rule election_step.become_domain)
  from leader_only_in_its_term [OF this] show ?thesis by (simp add: ex_elector_def)
qed

end
