(* ===== verification/Topology.thy ===== *)
theory Topology
  imports Types
begin

text \<open>
  \<open>internal/topology/config.go\<close>: the static description of nodes and domains, its validation, and
  the queries the consensus code asks it.  \<open>Validate\<close> accepts exactly the configurations that
  satisfy the declarative predicate \<open>valid_config\<close>; for those the queries behave like a partition
  of the nodes into at least two non-empty domains, with floating domains kept apart.
\<close>

section \<open>Data\<close>

definition ApplicationGroup :: string where "ApplicationGroup = ''cd-raft''"

record Node =
  nd_ID :: string
  nd_DomainCode :: string
  nd_ListenAddress :: string
  nd_InterDomainAddress :: string
  nd_BindListenAddress :: string
  nd_BindInterDomainAddress :: string
  nd_PublicInterDomainAddress :: string
  nd_PublicListenAddress :: string

definition ClientBindAddress :: "Node \<Rightarrow> string" where
  "ClientBindAddress n = (if nd_BindListenAddress n \<noteq> [] then nd_BindListenAddress n else nd_ListenAddress n)"

definition InterDomainBindAddress :: "Node \<Rightarrow> string" where
  "InterDomainBindAddress n =
     (if nd_BindInterDomainAddress n \<noteq> [] then nd_BindInterDomainAddress n else nd_InterDomainAddress n)"

definition InterDomainDialAddress :: "Node \<Rightarrow> string" where
  "InterDomainDialAddress n =
     (if nd_PublicInterDomainAddress n \<noteq> [] then nd_PublicInterDomainAddress n else nd_InterDomainAddress n)"

definition ClientDialAddress :: "Node \<Rightarrow> string" where
  "ClientDialAddress n = (if nd_PublicListenAddress n \<noteq> [] then nd_PublicListenAddress n else nd_ListenAddress n)"

record Features =
  ft_FastReturnEnabled :: bool
  ft_FloatingDomains :: "string list"
  ft_FloatingTelemetryTTLMillis :: u64
  ft_AllowUnknownFloatingDomains :: bool
  ft_LogCompactionThreshold :: u64
  ft_LogCompactionRetain :: u64

record Unsupported =
  us_ApplicationGroups :: int
  us_Shards :: int
  us_CrossGroupTransactions :: bool
  us_RuntimeMembershipChanges :: bool

record NetworkSimulation =
  ns_Enabled :: bool
  ns_LocalOneWayDelayMillis :: int
  ns_InterDomainOneWayMillis :: "int gomap"

record Config =
  cfg_ApplicationGroup :: string
  cfg_Nodes :: "Node list"
  cfg_Features :: Features
  cfg_NetworkSimulation :: NetworkSimulation
  cfg_Unsupported :: Unsupported

datatype DomainKind = DomainUnknown | DomainConsensus | DomainFloating

fun DomainKind_String :: "DomainKind \<Rightarrow> string" where
  "DomainKind_String DomainConsensus = ''consensus''"
| "DomainKind_String DomainFloating = ''floating''"
| "DomainKind_String DomainUnknown = ''unknown''"

datatype config_error =
    BadApplicationGroup | MultipleGroups | Sharding | CrossGroup | MembershipChanges
  | NegativeLocalDelay | NegativeDelay string | BadRoute string | NoNodes
  | EmptyNodeID | EmptyDomainCode string | EmptyAddress string | InvalidAddress string string string
  | DuplicateID string | DuplicateListen string | DuplicateInterDomain string
  | TooFewDomains | EmptyFloating | FloatingOverlap string | DuplicateFloating string

section \<open>Library routines\<close>

text \<open>\<open>strings.Split(s, "->")\<close>: the pieces between the non-overlapping occurrences, left to right.\<close>

fun split_arrow :: "string \<Rightarrow> string list" where
  "split_arrow [] = [[]]"
| "split_arrow [a] = [[a]]"
| "split_arrow (a # b # s) =
     (if a = CHR ''-'' \<and> b = CHR ''>'' then [] # split_arrow s
      else case split_arrow (b # s) of [] \<Rightarrow> [[a]] | p # ps \<Rightarrow> (a # p) # ps)"

fun index_byte :: "string \<Rightarrow> char \<Rightarrow> nat option" where
  "index_byte [] c = None"
| "index_byte (a # s) c = (if a = c then Some 0 else map_option Suc (index_byte s c))"

definition last_index_byte :: "string \<Rightarrow> char \<Rightarrow> nat option" where
  "last_index_byte s c = map_option (\<lambda>k. length s - 1 - k) (index_byte (rev s) c)"

text \<open>\<open>net.SplitHostPort\<close>: \<open>None\<close> stands for its address errors.\<close>

definition SplitHostPort :: "string \<Rightarrow> (string \<times> string) option" where
  "SplitHostPort hp =
     (case last_index_byte hp (CHR '':'') of
        None \<Rightarrow> None
      | Some i \<Rightarrow>
          if hd hp = CHR ''['' then
            (case index_byte hp (CHR '']'') of
               None \<Rightarrow> None
             | Some e \<Rightarrow>
                 if e + 1 \<noteq> i then None
                 else if CHR ''['' \<in> set (drop 1 hp) then None
                 else if CHR '']'' \<in> set (drop (e + 1) hp) then None
                 else Some (take (e - 1) (drop 1 hp), drop (i + 1) hp))
          else if CHR '':'' \<in> set (take i hp) then None
          else if CHR ''['' \<in> set hp then None
          else if CHR '']'' \<in> set hp then None
          else Some (take i hp, drop (i + 1) hp))"

section \<open>Validation\<close>

text \<open>The loop over the configured delays.\<close>

fun check_routes :: "(string \<times> int) list \<Rightarrow> config_error option" where
  "check_routes [] = None"
| "check_routes ((route, delay) # rest) =
     (if delay < 0 then Some (NegativeDelay route)
      else let parts = split_arrow route in
           if length parts \<noteq> 2 \<or> parts ! 0 = [] \<or> parts ! 1 = [] then Some (BadRoute route)
           else check_routes rest)"

text \<open>The loop over the optional address overrides of one node.\<close>

fun check_addresses :: "string \<Rightarrow> (string \<times> string) list \<Rightarrow> config_error option" where
  "check_addresses nid [] = None"
| "check_addresses nid ((label, addr) # rest) =
     (if addr = [] then check_addresses nid rest
      else if SplitHostPort addr = None then Some (InvalidAddress nid label addr)
      else check_addresses nid rest)"

definition overrides :: "Node \<Rightarrow> (string \<times> string) list" where
  "overrides n =
     [(''bindInterDomainAddress'', nd_BindInterDomainAddress n),
      (''bindListenAddress'', nd_BindListenAddress n),
      (''publicInterDomainAddress'', nd_PublicInterDomainAddress n),
      (''publicListenAddress'', nd_PublicListenAddress n)]"

text \<open>The loop over the nodes, with the identifiers and addresses seen so far.\<close>

fun check_nodes ::
    "string list \<Rightarrow> string list \<Rightarrow> string list \<Rightarrow> Node list \<Rightarrow> config_error option" where
  "check_nodes ids listens inters [] = None"
| "check_nodes ids listens inters (n # ns) =
     (if nd_ID n = [] then Some EmptyNodeID
      else if nd_DomainCode n = [] then Some (EmptyDomainCode (nd_ID n))
      else if nd_ListenAddress n = [] \<or> nd_InterDomainAddress n = [] then Some (EmptyAddress (nd_ID n))
      else case check_addresses (nd_ID n) (overrides n) of
        Some e \<Rightarrow> Some e
      | None \<Rightarrow>
          if nd_ID n \<in> set ids then Some (DuplicateID (nd_ID n))
          else if nd_ListenAddress n \<in> set listens then Some (DuplicateListen (nd_ListenAddress n))
          else if nd_InterDomainAddress n \<in> set inters
          then Some (DuplicateInterDomain (nd_InterDomainAddress n))
          else check_nodes (nd_ID n # ids) (nd_ListenAddress n # listens)
                 (nd_InterDomainAddress n # inters) ns)"

fun check_floating :: "string list \<Rightarrow> string list \<Rightarrow> string list \<Rightarrow> config_error option" where
  "check_floating domains seen [] = None"
| "check_floating domains seen (d # ds) =
     (if d = [] then Some EmptyFloating
      else if d \<in> set domains then Some (FloatingOverlap d)
      else if d \<in> set seen then Some (DuplicateFloating d)
      else check_floating domains (d # seen) ds)"

definition config_Validate :: "Config \<Rightarrow> config_error option" where
  "config_Validate c =
     (if cfg_ApplicationGroup c \<noteq> ApplicationGroup then Some BadApplicationGroup
      else if us_ApplicationGroups (cfg_Unsupported c) > 1 then Some MultipleGroups
      else if us_Shards (cfg_Unsupported c) > 0 then Some Sharding
      else if us_CrossGroupTransactions (cfg_Unsupported c) then Some CrossGroup
      else if us_RuntimeMembershipChanges (cfg_Unsupported c) then Some MembershipChanges
      else if ns_LocalOneWayDelayMillis (cfg_NetworkSimulation c) < 0 then Some NegativeLocalDelay
      else case check_routes (sorted_list_of_fmap (ns_InterDomainOneWayMillis (cfg_NetworkSimulation c))) of
        Some e \<Rightarrow> Some e
      | None \<Rightarrow>
          if cfg_Nodes c = [] then Some NoNodes
          else case check_nodes [] [] [] (cfg_Nodes c) of
            Some e \<Rightarrow> Some e
          | None \<Rightarrow>
              let domains = remdups (map nd_DomainCode (cfg_Nodes c)) in
              if length domains < 2 then Some TooFewDomains
              else check_floating domains [] (ft_FloatingDomains (cfg_Features c)))"

section \<open>Queries\<close>

definition OneWayDelay :: "Config \<Rightarrow> string \<Rightarrow> string \<Rightarrow> duration" where
  "OneWayDelay c fromDomain toDomain =
     (let ns = cfg_NetworkSimulation c in
      if \<not> ns_Enabled ns then 0
      else if fromDomain = toDomain then i64 (ns_LocalOneWayDelayMillis ns * millisecond)
      else let m = ns_InterDomainOneWayMillis ns;
               delay = (case fmlookup m (fromDomain @ ''->'' @ toDomain) of
                          Some d \<Rightarrow> d
                        | None \<Rightarrow> getz m (toDomain @ ''->'' @ fromDomain))
           in i64 (delay * millisecond))"

definition ConsensusDomains :: "Config \<Rightarrow> string list" where
  "ConsensusDomains c = sort (remdups (map nd_DomainCode (cfg_Nodes c)))"

definition Domains :: "Config \<Rightarrow> string list" where
  "Domains c = ConsensusDomains c"

definition FloatingDomains :: "Config \<Rightarrow> string list" where
  "FloatingDomains c = sort (ft_FloatingDomains (cfg_Features c))"

definition config_DomainKind :: "Config \<Rightarrow> string \<Rightarrow> DomainKind" where
  "config_DomainKind c domain =
     (if domain = [] then DomainUnknown
      else if domain \<in> set (ConsensusDomains c) then DomainConsensus
      else if domain \<in> set (ft_FloatingDomains (cfg_Features c)) then DomainFloating
      else if ft_AllowUnknownFloatingDomains (cfg_Features c) then DomainFloating
      else DomainUnknown)"

definition IsConsensusDomain :: "Config \<Rightarrow> string \<Rightarrow> bool" where
  "IsConsensusDomain c domain \<longleftrightarrow> config_DomainKind c domain = DomainConsensus"

definition IsFloatingDomain :: "Config \<Rightarrow> string \<Rightarrow> bool" where
  "IsFloatingDomain c domain \<longleftrightarrow> config_DomainKind c domain = DomainFloating"

definition config_Node :: "Config \<Rightarrow> string \<Rightarrow> Node option" where
  "config_Node c i = List.find (\<lambda>n. nd_ID n = i) (cfg_Nodes c)"

definition DomainMembers :: "Config \<Rightarrow> string \<Rightarrow> Node list" where
  "DomainMembers c domainCode = sort_key nd_ID (filter (\<lambda>n. nd_DomainCode n = domainCode) (cfg_Nodes c))"

definition SameDomain :: "Config \<Rightarrow> string \<Rightarrow> error + Node list" where
  "SameDomain c nodeID =
     (case config_Node c nodeID of
        None \<Rightarrow> Inl (ErrUnknownNode nodeID)
      | Some n \<Rightarrow> Inr (DomainMembers c (nd_DomainCode n)))"

section \<open>What validation accepts\<close>

definition node_ok :: "Node \<Rightarrow> bool" where
  "node_ok n \<longleftrightarrow> nd_ID n \<noteq> [] \<and> nd_DomainCode n \<noteq> [] \<and> nd_ListenAddress n \<noteq> [] \<and>
     nd_InterDomainAddress n \<noteq> [] \<and>
     (\<forall>(label, addr) \<in> set (overrides n). addr \<noteq> [] \<longrightarrow> SplitHostPort addr \<noteq> None)"

definition route_ok :: "string \<Rightarrow> bool" where
  "route_ok route \<longleftrightarrow> (\<exists>a b. split_arrow route = [a, b] \<and> a \<noteq> [] \<and> b \<noteq> [])"

definition valid_config :: "Config \<Rightarrow> bool" where
  "valid_config c \<longleftrightarrow>
     cfg_ApplicationGroup c = ApplicationGroup \<and>
     us_ApplicationGroups (cfg_Unsupported c) \<le> 1 \<and> us_Shards (cfg_Unsupported c) \<le> 0 \<and>
     \<not> us_CrossGroupTransactions (cfg_Unsupported c) \<and>
     \<not> us_RuntimeMembershipChanges (cfg_Unsupported c) \<and>
     0 \<le> ns_LocalOneWayDelayMillis (cfg_NetworkSimulation c) \<and>
     fmpred (\<lambda>route delay. 0 \<le> delay \<and> route_ok route) (ns_InterDomainOneWayMillis (cfg_NetworkSimulation c)) \<and>
     list_all node_ok (cfg_Nodes c) \<and>
     distinct (map nd_ID (cfg_Nodes c)) \<and> distinct (map nd_ListenAddress (cfg_Nodes c)) \<and>
     distinct (map nd_InterDomainAddress (cfg_Nodes c)) \<and>
     2 \<le> card (nd_DomainCode ` set (cfg_Nodes c)) \<and>
     distinct (ft_FloatingDomains (cfg_Features c)) \<and> [] \<notin> set (ft_FloatingDomains (cfg_Features c)) \<and>
     set (ft_FloatingDomains (cfg_Features c)) \<inter> nd_DomainCode ` set (cfg_Nodes c) = {}"

lemma length_two: "length xs = 2 \<longleftrightarrow> (\<exists>a b. xs = [a, b])"
  by (auto simp: numeral_2_eq_2 length_Suc_conv)

lemma check_routes_None:
  "check_routes rs = None \<longleftrightarrow> (\<forall>(r, d) \<in> set rs. 0 \<le> d \<and> route_ok r)"
proof (induction rs)
  case Nil
  show ?case by simp
next
  case (Cons rd rs)
  obtain r d where rd: "rd = (r, d)" by (cases rd)
  have "length (split_arrow r) = 2 \<and> split_arrow r ! 0 \<noteq> [] \<and> split_arrow r ! 1 \<noteq> [] \<longleftrightarrow> route_ok r"
    by (auto simp: route_ok_def length_two)
  then show ?case using Cons rd by (auto simp: Let_def)
qed

lemma check_addresses_None:
  "check_addresses i as = None \<longleftrightarrow> (\<forall>(l, a) \<in> set as. a \<noteq> [] \<longrightarrow> SplitHostPort a \<noteq> None)"
proof (induction as)
  case Nil
  show ?case by simp
next
  case (Cons la as)
  obtain l a where la: "la = (l, a)" by (cases la)
  show ?case unfolding la using Cons by (cases "a = []"; cases "SplitHostPort a") simp_all
qed

lemma check_nodes_None:
  "check_nodes ids ls is ns = None \<longleftrightarrow> list_all node_ok ns \<and>
     distinct (map nd_ID ns) \<and> distinct (map nd_ListenAddress ns) \<and> distinct (map nd_InterDomainAddress ns) \<and>
     nd_ID ` set ns \<inter> set ids = {} \<and> nd_ListenAddress ` set ns \<inter> set ls = {} \<and>
     nd_InterDomainAddress ` set ns \<inter> set is = {}"
proof (induction ns arbitrary: ids ls "is")
  case Nil
  show ?case by simp
next
  case (Cons n ns)
  have "node_ok n \<longleftrightarrow> nd_ID n \<noteq> [] \<and> nd_DomainCode n \<noteq> [] \<and> nd_ListenAddress n \<noteq> [] \<and>
      nd_InterDomainAddress n \<noteq> [] \<and> check_addresses (nd_ID n) (overrides n) = None"
    by (simp add: node_ok_def check_addresses_None)
  then show ?case using Cons by (cases "check_addresses (nd_ID n) (overrides n)") auto
qed

lemma check_floating_None:
  "check_floating ds seen fs = None \<longleftrightarrow>
     [] \<notin> set fs \<and> distinct fs \<and> set fs \<inter> set ds = {} \<and> set fs \<inter> set seen = {}"
  by (induction fs arbitrary: seen) auto

lemma Validate_None: "config_Validate c = None \<longleftrightarrow> valid_config c"
proof -
  have ne: "2 \<le> card (nd_DomainCode ` set (cfg_Nodes c)) \<Longrightarrow> cfg_Nodes c \<noteq> []" by auto
  have len: "length (remdups (map nd_DomainCode (cfg_Nodes c))) = card (nd_DomainCode ` set (cfg_Nodes c))"
    by (simp add: length_remdups_card_conv)
  have routes: "check_routes (sorted_list_of_fmap m) = None \<longleftrightarrow>
      fmpred (\<lambda>route delay. 0 \<le> delay \<and> route_ok route) m" for m
    by (auto simp: check_routes_None in_sorted_list_of_fmap fmpred_iff)
  have "config_Validate c = None \<longleftrightarrow>
     cfg_ApplicationGroup c = ApplicationGroup \<and>
     us_ApplicationGroups (cfg_Unsupported c) \<le> 1 \<and> us_Shards (cfg_Unsupported c) \<le> 0 \<and>
     \<not> us_CrossGroupTransactions (cfg_Unsupported c) \<and>
     \<not> us_RuntimeMembershipChanges (cfg_Unsupported c) \<and>
     0 \<le> ns_LocalOneWayDelayMillis (cfg_NetworkSimulation c) \<and>
     check_routes (sorted_list_of_fmap (ns_InterDomainOneWayMillis (cfg_NetworkSimulation c))) = None \<and>
     cfg_Nodes c \<noteq> [] \<and> check_nodes [] [] [] (cfg_Nodes c) = None \<and>
     2 \<le> length (remdups (map nd_DomainCode (cfg_Nodes c))) \<and>
     check_floating (remdups (map nd_DomainCode (cfg_Nodes c))) [] (ft_FloatingDomains (cfg_Features c)) = None"
    by (auto simp: config_Validate_def Let_def split: if_splits option.splits)
  then show ?thesis
    unfolding valid_config_def routes check_nodes_None check_floating_None len using ne by auto
qed

text \<open>C38: validation accepts exactly the configurations that satisfy the declarative predicate: the
  fixed application group, no unsupported feature, well-formed non-negative delays, complete nodes
  with distinct identifiers and addresses, at least two domains, and distinct floating domains
  that are not consensus domains.\<close>

theorem config_Validate_iff: "config_Validate c = None \<longleftrightarrow> valid_config c"
  by (rule Validate_None)

section \<open>The queries on a valid configuration\<close>

lemma set_ConsensusDomains [simp]: "set (ConsensusDomains c) = nd_DomainCode ` set (cfg_Nodes c)"
  by (simp add: ConsensusDomains_def)

lemma distinct_ConsensusDomains [simp]: "distinct (ConsensusDomains c)"
  by (simp add: ConsensusDomains_def)

lemma sorted_ConsensusDomains [simp]: "sorted (ConsensusDomains c)"
  by (simp add: ConsensusDomains_def)

lemma set_DomainMembers [simp]:
  "set (DomainMembers c d) = {n \<in> set (cfg_Nodes c). nd_DomainCode n = d}"
  by (auto simp: DomainMembers_def)

lemma DomainMembers_nonempty: "DomainMembers c d \<noteq> [] \<longleftrightarrow> d \<in> nd_DomainCode ` set (cfg_Nodes c)"
proof -
  have "DomainMembers c d \<noteq> [] \<longleftrightarrow> set (DomainMembers c d) \<noteq> {}" by (simp del: set_DomainMembers)
  then show ?thesis by auto
qed

lemma distinct_DomainMembers:
  assumes "distinct (map nd_ID (cfg_Nodes c))"
  shows "distinct (map nd_ID (DomainMembers c d))"
proof -
  have "distinct (map nd_ID (filter (\<lambda>n. nd_DomainCode n = d) (cfg_Nodes c)))"
    using assms by (rule distinct_map_filter)
  then have "distinct (DomainMembers c d) \<and> inj_on nd_ID (set (DomainMembers c d))"
    by (simp add: DomainMembers_def distinct_map)
  then show ?thesis by (simp add: distinct_map)
qed

lemma sorted_DomainMembers: "sorted (map nd_ID (DomainMembers c d))"
  by (simp add: DomainMembers_def)

lemma config_Node_Some:
  assumes "distinct (map nd_ID (cfg_Nodes c))"
  shows "config_Node c i = Some n \<longleftrightarrow> n \<in> set (cfg_Nodes c) \<and> nd_ID n = i"
proof
  assume "config_Node c i = Some n"
  then show "n \<in> set (cfg_Nodes c) \<and> nd_ID n = i"
    by (auto simp: config_Node_def find_Some_iff)
next
  assume n: "n \<in> set (cfg_Nodes c) \<and> nd_ID n = i"
  then obtain m where m: "config_Node c i = Some m"
    unfolding config_Node_def by (metis (mono_tags, lifting) find_None_iff not_None_eq)
  then have "m \<in> set (cfg_Nodes c)" "nd_ID m = i" by (auto simp: config_Node_def find_Some_iff)
  then have "m = n" using n assms by (metis distinct_map inj_onD)
  then show "config_Node c i = Some n" using m by simp
qed

text \<open>C39: on a validated configuration the domains partition the nodes: there are at least two, each
  node belongs to exactly one, no domain is empty, and looking up a node by its identifier finds that
  node and its domain's members.\<close>

theorem valid_config_partition:
  assumes "config_Validate c = None"
  shows "2 \<le> length (ConsensusDomains c) \<and>
    (\<forall>d \<in> set (ConsensusDomains c). DomainMembers c d \<noteq> [] \<and> distinct (map nd_ID (DomainMembers c d))) \<and>
    (\<forall>n \<in> set (cfg_Nodes c). config_Node c (nd_ID n) = Some n \<and>
       SameDomain c (nd_ID n) = Inr (DomainMembers c (nd_DomainCode n)) \<and>
       (\<forall>d. n \<in> set (DomainMembers c d) \<longleftrightarrow> d = nd_DomainCode n))"
proof -
  have v: "valid_config c" using assms Validate_None by simp
  then have dist: "distinct (map nd_ID (cfg_Nodes c))" by (simp add: valid_config_def)
  have "length (ConsensusDomains c) = card (nd_DomainCode ` set (cfg_Nodes c))"
    by (simp add: ConsensusDomains_def length_remdups_card_conv)
  then have "2 \<le> length (ConsensusDomains c)" using v by (simp add: valid_config_def)
  moreover have "DomainMembers c d \<noteq> []" if "d \<in> set (ConsensusDomains c)" for d
    using that by (simp add: DomainMembers_nonempty)
  moreover have "config_Node c (nd_ID n) = Some n" if "n \<in> set (cfg_Nodes c)" for n
    using that config_Node_Some [OF dist] by blast
  ultimately show ?thesis using distinct_DomainMembers [OF dist] by (auto simp: SameDomain_def)
qed

text \<open>Every non-empty domain name is classified the same way the lists say: consensus domains
  exactly the domains of some node, floating domains exactly the declared ones (or any other name
  when unknown floating domains are allowed), and never both.\<close>

theorem domain_classification:
  assumes "config_Validate c = None" "d \<noteq> []"
  shows "(IsConsensusDomain c d \<longleftrightarrow> DomainMembers c d \<noteq> []) \<and>
    (d \<in> set (FloatingDomains c) \<longrightarrow> IsFloatingDomain c d) \<and>
    (IsFloatingDomain c d \<longrightarrow> DomainMembers c d = [] \<and>
       (d \<in> set (FloatingDomains c) \<or> ft_AllowUnknownFloatingDomains (cfg_Features c)))"
proof -
  have disj: "set (ft_FloatingDomains (cfg_Features c)) \<inter> nd_DomainCode ` set (cfg_Nodes c) = {}"
    using assms(1) Validate_None by (simp add: valid_config_def)
  show ?thesis
    using assms(2) disj
    by (auto simp: DomainMembers_nonempty [of c d] IsConsensusDomain_def IsFloatingDomain_def
        config_DomainKind_def FloatingDomains_def dest: DomainMembers_nonempty [THEN iffD2])
qed

section \<open>Delays\<close>

definition delay_limit :: int where
  "delay_limit = 9223372036854"

lemma i64_millis: "0 \<le> d \<Longrightarrow> d \<le> delay_limit \<Longrightarrow> i64 (d * millisecond) = d * millisecond"
  by (rule i64_id) (simp_all add: delay_limit_def millisecond_def)

lemma i64_millis_nonneg: "0 \<le> d \<and> d \<le> delay_limit \<Longrightarrow> 0 \<le> i64 (d * millisecond)"
  using i64_millis [of d] by (simp add: millisecond_def)

text \<open>As long as every configured delay fits into a \<open>time.Duration\<close> of milliseconds, a simulated
  one-way delay is never negative; and when only one direction of a route is configured, both
  directions take the same time.\<close>

theorem OneWayDelay_nonneg_symmetric:
  assumes "config_Validate c = None"
    and "ns_LocalOneWayDelayMillis (cfg_NetworkSimulation c) \<le> delay_limit"
    and "fmpred (\<lambda>_ d. d \<le> delay_limit) (ns_InterDomainOneWayMillis (cfg_NetworkSimulation c))"
  shows "0 \<le> OneWayDelay c a b \<and>
    (fmlookup (ns_InterDomainOneWayMillis (cfg_NetworkSimulation c)) (b @ ''->'' @ a) = None \<longrightarrow>
       OneWayDelay c a b = OneWayDelay c b a)"
proof -
  let ?m = "ns_InterDomainOneWayMillis (cfg_NetworkSimulation c)"
  have v: "0 \<le> ns_LocalOneWayDelayMillis (cfg_NetworkSimulation c)" "fmpred (\<lambda>_ d. 0 \<le> d) ?m"
    using assms(1) Validate_None by (auto simp: valid_config_def fmpred_iff)
  have get: "0 \<le> d \<and> d \<le> delay_limit" if "fmlookup ?m r = Some d" for r d
    using that v(2) assms(3) by (auto simp: fmpred_iff)
  have "0 \<le> OneWayDelay c a b"
    using v(1) assms(2) get
    by (auto simp: OneWayDelay_def Let_def getz_def split: option.splits intro!: i64_millis_nonneg)
  then show ?thesis by (auto simp: OneWayDelay_def Let_def getz_def split: option.splits)
qed

section \<open>Example configurations\<close>

definition ex_node :: "string \<Rightarrow> string \<Rightarrow> Node" where
  "ex_node i d =
     \<lparr>nd_ID = i, nd_DomainCode = d, nd_ListenAddress = i @ '':1'', nd_InterDomainAddress = i @ '':2'',
      nd_BindListenAddress = [], nd_BindInterDomainAddress = ''0.0.0.0:8101'',
      nd_PublicInterDomainAddress = [], nd_PublicListenAddress = []\<rparr>"

definition ex_config_of :: "Node list \<Rightarrow> int \<Rightarrow> Config" where
  "ex_config_of ns local =
     \<lparr>cfg_ApplicationGroup = ''cd-raft'', cfg_Nodes = ns,
      cfg_Features = \<lparr>ft_FastReturnEnabled = True, ft_FloatingDomains = [''f''],
        ft_FloatingTelemetryTTLMillis = 0, ft_AllowUnknownFloatingDomains = False,
        ft_LogCompactionThreshold = 0, ft_LogCompactionRetain = 0\<rparr>,
      cfg_NetworkSimulation = \<lparr>ns_Enabled = True, ns_LocalOneWayDelayMillis = local,
        ns_InterDomainOneWayMillis = fmupd ''a->b'' 20 fmempty\<rparr>,
      cfg_Unsupported = \<lparr>us_ApplicationGroups = 1, us_Shards = 0, us_CrossGroupTransactions = False,
        us_RuntimeMembershipChanges = False\<rparr>\<rparr>"

definition ex_config :: Config where
  "ex_config = ex_config_of
     [ex_node ''a1'' ''a'', ex_node ''b1'' ''b'', ex_node ''b2'' ''b'', ex_node ''b3'' ''b'', ex_node ''c1'' ''c''] 1"

lemma ex_config_valid: "config_Validate ex_config = None"
  by code_simp

lemma valid_config_partition_witness:
  "2 \<le> length (ConsensusDomains ex_config) \<and> config_Node ex_config ''b2'' = Some (ex_node ''b2'' ''b'')"
proof -
  have "ex_node ''b2'' ''b'' \<in> set (cfg_Nodes ex_config)" "nd_ID (ex_node ''b2'' ''b'') = ''b2''" by code_simp+
  then show ?thesis using valid_config_partition [OF ex_config_valid] by fastforce
qed

lemma domain_classification_witness:
  "IsConsensusDomain ex_config ''b'' \<and> IsFloatingDomain ex_config ''f''"
proof -
  have "DomainMembers ex_config ''b'' \<noteq> []" "''f'' \<in> set (FloatingDomains ex_config)" by code_simp+
  then show ?thesis
    using domain_classification [OF ex_config_valid, of "''b''"]
      domain_classification [OF ex_config_valid, of "''f''"] by simp
qed

lemma OneWayDelay_nonneg_symmetric_witness:
  "OneWayDelay ex_config ''a'' ''b'' = 20000000 \<and>
   OneWayDelay ex_config ''a'' ''b'' = OneWayDelay ex_config ''b'' ''a''"
proof -
  have "OneWayDelay ex_config ''a'' ''b'' = 20000000"
    "fmlookup (ns_InterDomainOneWayMillis (cfg_NetworkSimulation ex_config)) (''b'' @ ''->'' @ ''a'') = None"
    "ns_LocalOneWayDelayMillis (cfg_NetworkSimulation ex_config) \<le> delay_limit"
    "fmpred (\<lambda>_ d. d \<le> delay_limit) (ns_InterDomainOneWayMillis (cfg_NetworkSimulation ex_config))"
    by code_simp+
  then show ?thesis using OneWayDelay_nonneg_symmetric [OF ex_config_valid] by simp
qed

text \<open>The bound is needed: validation accepts a local delay whose conversion to nanoseconds wraps to
  a negative duration.\<close>

theorem OneWayDelay_overflow:
  "config_Validate (ex_config\<lparr>cfg_NetworkSimulation :=
      (cfg_NetworkSimulation ex_config)\<lparr>ns_LocalOneWayDelayMillis := delay_limit + 1\<rparr>\<rparr>) = None \<and>
   OneWayDelay (ex_config\<lparr>cfg_NetworkSimulation :=
      (cfg_NetworkSimulation ex_config)\<lparr>ns_LocalOneWayDelayMillis := delay_limit + 1\<rparr>\<rparr>) ''a'' ''a'' < 0"
  by code_simp

end
