(* ===== verification/Kv_Store.thy ===== *)
theory Kv_Store
  imports Raft_Log "HOL-Library.Sublist"
begin

text \<open>
  \<open>internal/cdraft/kvstore.go\<close> and \<open>leveldb_store.go\<close>: the incremental store.  \<open>Save\<close> diffs the
  state against what it remembers as durable and writes the difference as one atomic batch;
  \<open>Load\<close> rebuilds the state from prefix scans.  The engine is not part of the repository: its
  operations are arguments, and the locale \<open>kv_engine\<close> states the contract the source documents for
  it (ordered scans, atomic batches).  \<open>synced\<close> is the invariant between the bookkeeping and the
  engine; under it a save followed by a load gives the saved state back.
\<close>

section \<open>Layout\<close>

text \<open>A value is a JSON document (meta, log entries, results) or raw bytes (state machine).\<close>

datatype kvval = KVDoc json | KVRaw string

record KVOp =
  op_Key :: string
  op_Value :: kvval
  op_Delete :: bool

definition put :: "string \<Rightarrow> kvval \<Rightarrow> KVOp" where
  "put k v = \<lparr>op_Key = k, op_Value = v, op_Delete = False\<rparr>"

definition del :: "string \<Rightarrow> KVOp" where
  "del k = \<lparr>op_Key = k, op_Value = KVRaw [], op_Delete = True\<rparr>"

record logFingerprint =
  fp_index :: u64
  fp_term :: u64
  fp_req :: string

definition fingerprintOf :: "LogEntry \<Rightarrow> logFingerprint" where
  "fingerprintOf e = \<lparr>fp_index = GlobalIndex e, fp_term = GlobalTerm e, fp_req = RequestID e\<rparr>"

definition metaKey :: string where "metaKey = ''meta''"
definition logPrefix :: string where "logPrefix = ''log:''"
definition smKeyPrefix :: string where "smKeyPrefix = ''sm:''"
definition resPrefix :: string where "resPrefix = ''res:''"

lemmas key_defs = metaKey_def logPrefix_def smKeyPrefix_def resPrefix_def

text \<open>\<open>binary.BigEndian.PutUint64\<close>.\<close>

fun big_endian :: "nat \<Rightarrow> nat \<Rightarrow> string" where
  "big_endian 0 x = []"
| "big_endian (Suc n) x = big_endian n (x div 256) @ [char_of (x mod 256)]"

definition logKey :: "u64 \<Rightarrow> string" where
  "logKey index = logPrefix @ big_endian 8 (unat index)"

record 'e KVStore =
  kv_db :: "'e option"
  kv_lastMeta :: "json option"
  kv_lastLog :: "(u64, logFingerprint) fmap"
  kv_lastSM :: "string gomap"
  kv_lastRes :: "ClientResult gomap"

definition NewKVStore :: "'e \<Rightarrow> 'e KVStore" where
  "NewKVStore e = \<lparr>kv_db = Some e, kv_lastMeta = None, kv_lastLog = fmempty, kv_lastSM = fmempty,
     kv_lastRes = fmempty\<rparr>"

definition KVStore_Close :: "('e \<Rightarrow> error option) \<Rightarrow> 'e KVStore \<Rightarrow> 'e KVStore \<times> error option" where
  "KVStore_Close close st =
     (case kv_db st of None \<Rightarrow> (st, None) | Some e \<Rightarrow> (st\<lparr>kv_db := None\<rparr>, close e))"

section \<open>Load\<close>

fun dec_doc :: "(json \<Rightarrow> 'a option) \<Rightarrow> kvval \<Rightarrow> 'a option" where
  "dec_doc d (KVDoc j) = d j"
| "dec_doc d (KVRaw s) = None"

fun dec_raw :: "kvval \<Rightarrow> string option" where
  "dec_raw (KVRaw s) = Some s"
| "dec_raw (KVDoc j) = None"

text \<open>One prefix scan whose callback decodes every value; the error of a callback or of the iterator
  ends it.\<close>

definition scan_decode ::
    "('e \<Rightarrow> string \<Rightarrow> error + (string \<times> kvval) list) \<Rightarrow> (kvval \<Rightarrow> 'a option) \<Rightarrow> 'e \<Rightarrow> string \<Rightarrow>
     error + (string \<times> 'a) list" where
  "scan_decode scan d e p =
     (case scan e p of
        Inl err \<Rightarrow> Inl err
      | Inr kvs \<Rightarrow>
          (case those (map (\<lambda>(k, v). map_option (Pair (drop (length p) k)) (d v)) kvs) of
             None \<Rightarrow> Inl ErrDecode
           | Some xs \<Rightarrow> Inr xs))"

text \<open>The fingerprints of a log by index.\<close>

definition desired_log :: "LogEntry list \<Rightarrow> (u64, logFingerprint) fmap" where
  "desired_log log = fm_insert_all (map (\<lambda>e. (GlobalIndex e, fingerprintOf e)) log) fmempty"

definition loaded :: "'e KVStore \<Rightarrow> LogEntry list \<Rightarrow> string gomap \<Rightarrow> ClientResult gomap \<Rightarrow> 'e KVStore" where
  "loaded st log sm results =
     st\<lparr>kv_lastLog := desired_log log, kv_lastSM := sm, kv_lastRes := results\<rparr>"

text \<open>The outer \<open>None\<close> is the nil dereference of a closed store.\<close>

definition KVStore_Load ::
    "('e \<Rightarrow> string \<Rightarrow> error + kvval option) \<Rightarrow> ('e \<Rightarrow> string \<Rightarrow> error + (string \<times> kvval) list) \<Rightarrow>
     'e KVStore \<Rightarrow> ('e KVStore \<times> (error + PersistentState)) option" where
  "KVStore_Load get scan st =
     (case kv_db st of
        None \<Rightarrow> None
      | Some e \<Rightarrow> Some
         (case get e metaKey of
            Inl err \<Rightarrow> (st, Inl err)
          | Inr found \<Rightarrow>
             (case (case found of
                      None \<Rightarrow> Some (empty_state, kv_lastMeta st)
                    | Some raw \<Rightarrow>
                        map_option (\<lambda>s. (s, case raw of KVDoc j \<Rightarrow> Some j | _ \<Rightarrow> None)) (dec_doc unmarshal raw)) of
                None \<Rightarrow> (st, Inl ErrDecode)
              | Some (state, meta) \<Rightarrow>
                 let st1 = st\<lparr>kv_lastMeta := meta\<rparr> in
                 (case scan_decode scan (dec_doc dec_entry) e logPrefix of
                    Inl err \<Rightarrow> (st1, Inl err)
                  | Inr lg \<Rightarrow>
                     (case scan_decode scan dec_raw e smKeyPrefix of
                        Inl err \<Rightarrow> (st1, Inl err)
                      | Inr smkv \<Rightarrow>
                         (case scan_decode scan (dec_doc dec_result) e resPrefix of
                            Inl err \<Rightarrow> (st1, Inl err)
                          | Inr rkv \<Rightarrow>
                             let log = map snd lg;
                                 sm = fm_insert_all smkv fmempty;
                                 results = fm_insert_all rkv fmempty
                             in (loaded st1 log sm results,
                                 Inr (state\<lparr>ps_Log := log, ps_StateMachine := sm, ps_Results := results\<rparr>))))))))"

section \<open>Save\<close>

definition meta_doc :: "PersistentState \<Rightarrow> json" where
  "meta_doc s = marshal_with JNull JNull JNull s"

definition meta_ops :: "'e KVStore \<Rightarrow> PersistentState \<Rightarrow> KVOp list" where
  "meta_ops st s =
     (if kv_lastMeta st = Some (meta_doc s) then [] else [put metaKey (KVDoc (meta_doc s))])"

definition log_ops :: "'e KVStore \<Rightarrow> LogEntry list \<Rightarrow> KVOp list" where
  "log_ops st log =
     map (\<lambda>(i, _). del (logKey i))
       (filter (\<lambda>(i, _). fmlookup (desired_log log) i = None) (sorted_list_of_fmap (kv_lastLog st)))
   @ map (\<lambda>e. put (logKey (GlobalIndex e)) (KVDoc (enc_entry e)))
       (filter (\<lambda>e. fmlookup (kv_lastLog st) (GlobalIndex e) \<noteq> Some (fingerprintOf e)) log)"

definition sm_ops :: "'e KVStore \<Rightarrow> string gomap \<Rightarrow> KVOp list" where
  "sm_ops st sm =
     map (\<lambda>(k, v). put (smKeyPrefix @ k) (KVRaw v))
       (filter (\<lambda>(k, v). fmlookup (kv_lastSM st) k \<noteq> Some v) (sorted_list_of_fmap sm))"

definition res_ops :: "'e KVStore \<Rightarrow> ClientResult gomap \<Rightarrow> KVOp list" where
  "res_ops st res =
     map (\<lambda>(k, v). put (resPrefix @ k) (KVDoc (enc_result v)))
       (filter (\<lambda>(k, v). fmlookup (kv_lastRes st) k \<noteq> Some v) (sorted_list_of_fmap res))"

definition save_batch :: "'e KVStore \<Rightarrow> PersistentState \<Rightarrow> KVOp list" where
  "save_batch st s =
     meta_ops st s @ log_ops st (ps_Log s) @ sm_ops st (ps_StateMachine s) @ res_ops st (ps_Results s)"

definition KVStore_Save ::
    "('e \<Rightarrow> KVOp list \<Rightarrow> 'e \<times> error option) \<Rightarrow> 'e KVStore \<Rightarrow> PersistentState \<Rightarrow>
     ('e KVStore \<times> error option) option" where
  "KVStore_Save write st s =
     (if save_batch st s = [] then Some (st, None)
      else case kv_db st of
        None \<Rightarrow> None
      | Some e \<Rightarrow> Some
         (case write e (save_batch st s) of
            (e', Some err) \<Rightarrow> (st\<lparr>kv_db := Some e'\<rparr>, Some err)
          | (e', None) \<Rightarrow>
             (st\<lparr>kv_db := Some e', kv_lastMeta := Some (meta_doc s),
                 kv_lastLog := desired_log (ps_Log s),
                 kv_lastSM := (if sm_ops st (ps_StateMachine s) \<noteq> []
                               then kv_lastSM st ++\<^sub>f ps_StateMachine s else kv_lastSM st),
                 kv_lastRes := (if res_ops st (ps_Results s) \<noteq> []
                                then kv_lastRes st ++\<^sub>f ps_Results s else kv_lastRes st)\<rparr>, None)))"

section \<open>The LevelDB adapter\<close>

datatype db_error = DBNotFound | DBError error

datatype batch_op = BDelete string | BPut string kvval

definition leveldbEngine_Get ::
    "('d \<Rightarrow> string \<Rightarrow> db_error + kvval) \<Rightarrow> 'd \<Rightarrow> string \<Rightarrow> error + kvval option" where
  "leveldbEngine_Get db_get db key =
     (case db_get db key of
        Inr v \<Rightarrow> Inr (Some v)
      | Inl DBNotFound \<Rightarrow> Inr None
      | Inl (DBError err) \<Rightarrow> Inl err)"

definition leveldbEngine_Write ::
    "(bool \<Rightarrow> 'd \<Rightarrow> batch_op list \<Rightarrow> 'd \<times> error option) \<Rightarrow> bool \<Rightarrow> 'd \<Rightarrow> KVOp list \<Rightarrow> 'd \<times> error option" where
  "leveldbEngine_Write db_write sync db ops =
     db_write sync db (map (\<lambda>op. if op_Delete op then BDelete (op_Key op) else BPut (op_Key op) (op_Value op)) ops)"

definition leveldbEngine_Scan ::
    "('d \<Rightarrow> string \<Rightarrow> (string \<times> kvval) list \<times> error option) \<Rightarrow> 'd \<Rightarrow> string \<Rightarrow> error + (string \<times> kvval) list" where
  "leveldbEngine_Scan db_iter db p =
     (case db_iter db p of (kvs, None) \<Rightarrow> Inr kvs | (kvs, Some err) \<Rightarrow> Inl err)"

definition NewLevelDBStoreWithSync ::
    "(string \<Rightarrow> error + 'd) \<Rightarrow> string \<Rightarrow> bool \<Rightarrow> error + (('d \<times> bool) KVStore)" where
  "NewLevelDBStoreWithSync db_open dir durableSync =
     (case db_open dir of Inl err \<Rightarrow> Inl err | Inr db \<Rightarrow> Inr (NewKVStore (db, durableSync)))"

definition NewLevelDBStore :: "(string \<Rightarrow> error + 'd) \<Rightarrow> string \<Rightarrow> error + (('d \<times> bool) KVStore)" where
  "NewLevelDBStore db_open dir = NewLevelDBStoreWithSync db_open dir True"

section \<open>The engine contract\<close>

definition apply_op :: "KVOp \<Rightarrow> (string, kvval) fmap \<Rightarrow> (string, kvval) fmap" where
  "apply_op op m = (if op_Delete op then fmdrop (op_Key op) m else fmupd (op_Key op) (op_Value op) m)"

definition kv_scan :: "(string, kvval) fmap \<Rightarrow> string \<Rightarrow> (string \<times> kvval) list" where
  "kv_scan m p = filter (\<lambda>(k, v). prefix p k) (sorted_list_of_fmap m)"

locale kv_engine =
  fixes get :: "'e \<Rightarrow> string \<Rightarrow> error + kvval option"
    and wr :: "'e \<Rightarrow> KVOp list \<Rightarrow> 'e \<times> error option"
    and scan :: "'e \<Rightarrow> string \<Rightarrow> error + (string \<times> kvval) list"
    and contents :: "'e \<Rightarrow> (string, kvval) fmap"
    and healthy :: "'e \<Rightarrow> bool"
  assumes get_contents: "healthy e \<Longrightarrow> get e k = Inr (fmlookup (contents e) k)"
    and scan_contents: "healthy e \<Longrightarrow> scan e p = Inr (kv_scan (contents e) p)"
    and write_applies: "wr e ops = (e', None) \<Longrightarrow> contents e' = fold apply_op ops (contents e)"
    and write_atomic: "wr e ops = (e', Some err) \<Longrightarrow> contents e' = contents e"

text \<open>Documented behaviour of the LevelDB library: a batch is applied in order and atomically, an
  iterator over a prefix visits its keys in ascending order.\<close>

fun apply_batch_op :: "batch_op \<Rightarrow> (string, kvval) fmap \<Rightarrow> (string, kvval) fmap" where
  "apply_batch_op (BDelete k) m = fmdrop k m"
| "apply_batch_op (BPut k v) m = fmupd k v m"

locale leveldb =
  fixes db_get :: "'d \<Rightarrow> string \<Rightarrow> db_error + kvval"
    and db_write :: "bool \<Rightarrow> 'd \<Rightarrow> batch_op list \<Rightarrow> 'd \<times> error option"
    and db_iter :: "'d \<Rightarrow> string \<Rightarrow> (string \<times> kvval) list \<times> error option"
    and db_contents :: "'d \<Rightarrow> (string, kvval) fmap"
    and db_healthy :: "'d \<Rightarrow> bool"
  assumes db_get_contents: "db_healthy d \<Longrightarrow>
      db_get d k = (case fmlookup (db_contents d) k of None \<Rightarrow> Inl DBNotFound | Some v \<Rightarrow> Inr v)"
    and db_iter_contents: "db_healthy d \<Longrightarrow> db_iter d p = (kv_scan (db_contents d) p, None)"
    and db_write_applies: "db_write sync d b = (d', None) \<Longrightarrow> db_contents d' = fold apply_batch_op b (db_contents d)"
    and db_write_atomic: "db_write sync d b = (d', Some err) \<Longrightarrow> db_contents d' = db_contents d"
begin

lemma adapter_batch:
  "fold apply_batch_op
     (map (\<lambda>op. if op_Delete op then BDelete (op_Key op) else BPut (op_Key op) (op_Value op)) ops) m =
   fold apply_op ops m"
  by (induction ops arbitrary: m) (simp_all add: apply_op_def)

end

sublocale leveldb \<subseteq> adapter: kv_engine "leveldbEngine_Get db_get" "leveldbEngine_Write db_write sync"
  "leveldbEngine_Scan db_iter" db_contents db_healthy for sync
proof
  fix e e' k p ops err
  show "leveldbEngine_Get db_get e k = Inr (fmlookup (db_contents e) k)" if "db_healthy e"
    using that by (simp add: leveldbEngine_Get_def db_get_contents split: option.splits)
  show "leveldbEngine_Scan db_iter e p = Inr (kv_scan (db_contents e) p)" if "db_healthy e"
    using that by (simp add: leveldbEngine_Scan_def db_iter_contents)
  show "db_contents e' = fold apply_op ops (db_contents e)"
    if "leveldbEngine_Write db_write sync e ops = (e', None)"
    using that by (simp add: leveldbEngine_Write_def db_write_applies adapter_batch)
  show "db_contents e' = db_contents e" if "leveldbEngine_Write db_write sync e ops = (e', Some err)"
    using that by (auto simp: leveldbEngine_Write_def dest: db_write_atomic)
qed

section \<open>Keys\<close>

lemma length_big_endian [simp]: "length (big_endian n x) = n"
  by (induction n arbitrary: x) simp_all

lemma append_mono_eq_length:
  fixes u v :: string
  assumes "length u = length v" "u < v"
  shows "u @ a < v @ b"
  using assms
proof (induction u v rule: list_induct2)
  case Nil
  then show ?case by simp
next
  case (Cons x xs y ys)
  then show ?case by auto
qed

lemma append_left_less: "(u :: string) @ a < u @ b \<longleftrightarrow> a < b"
  by (induction u) auto

lemma big_endian_mono: "x < y \<Longrightarrow> y < 256 ^ n \<Longrightarrow> big_endian n x < big_endian n y"
proof (induction n arbitrary: x y)
  case 0
  then show ?case by simp
next
  case (Suc n)
  have y: "y div 256 < 256 ^ n" using Suc.prems(2) by (simp add: less_mult_imp_div_less mult.commute)
  consider "x div 256 < y div 256" | "x div 256 = y div 256" "x mod 256 < y mod 256"
    using Suc.prems(1) by (metis div_le_mono div_mult_mod_eq less_imp_le_nat nat_add_left_cancel_less
        nat_less_le)
  then show ?case
  proof cases
    case 1
    then show ?thesis using Suc.IH [OF 1 y] by (simp add: append_mono_eq_length)
  next
    case 2
    have "(char_of (x mod 256) :: char) < char_of (y mod 256)"
      using 2(2) by (simp add: less_char_def)
    then show ?thesis using 2(1) by (simp add: append_left_less)
  qed
qed

lemma logKey_less: "i < j \<Longrightarrow> logKey i < logKey j"
  using big_endian_mono [of "unat i" "unat j" 8] unat_u64_lt [of j]
  by (simp add: logKey_def word_less_nat_alt append_left_less)

lemma logKey_inj [simp]: "logKey i = logKey j \<longleftrightarrow> i = j"
  using logKey_less [of i j] logKey_less [of j i] by (metis less_irrefl neqE)

lemma logKey_prefix: "prefix logPrefix (logKey i)"
  by (simp add: logKey_def)

section \<open>What a batch does to each part of the key space\<close>

lemma fold_ops_notin:
  "k \<notin> op_Key ` set ops \<Longrightarrow> fmlookup (fold apply_op ops m) k = fmlookup m k"
  by (induction ops arbitrary: m) (auto simp: apply_op_def)

lemma fold_ops_in:
  "distinct (map op_Key ops) \<Longrightarrow> op \<in> set ops \<Longrightarrow>
   fmlookup (fold apply_op ops m) (op_Key op) = (if op_Delete op then None else Some (op_Value op))"
proof (induction ops arbitrary: m)
  case Nil
  then show ?case by simp
next
  case (Cons x xs)
  show ?case
  proof (cases "op \<in> set xs")
    case True
    then show ?thesis using Cons by simp
  next
    case False
    then have "op = x" "op_Key op \<notin> op_Key ` set xs" using Cons.prems by auto
    then show ?thesis by (simp add: fold_ops_notin) (simp add: apply_op_def)
  qed
qed

lemma op_Key_simps [simp]: "op_Key (put k v) = k" "op_Key (del k) = k"
  "op_Value (put k v) = v" "op_Delete (put k v) = False" "op_Delete (del k) = True"
  by (simp_all add: put_def del_def)

lemma put_eq [simp]: "put k v = put k' v' \<longleftrightarrow> k = k' \<and> v = v'" "put k v \<noteq> del k'" "del k' \<noteq> put k v"
  by (simp_all add: put_def del_def)

lemma batch_keys:
  "op_Key ` set (meta_ops st s) \<subseteq> {metaKey}"
  "op_Key ` set (log_ops st lg) \<subseteq> range logKey"
  "op_Key ` set (sm_ops st sm) \<subseteq> range ((@) smKeyPrefix)"
  "op_Key ` set (res_ops st res) \<subseteq> range ((@) resPrefix)"
  by (auto simp: meta_ops_def log_ops_def sm_ops_def res_ops_def)

lemma key_spaces [simp]:
  "metaKey \<noteq> logKey i" "logKey i \<noteq> metaKey"
  "metaKey \<noteq> smKeyPrefix @ k" "metaKey \<noteq> resPrefix @ k" "smKeyPrefix @ k \<noteq> metaKey" "resPrefix @ k \<noteq> metaKey"
  "logKey i \<noteq> smKeyPrefix @ k" "logKey i \<noteq> resPrefix @ k" "smKeyPrefix @ k \<noteq> logKey i" "resPrefix @ k \<noteq> logKey i"
  "smKeyPrefix @ k \<noteq> resPrefix @ k'" "resPrefix @ k' \<noteq> smKeyPrefix @ k"
  by (auto simp: key_defs logKey_def)

lemma distinct_map_keys:
  "distinct (map fst (filter P (sorted_list_of_fmap m)))"
  by (rule distinct_map_filter) simp

lemma distinct_log_ops:
  assumes "distinct (map GlobalIndex lg)"
  shows "distinct (map op_Key (log_ops st lg))"
proof -
  have "inj_on logKey A" for A by (simp add: inj_on_def)
  then have dels: "distinct (map (\<lambda>(i, _). logKey i) (filter P (sorted_list_of_fmap (kv_lastLog st))))" for P
    using distinct_map_keys [of P "kv_lastLog st"] distinct_map
    by (metis (no_types, lifting) case_prod_beta' comp_apply distinct_map list.map_comp map_cong)
  have puts: "distinct (map (\<lambda>e. logKey (GlobalIndex e)) (filter P lg))" for P
    using distinct_map_filter [OF assms, of P] by (auto simp: distinct_map inj_on_def)
  have desired: "fmlookup (desired_log lg) (GlobalIndex e) \<noteq> None" if "e \<in> set lg" for e
    using that by (auto simp: desired_log_def fm_insert_all_None_iff image_iff)
  have disj: "set (map op_Key (map (\<lambda>(i, _). del (logKey i))
      (filter (\<lambda>(i, _). fmlookup (desired_log lg) i = None) (sorted_list_of_fmap (kv_lastLog st))))) \<inter>
     set (map op_Key (map (\<lambda>e. put (logKey (GlobalIndex e)) (KVDoc (enc_entry e))) (filter P lg))) = {}" for P
    using desired by fastforce
  have "map op_Key (map (\<lambda>(i, _). del (logKey i)) xs) = map (\<lambda>(i, _). logKey i) xs"
    "map op_Key (map (\<lambda>e. put (logKey (GlobalIndex e)) (KVDoc (enc_entry e))) ys) = map (\<lambda>e. logKey (GlobalIndex e)) ys"
    for xs :: "(u64 \<times> logFingerprint) list" and ys by auto
  then show ?thesis unfolding log_ops_def map_append distinct_append using dels puts disj by presburger
qed

lemma distinct_prefixed:
  "distinct (map op_Key (map (\<lambda>(k, v). put (p @ k) (f v)) (filter P (sorted_list_of_fmap m))))"
proof -
  have "map op_Key (map (\<lambda>(k, v). put (p @ k) (f v)) xs) = map ((@) p) (map fst xs)" for xs by auto
  then show ?thesis using distinct_map_keys [of P m] by (simp add: distinct_map inj_on_def)
qed

lemma disjoint_subsets: "A \<subseteq> X \<Longrightarrow> B \<subseteq> Y \<Longrightarrow> X \<inter> Y = {} \<Longrightarrow> A \<inter> B = {}"
  by blast

lemma distinct_batch:
  assumes "distinct (map GlobalIndex (ps_Log s))"
  shows "distinct (map op_Key (save_batch st s))"
proof -
  have "distinct (map op_Key (meta_ops st s))" by (simp add: meta_ops_def)
  moreover have "distinct (map op_Key (sm_ops st (ps_StateMachine s)))"
    "distinct (map op_Key (res_ops st (ps_Results s)))"
    unfolding sm_ops_def res_ops_def by (rule distinct_prefixed)+
  moreover have "op_Key ` set (meta_ops st s) \<inter> op_Key ` set (log_ops st (ps_Log s)) = {}"
    "op_Key ` set (meta_ops st s) \<inter> op_Key ` set (sm_ops st (ps_StateMachine s)) = {}"
    "op_Key ` set (meta_ops st s) \<inter> op_Key ` set (res_ops st (ps_Results s)) = {}"
    "op_Key ` set (log_ops st (ps_Log s)) \<inter> op_Key ` set (sm_ops st (ps_StateMachine s)) = {}"
    "op_Key ` set (log_ops st (ps_Log s)) \<inter> op_Key ` set (res_ops st (ps_Results s)) = {}"
    "op_Key ` set (sm_ops st (ps_StateMachine s)) \<inter> op_Key ` set (res_ops st (ps_Results s)) = {}"
    by (rule disjoint_subsets [OF batch_keys(1) batch_keys(2)], force)
       (rule disjoint_subsets [OF batch_keys(1) batch_keys(3)], force,
        rule disjoint_subsets [OF batch_keys(1) batch_keys(4)], force,
        rule disjoint_subsets [OF batch_keys(2) batch_keys(3)], force,
        rule disjoint_subsets [OF batch_keys(2) batch_keys(4)], force,
        rule disjoint_subsets [OF batch_keys(3) batch_keys(4)], force)
  ultimately show ?thesis
    using distinct_log_ops [OF assms, of st]
    by (simp add: save_batch_def image_Un Int_Un_distrib)
qed

section \<open>Bookkeeping and engine agree\<close>

definition synced :: "(string, kvval) fmap \<Rightarrow> 'e KVStore \<Rightarrow> bool" where
  "synced m st \<longleftrightarrow>
     fmlookup m metaKey = map_option KVDoc (kv_lastMeta st) \<and>
     (\<forall>k. prefix logPrefix k \<longrightarrow> fmlookup m k \<noteq> None \<longrightarrow> (\<exists>i. k = logKey i \<and> fmlookup (kv_lastLog st) i \<noteq> None)) \<and>
     (\<forall>i fp. fmlookup (kv_lastLog st) i = Some fp \<longrightarrow>
        (\<exists>e. fmlookup m (logKey i) = Some (KVDoc (enc_entry e)) \<and> fingerprintOf e = fp)) \<and>
     (\<forall>k. fmlookup m (smKeyPrefix @ k) = map_option KVRaw (fmlookup (kv_lastSM st) k)) \<and>
     (\<forall>k. fmlookup m (resPrefix @ k) = map_option (\<lambda>r. KVDoc (enc_result r)) (fmlookup (kv_lastRes st) k))"

text \<open>What the diff relies on: an index, a term and a request identify a log entry.\<close>

definition faithful_log :: "(string, kvval) fmap \<Rightarrow> 'e KVStore \<Rightarrow> LogEntry list \<Rightarrow> bool" where
  "faithful_log m st lg \<longleftrightarrow>
     (\<forall>e \<in> set lg. fmlookup (kv_lastLog st) (GlobalIndex e) = Some (fingerprintOf e) \<longrightarrow>
        fmlookup m (logKey (GlobalIndex e)) = Some (KVDoc (enc_entry e)))"

text \<open>The keys the state no longer has: \<open>Save\<close> never deletes from the state machine or the results.\<close>

definition keys_kept :: "'e KVStore \<Rightarrow> PersistentState \<Rightarrow> bool" where
  "keys_kept st s \<longleftrightarrow> fmdom (kv_lastSM st) |\<subseteq>| fmdom (ps_StateMachine s) \<and>
     fmdom (kv_lastRes st) |\<subseteq>| fmdom (ps_Results s)"

text \<open>The engine holds exactly this state.\<close>

definition holds_state :: "(string, kvval) fmap \<Rightarrow> PersistentState \<Rightarrow> bool" where
  "holds_state m s \<longleftrightarrow>
     fmlookup m metaKey = Some (KVDoc (meta_doc s)) \<and>
     (\<forall>k. prefix logPrefix k \<longrightarrow> fmlookup m k \<noteq> None \<longrightarrow> (\<exists>e \<in> set (ps_Log s). k = logKey (GlobalIndex e))) \<and>
     (\<forall>e \<in> set (ps_Log s). fmlookup m (logKey (GlobalIndex e)) = Some (KVDoc (enc_entry e))) \<and>
     (\<forall>k. fmlookup m (smKeyPrefix @ k) = map_option KVRaw (fmlookup (ps_StateMachine s) k)) \<and>
     (\<forall>k. fmlookup m (resPrefix @ k) = map_option (\<lambda>r. KVDoc (enc_result r)) (fmlookup (ps_Results s) k))"

lemma desired_log_lookup:
  "distinct (map GlobalIndex lg) \<Longrightarrow> e \<in> set lg \<Longrightarrow> fmlookup (desired_log lg) (GlobalIndex e) = Some (fingerprintOf e)"
proof -
  assume d: "distinct (map GlobalIndex lg)" and e: "e \<in> set lg"
  let ?kvs = "map (\<lambda>e. (GlobalIndex e, fingerprintOf e)) lg"
  have d': "distinct (map fst ?kvs)" using d by (simp add: comp_def)
  moreover have "map_of ?kvs (GlobalIndex e) = Some (fingerprintOf e)"
    using d' e by (simp add: map_of_eq_Some_iff image_iff) blast
  ultimately show ?thesis by (simp add: desired_log_def fm_insert_all_lookup)
qed

lemma desired_log_None: "fmlookup (desired_log lg) i = None \<longleftrightarrow> i \<notin> GlobalIndex ` set lg"
  by (simp add: desired_log_def fm_insert_all_None_iff image_image)

lemma batch_meta:
  assumes "synced m st" "distinct (map GlobalIndex (ps_Log s))"
  shows "fmlookup (fold apply_op (save_batch st s) m) metaKey = Some (KVDoc (meta_doc s))"
proof (cases "kv_lastMeta st = Some (meta_doc s)")
  case True
  then have "metaKey \<notin> op_Key ` set (save_batch st s)"
    using batch_keys(2) [of st "ps_Log s"] batch_keys(3) [of st "ps_StateMachine s"] batch_keys(4) [of st "ps_Results s"]
    by (auto simp: save_batch_def meta_ops_def image_Un)
  then show ?thesis using assms(1) True by (simp add: fold_ops_notin synced_def)
next
  case False
  then have "put metaKey (KVDoc (meta_doc s)) \<in> set (save_batch st s)"
    by (simp add: save_batch_def meta_ops_def)
  then show ?thesis using fold_ops_in [OF distinct_batch [OF assms(2)]] by fastforce
qed

text \<open>A part of the key space that is only put to: changed keys take the new value, others keep theirs.\<close>

lemma batch_prefixed:
  assumes d: "distinct (map op_Key ops)"
    and mem: "\<And>k v. put (p @ k) v \<in> set ops \<longleftrightarrow> (\<exists>x. fmlookup new k = Some x \<and> v = f x \<and> fmlookup old k \<noteq> Some x)"
    and only: "\<And>op k. op \<in> set ops \<Longrightarrow> op_Key op = p @ k \<Longrightarrow> \<exists>v. op = put (p @ k) v"
    and m: "fmlookup m (p @ k) = map_option f (fmlookup old k)"
    and dom: "fmdom old |\<subseteq>| fmdom new"
  shows "fmlookup (fold apply_op ops m) (p @ k) = map_option f (fmlookup new k)"
proof (cases "\<exists>v. put (p @ k) v \<in> set ops")
  case True
  then obtain v where v: "put (p @ k) v \<in> set ops" by blast
  then obtain x where "fmlookup new k = Some x" "v = f x" using mem by blast
  then show ?thesis using fold_ops_in [OF d v] by simp
next
  case False
  then have "p @ k \<notin> op_Key ` set ops" using only by (metis (no_types) imageE)
  moreover have "fmlookup old k = fmlookup new k"
    using False mem dom by (metis fmdom_notD fset_mp fmdom_notI not_None_eq)
  ultimately show ?thesis using m by (simp add: fold_ops_notin)
qed

lemma batch_members:
  "put (smKeyPrefix @ k) v \<in> set (save_batch st s) \<longleftrightarrow>
     (\<exists>x. fmlookup (ps_StateMachine s) k = Some x \<and> v = KVRaw x \<and> fmlookup (kv_lastSM st) k \<noteq> Some x)" (is "?A")
  "put (resPrefix @ k) v \<in> set (save_batch st s) \<longleftrightarrow>
     (\<exists>x. fmlookup (ps_Results s) k = Some x \<and> v = KVDoc (enc_result x) \<and> fmlookup (kv_lastRes st) k \<noteq> Some x)" (is "?B")
proof -
  show ?A ?B
    by (auto simp: save_batch_def meta_ops_def log_ops_def sm_ops_def res_ops_def in_sorted_list_of_fmap
        image_iff split: if_splits)
qed

lemma batch_puts_only:
  "op \<in> set (save_batch st s) \<Longrightarrow> op_Key op = smKeyPrefix @ k \<Longrightarrow> \<exists>v. op = put (smKeyPrefix @ k) v"
  "op \<in> set (save_batch st s) \<Longrightarrow> op_Key op = resPrefix @ k \<Longrightarrow> \<exists>v. op = put (resPrefix @ k) v"
  by (auto simp: save_batch_def meta_ops_def log_ops_def sm_ops_def res_ops_def split: if_splits)

lemma batch_log_entry:
  assumes sy: "synced m st" and d: "distinct (map GlobalIndex (ps_Log s))"
    and f: "faithful_log m st (ps_Log s)" and e: "e \<in> set (ps_Log s)"
  shows "fmlookup (fold apply_op (save_batch st s) m) (logKey (GlobalIndex e)) = Some (KVDoc (enc_entry e))"
proof (cases "fmlookup (kv_lastLog st) (GlobalIndex e) = Some (fingerprintOf e)")
  case True
  have "logKey (GlobalIndex e) \<notin> op_Key ` set (save_batch st s)"
  proof
    assume "logKey (GlobalIndex e) \<in> op_Key ` set (save_batch st s)"
    then obtain e' where "e' \<in> set (ps_Log s)" "GlobalIndex e' = GlobalIndex e"
        "fmlookup (kv_lastLog st) (GlobalIndex e') \<noteq> Some (fingerprintOf e')"
      using e by (auto simp: save_batch_def meta_ops_def log_ops_def sm_ops_def res_ops_def image_Un
          desired_log_None split: if_splits)
    then show False using True d e by (metis distinct_map inj_onD)
  qed
  then show ?thesis using f e True by (simp add: fold_ops_notin faithful_log_def)
next
  case False
  then have "put (logKey (GlobalIndex e)) (KVDoc (enc_entry e)) \<in> set (save_batch st s)"
    using e by (auto simp: save_batch_def log_ops_def)
  then show ?thesis using fold_ops_in [OF distinct_batch [OF d]] by fastforce
qed

lemma batch_log_only:
  assumes sy: "synced m st" and d: "distinct (map GlobalIndex (ps_Log s))"
    and k: "prefix logPrefix k" "fmlookup (fold apply_op (save_batch st s) m) k \<noteq> None"
  shows "\<exists>e \<in> set (ps_Log s). k = logKey (GlobalIndex e)"
proof (rule ccontr)
  assume no: "\<not> ?thesis"
  show False
  proof (cases "k \<in> op_Key ` set (save_batch st s)")
    case True
    then obtain op where op: "op \<in> set (save_batch st s)" "op_Key op = k" by blast
    then have "op_Delete op"
      using no k(1) by (auto simp: save_batch_def meta_ops_def log_ops_def sm_ops_def res_ops_def key_defs
          split: if_splits)
    then show False using fold_ops_in [OF distinct_batch [OF d] op(1)] op(2) k(2) by simp
  next
    case False
    then have "fmlookup m k \<noteq> None" using k(2) by (simp add: fold_ops_notin)
    then obtain i where i: "k = logKey i" "fmlookup (kv_lastLog st) i \<noteq> None"
      using sy k(1) by (auto simp: synced_def)
    then have "i \<notin> GlobalIndex ` set (ps_Log s)" using no by auto
    then have "del (logKey i) \<in> set (save_batch st s)"
      using i(2) by (auto simp: save_batch_def log_ops_def desired_log_None in_sorted_list_of_fmap image_iff)
    then show False using False i(1) by force
  qed
qed

lemma batch_holds_state:
  assumes sy: "synced m st" and d: "distinct (map GlobalIndex (ps_Log s))"
    and f: "faithful_log m st (ps_Log s)" and kk: "keys_kept st s"
  shows "holds_state (fold apply_op (save_batch st s) m) s"
  unfolding holds_state_def
proof (intro conjI allI ballI impI)
  note db = distinct_batch [OF d, of st]
  show "fmlookup (fold apply_op (save_batch st s) m) (smKeyPrefix @ k) =
      map_option KVRaw (fmlookup (ps_StateMachine s) k)" for k
    using sy kk by (intro batch_prefixed [OF db batch_members(1) batch_puts_only(1)])
      (auto simp: synced_def keys_kept_def)
  show "fmlookup (fold apply_op (save_batch st s) m) (resPrefix @ k) =
      map_option (\<lambda>r. KVDoc (enc_result r)) (fmlookup (ps_Results s) k)" for k
    using sy kk by (intro batch_prefixed [OF db batch_members(2) batch_puts_only(2)])
      (auto simp: synced_def keys_kept_def)
qed (use batch_meta [OF sy d] batch_log_entry [OF sy d f] batch_log_only [OF sy d] in blast)+

section \<open>Loading\<close>

definition kv_image :: "PersistentState \<Rightarrow> PersistentState" where
  "kv_image s = (coerce_state s)\<lparr>ps_StateMachine := ps_StateMachine s,
     ps_Results := fmmap coerce_result (ps_Results s)\<rparr>"

lemma in_kv_scan: "(k, v) \<in> set (kv_scan m p) \<longleftrightarrow> prefix p k \<and> fmlookup m k = Some v"
  by (auto simp: kv_scan_def in_sorted_list_of_fmap)

lemma distinct_kv_scan: "distinct (map fst (kv_scan m p))"
  by (simp add: kv_scan_def distinct_map_keys)

lemma sorted_kv_scan: "sorted (map fst (kv_scan m p))"
proof -
  have "map fst (sorted_list_of_fmap m) = sorted_list_of_fset (fmdom m)"
    by (simp add: sorted_list_of_fmap_def comp_def)
  then have "sorted (map fst (sorted_list_of_fmap m))" by (simp add: sorted_list_of_fset.rep_eq)
  then show ?thesis by (simp add: kv_scan_def sorted_filter)
qed

lemma assoc_list_unique:
  assumes "map fst xs = map fst ys" "distinct (map fst xs)" "set xs \<subseteq> set ys"
  shows "xs = ys"
proof (rule nth_equalityI)
  show len: "length xs = length ys" using assms(1) map_eq_imp_length_eq by blast
  fix i assume i: "i < length xs"
  have "xs ! i \<in> set ys" using i assms(3) by auto
  then obtain j where j: "j < length ys" "ys ! j = xs ! i" by (metis in_set_conv_nth)
  then have "map fst xs ! j = map fst xs ! i" using assms(1) len i by (metis nth_map)
  then have "j = i" using assms(2) i j(1) len by (metis length_map nth_eq_iff_index_eq)
  then show "xs ! i = ys ! i" using j by simp
qed

text \<open>The log scan returns the entries in index order, thanks to the big-endian keys.\<close>

lemma log_scan:
  assumes "holds_state m s" "contig b (ps_Log s)"
  shows "kv_scan m logPrefix = map (\<lambda>e. (logKey (GlobalIndex e), KVDoc (enc_entry e))) (ps_Log s)"
    (is "_ = ?ys")
proof (rule assoc_list_unique)
  have asc: "sorted_wrt (<) (map (\<lambda>e. logKey (GlobalIndex e)) (ps_Log s))"
    using assms(2)
    by (auto simp: sorted_wrt_iff_nth_less contig_def word_less_nat_alt intro!: logKey_less)
  have "sorted (map fst ?ys)" "distinct (map fst ?ys)"
    using asc by (simp_all add: comp_def strict_sorted_iff)
  moreover have "set (map fst (kv_scan m logPrefix)) = set (map fst ?ys)"
  proof -
    have "k \<in> set (map fst (kv_scan m logPrefix)) \<longleftrightarrow> (\<exists>e \<in> set (ps_Log s). k = logKey (GlobalIndex e))" for k
    proof -
      have "k \<in> set (map fst (kv_scan m logPrefix)) \<longleftrightarrow> prefix logPrefix k \<and> fmlookup m k \<noteq> None"
        using in_kv_scan [of k _ m logPrefix] by force
      then show ?thesis using assms(1) logKey_prefix unfolding holds_state_def by (metis option.discI)
    qed
    then show ?thesis by auto
  qed
  ultimately show "map fst (kv_scan m logPrefix) = map fst ?ys"
    using sorted_kv_scan distinct_kv_scan sorted_distinct_set_unique by blast
  show "distinct (map fst (kv_scan m logPrefix))" by (rule distinct_kv_scan)
  show "set (kv_scan m logPrefix) \<subseteq> set ?ys"
    using assms(1) unfolding holds_state_def by (auto simp: in_kv_scan image_iff) fastforce
qed

lemma scan_prefixed:
  assumes p: "\<And>k. fmlookup m (p @ k) = map_option f (fmlookup new k)" and d: "\<And>x. dec (f x) = Some (g x)"
  shows "\<exists>kvs. those (map (\<lambda>(k, v). map_option (Pair (drop (length p) k)) (dec v)) (kv_scan m p)) = Some kvs \<and>
    fm_insert_all kvs fmempty = fmmap g new"
proof -
  let ?F = "\<lambda>(k, v). (drop (length p) k, the (dec v))"
  have each: "map_option (Pair (drop (length p) k)) (dec v) = Some (?F (k, v))"
    if kv: "(k, v) \<in> set (kv_scan m p)" for k v
  proof -
    have "prefix p k" using kv by (simp add: in_kv_scan)
    then obtain k' where "k = p @ k'" by (rule prefixE)
    then obtain x where "v = f x" using kv p [of k'] by (auto simp: in_kv_scan)
    then show ?thesis by (simp add: d)
  qed
  have "those (map (\<lambda>(k, v). map_option (Pair (drop (length p) k)) (dec v)) (kv_scan m p)) =
      Some (map ?F (kv_scan m p))"
    by (rule those_map_Some) (use each in auto)
  moreover have "fm_insert_all (map ?F (kv_scan m p)) fmempty = fmmap g new"
  proof (rule fmap_ext)
    fix k
    have "inj_on (drop (length p)) (set (map fst (kv_scan m p)))"
      by (rule inj_onI) (auto simp: in_kv_scan elim!: prefixE)
    then have "distinct (map (drop (length p)) (map fst (kv_scan m p)))"
      using distinct_kv_scan distinct_map by blast
    moreover have "map fst (map ?F xs) = map (drop (length p)) (map fst xs)" for xs by auto
    ultimately have dist: "distinct (map fst (map ?F (kv_scan m p)))" by metis
    have mem: "(k, y) \<in> set (map ?F (kv_scan m p)) \<longleftrightarrow> (\<exists>x. fmlookup new k = Some x \<and> y = g x)" for y
    proof
      assume "(k, y) \<in> set (map ?F (kv_scan m p))"
      then obtain v where "(p @ k, v) \<in> set (kv_scan m p)" "y = the (dec v)"
        by (auto simp: in_kv_scan elim!: prefixE)
      then show "\<exists>x. fmlookup new k = Some x \<and> y = g x" using p [of k] d by (auto simp: in_kv_scan)
    next
      assume "\<exists>x. fmlookup new k = Some x \<and> y = g x"
      then obtain x where "fmlookup new k = Some x" "y = g x" by blast
      then have "(p @ k, f x) \<in> set (kv_scan m p)" "(k, y) = ?F (p @ k, f x)"
        using p [of k] d by (auto simp: in_kv_scan)
      then show "(k, y) \<in> set (map ?F (kv_scan m p))"
        unfolding set_map by (intro image_eqI [of _ _ "(p @ k, f x)"])
    qed
    show "fmlookup (fm_insert_all (map ?F (kv_scan m p)) fmempty) k = fmlookup (fmmap g new) k"
    proof (cases "fmlookup new k")
      case None
      then have "map_of (map ?F (kv_scan m p)) k = None" using mem by (metis map_of_SomeD not_None_eq)
      then show ?thesis using None by (simp add: fm_insert_all_lookup [OF dist])
    next
      case (Some x)
      then have "map_of (map ?F (kv_scan m p)) k = Some (g x)" using mem dist by (simp add: map_of_eq_Some_iff)
      then show ?thesis using Some by (simp add: fm_insert_all_lookup [OF dist])
    qed
  qed
  ultimately show ?thesis by blast
qed

lemma unmarshal_meta:
  "unmarshal (meta_doc s) = Some ((coerce_state s)\<lparr>ps_Log := [], ps_Results := fmempty, ps_StateMachine := fmempty\<rparr>)"
  unfolding meta_doc_def by (rule unmarshal_marshal_with) simp_all

lemma contig_distinct: "contig b lg \<Longrightarrow> distinct (map GlobalIndex lg)"
  by (auto simp: contig_def distinct_conv_nth word_unat_eq_iff)

context kv_engine
begin

text \<open>Loading from an engine that holds a state gives that state.\<close>

lemma load_holds:
  assumes "kv_db st = Some e" "healthy e" "holds_state (contents e) s" "contig b (ps_Log s)"
  shows "\<exists>st'. KVStore_Load get scan st = Some (st', Inr (kv_image s))"
proof -
  obtain smkv where sm: "those (map (\<lambda>(k, v). map_option (Pair (drop (length smKeyPrefix) k)) (dec_raw v))
        (kv_scan (contents e) smKeyPrefix)) = Some smkv" "fm_insert_all smkv fmempty = ps_StateMachine s"
    using scan_prefixed [of "contents e" smKeyPrefix KVRaw "ps_StateMachine s" dec_raw "\<lambda>x. x"] assms(3)
    by (auto simp: holds_state_def fmap.map_ident)
  obtain rkv where res: "those (map (\<lambda>(k, v). map_option (Pair (drop (length resPrefix) k)) (dec_doc dec_result v))
        (kv_scan (contents e) resPrefix)) = Some rkv" "fm_insert_all rkv fmempty = fmmap coerce_result (ps_Results s)"
    using scan_prefixed [of "contents e" resPrefix "\<lambda>r. KVDoc (enc_result r)" "ps_Results s" "dec_doc dec_result" coerce_result]
      assms(3) by (auto simp: holds_state_def)
  have "those (map (\<lambda>(k, v). map_option (Pair (drop (length logPrefix) k)) (dec_doc dec_entry v))
        (kv_scan (contents e) logPrefix)) =
      Some (map (\<lambda>x. (drop (length logPrefix) (logKey (GlobalIndex x)), coerce_entry x)) (ps_Log s))"
    unfolding log_scan [OF assms(3,4)] map_map by (rule those_map_Some) simp
  then have lg: "scan_decode scan (dec_doc dec_entry) e logPrefix =
      Inr (map (\<lambda>x. (drop (length logPrefix) (logKey (GlobalIndex x)), coerce_entry x)) (ps_Log s))"
    by (simp add: scan_decode_def scan_contents assms(2))
  have meta: "fmlookup (contents e) metaKey = Some (KVDoc (meta_doc s))"
    using assms(3) by (simp add: holds_state_def)
  show ?thesis
    using assms(1) sm res lg
    by (simp add: KVStore_Load_def get_contents assms(2) meta unmarshal_meta scan_decode_def
        scan_contents Let_def comp_def kv_image_def)
qed

text \<open>A successful save writes exactly the state; a failed one leaves the engine as it was.\<close>

lemma save_holds:
  assumes "kv_db st = Some e" "synced (contents e) st" "contig b (ps_Log s)"
    "faithful_log (contents e) st (ps_Log s)" "keys_kept st s" "KVStore_Save wr st s = Some (st', None)"
  shows "\<exists>e'. kv_db st' = Some e' \<and> holds_state (contents e') s"
proof -
  have d: "distinct (map GlobalIndex (ps_Log s))" using assms(3) by (rule contig_distinct)
  note h = batch_holds_state [OF assms(2) d assms(4,5)]
  show ?thesis
  proof (cases "save_batch st s = []")
    case True
    then show ?thesis using assms(1,6) h by (simp add: KVStore_Save_def)
  next
    case False
    then obtain e' where "wr e (save_batch st s) = (e', None)" "kv_db st' = Some e'"
      using assms(1,6) by (auto simp: KVStore_Save_def split: prod.splits option.splits)
    then show ?thesis using h write_applies by fastforce
  qed
qed

lemma save_failed:
  assumes "kv_db st = Some e" "KVStore_Save wr st s = Some (st', Some err)"
  shows "\<exists>e'. st' = st\<lparr>kv_db := Some e'\<rparr> \<and> contents e' = contents e"
  using assms write_atomic by (fastforce simp: KVStore_Save_def split: if_splits prod.splits option.splits)

end

section \<open>Sequences of saves\<close>

text \<open>The bookkeeping after a save of \<open>s\<close>.\<close>

definition remembers :: "'e KVStore \<Rightarrow> PersistentState \<Rightarrow> bool" where
  "remembers st s \<longleftrightarrow> kv_lastMeta st = Some (meta_doc s) \<and> kv_lastLog st = desired_log (ps_Log s) \<and>
     kv_lastSM st = ps_StateMachine s \<and> kv_lastRes st = ps_Results s"

lemma remembers_synced:
  assumes "holds_state m s" "remembers st s" "contig b (ps_Log s)"
  shows "synced m st"
proof -
  note d = contig_distinct [OF assms(3)]
  have "\<exists>e. fmlookup m (logKey i) = Some (KVDoc (enc_entry e)) \<and> fingerprintOf e = fp"
    if "fmlookup (desired_log (ps_Log s)) i = Some fp" for i fp
  proof -
    have "i \<in> GlobalIndex ` set (ps_Log s)" using that desired_log_None [of "ps_Log s" i] by auto
    then obtain e where "e \<in> set (ps_Log s)" "i = GlobalIndex e" by blast
    then show ?thesis using assms(1) that desired_log_lookup [OF d] by (fastforce simp: holds_state_def)
  qed
  moreover have "fmlookup (desired_log (ps_Log s)) (GlobalIndex e) \<noteq> None" if "e \<in> set (ps_Log s)" for e
    using that by (simp add: desired_log_None del: not_None_eq)
  ultimately show ?thesis
    using assms(1,2) unfolding synced_def holds_state_def remembers_def by (smt (verit) option.map(2))
qed

text \<open>How one state follows another: applied keys and results stay, and a log slot with the same
  index, term and request holds the same entry.\<close>

definition follows :: "PersistentState \<Rightarrow> PersistentState \<Rightarrow> bool" where
  "follows s s' \<longleftrightarrow> fmdom (ps_StateMachine s) |\<subseteq>| fmdom (ps_StateMachine s') \<and>
     fmdom (ps_Results s) |\<subseteq>| fmdom (ps_Results s') \<and>
     (\<forall>e \<in> set (ps_Log s). \<forall>e' \<in> set (ps_Log s'). fingerprintOf e = fingerprintOf e' \<longrightarrow> e = e')"

lemma fmadd_absorb: "fmdom m |\<subseteq>| fmdom n \<Longrightarrow> m ++\<^sub>f n = n"
  by (rule fmap_ext) (metis fmdom_notD fmlookup_add fsubsetD)

lemma no_ops_same:
  assumes "fmdom old |\<subseteq>| fmdom new" "filter (\<lambda>(k, v). fmlookup old k \<noteq> Some v) (sorted_list_of_fmap new) = []"
  shows "old = new"
proof (rule fmap_ext)
  fix k
  have "fmlookup old k = Some v" if "fmlookup new k = Some v" for v
    using that assms(2) by (auto simp: filter_empty_conv in_sorted_list_of_fmap dest!: bspec [of _ _ "(k, v)"])
  moreover have "fmlookup old k = None" if "fmlookup new k = None"
    using that assms(1) by (metis fmdom_notD fmdom_notI fsubsetD)
  ultimately show "fmlookup old k = fmlookup new k" by (cases "fmlookup new k") auto
qed

fun save_all ::
    "('e \<Rightarrow> KVOp list \<Rightarrow> 'e \<times> error option) \<Rightarrow> 'e KVStore \<Rightarrow> PersistentState list \<Rightarrow> 'e KVStore option" where
  "save_all wr st [] = Some st"
| "save_all wr st (s # ss) =
     (case KVStore_Save wr st s of Some (st', None) \<Rightarrow> save_all wr st' ss | _ \<Rightarrow> None)"

lemma no_log_ops_same:
  assumes "log_ops st lg = []" "distinct (map GlobalIndex lg)"
  shows "kv_lastLog st = desired_log lg"
proof (rule fmap_ext)
  fix i
  have puts: "fmlookup (kv_lastLog st) (GlobalIndex e) = Some (fingerprintOf e)" if "e \<in> set lg" for e
    using assms(1) that by (auto simp: log_ops_def filter_empty_conv)
  have dels: "fmlookup (kv_lastLog st) i = None" if "i \<notin> GlobalIndex ` set lg"
  proof (rule ccontr)
    assume "fmlookup (kv_lastLog st) i \<noteq> None"
    then obtain fp where "(i, fp) \<in> set (sorted_list_of_fmap (kv_lastLog st))"
      by (auto simp: in_sorted_list_of_fmap)
    then show False using assms(1) that by (auto simp: log_ops_def filter_empty_conv desired_log_None)
  qed
  show "fmlookup (kv_lastLog st) i = fmlookup (desired_log lg) i"
  proof (cases "i \<in> GlobalIndex ` set lg")
    case True
    then show ?thesis using puts desired_log_lookup [OF assms(2)] by force
  next
    case False
    then show ?thesis using dels desired_log_None [of lg i] by simp
  qed
qed

lemma save_remembers:
  assumes "KVStore_Save wr st s = Some (st', None)" "keys_kept st s" "distinct (map GlobalIndex (ps_Log s))"
  shows "remembers st' s"
proof -
  have dom: "fmdom (kv_lastSM st) |\<subseteq>| fmdom (ps_StateMachine s)" "fmdom (kv_lastRes st) |\<subseteq>| fmdom (ps_Results s)"
    using assms(2) by (simp_all add: keys_kept_def)
  have sm: "kv_lastSM st = ps_StateMachine s" if "sm_ops st (ps_StateMachine s) = []"
    using that no_ops_same [OF dom(1)] by (simp add: sm_ops_def)
  have res: "kv_lastRes st = ps_Results s" if "res_ops st (ps_Results s) = []"
    using that no_ops_same [OF dom(2)] by (simp add: res_ops_def)
  show ?thesis
  proof (cases "save_batch st s = []")
    case True
    then have "meta_ops st s = []" "log_ops st (ps_Log s) = []" "sm_ops st (ps_StateMachine s) = []"
      "res_ops st (ps_Results s) = []" by (simp_all add: save_batch_def)
    then show ?thesis
      using assms(1,3) True sm res no_log_ops_same
      by (auto simp: KVStore_Save_def remembers_def meta_ops_def split: if_splits)
  next
    case False
    then show ?thesis
      using assms(1) sm res dom
      by (auto simp: KVStore_Save_def remembers_def fmadd_absorb split: if_splits prod.splits option.splits)
  qed
qed

text \<open>Before the first save the engine is empty; afterwards it holds the last saved state.\<close>

definition store_ready ::
    "('e \<Rightarrow> (string, kvval) fmap) \<Rightarrow> 'e KVStore \<Rightarrow> PersistentState option \<Rightarrow> bool" where
  "store_ready contents st prev \<longleftrightarrow> (\<exists>e. kv_db st = Some e \<and>
     (case prev of None \<Rightarrow> contents e = fmempty \<and> st = NewKVStore e
      | Some s \<Rightarrow> holds_state (contents e) s \<and> remembers st s \<and> (\<exists>b. contig b (ps_Log s))))"

context kv_engine
begin

lemma ready_save:
  assumes "store_ready contents st prev" "\<And>s0. prev = Some s0 \<Longrightarrow> follows s0 s" "contig b (ps_Log s)"
    "KVStore_Save wr st s = Some (st', None)"
  shows "store_ready contents st' (Some s)"
proof -
  obtain e where e: "kv_db st = Some e" using assms(1) by (auto simp: store_ready_def)
  have sy: "synced (contents e) st \<and> faithful_log (contents e) st (ps_Log s) \<and> keys_kept st s"
  proof (cases prev)
    case None
    then have "contents e = fmempty" "st = NewKVStore e" using assms(1) e by (auto simp: store_ready_def)
    then show ?thesis by (simp add: synced_def faithful_log_def keys_kept_def NewKVStore_def)
  next
    case (Some s0)
    then obtain b0 where s0: "holds_state (contents e) s0" "remembers st s0" "contig b0 (ps_Log s0)"
      using assms(1) e by (auto simp: store_ready_def)
    have f: "follows s0 s" using assms(2) Some by simp
    have "fmlookup (contents e) (logKey (GlobalIndex x)) = Some (KVDoc (enc_entry x))"
      if x: "x \<in> set (ps_Log s)" "fmlookup (kv_lastLog st) (GlobalIndex x) = Some (fingerprintOf x)" for x
    proof -
      have "GlobalIndex x \<in> GlobalIndex ` set (ps_Log s0)"
        using x(2) s0(2) desired_log_None [of "ps_Log s0" "GlobalIndex x"] by (auto simp: remembers_def)
      then obtain y where y: "y \<in> set (ps_Log s0)" "GlobalIndex y = GlobalIndex x" by (metis imageE)
      then have "fingerprintOf y = fingerprintOf x"
        using x(2) s0(2) desired_log_lookup [OF contig_distinct [OF s0(3)] y(1)] by (simp add: remembers_def)
      then have "y = x" using f x(1) y(1) by (simp add: follows_def)
      then show ?thesis using s0(1) y by (simp add: holds_state_def)
    qed
    then show ?thesis
      using remembers_synced [OF s0] f s0(2) by (auto simp: faithful_log_def keys_kept_def follows_def remembers_def)
  qed
  then obtain e' where "kv_db st' = Some e'" "holds_state (contents e') s"
    using save_holds [OF e _ assms(3) _ _ assms(4)] by blast
  moreover have "remembers st' s"
    using save_remembers [OF assms(4) _ contig_distinct [OF assms(3)]] sy by blast
  ultimately show ?thesis using assms(3) by (auto simp: store_ready_def)
qed

lemma save_all_ready:
  assumes "store_ready contents st prev" "save_all wr st ss = Some st'" "successively follows (case_option [] (\<lambda>s. [s]) prev @ ss)"
    "\<forall>s \<in> set ss. \<exists>b. contig b (ps_Log s)"
  shows "store_ready contents st' (if ss = [] then prev else Some (last ss))"
  using assms
proof (induction ss arbitrary: st prev)
  case Nil
  then show ?case by simp
next
  case (Cons s ss)
  obtain st1 where st1: "KVStore_Save wr st s = Some (st1, None)" "save_all wr st1 ss = Some st'"
    using Cons.prems(2) by (auto split: option.splits prod.splits)
  obtain b where b: "contig b (ps_Log s)" using Cons.prems(4) by auto
  have r: "store_ready contents st1 (Some s)"
    using Cons.prems(3) by (intro ready_save [OF Cons.prems(1) _ b st1(1)]) (auto simp: successively_Cons)
  have "successively follows (s # ss)"
    using Cons.prems(3) by (auto simp: successively_append_iff split: option.splits)
  then show ?case using Cons.IH [OF r st1(2)] Cons.prems(4) by (simp split: if_splits)
qed

end


section \<open>A concrete database\<close>

text \<open>A database that is a finite map and never fails keeps the contract, so the contract can be met.\<close>

definition mapdb_get :: "(string, kvval) fmap \<Rightarrow> string \<Rightarrow> db_error + kvval" where
  "mapdb_get m k = (case fmlookup m k of None \<Rightarrow> Inl DBNotFound | Some v \<Rightarrow> Inr v)"

definition mapdb_write :: "bool \<Rightarrow> (string, kvval) fmap \<Rightarrow> batch_op list \<Rightarrow> (string, kvval) fmap \<times> error option" where
  "mapdb_write sync m b = (fold apply_batch_op b m, None)"

definition mapdb_iter :: "(string, kvval) fmap \<Rightarrow> string \<Rightarrow> (string \<times> kvval) list \<times> error option" where
  "mapdb_iter m p = (kv_scan m p, None)"

interpretation mapdb: leveldb mapdb_get mapdb_write mapdb_iter id "\<lambda>_. True"
  by unfold_locales (auto simp: mapdb_get_def mapdb_write_def mapdb_iter_def)

text \<open>Two saves: the second overwrites a log entry, appends one, and changes an applied key.\<close>

definition ex_save1 :: PersistentState where
  "ex_save1 = empty_state\<lparr>ps_Log := [ex_entry 1 1 ''r1'', ex_entry 1 2 ''rx''],
     ps_StateMachine := fmupd ''k'' ''r0'' fmempty\<rparr>"

definition ex_save2 :: PersistentState where
  "ex_save2 = empty_state\<lparr>ps_DomainTerm := 4, ps_Log := [ex_entry 1 1 ''r1'', ex_entry 2 2 ''r2'', ex_entry 2 3 ''r3''],
     ps_StateMachine := fmupd ''k'' ''r1'' fmempty\<rparr>"

definition ex_saved :: "(string, kvval) fmap KVStore" where
  "ex_saved = the (save_all (leveldbEngine_Write mapdb_write True) (NewKVStore fmempty) [ex_save1, ex_save2])"

lemma ex_kv_image: "kv_image ex_save2 = ex_save2"
  by code_simp

lemma mapdb_save_all:
  "kv_db st \<noteq> None \<Longrightarrow>
   \<exists>st'. save_all (leveldbEngine_Write mapdb_write sync) st ss = Some st' \<and> kv_db st' \<noteq> None"
  by (induction ss arbitrary: st)
     (auto simp: KVStore_Save_def leveldbEngine_Write_def mapdb_write_def split: option.splits)


end
