(* ===== verification/Race.thy ===== *)
theory Race
  imports Types
begin

text \<open>
  \<open>internal/cdraft/race.go\<close>: the client's race between the Global Leader's reply and the Fast Return
  of a Domain Leader.  The select loop is driven by the sequence of channel events the scheduler
  delivers; a receive on a nil channel never happens, so such an event is skipped.  A sequence that
  ends while a channel is open leaves the caller waiting (\<open>None\<close>).  Whichever path wins, the result
  is valid for the request, and the loser is still compared with the winner.
\<close>

section \<open>Events and outcomes\<close>

record Response =
  rsp_Result :: ClientResult
  rsp_Err :: "error option"

text \<open>\<open>OnGlobal (Some r)\<close> is a response received from the channel, \<open>OnGlobal None\<close> a receive that
  finds it closed.  \<open>CtxDone\<close> belongs to the caller's context, \<open>GraceDone\<close> to the detached context of
  the late check.\<close>

datatype race_event = CtxDone | GraceDone | OnGlobal "Response option" | OnFast "Response option"

record RaceDecision =
  rd_Result :: ClientResult
  rd_Winner :: ResultSource
  rd_LateErrors :: "error list"

definition lateConsistencyGrace :: duration where
  "lateConsistencyGrace = 2 * second"

definition validResponse :: "Response \<Rightarrow> string \<Rightarrow> ResultSource \<Rightarrow> ClientResult option" where
  "validResponse response requestID source =
     (if rsp_Err response \<noteq> None \<or> cr_Source (rsp_Result response) \<noteq> source \<or>
         Validate (rsp_Result response) requestID \<noteq> None
      then None else Some (rsp_Result response))"

section \<open>The late check and the race\<close>

fun drainLate :: "string \<Rightarrow> ClientResult \<Rightarrow> bool \<Rightarrow> bool \<Rightarrow> race_event list \<Rightarrow> error list" where
  "drainLate requestID winner globalOpen fastOpen [] = []"
| "drainLate requestID winner globalOpen fastOpen (e # es) =
     (if \<not> globalOpen \<and> \<not> fastOpen then []
      else case e of
        GraceDone \<Rightarrow> []
      | CtxDone \<Rightarrow> drainLate requestID winner globalOpen fastOpen es
      | OnGlobal m \<Rightarrow>
          if \<not> globalOpen then drainLate requestID winner globalOpen fastOpen es
          else (case m of
                  None \<Rightarrow> drainLate requestID winner False fastOpen es
                | Some response \<Rightarrow>
                    (case validResponse response requestID GlobalResponse of
                       Some result \<Rightarrow> (if \<not> SameDecision winner result then [ErrInconsistentResult] else [])
                     | None \<Rightarrow> [])
                    @ drainLate requestID winner False fastOpen es)
      | OnFast m \<Rightarrow>
          if \<not> fastOpen then drainLate requestID winner globalOpen fastOpen es
          else (case m of
                  None \<Rightarrow> drainLate requestID winner globalOpen False es
                | Some response \<Rightarrow>
                    (case validResponse response requestID FastResponse of
                       Some result \<Rightarrow> (if \<not> SameDecision winner result then [ErrInconsistentResult] else [])
                     | None \<Rightarrow> [])
                    @ drainLate requestID winner globalOpen False es))"

definition startLateDrain :: "string \<Rightarrow> ClientResult \<Rightarrow> bool \<Rightarrow> bool \<Rightarrow> race_event list \<Rightarrow> error list" where
  "startLateDrain requestID winner globalOpen fastOpen es = drainLate requestID winner globalOpen fastOpen es"

fun RaceResponses :: "string \<Rightarrow> bool \<Rightarrow> bool \<Rightarrow> race_event list \<Rightarrow> (error + RaceDecision) option" where
  "RaceResponses requestID globalOpen fastOpen [] =
     (if \<not> globalOpen \<and> \<not> fastOpen then Some (Inl ErrBothPathsFailed) else None)"
| "RaceResponses requestID globalOpen fastOpen (e # es) =
     (if \<not> globalOpen \<and> \<not> fastOpen then Some (Inl ErrBothPathsFailed)
      else case e of
        CtxDone \<Rightarrow> Some (Inl ErrDeadline)
      | GraceDone \<Rightarrow> RaceResponses requestID globalOpen fastOpen es
      | OnGlobal m \<Rightarrow>
          if \<not> globalOpen then RaceResponses requestID globalOpen fastOpen es
          else (case m of
                  None \<Rightarrow> RaceResponses requestID False fastOpen es
                | Some response \<Rightarrow>
                    (case validResponse response requestID GlobalResponse of
                       Some result \<Rightarrow>
                         Some (Inr \<lparr>rd_Result = result, rd_Winner = GlobalResponse,
                                    rd_LateErrors = startLateDrain requestID result False fastOpen es\<rparr>)
                     | None \<Rightarrow> RaceResponses requestID False fastOpen es))
      | OnFast m \<Rightarrow>
          if \<not> fastOpen then RaceResponses requestID globalOpen fastOpen es
          else (case m of
                  None \<Rightarrow> RaceResponses requestID globalOpen False es
                | Some response \<Rightarrow>
                    (case validResponse response requestID FastResponse of
                       Some result \<Rightarrow>
                         Some (Inr \<lparr>rd_Result = result, rd_Winner = FastResponse,
                                    rd_LateErrors = startLateDrain requestID result globalOpen False es\<rparr>)
                     | None \<Rightarrow> RaceResponses requestID globalOpen False es)))"

text \<open>The unary call runs independently and delivers its outcome on the global channel once.\<close>

definition RaceUnaryWrite ::
    "string \<Rightarrow> ClientResult \<times> error option \<Rightarrow> race_event list \<Rightarrow> (error + RaceDecision) option" where
  "RaceUnaryWrite requestID call es =
     RaceResponses requestID True True
       (map (\<lambda>e. case e of
               OnGlobal _ \<Rightarrow> OnGlobal (Some \<lparr>rsp_Result = fst call, rsp_Err = snd call\<rparr>)
             | e \<Rightarrow> e) es)"

section \<open>Properties\<close>

lemma validResponse_Some:
  "validResponse r q src = Some x \<Longrightarrow> x = rsp_Result r \<and> cr_Source x = src \<and> Validate x q = None \<and> rsp_Err r = None"
  by (simp add: validResponse_def split: if_splits)

text \<open>A decided race always carries a result that is valid for this request and that came from the
  path named as winner, whatever the channels delivered before.\<close>

theorem race_result_valid:
  assumes "RaceResponses q g f es = Some (Inr d)"
  shows "Validate (rd_Result d) q = None \<and> cr_Source (rd_Result d) = rd_Winner d \<and>
     (rd_Winner d = GlobalResponse \<or> rd_Winner d = FastResponse)"
  using assms
  by (induction es arbitrary: g f)
     (auto split: if_splits race_event.splits option.splits dest!: validResponse_Some)

lemma race_error_cases:
  assumes "RaceResponses q g f es = Some (Inl e)"
  shows "(e = ErrDeadline \<and> CtxDone \<in> set es) \<or>
    (e = ErrBothPathsFailed \<and>
      (g \<longrightarrow> (\<exists>r. OnGlobal r \<in> set es \<and> (\<forall>x. r = Some x \<longrightarrow> validResponse x q GlobalResponse = None))) \<and>
      (f \<longrightarrow> (\<exists>r. OnFast r \<in> set es \<and> (\<forall>x. r = Some x \<longrightarrow> validResponse x q FastResponse = None))))"
  using assms
proof (induction es arbitrary: g f)
  case Nil
  then show ?case by (auto split: if_splits)
next
  case (Cons ev es)
  show ?case
  proof (cases ev)
    case CtxDone
    then show ?thesis using Cons.prems by (auto split: if_splits)
  next
    case GraceDone
    then show ?thesis using Cons by (auto split: if_splits)
  next
    case (OnGlobal m)
    then show ?thesis
      using Cons.prems Cons.IH [of g f] Cons.IH [of False f]
      by (cases m; cases g; auto split: if_splits option.splits)
  next
    case (OnFast m)
    then show ?thesis
      using Cons.prems Cons.IH [of g f] Cons.IH [of g False]
      by (cases m; cases f; auto split: if_splits option.splits)
  qed
qed

text \<open>The caller is told that both paths failed only when each path delivered something that is not a
  valid response (or was closed), and it is told of a deadline only when its context ended.\<close>

theorem race_errors_justified:
  assumes "RaceResponses q True True es = Some (Inl e)"
  shows "(e = ErrDeadline \<and> CtxDone \<in> set es) \<or>
    (e = ErrBothPathsFailed \<and>
      (\<exists>r. OnGlobal r \<in> set es \<and> (\<forall>x. r = Some x \<longrightarrow> validResponse x q GlobalResponse = None)) \<and>
      (\<exists>r. OnFast r \<in> set es \<and> (\<forall>x. r = Some x \<longrightarrow> validResponse x q FastResponse = None)))"
  using race_error_cases [OF assms] by simp

text \<open>What each path delivers first.\<close>

fun first_global :: "race_event list \<Rightarrow> Response option option" where
  "first_global [] = None"
| "first_global (OnGlobal m # es) = Some m"
| "first_global (_ # es) = first_global es"

fun first_fast :: "race_event list \<Rightarrow> Response option option" where
  "first_fast [] = None"
| "first_fast (OnFast m # es) = Some m"
| "first_fast (_ # es) = first_fast es"

lemma drain_other:
  assumes "GraceDone \<notin> set es"
  shows "first_fast es = Some (Some r) \<Longrightarrow> validResponse r q FastResponse = Some x \<Longrightarrow>
      drainLate q w False True es = (if SameDecision w x then [] else [ErrInconsistentResult])"
    and "first_global es = Some (Some r) \<Longrightarrow> validResponse r q GlobalResponse = Some x \<Longrightarrow>
      drainLate q w True False es = (if SameDecision w x then [] else [ErrInconsistentResult])"
proof -
  have shut: "drainLate q w False False es' = []" for es' by (cases es') auto
  show "first_fast es = Some (Some r) \<Longrightarrow> validResponse r q FastResponse = Some x \<Longrightarrow>
      drainLate q w False True es = (if SameDecision w x then [] else [ErrInconsistentResult])"
    using assms by (induction es rule: first_fast.induct) (auto simp: shut)
  show "first_global es = Some (Some r) \<Longrightarrow> validResponse r q GlobalResponse = Some x \<Longrightarrow>
      drainLate q w True False es = (if SameDecision w x then [] else [ErrInconsistentResult])"
    using assms by (induction es rule: first_global.induct) (auto simp: shut)
qed

text \<open>When both paths deliver a valid response in time, the race decides in every interleaving; if
  the two responses are the same decision the caller sees no late error, and if they differ the late
  check reports exactly one inconsistency, whichever path won.\<close>

theorem race_interleaving:
  assumes "CtxDone \<notin> set es" "GraceDone \<notin> set es"
    and "first_global es = Some (Some rg)" "validResponse rg q GlobalResponse = Some x"
    and "first_fast es = Some (Some rf)" "validResponse rf q FastResponse = Some y"
  shows "\<exists>d. RaceResponses q True True es = Some (Inr d) \<and>
     (rd_Result d = x \<and> rd_Winner d = GlobalResponse \<or> rd_Result d = y \<and> rd_Winner d = FastResponse) \<and>
     rd_LateErrors d = (if SameDecision x y then [] else [ErrInconsistentResult])"
proof (cases es)
  case Nil
  then show ?thesis using assms(3) by simp
next
  case (Cons ev es')
  have sym: "SameDecision y x = SameDecision x y" by (auto simp: SameDecision_def)
  show ?thesis
    using assms Cons drain_other(1) [of es' rf q y x] drain_other(2) [of es' rg q x y]
    by (cases ev) (auto simp: startLateDrain_def sym)
qed

section \<open>Concrete instances\<close>

definition ex_result :: "ResultSource \<Rightarrow> string \<Rightarrow> ClientResult" where
  "ex_result src res = \<lparr>cr_RequestID = ''r1'', cr_GlobalTerm = 2, cr_GlobalIndex = 7, cr_Result = res,
     cr_Source = src, cr_Committed = True, cr_ResponderDomain = []\<rparr>"

definition ex_race :: "race_event list" where
  "ex_race = [OnFast (Some \<lparr>rsp_Result = ex_result FastResponse ''k=v'', rsp_Err = None\<rparr>),
     OnGlobal (Some \<lparr>rsp_Result = ex_result GlobalResponse ''k=w'', rsp_Err = None\<rparr>)]"

definition ex_failed_race :: "race_event list" where
  "ex_failed_race = [OnFast None, OnGlobal (Some \<lparr>rsp_Result = ex_result GlobalResponse ''k=w'', rsp_Err = Some ErrDeadline\<rparr>)]"

lemma race_result_valid_witness:
  "Validate (ex_result FastResponse ''k=v'') ''r1'' = None"
proof -
  have "RaceResponses ''r1'' True True ex_race =
      Some (Inr \<lparr>rd_Result = ex_result FastResponse ''k=v'', rd_Winner = FastResponse,
                 rd_LateErrors = [ErrInconsistentResult]\<rparr>)" by code_simp
  from race_result_valid [OF this] show ?thesis by simp
qed

lemma race_errors_justified_witness:
  "\<exists>r. OnFast r \<in> set ex_failed_race \<and>
     (case r of None \<Rightarrow> True | Some x \<Rightarrow> validResponse x ''r1'' FastResponse = None)"
proof -
  have "RaceResponses ''r1'' True True ex_failed_race = Some (Inl ErrBothPathsFailed)" by code_simp
  from race_errors_justified [OF this] obtain r where r: "OnFast r \<in> set ex_failed_race"
      "\<forall>x. r = Some x \<longrightarrow> validResponse x ''r1'' FastResponse = None" by auto
  show ?thesis by (rule exI [of _ r]) (use r in \<open>simp split: option.split\<close>)
qed

lemma race_interleaving_witness:
  "\<exists>d. RaceResponses ''r1'' True True ex_race = Some (Inr d) \<and> rd_LateErrors d = [ErrInconsistentResult]"
proof -
  let ?g = "\<lparr>rsp_Result = ex_result GlobalResponse ''k=w'', rsp_Err = None\<rparr>"
  let ?f = "\<lparr>rsp_Result = ex_result FastResponse ''k=v'', rsp_Err = None\<rparr>"
  have "CtxDone \<notin> set ex_race" "GraceDone \<notin> set ex_race" "first_global ex_race = Some (Some ?g)"
    "first_fast ex_race = Some (Some ?f)" by (simp_all add: ex_race_def)
  moreover have "validResponse ?g ''r1'' GlobalResponse = Some (ex_result GlobalResponse ''k=w'')"
    "validResponse ?f ''r1'' FastResponse = Some (ex_result FastResponse ''k=v'')"
    "\<not> SameDecision (ex_result GlobalResponse ''k=w'') (ex_result FastResponse ''k=v'')" by code_simp+
  ultimately show ?thesis
    using race_interleaving [of ex_race ?g "''r1''" "ex_result GlobalResponse ''k=w''" ?f
        "ex_result FastResponse ''k=v''"] by auto
qed

end
