(* ===== verification/Stats.thy ===== *)
theory Stats
  imports Prelude
begin

text \<open>
  \<open>internal/cdraft/stats.go\<close>: the telemetry a node measures.  A sliding window of client requests, a
  matrix of smoothed one-way latencies, and the latencies that floating clients report, which expire
  after a time to live.  The lemmas show that the window counts exactly the requests inside it, that
  smoothing stays within the observed range, and that expired estimates are never used.
\<close>

section \<open>Request window\<close>

record requestEvent =
  re_at :: time
  re_domain :: string
  re_isRead :: bool

record statsWindow =
  sw_window :: duration
  sw_events :: "requestEvent list"

definition newStatsWindow :: "duration \<Rightarrow> statsWindow" where
  "newStatsWindow window = \<lparr>sw_window = window, sw_events = []\<rparr>"

definition pruneLocked :: "statsWindow \<Rightarrow> time \<Rightarrow> statsWindow" where
  "pruneLocked s now =
     (let cutoff = now - sw_window s in s\<lparr>sw_events := filter (\<lambda>e. re_at e > cutoff) (sw_events s)\<rparr>)"

definition stats_record :: "statsWindow \<Rightarrow> string \<Rightarrow> bool \<Rightarrow> time \<Rightarrow> statsWindow" where
  "stats_record s domain isRead now =
     pruneLocked (s\<lparr>sw_events := sw_events s @ [\<lparr>re_at = now, re_domain = domain, re_isRead = isRead\<rparr>]\<rparr>) now"

definition bump :: "string \<Rightarrow> rat gomap \<Rightarrow> rat gomap" where
  "bump d m = fmupd d (getz m d + 1) m"

definition stats_counts :: "statsWindow \<Rightarrow> time \<Rightarrow> statsWindow \<times> rat gomap \<times> rat gomap" where
  "stats_counts s now =
     (let s' = pruneLocked s now;
          (writes, reads) =
            fold (\<lambda>e (w, r). if re_isRead e then (w, bump (re_domain e) r) else (bump (re_domain e) w, r))
              (sw_events s') (fmempty, fmempty)
      in (s', writes, reads))"

section \<open>Measured latencies\<close>

text \<open>\<open>Duration.Milliseconds\<close> truncates toward zero.\<close>

definition Milliseconds :: "duration \<Rightarrow> int" where
  "Milliseconds d = (if d < 0 then - ((- d) div 1000000) else d div 1000000)"

type_synonym rttStore = "rat gomap gomap"

definition newRTTStore :: rttStore where
  "newRTTStore = fmempty"

definition smooth :: "rat \<Rightarrow> rat \<Rightarrow> rat" where
  "smooth prev x = 7 / 10 * prev + 3 / 10 * x"

definition observeRTT :: "rttStore \<Rightarrow> string \<Rightarrow> string \<Rightarrow> duration \<Rightarrow> rttStore" where
  "observeRTT r from to rtt =
     (let row = get_or fmempty r from;
          oneWayMillis = of_int (Milliseconds rtt) / 2
      in case fmlookup row to of
           Some prev \<Rightarrow> fmupd from (fmupd to (smooth prev oneWayMillis) row) r
         | None \<Rightarrow> fmupd from (fmupd to oneWayMillis row) r)"

definition rtt_merge :: "rttStore \<Rightarrow> string \<Rightarrow> rat gomap \<Rightarrow> rttStore" where
  "rtt_merge r from perDomain = fmupd from (get_or fmempty r from ++\<^sub>f perDomain) r"

definition rtt_snapshot :: "rttStore \<Rightarrow> rat gomap gomap" where
  "rtt_snapshot r = r"

definition rtt_localSnapshot :: "rttStore \<Rightarrow> string \<Rightarrow> rat gomap" where
  "rtt_localSnapshot r from = get_or fmempty r from"

definition lookupOneWay :: "rttStore \<Rightarrow> string \<Rightarrow> string \<Rightarrow> rat option" where
  "lookupOneWay r from to =
     (if from = to then Some 0
      else case fmlookup r from of None \<Rightarrow> None | Some row \<Rightarrow> fmlookup row to)"

section \<open>Latencies reported by floating clients\<close>

record floatingLatencyEstimate =
  fe_oneWayMillis :: rat
  fe_observedAt :: time

record floatingLatencyStore =
  fl_ttl :: duration
  fl_values :: "floatingLatencyEstimate gomap gomap"

definition newFloatingLatencyStore :: "duration \<Rightarrow> floatingLatencyStore" where
  "newFloatingLatencyStore ttl = \<lparr>fl_ttl = (if ttl \<le> 0 then 5 * second else ttl), fl_values = fmempty\<rparr>"

definition fl_observe :: "floatingLatencyStore \<Rightarrow> string \<Rightarrow> string \<Rightarrow> rat \<Rightarrow> time \<Rightarrow> floatingLatencyStore" where
  "fl_observe s origin to oneWayMillis now =
     (let row = get_or fmempty (fl_values s) origin;
          x = (case fmlookup row to of Some prev \<Rightarrow> smooth (fe_oneWayMillis prev) oneWayMillis
               | None \<Rightarrow> oneWayMillis)
      in s\<lparr>fl_values := fmupd origin (fmupd to \<lparr>fe_oneWayMillis = x, fe_observedAt = now\<rparr> row) (fl_values s)\<rparr>)"

definition fl_oneWay :: "floatingLatencyStore \<Rightarrow> string \<Rightarrow> string \<Rightarrow> time \<Rightarrow> rat option" where
  "fl_oneWay s origin to now =
     (case fmlookup (fl_values s) origin of
        None \<Rightarrow> None
      | Some row \<Rightarrow>
          (case fmlookup row to of
             None \<Rightarrow> None
           | Some est \<Rightarrow> if now - fe_observedAt est > fl_ttl s then None else Some (fe_oneWayMillis est)))"

text \<open>Every stored estimate with its origin and target, in the order the loops visit them.\<close>

definition fl_entries :: "floatingLatencyStore \<Rightarrow> (string \<times> string \<times> floatingLatencyEstimate) list" where
  "fl_entries s =
     concat (map (\<lambda>(origin, row). map (\<lambda>(to, est). (origin, to, est)) (sorted_list_of_fmap row))
       (sorted_list_of_fmap (fl_values s)))"

definition fresh :: "floatingLatencyStore \<Rightarrow> time \<Rightarrow> floatingLatencyEstimate \<Rightarrow> bool" where
  "fresh s now est \<longleftrightarrow> \<not> now - fe_observedAt est > fl_ttl s"

definition fl_freshSnapshot :: "floatingLatencyStore \<Rightarrow> time \<Rightarrow> rat gomap gomap" where
  "fl_freshSnapshot s now =
     fold (\<lambda>(origin, to, est) out.
             if \<not> fresh s now est then out
             else fmupd origin (fmupd to (fe_oneWayMillis est) (get_or fmempty out origin)) out)
       (fl_entries s) fmempty"

definition fl_ageMillis :: "floatingLatencyStore \<Rightarrow> time \<Rightarrow> u64 gomap" where
  "fl_ageMillis s now =
     fold (\<lambda>(origin, to, est) out.
             if \<not> fresh s now est then out
             else fmupd (origin @ ''->'' @ to) (word_of_int (Milliseconds (now - fe_observedAt est))) out)
       (fl_entries s) fmempty"

definition fl_ttlMillis :: "floatingLatencyStore \<Rightarrow> u64" where
  "fl_ttlMillis s = word_of_int (Milliseconds (fl_ttl s))"

section \<open>The window counts what lies in it\<close>

definition observed :: "requestEvent list \<Rightarrow> duration \<Rightarrow> statsWindow" where
  "observed h w =
     fold (\<lambda>e s. stats_record s (re_domain e) (re_isRead e) (re_at e)) h (newStatsWindow w)"

definition in_window :: "requestEvent list \<Rightarrow> time \<Rightarrow> duration \<Rightarrow> string \<Rightarrow> bool \<Rightarrow> nat" where
  "in_window h now w d r = length (filter (\<lambda>e. re_domain e = d \<and> re_isRead e = r) (filter (\<lambda>e. now - w < re_at e) h))"

lemma observed_snoc:
  "observed (h @ [e]) w = stats_record (observed h w) (re_domain e) (re_isRead e) (re_at e)"
  by (simp add: observed_def)

lemma observed_events:
  assumes "\<forall>e \<in> set h. re_at e \<le> now"
  shows "sw_window (observed h w) = w \<and>
    filter (\<lambda>e. now - w < re_at e) (sw_events (observed h w)) = filter (\<lambda>e. now - w < re_at e) h"
  using assms
proof (induction h rule: rev_induct)
  case Nil
  then show ?case by (simp add: observed_def newStatsWindow_def)
next
  case (snoc x h)
  have t: "re_at x \<le> now" using snoc.prems by simp
  have eta: "\<lparr>re_at = re_at x, re_domain = re_domain x, re_isRead = re_isRead x\<rparr> = x" by simp
  have twice: "filter (\<lambda>e. now - w < re_at e) (filter (\<lambda>e. re_at x - w < re_at e) es) =
      filter (\<lambda>e. now - w < re_at e) es" for es
    unfolding filter_filter using t by (intro filter_cong) auto
  show ?case
    unfolding observed_snoc stats_record_def pruneLocked_def Let_def eta
    using snoc twice [of "sw_events (observed h w)"] by simp
qed

lemma count_fold:
  "fold (\<lambda>e (w, r). if re_isRead e then (w, bump (re_domain e) r) else (bump (re_domain e) w, r)) es (w0, r0) = (w, r) \<Longrightarrow>
   getz w d = getz w0 d + of_nat (length (filter (\<lambda>e. re_domain e = d \<and> \<not> re_isRead e) es)) \<and>
   getz r d = getz r0 d + of_nat (length (filter (\<lambda>e. re_domain e = d \<and> re_isRead e) es))"
  by (induction es arbitrary: w0 r0) (auto simp: bump_def split: if_splits)

text \<open>After any sequence of recorded requests, the counts at a time not before the last of them are,
  for every domain, exactly the numbers of writes and of reads recorded within the window; older
  requests have been discarded and none inside the window is lost.\<close>

theorem stats_counts_exact:
  assumes "\<forall>e \<in> set h. re_at e \<le> now"
    and "stats_counts (observed h w) now = (s', writes, reads)"
  shows "getz writes d = of_nat (in_window h now w d False) \<and>
    getz reads d = of_nat (in_window h now w d True)"
proof -
  have ev: "sw_events (pruneLocked (observed h w) now) = filter (\<lambda>e. now - w < re_at e) h"
    using observed_events [OF assms(1)] by (simp add: pruneLocked_def)
  have "fold (\<lambda>e (w, r). if re_isRead e then (w, bump (re_domain e) r) else (bump (re_domain e) w, r))
      (filter (\<lambda>e. now - w < re_at e) h) (fmempty, fmempty) = (writes, reads)"
    using assms(2) ev by (simp add: stats_counts_def Let_def split: prod.splits)
  from count_fold [OF this, of d] show ?thesis by (simp add: in_window_def)
qed

section \<open>Smoothing stays in range\<close>

lemma smooth_range: "lo \<le> p \<Longrightarrow> p \<le> hi \<Longrightarrow> lo \<le> x \<Longrightarrow> x \<le> hi \<Longrightarrow> lo \<le> smooth p x \<and> smooth p x \<le> hi"
  by (simp add: smooth_def field_simps)

definition rtt_run :: "(string \<times> string \<times> duration) list \<Rightarrow> rttStore" where
  "rtt_run obs = fold (\<lambda>(from, to, rtt) r. observeRTT r from to rtt) obs newRTTStore"

lemma observeRTT_lookup:
  "from \<noteq> to \<Longrightarrow> lookupOneWay (observeRTT r a b rtt) from to =
     (if a = from \<and> b = to
      then Some (case lookupOneWay r from to of
                   None \<Rightarrow> of_int (Milliseconds rtt) / 2
                 | Some p \<Rightarrow> smooth p (of_int (Milliseconds rtt) / 2))
      else lookupOneWay r from to)"
  by (auto simp: observeRTT_def lookupOneWay_def get_or_def Let_def split: option.splits)

text \<open>The smoothed latency estimate of a route exists exactly when the route was measured, and then
  lies between the smallest and the largest half round trip measured for it.\<close>

theorem rtt_estimate_in_range:
  assumes "from \<noteq> to"
    and "\<forall>rtt. (from, to, rtt) \<in> set obs \<longrightarrow> lo \<le> of_int (Milliseconds rtt) / 2 \<and> of_int (Milliseconds rtt) / 2 \<le> hi"
  shows "(lookupOneWay (rtt_run obs) from to = None \<longleftrightarrow> (\<forall>rtt. (from, to, rtt) \<notin> set obs)) \<and>
    (\<forall>x. lookupOneWay (rtt_run obs) from to = Some x \<longrightarrow> lo \<le> x \<and> x \<le> hi)"
  using assms(2)
proof (induction obs rule: rev_induct)
  case Nil
  then show ?case by (simp add: rtt_run_def newRTTStore_def lookupOneWay_def assms(1))
next
  case (snoc ob obs)
  obtain a b rtt where o: "ob = (a, b, rtt)" by (cases ob)
  have run: "rtt_run (obs @ [ob]) = observeRTT (rtt_run obs) a b rtt" by (simp add: rtt_run_def o)
  have IH: "(lookupOneWay (rtt_run obs) from to = None \<longleftrightarrow> (\<forall>rtt. (from, to, rtt) \<notin> set obs)) \<and>
    (\<forall>x. lookupOneWay (rtt_run obs) from to = Some x \<longrightarrow> lo \<le> x \<and> x \<le> hi)" using snoc by auto
  show ?case
  proof (cases "a = from \<and> b = to")
    case True
    then have "lo \<le> of_int (Milliseconds rtt) / 2 \<and> of_int (Milliseconds rtt) / 2 \<le> hi"
      using snoc.prems o by simp
    then show ?thesis
      unfolding run observeRTT_lookup [OF assms(1)] using True IH smooth_range o
      by (auto split: option.splits)
  next
    case False
    then show ?thesis unfolding run observeRTT_lookup [OF assms(1)] using IH o by auto
  qed
qed

section \<open>Expired estimates are not used\<close>

lemma fl_entries_iff:
  "(u, t, est) \<in> set (fl_entries s) \<longleftrightarrow> (\<exists>row. fmlookup (fl_values s) u = Some row \<and> fmlookup row t = Some est)"
  by (auto simp: fl_entries_def in_sorted_list_of_fmap image_iff split: prod.splits)

definition look2 :: "rat gomap gomap \<Rightarrow> string \<Rightarrow> string \<Rightarrow> rat option" where
  "look2 m u t = fmlookup (get_or fmempty m u) t"

lemma look2_upd: "look2 (fmupd u (fmupd t x (get_or fmempty m u)) m) u' t' = (if u' = u \<and> t' = t then Some x else look2 m u' t')"
  by (auto simp: look2_def)

lemma fresh_fold:
  fixes s now
  defines "F \<equiv> \<lambda>(origin, to, est) out. if \<not> fresh s now est then out
     else fmupd origin (fmupd to (fe_oneWayMillis est) (get_or fmempty out origin)) out"
  shows "(\<And>e1 e2. (u, t, e1) \<in> set es \<Longrightarrow> (u, t, e2) \<in> set es \<Longrightarrow> e1 = e2) \<Longrightarrow>
      (u, t, est) \<in> set es \<Longrightarrow> fresh s now est \<Longrightarrow> look2 (fold F es out0) u t = Some (fe_oneWayMillis est)"
    and "(\<And>e. (u, t, e) \<in> set es \<Longrightarrow> \<not> fresh s now e) \<Longrightarrow> look2 (fold F es out0) u t = look2 out0 u t"
proof -
  show "look2 (fold F es out0) u t = Some (fe_oneWayMillis est)"
    if "\<And>e1 e2. (u, t, e1) \<in> set es \<Longrightarrow> (u, t, e2) \<in> set es \<Longrightarrow> e1 = e2" "(u, t, est) \<in> set es" "fresh s now est"
    using that
  proof (induction es rule: rev_induct)
    case Nil
    then show ?case by simp
  next
    case (snoc x es)
    obtain a b e where x: "x = (a, b, e)" by (cases x)
    show ?case
    proof (cases "a = u \<and> b = t")
      case True
      then have "e = est" using snoc.prems(1) [of e est] snoc.prems(2) x by simp
      then show ?thesis using True snoc.prems(3) x by (simp add: F_def look2_upd)
    next
      case False
      then have "(u, t, est) \<in> set es" using snoc.prems(2) x by auto
      then have "look2 (fold F es out0) u t = Some (fe_oneWayMillis est)"
        using snoc.IH snoc.prems(1,3) by auto
      then show ?thesis using False x by (auto simp: F_def look2_upd)
    qed
  qed
  show "look2 (fold F es out0) u t = look2 out0 u t" if "\<And>e. (u, t, e) \<in> set es \<Longrightarrow> \<not> fresh s now e"
    using that
  proof (induction es rule: rev_induct)
    case Nil
    then show ?case by simp
  next
    case (snoc x es)
    obtain a b e where x: "x = (a, b, e)" by (cases x)
    then show ?case using snoc by (auto simp: F_def look2_upd)
  qed
qed

text \<open>An estimate is used only while it is fresh, and the snapshot sent to the controller shows for
  every origin and target exactly what the point lookup would return at that moment.\<close>

theorem floating_snapshot_fresh:
  "fmlookup (get_or fmempty (fl_freshSnapshot s now) origin) to = fl_oneWay s origin to now \<and>
   (\<forall>x. fl_oneWay s origin to now = Some x \<longrightarrow>
     (\<exists>row est. fmlookup (fl_values s) origin = Some row \<and> fmlookup row to = Some est \<and>
        x = fe_oneWayMillis est \<and> now - fe_observedAt est \<le> fl_ttl s))"
proof -
  have uniq: "e1 = e2" if "(origin, to, e1) \<in> set (fl_entries s)" "(origin, to, e2) \<in> set (fl_entries s)" for e1 e2
    using that by (auto simp: fl_entries_iff)
  have "look2 (fl_freshSnapshot s now) origin to = fl_oneWay s origin to now"
  proof (cases "\<exists>est. (origin, to, est) \<in> set (fl_entries s) \<and> fresh s now est")
    case True
    then obtain est where est: "(origin, to, est) \<in> set (fl_entries s)" "fresh s now est" by blast
    then show ?thesis
      using fresh_fold(1) [OF uniq est, of fmempty]
      by (auto simp: fl_freshSnapshot_def fl_oneWay_def fl_entries_iff fresh_def)
  next
    case False
    then have "look2 (fl_freshSnapshot s now) origin to = None"
      using fresh_fold(2) [of origin to "fl_entries s" s now fmempty]
      by (auto simp: fl_freshSnapshot_def look2_def)
    then show ?thesis
      using False by (auto simp: fl_oneWay_def fl_entries_iff fresh_def split: option.splits)
  qed
  then show ?thesis
    by (auto simp: look2_def fl_oneWay_def split: option.splits if_splits)
qed

section \<open>Concrete instances\<close>

definition ex_requests :: "requestEvent list" where
  "ex_requests = [\<lparr>re_at = 1, re_domain = ''a'', re_isRead = False\<rparr>, \<lparr>re_at = 8, re_domain = ''a'', re_isRead = False\<rparr>,
     \<lparr>re_at = 9, re_domain = ''b'', re_isRead = True\<rparr>]"

lemma stats_counts_exact_witness:
  "getz (fst (snd (stats_counts (observed ex_requests 5) 10))) ''a'' = of_nat (in_window ex_requests 10 5 ''a'' False) \<and>
   in_window ex_requests 10 5 ''a'' False = 1"
proof -
  obtain s' w r where c: "stats_counts (observed ex_requests 5) 10 = (s', w, r)" by (metis prod_cases3)
  have "\<forall>e \<in> set ex_requests. re_at e \<le> 10" "in_window ex_requests 10 5 ''a'' False = 1" by code_simp+
  then show ?thesis using stats_counts_exact [OF _ c, of "''a''"] by (simp add: c)
qed

lemma rtt_estimate_in_range_witness:
  "\<exists>x. lookupOneWay (rtt_run [(''a'', ''b'', 10000000), (''a'', ''b'', 20000000)]) ''a'' ''b'' = Some x \<and> 5 \<le> x \<and> x \<le> 10"
proof -
  let ?obs = "[(''a'', ''b'', 10000000), (''a'', ''b'', 20000000)] :: (string \<times> string \<times> duration) list"
  have "\<forall>rtt. (''a'', ''b'', rtt) \<in> set ?obs \<longrightarrow>
      (5 :: rat) \<le> of_int (Milliseconds rtt) / 2 \<and> of_int (Milliseconds rtt) / 2 \<le> (10 :: rat)"
    by (auto simp: Milliseconds_def)
  then have "(lookupOneWay (rtt_run ?obs) ''a'' ''b'' = None \<longleftrightarrow> (\<forall>rtt. (''a'', ''b'', rtt) \<notin> set ?obs)) \<and>
      (\<forall>x. lookupOneWay (rtt_run ?obs) ''a'' ''b'' = Some x \<longrightarrow> 5 \<le> x \<and> x \<le> 10)"
    by (intro rtt_estimate_in_range) simp_all
  then show ?thesis by (cases "lookupOneWay (rtt_run ?obs) ''a'' ''b''") auto
qed

lemma floating_snapshot_fresh_witness:
  "fmlookup (get_or fmempty (fl_freshSnapshot (fl_observe (newFloatingLatencyStore 10) ''f'' ''a'' 3 100) 105) ''f'') ''a'' = Some 3"
proof -
  have "fl_oneWay (fl_observe (newFloatingLatencyStore 10) ''f'' ''a'' 3 100) ''f'' ''a'' 105 = Some 3"
    by (simp add: fl_oneWay_def fl_observe_def newFloatingLatencyStore_def)
  then show ?thesis using floating_snapshot_fresh [of "fl_observe (newFloatingLatencyStore 10) ''f'' ''a'' 3 100" 105 "''f''" "''a''"]
    by simp
qed

end
