(* ===== verification/Write_Cost.thy ===== *)
theory Write_Cost
  imports Topology Stats
begin

text \<open>
  \<open>internal/cdraft/write_cost.go\<close>: the network lower bound of a write.  The direct path pays the round
  trip to the fastest second domain; the Fast Return path pays one hop to a responder and the hop from
  there to the origin.  The lemmas show that the two searches find a minimum and that the bound is the
  smaller of the two paths.  The textual summary (\<open>WritePathCostSummary\<close>) is formatting and is left out.
\<close>

record WritePathCostInput =
  wi_OriginDomain :: string
  wi_GlobalDomain :: string
  wi_ResponderDomain :: string
  wi_FastReturn :: bool
  wi_OneWayMillis :: "rat gomap"

record WritePathCost =
  wc_OriginKind :: string
  wc_FastestSecondQuorumDomain :: string
  wc_ResponderDomain :: string
  wc_GlobalDirectMillis :: rat
  wc_CallbackMillis :: rat
  wc_CallbackAvailable :: bool
  wc_LowerBoundMillis :: rat
  wc_TheoreticalWinner :: ResultSource

definition WriteCostRoute :: "string \<Rightarrow> string \<Rightarrow> string" where
  "WriteCostRoute from to = from @ ''->'' @ to"

definition writeCostOneWay :: "Config \<Rightarrow> WritePathCostInput \<Rightarrow> string \<Rightarrow> string \<Rightarrow> rat" where
  "writeCostOneWay config input from to =
     (if from = [] \<or> to = [] then 0
      else case fmlookup (wi_OneWayMillis input) (WriteCostRoute from to) of
        Some delay \<Rightarrow> delay
      | None \<Rightarrow>
          (case fmlookup (wi_OneWayMillis input) (WriteCostRoute to from) of
             Some delay \<Rightarrow> delay
           | None \<Rightarrow> of_int (Milliseconds (OneWayDelay config from to))))"

text \<open>The search loop both functions below run: the first domain other than the Global Leader's is taken
  unconditionally, a later one only when strictly cheaper.  The initial infinity is never compared.\<close>

definition cheapest_domain :: "(string \<Rightarrow> rat) \<Rightarrow> string \<Rightarrow> string list \<Rightarrow> string \<times> rat" where
  "cheapest_domain cost global domains =
     fold (\<lambda>domain (best, c).
             if domain = global then (best, c)
             else if best = [] \<or> cost domain < c then (domain, cost domain) else (best, c))
       domains ([], 0)"

definition fastestSecondQuorumDomain :: "Config \<Rightarrow> WritePathCostInput \<Rightarrow> string \<Rightarrow> string \<times> rat" where
  "fastestSecondQuorumDomain config input global =
     (let (best, c) = cheapest_domain
            (\<lambda>d. writeCostOneWay config input global d + writeCostOneWay config input d global)
            global (ConsensusDomains config)
      in if best = [] then ([], 0) else (best, c))"

definition fastestFloatingResponder :: "Config \<Rightarrow> WritePathCostInput \<Rightarrow> string \<Rightarrow> string \<Rightarrow> string" where
  "fastestFloatingResponder config input global origin =
     fst (cheapest_domain
            (\<lambda>d. writeCostOneWay config input global d + writeCostOneWay config input d origin)
            global (ConsensusDomains config))"

definition EstimateWritePathCost :: "Config \<Rightarrow> WritePathCostInput \<Rightarrow> WritePathCost" where
  "EstimateWritePathCost config input =
     (let origin = wi_OriginDomain input; global = wi_GlobalDomain input;
          cost0 = \<lparr>wc_OriginKind = DomainKind_String (config_DomainKind config origin),
                   wc_FastestSecondQuorumDomain = [], wc_ResponderDomain = [], wc_GlobalDirectMillis = 0,
                   wc_CallbackMillis = 0, wc_CallbackAvailable = False, wc_LowerBoundMillis = 0,
                   wc_TheoreticalWinner = []\<rparr>
      in if global = [] then cost0
         else let (second, secondRTT) = fastestSecondQuorumDomain config input global;
                  originToGlobal = writeCostOneWay config input origin global;
                  globalToOrigin = writeCostOneWay config input global origin;
                  direct = originToGlobal + secondRTT + globalToOrigin;
                  responder =
                    (if wi_ResponderDomain input = [] \<and> wi_FastReturn input \<and> origin \<noteq> [] \<and> origin \<noteq> global
                     then (if config_DomainKind config origin = DomainConsensus then origin
                           else if config_DomainKind config origin = DomainFloating
                           then fastestFloatingResponder config input global origin
                           else wi_ResponderDomain input)
                     else wi_ResponderDomain input);
                  cost1 = cost0\<lparr>wc_FastestSecondQuorumDomain := second, wc_GlobalDirectMillis := direct,
                                wc_LowerBoundMillis := direct, wc_TheoreticalWinner := GlobalResponse,
                                wc_ResponderDomain := responder\<rparr>
              in if wi_FastReturn input \<and> responder \<noteq> [] \<and> responder \<noteq> global \<and> origin \<noteq> [] \<and> origin \<noteq> global
                 then let callback = originToGlobal + writeCostOneWay config input global responder
                                     + writeCostOneWay config input responder origin;
                          cost2 = cost1\<lparr>wc_CallbackMillis := callback, wc_CallbackAvailable := True\<rparr>
                      in if callback < direct
                         then cost2\<lparr>wc_LowerBoundMillis := callback, wc_TheoreticalWinner := FastResponse\<rparr>
                         else cost2
                 else cost1)"

section \<open>The searches find a minimum\<close>

definition cheapest_inv :: "(string \<Rightarrow> rat) \<Rightarrow> string \<Rightarrow> string list \<Rightarrow> string \<times> rat \<Rightarrow> bool" where
  "cheapest_inv cost global ds = (\<lambda>(best, c).
     (best = [] \<longleftrightarrow> set ds \<subseteq> {global}) \<and>
     (best \<noteq> [] \<longrightarrow> best \<in> set ds \<and> best \<noteq> global \<and> c = cost best \<and>
        (\<forall>d \<in> set ds. d \<noteq> global \<longrightarrow> cost best \<le> cost d)))"

lemma cheapest_domain_inv:
  "[] \<notin> set ds \<Longrightarrow> cheapest_inv cost global ds (cheapest_domain cost global ds)"
proof (induction ds rule: rev_induct)
  case Nil
  then show ?case by (simp add: cheapest_inv_def cheapest_domain_def)
next
  case (snoc d ds)
  obtain best c where bc: "cheapest_domain cost global ds = (best, c)" by (cases "cheapest_domain cost global ds")
  have "cheapest_domain cost global (ds @ [d]) =
      (if d = global then (best, c) else if best = [] \<or> cost d < c then (d, cost d) else (best, c))"
    using bc by (simp add: cheapest_domain_def)
  moreover have "cheapest_inv cost global ds (best, c)" using snoc bc by simp
  ultimately show ?case using snoc.prems by (fastforce simp: cheapest_inv_def)
qed

text \<open>On a validated configuration the second quorum domain of a cost estimate is a consensus domain
  other than the Global Leader's with the smallest round trip from there.\<close>

theorem fastestSecondQuorumDomain_minimal:
  assumes "config_Validate c = None"
    and "fastestSecondQuorumDomain c input global = (best, rtt)"
  shows "best \<in> set (ConsensusDomains c) \<and> best \<noteq> global \<and>
    rtt = writeCostOneWay c input global best + writeCostOneWay c input best global \<and>
    (\<forall>d \<in> set (ConsensusDomains c). d \<noteq> global \<longrightarrow>
       rtt \<le> writeCostOneWay c input global d + writeCostOneWay c input d global)"
proof -
  let ?cost = "\<lambda>d. writeCostOneWay c input global d + writeCostOneWay c input d global"
  have v: "valid_config c" using assms(1) Validate_None by simp
  then have ne: "[] \<notin> set (ConsensusDomains c)"
    by (auto simp: valid_config_def list_all_iff node_ok_def)
  have "\<not> set (ConsensusDomains c) \<subseteq> {global}"
  proof
    assume "set (ConsensusDomains c) \<subseteq> {global}"
    then have "card (nd_DomainCode ` set (cfg_Nodes c)) \<le> card {global}"
      by (intro card_mono) simp_all
    then show False using v by (simp add: valid_config_def)
  qed
  then show ?thesis
    using cheapest_domain_inv [OF ne, of ?cost global] assms(2)
    by (auto simp: cheapest_inv_def fastestSecondQuorumDomain_def Let_def split: prod.splits if_splits)
qed

text \<open>The reported lower bound is the cheaper of the direct path and, when it is available, the
  callback path; the theoretical winner is the path that attains it (the direct one on a tie), and a
  callback is never claimed for a responder that is the Global Leader's own domain.\<close>

theorem write_cost_lower_bound:
  fixes config :: Config and input :: WritePathCostInput
  assumes "wi_GlobalDomain input \<noteq> []"
  defines "c \<equiv> EstimateWritePathCost config input"
  shows "wc_LowerBoundMillis c =
      (if wc_CallbackAvailable c then min (wc_GlobalDirectMillis c) (wc_CallbackMillis c) else wc_GlobalDirectMillis c) \<and>
    wc_TheoreticalWinner c =
      (if wc_CallbackAvailable c \<and> wc_CallbackMillis c < wc_GlobalDirectMillis c then FastResponse else GlobalResponse) \<and>
    (wc_CallbackAvailable c \<longrightarrow> wi_FastReturn input \<and> wc_ResponderDomain c \<noteq> [] \<and>
       wc_ResponderDomain c \<noteq> wi_GlobalDomain input)"
  using assms(1) unfolding c_def EstimateWritePathCost_def
  by (auto simp: Let_def min_def split: prod.splits)

definition ex_cost_input :: WritePathCostInput where
  "ex_cost_input = \<lparr>wi_OriginDomain = ''f'', wi_GlobalDomain = ''a'', wi_ResponderDomain = [], wi_FastReturn = True,
     wi_OneWayMillis = fmupd ''a->b'' 4 (fmupd ''b->f'' 2 (fmupd ''a->f'' 9 (fmupd ''a->c'' 30 fmempty)))\<rparr>"

lemma fastestSecondQuorumDomain_minimal_witness:
  "fst (fastestSecondQuorumDomain ex_config ex_cost_input ''a'') \<in> set (ConsensusDomains ex_config) \<and>
   fst (fastestSecondQuorumDomain ex_config ex_cost_input ''a'') \<noteq> ''a''"
proof -
  obtain b r where br: "fastestSecondQuorumDomain ex_config ex_cost_input ''a'' = (b, r)"
    by (cases "fastestSecondQuorumDomain ex_config ex_cost_input ''a''")
  show ?thesis using fastestSecondQuorumDomain_minimal [OF ex_config_valid br] by (simp add: br)
qed

lemma write_cost_lower_bound_witness:
  "wc_TheoreticalWinner (EstimateWritePathCost ex_config ex_cost_input) = FastResponse \<and>
   wc_LowerBoundMillis (EstimateWritePathCost ex_config ex_cost_input) =
     min (wc_GlobalDirectMillis (EstimateWritePathCost ex_config ex_cost_input))
         (wc_CallbackMillis (EstimateWritePathCost ex_config ex_cost_input))"
proof -
  have "wi_GlobalDomain ex_cost_input \<noteq> []" by (simp add: ex_cost_input_def)
  moreover have "wc_CallbackAvailable (EstimateWritePathCost ex_config ex_cost_input)"
    "wc_TheoreticalWinner (EstimateWritePathCost ex_config ex_cost_input) = FastResponse" by code_simp+
  ultimately show ?thesis using write_cost_lower_bound [of ex_cost_input ex_config] by simp
qed

end
