(* ===== verification/Optimizer.thy ===== *)
theory Optimizer
  imports Prelude "HOL-Library.Product_Lexorder"
begin

text \<open>
  \<open>internal/optimizer/optimizer.go\<close>: the cost model that ranks domains as seats of the Global Leader and
  the controller that turns a stream of recommendations into migrations.  The recommendation is an
  available domain with a commit partner and minimal cost; a migration needs enough consecutive
  windows that agree, a minimum improvement, and the end of the cooldown.
\<close>

section \<open>Cost model\<close>

record Input =
  in_Domains :: "string list"
  in_ConsensusDomains :: "string list"
  in_FloatingDomains :: "string list"
  in_Writes :: "rat gomap"
  in_Reads :: "rat gomap"
  in_Available :: "bool gomap"
  in_OneWayMillis :: "rat gomap gomap"

record CandidateCost =
  cc_Domain :: string
  cc_Ls :: rat
  cc_CanCommit :: bool

record OptResult =
  or_Candidates :: "CandidateCost list"
  or_Recommended :: string
  or_RecommendedLs :: rat

definition oneWay :: "Input \<Rightarrow> string \<Rightarrow> string \<Rightarrow> rat option" where
  "oneWay inp from to =
     (if from = to then Some 0
      else case fmlookup (in_OneWayMillis inp) from of None \<Rightarrow> None | Some row \<Rightarrow> fmlookup row to)"

definition available :: "Input \<Rightarrow> string \<Rightarrow> bool" where
  "available inp d = get_or False (in_Available inp) d"

definition minToOtherAvailableIn :: "Input \<Rightarrow> string list \<Rightarrow> string \<Rightarrow> rat option" where
  "minToOtherAvailableIn inp domains z =
     fold (\<lambda>j best.
             if j = z \<or> \<not> available inp j then best
             else case oneWay inp z j of
               None \<Rightarrow> best
             | Some l \<Rightarrow> (case best of None \<Rightarrow> Some l | Some b \<Rightarrow> if l < b then Some l else best))
       domains None"

definition consensusDomains :: "Input \<Rightarrow> string list" where
  "consensusDomains inp = sort (if in_ConsensusDomains inp = [] then in_Domains inp else in_ConsensusDomains inp)"

definition minToOtherAvailable :: "Input \<Rightarrow> string \<Rightarrow> rat option" where
  "minToOtherAvailable inp z = minToOtherAvailableIn inp (consensusDomains inp) z"

definition demand_outside :: "string list \<Rightarrow> rat gomap \<Rightarrow> string list" where
  "demand_outside consensus m =
     map fst (filter (\<lambda>(d, count). count > 0 \<and> d \<notin> set consensus) (sorted_list_of_fmap m))"

definition floatingDomains :: "Input \<Rightarrow> string list \<Rightarrow> string list" where
  "floatingDomains inp consensus =
     sort (remdups (in_FloatingDomains inp @ demand_outside consensus (in_Writes inp)
                    @ demand_outside consensus (in_Reads inp)))"

definition floatingCost :: "Input \<Rightarrow> string list \<Rightarrow> string \<Rightarrow> string \<Rightarrow> rat \<Rightarrow> rat" where
  "floatingCost inp domains u z minZJ =
     (let w = getz (in_Writes inp) u; r = getz (in_Reads inp) u in
      case oneWay inp u z of
        None \<Rightarrow> 0
      | Some luz \<Rightarrow>
          let readCost = 2 * luz * r;
              directWrite = 2 * (luz + minZJ) * w;
              bestWrite = fold (\<lambda>responder best.
                  if responder = z \<or> \<not> available inp responder then best
                  else case oneWay inp z responder of
                    None \<Rightarrow> best
                  | Some lzr \<Rightarrow>
                      (case (case oneWay inp responder u of Some l \<Rightarrow> Some l | None \<Rightarrow> oneWay inp u responder) of
                         None \<Rightarrow> best
                       | Some lru \<Rightarrow> let relay = (luz + lzr + lru) * w in if relay < best then relay else best))
                domains directWrite
          in readCost + bestWrite)"

text \<open>The loop over the consensus domains; it gives up when a latency is unknown.\<close>

fun sum_consensus :: "Input \<Rightarrow> string \<Rightarrow> rat \<Rightarrow> string list \<Rightarrow> rat \<Rightarrow> rat option" where
  "sum_consensus inp z minZJ [] acc = Some acc"
| "sum_consensus inp z minZJ (i # is) acc =
     (let w = getz (in_Writes inp) i; r = getz (in_Reads inp) i in
      if i = z then sum_consensus inp z minZJ is (acc + 2 * minZJ * w)
      else case oneWay inp i z of
        None \<Rightarrow> None
      | Some liz \<Rightarrow>
          if available inp i then sum_consensus inp z minZJ is (acc + 2 * liz * (w + r))
          else sum_consensus inp z minZJ is (acc + (2 * (liz + minZJ) * w + 2 * liz * r)))"

definition candidateCost :: "Input \<Rightarrow> string list \<Rightarrow> string list \<Rightarrow> string \<Rightarrow> rat \<times> bool" where
  "candidateCost inp domains floating z =
     (case minToOtherAvailableIn inp domains z of
        None \<Rightarrow> (0, False)
      | Some minZJ \<Rightarrow>
          (case sum_consensus inp z minZJ domains 0 of
             None \<Rightarrow> (0, False)
           | Some acc \<Rightarrow> (fold (\<lambda>u t. t + floatingCost inp domains u z minZJ) floating acc, True)))"

definition candidate_key :: "CandidateCost \<Rightarrow> bool \<times> rat \<times> string" where
  "candidate_key c = (\<not> cc_CanCommit c, cc_Ls c, cc_Domain c)"

definition ComputeCosts :: "Input \<Rightarrow> OptResult" where
  "ComputeCosts inp =
     (let domains = consensusDomains inp;
          floating = floatingDomains inp domains;
          candidates = map (\<lambda>z. let (cost, canCommit) = candidateCost inp domains floating z
                                in \<lparr>cc_Domain = z, cc_Ls = cost, cc_CanCommit = canCommit\<rparr>)
                         (filter (available inp) domains);
          ranked = sort_key candidate_key candidates
      in case List.find cc_CanCommit ranked of
           None \<Rightarrow> \<lparr>or_Candidates = ranked, or_Recommended = [], or_RecommendedLs = 0\<rparr>
         | Some c \<Rightarrow> \<lparr>or_Candidates = ranked, or_Recommended = cc_Domain c, or_RecommendedLs = cc_Ls c\<rparr>)"

section \<open>Controller\<close>

record Policy =
  po_MinImprovement :: rat
  po_Confirmations :: int
  po_Cooldown :: duration

definition DefaultPolicy :: Policy where
  "DefaultPolicy = \<lparr>po_MinImprovement = 1 / 10, po_Confirmations = 3, po_Cooldown = 60 * second\<rparr>"

record Controller =
  ct_policy :: Policy
  ct_candidate :: string
  ct_streak :: int
  ct_lastMigration :: time

definition NewController :: "Policy \<Rightarrow> Controller" where
  "NewController policy = \<lparr>ct_policy = policy, ct_candidate = [], ct_streak = 0, ct_lastMigration = 0\<rparr>"

definition forget :: "Controller \<Rightarrow> Controller" where
  "forget c = c\<lparr>ct_candidate := [], ct_streak := 0\<rparr>"

definition Observe :: "Controller \<Rightarrow> string \<Rightarrow> string \<Rightarrow> rat \<Rightarrow> rat \<Rightarrow> time \<Rightarrow> Controller \<times> string" where
  "Observe c currentDomain recommended currentLs recommendedLs now =
     (if recommended = [] \<or> recommended = currentDomain then (forget c, [])
      else if currentLs \<le> 0 \<or> recommendedLs \<ge> currentLs * (1 - po_MinImprovement (ct_policy c))
      then (forget c, [])
      else let c1 = (if recommended = ct_candidate c then c\<lparr>ct_streak := ct_streak c + 1\<rparr>
                     else c\<lparr>ct_candidate := recommended, ct_streak := 1\<rparr>)
           in if ct_streak c1 < po_Confirmations (ct_policy c) then (c1, [])
              else if ct_lastMigration c1 \<noteq> 0 \<and> now - ct_lastMigration c1 < po_Cooldown (ct_policy c)
              then (forget c1, [])
              else (forget c1, recommended))"

definition RecordResult :: "Controller \<Rightarrow> bool \<Rightarrow> time \<Rightarrow> Controller" where
  "RecordResult c success now = (if success then c\<lparr>ct_lastMigration := now\<rparr> else c)"

section \<open>The recommendation is optimal\<close>

lemma find_sorted_first:
  assumes "sorted (map f xs)" "List.find P xs = Some x" "y \<in> set xs" "P y"
  shows "f x \<le> f y"
proof -
  obtain i where i: "i < length xs" "P (xs ! i)" "x = xs ! i" "\<forall>j < i. \<not> P (xs ! j)"
    using assms(2) by (auto simp: find_Some_iff)
  obtain j where j: "j < length xs" "y = xs ! j" using assms(3) by (metis in_set_conv_nth)
  then have "i \<le> j" using i(4) assms(4) not_le by blast
  then show ?thesis using sorted_nth_mono [OF assms(1), of i j] i j by simp
qed

lemma ComputeCosts_candidates:
  "set (or_Candidates (ComputeCosts inp)) =
     (\<lambda>z. let (cost, canCommit) = candidateCost inp (consensusDomains inp) (floatingDomains inp (consensusDomains inp)) z
          in \<lparr>cc_Domain = z, cc_Ls = cost, cc_CanCommit = canCommit\<rparr>) ` {z \<in> set (consensusDomains inp). available inp z}"
  by (simp add: ComputeCosts_def Let_def split: option.splits)


section \<open>Costs are not negative\<close>

definition sane_input :: "Input \<Rightarrow> bool" where
  "sane_input inp \<longleftrightarrow> fmpred (\<lambda>_ x. 0 \<le> x) (in_Writes inp) \<and> fmpred (\<lambda>_ x. 0 \<le> x) (in_Reads inp) \<and>
     fmpred (\<lambda>_ row. fmpred (\<lambda>_ x. 0 \<le> x) row) (in_OneWayMillis inp)"

lemma getz_nonneg: "fmpred (\<lambda>_ (x::rat). 0 \<le> x) m \<Longrightarrow> 0 \<le> getz m k"
  by (auto simp: getz_def fmpred_iff split: option.splits)

lemma oneWay_nonneg: "sane_input inp \<Longrightarrow> oneWay inp a b = Some l \<Longrightarrow> 0 \<le> l"
  by (auto simp: oneWay_def sane_input_def fmpred_iff split: if_splits option.splits)

lemma sane_demand: "sane_input inp \<Longrightarrow> 0 \<le> getz (in_Writes inp) d" "sane_input inp \<Longrightarrow> 0 \<le> getz (in_Reads inp) d"
  by (simp_all add: sane_input_def getz_nonneg)

lemma minToOther_nonneg: "sane_input inp \<Longrightarrow> minToOtherAvailableIn inp ds z = Some m \<Longrightarrow> 0 \<le> m"
  unfolding minToOtherAvailableIn_def
proof (induction ds arbitrary: m rule: rev_induct)
  case Nil
  then show ?case by simp
next
  case (snoc j ds)
  then show ?case by (auto simp: Let_def dest: oneWay_nonneg split: if_splits option.splits)
qed

lemma sum_consensus_nonneg:
  "sane_input inp \<Longrightarrow> 0 \<le> m \<Longrightarrow> 0 \<le> acc \<Longrightarrow> sum_consensus inp z m is acc = Some t \<Longrightarrow> 0 \<le> t"
proof (induction "is" arbitrary: acc)
  case Nil
  then show ?case by simp
next
  case (Cons i "is")
  note pos = sane_demand [OF Cons.prems(1), of i] Cons.prems(2)
  note step = Cons.IH [OF Cons.prems(1,2)]
  show ?case
  proof (cases "i = z")
    case True
    have "0 \<le> acc + 2 * m * getz (in_Writes inp) i" using pos Cons.prems(3) by simp
    then show ?thesis using step Cons.prems(4) True by simp
  next
    case False
    then obtain l where l: "oneWay inp i z = Some l" using Cons.prems(4) by (auto simp: Let_def split: option.splits)
    have "0 \<le> l" using oneWay_nonneg [OF Cons.prems(1) l] .
    then have "0 \<le> acc + 2 * l * (getz (in_Writes inp) i + getz (in_Reads inp) i)"
      "0 \<le> acc + (2 * (l + m) * getz (in_Writes inp) i + 2 * l * getz (in_Reads inp) i)"
      using pos Cons.prems(3) by simp_all
    then show ?thesis using step Cons.prems(4) False l by (simp add: Let_def split: if_splits)
  qed
qed

lemma floatingCost_nonneg:
  assumes "sane_input inp" "0 \<le> m"
  shows "0 \<le> floatingCost inp ds u z m"
proof (cases "oneWay inp u z")
  case None
  then show ?thesis by (simp add: floatingCost_def Let_def)
next
  case (Some luz)
  note pos = sane_demand [OF assms(1), of u] oneWay_nonneg [OF assms(1) Some] assms(2)
  have "0 \<le> fold (\<lambda>responder best.
                  if responder = z \<or> \<not> available inp responder then best
                  else case oneWay inp z responder of
                    None \<Rightarrow> best
                  | Some lzr \<Rightarrow>
                      (case (case oneWay inp responder u of Some l \<Rightarrow> Some l | None \<Rightarrow> oneWay inp u responder) of
                         None \<Rightarrow> best
                       | Some lru \<Rightarrow> let relay = (luz + lzr + lru) * getz (in_Writes inp) u in if relay < best then relay else best))
                ds (2 * (luz + m) * getz (in_Writes inp) u)"
    by (rule fold_inv)
       (use pos in \<open>auto simp: Let_def split: option.splits dest!: oneWay_nonneg [OF assms(1)]\<close>)
  then show ?thesis using pos by (simp add: floatingCost_def Let_def Some)
qed

text \<open>With non-negative measurements no candidate has a negative cost, so a cost of zero or less for
  the current seat means that it is not a candidate that can commit or that there is no demand.\<close>

theorem costs_nonneg:
  assumes "sane_input inp" "c \<in> set (or_Candidates (ComputeCosts inp))"
  shows "0 \<le> cc_Ls c"
proof -
  have "0 \<le> fst (candidateCost inp ds fs z)" for ds fs z
  proof (cases "minToOtherAvailableIn inp ds z")
    case None
    then show ?thesis by (simp add: candidateCost_def)
  next
    case (Some m)
    have m: "0 \<le> m" using minToOther_nonneg [OF assms(1) Some] .
    have "0 \<le> fold (\<lambda>u t. t + floatingCost inp ds u z m) fs t" if "0 \<le> t" for t
      by (rule fold_inv) (use that floatingCost_nonneg [OF assms(1) m] in auto)
    then show ?thesis
      using Some sum_consensus_nonneg [OF assms(1) m, of 0 z ds] by (auto simp: candidateCost_def split: option.splits)
  qed
  then show ?thesis using assms(2) unfolding ComputeCosts_candidates by (auto simp: Let_def split: prod.splits) (metis fst_conv)
qed

section \<open>Migrations are confirmed and spaced\<close>

record Window =
  wn_current :: string
  wn_recommended :: string
  wn_currentLs :: rat
  wn_recommendedLs :: rat
  wn_now :: time

datatype ctl_event = Decide Window | Moved bool time

definition observe_window :: "Controller \<Rightarrow> Window \<Rightarrow> Controller \<times> string" where
  "observe_window c w =
     Observe c (wn_current w) (wn_recommended w) (wn_currentLs w) (wn_recommendedLs w) (wn_now w)"

fun ctl_step :: "Controller \<Rightarrow> ctl_event \<Rightarrow> Controller" where
  "ctl_step c (Decide w) = fst (observe_window c w)"
| "ctl_step c (Moved ok t) = RecordResult c ok t"

fun windows :: "ctl_event list \<Rightarrow> Window list" where
  "windows [] = []"
| "windows (Decide w # es) = w # windows es"
| "windows (Moved ok t # es) = windows es"

text \<open>A window that speaks for moving to \<open>t\<close>.\<close>

definition supports :: "Policy \<Rightarrow> string \<Rightarrow> Window \<Rightarrow> bool" where
  "supports p t w \<longleftrightarrow> wn_recommended w = t \<and> t \<noteq> [] \<and> t \<noteq> wn_current w \<and> 0 < wn_currentLs w \<and>
     wn_recommendedLs w < wn_currentLs w * (1 - po_MinImprovement p)"

definition ctl_inv :: "Policy \<Rightarrow> ctl_event list \<Rightarrow> Controller \<Rightarrow> bool" where
  "ctl_inv p es c \<longleftrightarrow> ct_policy c = p \<and> 0 \<le> ct_streak c \<and> nat (ct_streak c) \<le> length (windows es) \<and>
     (\<forall>w \<in> set (take (nat (ct_streak c)) (rev (windows es))). supports p (ct_candidate c) w)"

lemma windows_append: "windows (es @ fs) = windows es @ windows fs"
  by (induction es rule: windows.induct) auto

lemma Observe_streak:
  assumes "ctl_inv p es c" "supports p (wn_recommended w) w"
  defines "c1 \<equiv> (if wn_recommended w = ct_candidate c then c\<lparr>ct_streak := ct_streak c + 1\<rparr>
      else c\<lparr>ct_candidate := wn_recommended w, ct_streak := 1\<rparr>)"
  shows "ctl_inv p (es @ [Decide w]) c1"
  using assms by (auto simp: ctl_inv_def c1_def windows_append nat_add_distrib)

lemma Observe_cases:
  assumes "observe_window c w = (c', t)"
  obtains "c' = forget c" "t = []"
  | c1 where "supports (ct_policy c) (wn_recommended w) w"
      "c1 = (if wn_recommended w = ct_candidate c then c\<lparr>ct_streak := ct_streak c + 1\<rparr>
        else c\<lparr>ct_candidate := wn_recommended w, ct_streak := 1\<rparr>)"
      "c' = c1 \<or> c' = forget c1"
      "t = [] \<or> t = wn_recommended w \<and> po_Confirmations (ct_policy c) \<le> ct_streak c1 \<and>
         (ct_lastMigration c = 0 \<or> po_Cooldown (ct_policy c) \<le> wn_now w - ct_lastMigration c)"
  using assms
  by (auto simp: observe_window_def Observe_def supports_def Let_def split: if_splits)

lemma ctl_inv_forget: "ctl_inv p es c \<Longrightarrow> ctl_inv p es (forget c)"
  by (simp add: ctl_inv_def forget_def)

lemma ctl_inv_step:
  assumes "ctl_inv p es c"
  shows "ctl_inv p (es @ [e]) (ctl_step c e)"
proof (cases e)
  case (Moved ok t)
  then show ?thesis using assms by (auto simp: ctl_inv_def RecordResult_def windows_append)
next
  case (Decide w)
  have p: "ct_policy c = p" using assms by (simp add: ctl_inv_def)
  have f: "ctl_inv p (es @ [Decide w]) (forget c)"
    using assms by (simp add: ctl_inv_def forget_def)
  obtain c' t where o: "observe_window c w = (c', t)" by (cases "observe_window c w")
  from Observe_cases [OF o] show ?thesis
    using f Observe_streak [OF assms] ctl_inv_forget Decide p by cases (auto simp: o)
qed

lemma ctl_run_inv: "ctl_inv p es (foldl ctl_step (NewController p) es)"
  by (induction es rule: rev_induct) (simp add: ctl_inv_def NewController_def, simp add: ctl_inv_step)

text \<open>Whenever the controller asks for a migration, the required number of consecutive decision
  windows (this one included) all recommended that same target with the required improvement over
  the current seat, and either no migration succeeded yet or the cooldown since the last success has
  passed.\<close>

theorem migration_confirmed:
  assumes "observe_window (foldl ctl_step (NewController p) es) w = (c', t)" "t \<noteq> []"
  shows "nat (po_Confirmations p) \<le> length (windows es @ [w]) \<and>
    (\<forall>x \<in> set (take (nat (po_Confirmations p)) (rev (windows es @ [w]))). supports p t x) \<and>
    (let last = ct_lastMigration (foldl ctl_step (NewController p) es)
     in last = 0 \<or> po_Cooldown p \<le> wn_now w - last)"
proof -
  let ?c = "foldl ctl_step (NewController p) es"
  have inv: "ctl_inv p es ?c" by (rule ctl_run_inv)
  then have p: "ct_policy ?c = p" by (simp add: ctl_inv_def)
  from Observe_cases [OF assms(1)] show ?thesis
  proof cases
    case 1
    then show ?thesis using assms(2) by simp
  next
    case (2 c1)
    have t: "t = wn_recommended w" "po_Confirmations p \<le> ct_streak c1"
      "ct_lastMigration ?c = 0 \<or> po_Cooldown p \<le> wn_now w - ct_lastMigration ?c"
      using 2(4) assms(2) p by auto
    have "ctl_inv p (es @ [Decide w]) c1" using Observe_streak [OF inv] 2(1,2) p by simp
    then have "nat (ct_streak c1) \<le> length (windows es @ [w])"
      "\<forall>x \<in> set (take (nat (ct_streak c1)) (rev (windows es @ [w]))). supports p (ct_candidate c1) x"
      by (simp_all add: ctl_inv_def windows_append)
    moreover have "ct_candidate c1 = t" using 2(2) t(1) by auto
    moreover have "set (take (nat (po_Confirmations p)) xs) \<subseteq> set (take (nat (ct_streak c1)) xs)" for xs :: "Window list"
      using t(2) by (intro set_take_subset_set_take) simp
    ultimately show ?thesis using t by (auto simp: Let_def)
  qed
qed

section \<open>Concrete instances\<close>

definition ex_input :: Input where
  "ex_input = \<lparr>in_Domains = [''a'', ''b'', ''c''], in_ConsensusDomains = [''a'', ''b'', ''c''], in_FloatingDomains = [],
     in_Writes = fmupd ''b'' 10 fmempty, in_Reads = fmempty,
     in_Available = fmupd ''a'' True (fmupd ''b'' True (fmupd ''c'' True fmempty)),
     in_OneWayMillis = fmupd ''a'' (fmupd ''b'' 5 (fmupd ''c'' 9 fmempty))
       (fmupd ''b'' (fmupd ''a'' 5 (fmupd ''c'' 1 fmempty)) (fmupd ''c'' (fmupd ''a'' 9 (fmupd ''b'' 1 fmempty)) fmempty))\<rparr>"

definition ex_window :: "time \<Rightarrow> Window" where
  "ex_window t = \<lparr>wn_current = ''a'', wn_recommended = ''b'', wn_currentLs = 100, wn_recommendedLs = 20, wn_now = t\<rparr>"


lemma costs_nonneg_witness:
  "\<exists>c \<in> set (or_Candidates (ComputeCosts ex_input)). cc_Domain c = ''a'' \<and> 0 \<le> cc_Ls c"
proof -
  have "sane_input ex_input" "\<exists>c \<in> set (or_Candidates (ComputeCosts ex_input)). cc_Domain c = ''a''" by code_simp+
  then show ?thesis using costs_nonneg by blast
qed

lemma migration_confirmed_witness:
  "length (windows [Decide (ex_window 1), Decide (ex_window 2)] @ [ex_window 3]) = 3 \<and>
   supports DefaultPolicy ''b'' (ex_window 1)"
proof -
  have "observe_window (foldl ctl_step (NewController DefaultPolicy) [Decide (ex_window 1), Decide (ex_window 2)]) (ex_window 3) =
      (NewController DefaultPolicy, ''b'')" "nat (po_Confirmations DefaultPolicy) = 3" by code_simp+
  from migration_confirmed [OF this(1)] this(2) show ?thesis by simp
qed

end
