(* ===== verification/Mover.thy ===== *)
theory Mover
  imports Optimizer Types
begin

text \<open>
  \<open>cmd/cdraft-mover/main.go\<close>: one decision cycle of the external migration controller.  The remote calls
  are arguments: what the metrics call returns for an address, and what the move call returns.  The
  cycle asks for a move only to an available consensus domain other than the current seat, and only
  a successful move starts the cooldown.
\<close>

record MetricsView =
  mv_GlobalLeaderNode :: string
  mv_GlobalLeaderDomain :: string
  mv_WriteRequestsByDomain :: "u64 gomap"
  mv_ReadRequestsByDomain :: "u64 gomap"
  mv_InterDomainRttMillis :: "u64 gomap"
  mv_DomainLeaders :: "string gomap"

record MoveResponse =
  mr_NotGlobalLeader :: bool
  mr_Accepted :: bool

text \<open>\<open>strings.SplitN(key, "->", 2)\<close> when it yields two parts.\<close>

fun split_first_arrow :: "string \<Rightarrow> (string \<times> string) option" where
  "split_first_arrow (a # b # s) =
     (if a = CHR ''-'' \<and> b = CHR ''>'' then Some ([], s)
      else map_option (\<lambda>(x, y). (a # x, y)) (split_first_arrow (b # s)))"
| "split_first_arrow _ = None"

definition counts_of :: "u64 gomap \<Rightarrow> rat gomap" where
  "counts_of m = fmmap (\<lambda>c. of_nat (unat c)) m"

definition one_way_matrix :: "u64 gomap \<Rightarrow> rat gomap gomap" where
  "one_way_matrix m =
     fold (\<lambda>(key, rtt) out.
             case split_first_arrow key of
               None \<Rightarrow> out
             | Some (from, to) \<Rightarrow> fmupd from (fmupd to (of_nat (unat rtt) / 2) (get_or fmempty out from)) out)
       (sorted_list_of_fmap m) fmempty"

definition buildInput :: "string list \<Rightarrow> string \<Rightarrow> MetricsView \<Rightarrow> Input" where
  "buildInput domains glDomain metrics =
     (let writes = counts_of (mv_WriteRequestsByDomain metrics);
          reads = counts_of (mv_ReadRequestsByDomain metrics)
      in \<lparr>in_Domains = domains, in_ConsensusDomains = domains,
          in_FloatingDomains = remdups (demand_outside domains writes @ demand_outside domains reads),
          in_Writes = writes, in_Reads = reads,
          in_Available = fold (\<lambda>d m. fmupd d (d = glDomain \<or> get_or [] (mv_DomainLeaders metrics) d \<noteq> []) m) domains fmempty,
          in_OneWayMillis = one_way_matrix (mv_InterDomainRttMillis metrics)\<rparr>)"

fun discoverGlobalLeader :: "(string \<Rightarrow> MetricsView option) \<Rightarrow> string list \<Rightarrow> string \<times> string" where
  "discoverGlobalLeader metrics [] = ([], [])"
| "discoverGlobalLeader metrics (addr # seeds) =
     (case metrics addr of
        None \<Rightarrow> discoverGlobalLeader metrics seeds
      | Some m \<Rightarrow> if mv_GlobalLeaderNode m \<noteq> [] then (mv_GlobalLeaderNode m, mv_GlobalLeaderDomain m)
                  else discoverGlobalLeader metrics seeds)"

text \<open>The cycle returns the controller and the move it requested, if any (address and target).  The three
  times are the clock readings at the decision and after the move call.\<close>

definition tick ::
    "(string \<Rightarrow> MetricsView option) \<Rightarrow> (string \<Rightarrow> string \<Rightarrow> MoveResponse option) \<Rightarrow> string gomap \<Rightarrow> string list \<Rightarrow>
     string list \<Rightarrow> time \<Rightarrow> time \<Rightarrow> Controller \<Rightarrow> Controller \<times> (string \<times> string) option" where
  "tick metrics move addrByNode seeds domains now later controller =
     (let (glNode, glDomain) = discoverGlobalLeader metrics seeds in
      if glNode = [] then (controller, None)
      else case fmlookup addrByNode glNode of
        None \<Rightarrow> (controller, None)
      | Some glAddr \<Rightarrow>
          (case metrics glAddr of
             None \<Rightarrow> (controller, None)
           | Some m \<Rightarrow>
               let result = ComputeCosts (buildInput domains glDomain m);
                   currentLs = fold (\<lambda>c x. if cc_Domain c = glDomain then cc_Ls c else x) (or_Candidates result) 0;
                   (controller1, target) =
                     Observe controller glDomain (or_Recommended result) currentLs (or_RecommendedLs result) now
               in if target = [] then (controller1, None)
                  else case move glAddr target of
                    None \<Rightarrow> (RecordResult controller1 False later, Some (glAddr, target))
                  | Some resp \<Rightarrow>
                      if mr_NotGlobalLeader resp then (RecordResult controller1 False later, Some (glAddr, target))
                      else (RecordResult controller1 (mr_Accepted resp) later, Some (glAddr, target))))"

section \<open>Properties\<close>

lemma Observe_target:
  "Observe c cur rec l1 l2 now = (c', t) \<Longrightarrow> t \<noteq> [] \<Longrightarrow> t = rec \<and> rec \<noteq> cur"
  by (auto simp: Observe_def Let_def split: if_splits)

lemma Observe_lastMigration:
  "ct_lastMigration (fst (Observe c cur rec l1 l2 now)) = ct_lastMigration c"
  by (simp add: Observe_def forget_def Let_def)

lemma available_fold:
  "fmlookup (fold (\<lambda>d m. fmupd d (f d) m) ds m0) d = (if d \<in> set ds then Some (f d) else fmlookup m0 d)"
  by (induction ds arbitrary: m0) auto

lemma recommended_available:
  assumes "or_Recommended (ComputeCosts inp) \<noteq> []"
  shows "or_Recommended (ComputeCosts inp) \<in> set (consensusDomains inp) \<and> available inp (or_Recommended (ComputeCosts inp))"
proof -
  obtain c where "List.find cc_CanCommit (or_Candidates (ComputeCosts inp)) = Some c"
      "or_Recommended (ComputeCosts inp) = cc_Domain c"
    using assms by (auto simp: ComputeCosts_def Let_def split: option.splits)
  then have "c \<in> set (or_Candidates (ComputeCosts inp))" "or_Recommended (ComputeCosts inp) = cc_Domain c"
    by (auto simp: find_Some_iff)
  then show ?thesis unfolding ComputeCosts_candidates by (auto simp: Let_def split: prod.splits)
qed

text \<open>A decision cycle requests a move only to a consensus domain that is not the current seat and that
  currently has a Domain Leader, it sends the request to the address of the discovered Global Leader,
  and the cooldown clock is set only when that node accepted the move.\<close>

theorem tick_move_justified:
  assumes "tick metrics move addrs seeds domains now later c = (c', req)" "discoverGlobalLeader metrics seeds = (gl, gd)"
  shows "(case req of
      None \<Rightarrow> ct_lastMigration c' = ct_lastMigration c
    | Some (addr, target) \<Rightarrow>
        fmlookup addrs gl = Some addr \<and> target \<in> set domains \<and> target \<noteq> gd \<and>
        (\<exists>m. metrics addr = Some m \<and> get_or [] (mv_DomainLeaders m) target \<noteq> []) \<and>
        ct_lastMigration c' =
          (case move addr target of
             Some r \<Rightarrow> if mr_Accepted r \<and> \<not> mr_NotGlobalLeader r then later else ct_lastMigration c
           | None \<Rightarrow> ct_lastMigration c))"
proof (cases "\<exists>addr m. gl \<noteq> [] \<and> fmlookup addrs gl = Some addr \<and> metrics addr = Some m")
  case False
  then have "c' = c \<and> req = None"
    using assms by (auto simp: tick_def split: if_splits option.splits)
  then show ?thesis by simp
next
  case True
  then obtain addr m where a: "gl \<noteq> []" "fmlookup addrs gl = Some addr" "metrics addr = Some m" by blast
  define res where "res = ComputeCosts (buildInput domains gd m)"
  define l where "l = fold (\<lambda>c x. if cc_Domain c = gd then cc_Ls c else x) (or_Candidates res) 0"
  obtain c1 t where o: "Observe c gd (or_Recommended res) l (or_RecommendedLs res) now = (c1, t)" by fastforce
  have lm: "ct_lastMigration c1 = ct_lastMigration c" using Observe_lastMigration [of c gd] o by (metis fst_conv)
  have cons: "set (consensusDomains (buildInput domains gd m)) = set domains"
    by (auto simp: consensusDomains_def buildInput_def Let_def)
  have tick: "tick metrics move addrs seeds domains now later c =
      (if t = [] then (c1, None)
       else case move addr t of
         None \<Rightarrow> (RecordResult c1 False later, Some (addr, t))
       | Some resp \<Rightarrow> if mr_NotGlobalLeader resp then (RecordResult c1 False later, Some (addr, t))
           else (RecordResult c1 (mr_Accepted resp) later, Some (addr, t)))"
    using a assms(2) o by (simp add: tick_def res_def l_def Let_def)
  show ?thesis
  proof (cases "t = []")
    case True
    then show ?thesis using assms(1) lm tick by auto
  next
    case False
    then have t: "t = or_Recommended res" "t \<noteq> gd" using Observe_target [OF o] by auto
    then have "t \<in> set domains \<and> get_or [] (mv_DomainLeaders m) t \<noteq> []"
      using recommended_available [of "buildInput domains gd m"] False cons
      by (auto simp: res_def available_def buildInput_def Let_def get_or_def [of False] available_fold)
    then show ?thesis
      using assms(1) tick False a t lm by (auto simp: RecordResult_def split: option.splits if_splits)
  qed
qed

definition ex_view :: MetricsView where
  "ex_view = \<lparr>mv_GlobalLeaderNode = ''a1'', mv_GlobalLeaderDomain = ''a'',
     mv_WriteRequestsByDomain = fmupd ''b'' 10 fmempty, mv_ReadRequestsByDomain = fmempty,
     mv_InterDomainRttMillis = fmupd ''a->b'' 10 (fmupd ''b->a'' 10 fmempty),
     mv_DomainLeaders = fmupd ''b'' ''b1'' fmempty\<rparr>"

definition ex_controller :: Controller where
  "ex_controller = NewController \<lparr>po_MinImprovement = 0, po_Confirmations = 1, po_Cooldown = 5\<rparr>"

text \<open>With reads from \<open>b\<close> as well, moving the seat there saves their round trips.\<close>

definition ex_view2 :: MetricsView where
  "ex_view2 = ex_view\<lparr>mv_ReadRequestsByDomain := fmupd ''b'' 10 fmempty\<rparr>"

lemma tick_move_justified_witness:
  "(case tick (\<lambda>_. Some ex_view2) (\<lambda>_ _. Some \<lparr>mr_NotGlobalLeader = False, mr_Accepted = True\<rparr>)
      (fmupd ''a1'' ''addr'' fmempty) [''s''] [''a'', ''b''] 100 101 ex_controller of
     (c, req) \<Rightarrow> req = Some (''addr'', ''b'') \<and> ct_lastMigration c = 101)"
proof -
  let ?t = "tick (\<lambda>_. Some ex_view2) (\<lambda>_ _. Some \<lparr>mr_NotGlobalLeader = False, mr_Accepted = True\<rparr>)
      (fmupd ''a1'' ''addr'' fmempty) [''s''] [''a'', ''b''] 100 101 ex_controller"
  have 1: "snd ?t = Some (''addr'', ''b'')" by code_simp
  have 2: "discoverGlobalLeader (\<lambda>_. Some ex_view2) [''s''] = (''a1'', ''a'')" by code_simp
  obtain c where c: "?t = (c, Some (''addr'', ''b''))" using 1 by (metis prod.collapse)
  from tick_move_justified [OF c 2] show ?thesis by (simp add: c)
qed

end
