(* ===== verification/Write_Trace.thy ===== *)
theory Write_Trace
  imports Prelude "HOL-Library.Product_Lexorder" "HOL-Library.Multiset"
begin

text \<open>
  \<open>internal/cdraft/write_trace.go\<close>: the opt-in recorder of timed segments of a write.  A nil recorder is
  \<open>None\<close> and every operation on it does nothing.  The context value that carries the recorder is the
  context argument itself.
\<close>

record WriteTraceEvent =
  we_RequestID :: string
  we_Component :: string
  we_Phase :: string
  we_NodeID :: string
  we_DomainID :: string
  we_PeerDomain :: string
  we_Detail :: string
  we_StartedAt :: time
  we_EndedAt :: time
  we_Duration :: duration

type_synonym WriteTraceRecorder = "WriteTraceEvent list"

definition NewWriteTraceRecorder :: "WriteTraceRecorder option" where
  "NewWriteTraceRecorder = Some []"

definition WithWriteTrace ::
    "WriteTraceRecorder option \<Rightarrow> WriteTraceRecorder option \<Rightarrow> WriteTraceRecorder option" where
  "WithWriteTrace ctx recorder = (case recorder of None \<Rightarrow> ctx | Some r \<Rightarrow> Some r)"

definition WriteTraceFromContext :: "WriteTraceRecorder option option \<Rightarrow> WriteTraceRecorder option" where
  "WriteTraceFromContext ctx = (case ctx of None \<Rightarrow> None | Some value \<Rightarrow> value)"

definition trace_Record :: "WriteTraceRecorder option \<Rightarrow> WriteTraceEvent \<Rightarrow> WriteTraceRecorder option" where
  "trace_Record r event = (case r of None \<Rightarrow> None | Some es \<Rightarrow> Some (es @ [event]))"

text \<open>\<open>Start\<close> fixes the start time; the function it returns is applied at the end with the details.\<close>

definition trace_Start :: "WriteTraceEvent \<Rightarrow> time \<Rightarrow> WriteTraceEvent" where
  "trace_Start event now = (if we_StartedAt event = 0 then event\<lparr>we_StartedAt := now\<rparr> else event)"

definition trace_finish ::
    "WriteTraceRecorder option \<Rightarrow> WriteTraceEvent \<Rightarrow> string list \<Rightarrow> time \<Rightarrow> WriteTraceRecorder option" where
  "trace_finish r event detail now =
     (case r of None \<Rightarrow> None
      | Some _ \<Rightarrow>
         let e1 = event\<lparr>we_EndedAt := now, we_Duration := now - we_StartedAt event\<rparr>;
             e2 = (case detail of [] \<Rightarrow> e1 | d # _ \<Rightarrow> e1\<lparr>we_Detail := d\<rparr>)
         in trace_Record r e2)"

definition trace_Mark :: "WriteTraceRecorder option \<Rightarrow> WriteTraceEvent \<Rightarrow> time \<Rightarrow> WriteTraceRecorder option" where
  "trace_Mark r event now =
     (case r of None \<Rightarrow> None
      | Some _ \<Rightarrow>
         let e1 = (if we_StartedAt event = 0 then event\<lparr>we_StartedAt := now\<rparr> else event);
             e2 = (if we_EndedAt e1 = 0 then e1\<lparr>we_EndedAt := now\<rparr> else e1)
         in trace_Record r (e2\<lparr>we_Duration := we_EndedAt e2 - we_StartedAt e2\<rparr>))"

definition trace_Events :: "WriteTraceRecorder option \<Rightarrow> WriteTraceEvent list" where
  "trace_Events r = (case r of None \<Rightarrow> [] | Some es \<Rightarrow> sort_key (\<lambda>e. (we_StartedAt e, we_Phase e)) es)"

text \<open>Reading the trace returns every recorded event exactly once, ordered by start time and then by
  phase, with events that tie in the order they were recorded; a segment finished or marked no earlier
  than it started has a non-negative duration equal to the difference of its times.\<close>

theorem trace_events_complete:
  assumes "r = Some es" "we_StartedAt event \<le> now" "we_StartedAt event \<noteq> 0"
  shows "mset (trace_Events r) = mset es \<and>
    sorted (map (\<lambda>e. (we_StartedAt e, we_Phase e)) (trace_Events r)) \<and>
    filter (\<lambda>e. (we_StartedAt e, we_Phase e) = k) (trace_Events r) = filter (\<lambda>e. (we_StartedAt e, we_Phase e) = k) es \<and>
    (\<exists>e. trace_finish r event detail now = Some (es @ [e]) \<and>
       we_Duration e = we_EndedAt e - we_StartedAt e \<and> 0 \<le> we_Duration e)"
  using assms
  by (auto simp: trace_Events_def trace_finish_def trace_Record_def Let_def sort_key_stable split: list.splits)

definition ex_event :: "time \<Rightarrow> string \<Rightarrow> WriteTraceEvent" where
  "ex_event t ph = \<lparr>we_RequestID = ''r'', we_Component = ''client'', we_Phase = ph, we_NodeID = [], we_DomainID = [],
     we_PeerDomain = [], we_Detail = [], we_StartedAt = t, we_EndedAt = 0, we_Duration = 0\<rparr>"

lemma trace_events_complete_witness:
  "mset (trace_Events (Some [ex_event 5 ''b'', ex_event 3 ''a''])) = mset [ex_event 5 ''b'', ex_event 3 ''a''] \<and>
   (\<exists>e. trace_finish (Some [ex_event 5 ''b'', ex_event 3 ''a'']) (ex_event 4 ''c'') [''ok''] 9 =
      Some ([ex_event 5 ''b'', ex_event 3 ''a''] @ [e]) \<and> 0 \<le> we_Duration e)"
proof -
  have "we_StartedAt (ex_event 4 ''c'') \<le> 9" "we_StartedAt (ex_event 4 ''c'') \<noteq> 0" by (simp_all add: ex_event_def)
  from trace_events_complete [OF refl this, of "[ex_event 5 ''b'', ex_event 3 ''a'']" "(0, [])" "[''ok'']"]
  show ?thesis by auto
qed

end
