(* ===== verification/Sim_Network.thy ===== *)
theory Sim_Network
  imports Types
begin

text \<open>
  \<open>internal/cdraft/sim/network.go\<close>: the manual clock and the test network of the deterministic
  model, with stopped nodes and directed drops per message kind.  Mutexes are left out: every
  method runs to completion under the cluster's own lock.
\<close>

section \<open>The clock\<close>

record ManualClock =
  now :: time

definition NewManualClock :: "time \<Rightarrow> ManualClock" where
  "NewManualClock start = \<lparr>now = start\<rparr>"

definition clock_Now :: "ManualClock \<Rightarrow> time" where
  "clock_Now c = now c"

definition clock_Advance :: "ManualClock \<Rightarrow> duration \<Rightarrow> ManualClock" where
  "clock_Advance c d = c\<lparr>now := now c + d\<rparr>"

section \<open>The network\<close>

record link =
  lk_from :: string
  lk_to :: string
  lk_kind :: MessageKind

record TestNetwork =
  stopped :: "bool gomap"
  dropped :: "(link, bool) fmap"

definition mk_link :: "string \<Rightarrow> string \<Rightarrow> MessageKind \<Rightarrow> link" where
  "mk_link from to kind = \<lparr>lk_from = from, lk_to = to, lk_kind = kind\<rparr>"

definition NewTestNetwork :: TestNetwork where
  "NewTestNetwork = \<lparr>stopped = fmempty, dropped = fmempty\<rparr>"

definition CanSend :: "TestNetwork \<Rightarrow> string \<Rightarrow> string \<Rightarrow> MessageKind \<Rightarrow> bool" where
  "CanSend n from to kind \<longleftrightarrow>
     \<not> get_or False (stopped n) from \<and> \<not> get_or False (stopped n) to \<and>
     \<not> get_or False (dropped n) (mk_link from to kind)"

definition net_Stop :: "TestNetwork \<Rightarrow> string \<Rightarrow> TestNetwork" where
  "net_Stop n node = n\<lparr>stopped := fmupd node True (stopped n)\<rparr>"

definition net_Recover :: "TestNetwork \<Rightarrow> string \<Rightarrow> TestNetwork" where
  "net_Recover n node = n\<lparr>stopped := fmdrop node (stopped n)\<rparr>"

definition IsStopped :: "TestNetwork \<Rightarrow> string \<Rightarrow> bool" where
  "IsStopped n node = get_or False (stopped n) node"

definition net_Drop :: "TestNetwork \<Rightarrow> string \<Rightarrow> string \<Rightarrow> MessageKind \<Rightarrow> TestNetwork" where
  "net_Drop n from to kind = n\<lparr>dropped := fmupd (mk_link from to kind) True (dropped n)\<rparr>"

definition net_Allow :: "TestNetwork \<Rightarrow> string \<Rightarrow> string \<Rightarrow> MessageKind \<Rightarrow> TestNetwork" where
  "net_Allow n from to kind = n\<lparr>dropped := fmdrop (mk_link from to kind) (dropped n)\<rparr>"

definition message_kinds :: "MessageKind list" where
  "message_kinds =
     [DomainVoteMessage, DomainHeartbeatMessage, DomainReadyMessage,
      GlobalVoteMessage, GlobalHeartbeatMessage, ReplicateEntryMessage,
      DomainQuorumAckMessage, GlobalDomainQuorumAckMessage, CommitNoticeMessage]"

definition net_Partition :: "TestNetwork \<Rightarrow> string list \<Rightarrow> string list \<Rightarrow> TestNetwork" where
  "net_Partition n left right =
     fold (\<lambda>a. fold (\<lambda>b. fold (\<lambda>kind n. net_Drop (net_Drop n a b kind) b a kind) message_kinds) right) left n"

definition net_Heal :: "TestNetwork \<Rightarrow> TestNetwork" where
  "net_Heal n = n\<lparr>dropped := fmempty\<rparr>"

section \<open>What the fault injections do\<close>

lemma message_kinds_complete: "kind \<in> set message_kinds"
  by (cases kind) (simp_all add: message_kinds_def)

definition is_dropped :: "TestNetwork \<Rightarrow> string \<Rightarrow> string \<Rightarrow> MessageKind \<Rightarrow> bool" where
  "is_dropped n from to kind = get_or False (dropped n) (mk_link from to kind)"

lemma mk_link_eq [simp]: "mk_link a b k = mk_link a' b' k' \<longleftrightarrow> a = a' \<and> b = b' \<and> k = k'"
  by (simp add: mk_link_def)

lemma CanSend_iff:
  "CanSend n from to kind \<longleftrightarrow> \<not> IsStopped n from \<and> \<not> IsStopped n to \<and> \<not> is_dropped n from to kind"
  by (simp add: CanSend_def IsStopped_def is_dropped_def)

lemma net_Drop_simps [simp]:
  "is_dropped (net_Drop n a b k) a' b' k' \<longleftrightarrow> (a' = a \<and> b' = b \<and> k' = k) \<or> is_dropped n a' b' k'"
  "IsStopped (net_Drop n a b k) x = IsStopped n x"
  by (auto simp: net_Drop_def is_dropped_def IsStopped_def)

lemma net_Allow_simps [simp]:
  "is_dropped (net_Allow n a b k) a' b' k' \<longleftrightarrow> \<not> (a' = a \<and> b' = b \<and> k' = k) \<and> is_dropped n a' b' k'"
  "IsStopped (net_Allow n a b k) x = IsStopped n x"
  by (auto simp: net_Allow_def is_dropped_def IsStopped_def get_or_def)

lemma net_Stop_simps [simp]:
  "IsStopped (net_Stop n x) y \<longleftrightarrow> y = x \<or> IsStopped n y"
  "is_dropped (net_Stop n x) a b k = is_dropped n a b k"
  by (auto simp: net_Stop_def is_dropped_def IsStopped_def)

lemma net_Recover_simps [simp]:
  "IsStopped (net_Recover n x) y \<longleftrightarrow> y \<noteq> x \<and> IsStopped n y"
  "is_dropped (net_Recover n x) a b k = is_dropped n a b k"
  by (auto simp: net_Recover_def is_dropped_def IsStopped_def get_or_def)

lemma net_Heal_simps [simp]:
  "\<not> is_dropped (net_Heal n) a b k" "IsStopped (net_Heal n) x = IsStopped n x"
  by (simp_all add: net_Heal_def is_dropped_def IsStopped_def)

text \<open>A loop of drops adds exactly the links it names.\<close>

lemma fold_drops:
  assumes "\<And>x n. is_dropped (f x n) a b k \<longleftrightarrow> P x \<or> is_dropped n a b k"
  shows "is_dropped (fold f xs n) a b k \<longleftrightarrow> (\<exists>x \<in> set xs. P x) \<or> is_dropped n a b k"
  using assms by (induction xs arbitrary: n) auto

lemma Partition_dropped:
  "is_dropped (net_Partition n left right) a b k \<longleftrightarrow>
     (a \<in> set left \<and> b \<in> set right) \<or> (b \<in> set left \<and> a \<in> set right) \<or> is_dropped n a b k"
proof -
  let ?h = "\<lambda>x y kind n. net_Drop (net_Drop n x y kind) y x kind"
  have 1: "is_dropped (fold (?h x y) message_kinds n) a b k \<longleftrightarrow>
      (a = x \<and> b = y \<or> a = y \<and> b = x) \<or> is_dropped n a b k" for x y n
    using message_kinds_complete [of k]
    by (subst fold_drops [where P = "\<lambda>kind. kind = k \<and> (a = x \<and> b = y \<or> a = y \<and> b = x)"]) auto
  have 2: "is_dropped (fold (\<lambda>y. fold (?h x y) message_kinds) right n) a b k \<longleftrightarrow>
      (\<exists>y \<in> set right. a = x \<and> b = y \<or> a = y \<and> b = x) \<or> is_dropped n a b k" for x n
    by (rule fold_drops) (rule 1)
  show ?thesis unfolding net_Partition_def by (subst fold_drops [OF 2]) auto
qed

lemma Partition_stopped [simp]: "IsStopped (net_Partition n left right) x = IsStopped n x"
  unfolding net_Partition_def by (intro fold_eq) simp

text \<open>A partition cuts every message kind in both directions between the two sides and nothing
  else; healing restores every link between running nodes, and a stopped node sends and receives
  nothing until it is recovered.\<close>

theorem partition_cuts_exactly:
  "(CanSend (net_Partition n left right) a b k \<longleftrightarrow>
     CanSend n a b k \<and> \<not> (a \<in> set left \<and> b \<in> set right) \<and> \<not> (b \<in> set left \<and> a \<in> set right)) \<and>
   (CanSend (net_Heal n) a b k \<longleftrightarrow> \<not> IsStopped n a \<and> \<not> IsStopped n b) \<and>
   \<not> CanSend (net_Stop n x) x b k \<and> \<not> CanSend (net_Stop n x) a x k \<and>
   (CanSend (net_Recover (net_Stop n x) x) a b k \<longleftrightarrow> CanSend (net_Recover n x) a b k)"
  by (auto simp: CanSend_iff Partition_dropped)

end
