(* ===== verification/Sim_Model.thy ===== *)
theory Sim_Model
  imports Transitions Topology Stores Sim_Network
begin

text \<open>
  \<open>internal/cdraft/sim/model.go\<close>: the deterministic cluster.  A cluster is one record; every
  method that takes the lock is a function from clusters to clusters and results.  Go's node
  pointers are the entries of \<open>cl_nodes\<close>: no two keys share a node, so a write through a pointer is
  \<open>upd_node\<close>.  A write through a nil pointer would panic; \<open>upd_node\<close> leaves the cluster alone
  there, and \<open>wf_cluster\<close> (every configured node is present) shows it never happens.

  The random source is a stream of accepted raw draws and the number of draws made so far.
\<close>

section \<open>State\<close>

record SimNode =
  sn_ID :: string
  sn_DomainCode :: string
  sn_Stage :: Stage
  sn_DomainRole :: Role
  sn_GlobalRole :: Role
  sn_ElectionDeadline :: time
  sn_State :: PersistentState
  sn_store :: Store

record NodeSnapshot =
  sp_ID :: string
  sp_DomainCode :: string
  sp_Stage :: Stage
  sp_DomainRole :: Role
  sp_GlobalRole :: Role
  sp_ElectionDeadline :: time
  sp_State :: PersistentState

record Cluster =
  cl_config :: Config
  cl_nodes :: "SimNode gomap"
  cl_network :: TestNetwork
  cl_clock :: ManualClock
  cl_rng :: "nat \<Rightarrow> nat"
  cl_draws :: nat
  cl_rpcPolicy :: RPCPolicy
  cl_domainLeaders :: "DomainLeaderIdentity gomap"
  cl_globalLeader :: GlobalLeaderIdentity

definition upd_node :: "string \<Rightarrow> (SimNode \<Rightarrow> SimNode) \<Rightarrow> Cluster \<Rightarrow> Cluster" where
  "upd_node i f c =
     (case fmlookup (cl_nodes c) i of
        None \<Rightarrow> c
      | Some n \<Rightarrow> c\<lparr>cl_nodes := fmupd i (f n) (cl_nodes c)\<rparr>)"

definition node_ids :: "Cluster \<Rightarrow> string list" where
  "node_ids c = map fst (sorted_list_of_fmap (cl_nodes c))"

section \<open>Construction\<close>

text \<open>The loop of \<open>NewCluster\<close> over the configured nodes.\<close>

fun load_nodes :: "Store gomap \<Rightarrow> Node list \<Rightarrow> SimNode gomap \<Rightarrow> (string \<times> error) + SimNode gomap" where
  "load_nodes stores [] nodes = Inr nodes"
| "load_nodes stores (configured # rest) nodes =
     (let st = get_or (MemoryStore NewMemoryStore) stores (nd_ID configured) in
      case store_Load st of
        Inl e \<Rightarrow> Inl (nd_ID configured, e)
      | Inr state \<Rightarrow>
          load_nodes stores rest
            (fmupd (nd_ID configured)
               \<lparr>sn_ID = nd_ID configured, sn_DomainCode = nd_DomainCode configured, sn_Stage = Booting,
                sn_DomainRole = Follower, sn_GlobalRole = Follower, sn_ElectionDeadline = 0,
                sn_State = state, sn_store = st\<rparr> nodes))"

datatype cluster_error = InvalidConfig config_error | LoadNode string error

definition NewCluster ::
    "(nat \<Rightarrow> nat) \<Rightarrow> Config \<Rightarrow> Store gomap \<Rightarrow> TestNetwork option \<Rightarrow> ManualClock option \<Rightarrow>
     cluster_error + Cluster" where
  "NewCluster rng config stores network clock =
     (case config_Validate config of
        Some e \<Rightarrow> Inl (InvalidConfig e)
      | None \<Rightarrow>
          (case load_nodes stores (cfg_Nodes config) fmempty of
             Inl (i, e) \<Rightarrow> Inl (LoadNode i e)
           | Inr nodes \<Rightarrow>
               Inr \<lparr>cl_config = config, cl_nodes = nodes,
                    cl_network = (case network of None \<Rightarrow> NewTestNetwork | Some n \<Rightarrow> n),
                    cl_clock = (case clock of None \<Rightarrow> NewManualClock 0 | Some k \<Rightarrow> k),
                    cl_rng = rng, cl_draws = 0, cl_rpcPolicy = DefaultRPCPolicy,
                    cl_domainLeaders = fmempty, cl_globalLeader = no_gli\<rparr>))"

section \<open>Accessors\<close>

definition cluster_RPCPolicy :: "Cluster \<Rightarrow> RPCPolicy" where
  "cluster_RPCPolicy c = cl_rpcPolicy c"

definition SetFastReturnEnabled :: "Cluster \<Rightarrow> bool \<Rightarrow> Cluster" where
  "SetFastReturnEnabled c enabled =
     c\<lparr>cl_config := (cl_config c)\<lparr>cfg_Features :=
         (cfg_Features (cl_config c))\<lparr>ft_FastReturnEnabled := enabled\<rparr>\<rparr>\<rparr>"

definition snapshot :: "SimNode \<Rightarrow> NodeSnapshot" where
  "snapshot node =
     \<lparr>sp_ID = sn_ID node, sp_DomainCode = sn_DomainCode node, sp_Stage = sn_Stage node,
      sp_DomainRole = sn_DomainRole node, sp_GlobalRole = sn_GlobalRole node,
      sp_ElectionDeadline = sn_ElectionDeadline node, sp_State = Clone (sn_State node)\<rparr>"

definition cluster_Snapshot :: "Cluster \<Rightarrow> string \<Rightarrow> NodeSnapshot option" where
  "cluster_Snapshot c nodeID = map_option snapshot (fmlookup (cl_nodes c) nodeID)"

section \<open>Identities and quorums\<close>

definition domainIdentityCurrentLocked :: "Cluster \<Rightarrow> DomainLeaderIdentity \<Rightarrow> bool" where
  "domainIdentityCurrentLocked c identity \<longleftrightarrow>
     dli_Valid identity \<and>
     fmlookup (cl_domainLeaders c) (DomainID identity) = Some identity \<and>
     \<not> IsStopped (cl_network c) (NodeID identity) \<and>
     (case fmlookup (cl_nodes c) (NodeID identity) of
        None \<Rightarrow> False
      | Some node \<Rightarrow> ps_DomainTerm (sn_State node) = DomainTerm identity \<and> sn_DomainRole node = Leader)"

definition globalIdentityCurrentLocked :: "Cluster \<Rightarrow> GlobalLeaderIdentity \<Rightarrow> bool" where
  "globalIdentityCurrentLocked c identity \<longleftrightarrow>
     gli_Valid identity \<and> cl_globalLeader c = identity \<and>
     domainIdentityCurrentLocked c (gli_DomainLeader identity) \<and>
     \<not> IsStopped (cl_network c) (NodeID (gli_DomainLeader identity)) \<and>
     (case fmlookup (cl_nodes c) (NodeID (gli_DomainLeader identity)) of
        None \<Rightarrow> False
      | Some node \<Rightarrow> sn_GlobalRole node = Leader \<and>
          ps_GlobalTerm (sn_State node) = gli_GlobalTerm identity \<and>
          ps_GlobalLeader (sn_State node) = identity)"

definition cluster_DomainLeader :: "Cluster \<Rightarrow> string \<Rightarrow> DomainLeaderIdentity \<times> bool" where
  "cluster_DomainLeader c domain =
     (case fmlookup (cl_domainLeaders c) domain of
        None \<Rightarrow> (no_dli, False)
      | Some identity \<Rightarrow> (identity, domainIdentityCurrentLocked c identity))"

definition cluster_GlobalLeader :: "Cluster \<Rightarrow> GlobalLeaderIdentity \<times> bool" where
  "cluster_GlobalLeader c =
     (cl_globalLeader c, globalIdentityCurrentLocked c (cl_globalLeader c))"

definition domainIdentityHasQuorumLocked :: "Cluster \<Rightarrow> DomainLeaderIdentity \<Rightarrow> bool" where
  "domainIdentityHasQuorumLocked c identity \<longleftrightarrow>
     domainIdentityCurrentLocked c identity \<and>
     (let members = DomainMembers (cl_config c) (DomainID identity) in
      1 + length (filter (\<lambda>m. nd_ID m \<noteq> NodeID identity \<and>
             CanSend (cl_network c) (NodeID identity) (nd_ID m) DomainHeartbeatMessage) members)
        \<ge> majority (length members))"

text \<open>The domains whose current leader a global leader can reach.\<close>

definition domainLeaderAcks :: "Cluster \<Rightarrow> GlobalLeaderIdentity \<Rightarrow> nat" where
  "domainLeaderAcks c identity =
     length (filter (\<lambda>d. case fmlookup (cl_domainLeaders c) d of
         None \<Rightarrow> False
       | Some l \<Rightarrow> domainIdentityCurrentLocked c l \<and>
           CanSend (cl_network c) (NodeID (gli_DomainLeader identity)) (NodeID l) GlobalHeartbeatMessage)
       (Domains (cl_config c)))"

definition globalIdentityHasElectionQuorumLocked :: "Cluster \<Rightarrow> GlobalLeaderIdentity \<Rightarrow> bool" where
  "globalIdentityHasElectionQuorumLocked c identity \<longleftrightarrow>
     globalIdentityCurrentLocked c identity \<and>
     domainLeaderAcks c identity \<ge> globalElectionThreshold (length (Domains (cl_config c)))"

section \<open>Timers and persistence\<close>

text \<open>\<open>rng.Intn(n)\<close> reduces the next accepted raw draw modulo \<open>n\<close>.\<close>

definition resetElectionDeadlineLocked :: "string \<Rightarrow> Cluster \<Rightarrow> Cluster" where
  "resetElectionDeadlineLocked i c =
     (let jitter = (150 + int (cl_rng c (cl_draws c)) mod 151) * millisecond in
      upd_node i (\<lambda>n. n\<lparr>sn_ElectionDeadline := clock_Now (cl_clock c) + jitter\<rparr>)
        (c\<lparr>cl_draws := cl_draws c + 1\<rparr>))"

definition ElectionDue :: "Cluster \<Rightarrow> string \<Rightarrow> bool" where
  "ElectionDue c nodeID \<longleftrightarrow>
     (case fmlookup (cl_nodes c) nodeID of
        None \<Rightarrow> False
      | Some node \<Rightarrow> \<not> clock_Now (cl_clock c) < sn_ElectionDeadline node)"

definition persistLocked :: "SimNode \<Rightarrow> SimNode \<times> error option" where
  "persistLocked node =
     (case store_Save (sn_store node) (sn_State node) of (st, e) \<Rightarrow> (node\<lparr>sn_store := st\<rparr>, e))"

text \<open>\<open>_ = c.persistLocked(node)\<close>\<close>

definition persist :: "SimNode \<Rightarrow> SimNode" where
  "persist node = fst (persistLocked node)"

definition persist_at :: "string \<Rightarrow> Cluster \<Rightarrow> Cluster \<times> error option" where
  "persist_at i c =
     (case fmlookup (cl_nodes c) i of
        None \<Rightarrow> (c, None)
      | Some n \<Rightarrow> (case persistLocked n of
          (n', e) \<Rightarrow> (c\<lparr>cl_nodes := fmupd i n' (cl_nodes c)\<rparr>, e)))"

definition revoke :: "SimNode \<Rightarrow> SimNode" where
  "revoke node =
     (case transitionRevokeGlobalLeadership (sn_State node) (sn_GlobalRole node) (sn_Stage node) of
        (s, r, g) \<Rightarrow> persist (node\<lparr>sn_State := s, sn_GlobalRole := r, sn_Stage := g\<rparr>))"

definition invalidateGlobalLeaderLocked :: "Cluster \<Rightarrow> Cluster" where
  "invalidateGlobalLeaderLocked c =
     fold (\<lambda>i. upd_node i revoke) (node_ids c) (c\<lparr>cl_globalLeader := no_gli\<rparr>)"

section \<open>Domain elections\<close>

definition handleDomainVoteLocked ::
    "string \<Rightarrow> DomainVoteRequest \<Rightarrow> Cluster \<Rightarrow> Cluster \<times> DomainVoteResponse" where
  "handleDomainVoteLocked voterID request c =
     (case fmlookup (cl_nodes c) voterID of
        None \<Rightarrow> (c, \<lparr>dvp_DomainTerm = 0, dvp_Granted = False\<rparr>)
      | Some vnode \<Rightarrow>
          if IsStopped (cl_network c) voterID \<or> sn_Stage vnode = Booting \<or>
             sn_DomainCode vnode \<noteq> dvr_DomainID request
          then (c, \<lparr>dvp_DomainTerm = 0, dvp_Granted = False\<rparr>)
          else if dvr_DomainTerm request < ps_DomainTerm (sn_State vnode)
          then (c, \<lparr>dvp_DomainTerm = ps_DomainTerm (sn_State vnode), dvp_Granted = False\<rparr>)
          else case transitionDomainVote (sn_State vnode) (sn_DomainRole vnode) request of
            (s, r, response, resetDeadline) \<Rightarrow>
              let c1 = upd_node voterID (\<lambda>n. n\<lparr>sn_State := s, sn_DomainRole := r\<rparr>) c;
                  c2 = (if resetDeadline then resetElectionDeadlineLocked voterID c1 else c1)
              in (upd_node voterID persist c2, response))"

text \<open>The vote loop.  \<open>Inl\<close> is the early return on a higher term.\<close>

fun domain_votes ::
    "string \<Rightarrow> DomainVoteRequest \<Rightarrow> Node list \<Rightarrow> nat \<Rightarrow> Cluster \<Rightarrow> Cluster \<times> (error + nat)" where
  "domain_votes candidateID request [] votes c = (c, Inr votes)"
| "domain_votes candidateID request (member # rest) votes c =
     (if nd_ID member = candidateID \<or> \<not> CanSend (cl_network c) candidateID (nd_ID member) DomainVoteMessage
      then domain_votes candidateID request rest votes c
      else case handleDomainVoteLocked (nd_ID member) request c of
        (c1, response) \<Rightarrow>
          (case fmlookup (cl_nodes c1) candidateID of
             None \<Rightarrow> (c1, Inl ErrNoDomainQuorum)
           | Some candidate \<Rightarrow>
               if dvp_DomainTerm response > ps_DomainTerm (sn_State candidate)
               then (case transitionObserveHigherDomainTerm (sn_State candidate) (sn_DomainRole candidate)
                            (dvp_DomainTerm response) of
                       (s, r, _) \<Rightarrow>
                         (upd_node candidateID (\<lambda>n. persist (n\<lparr>sn_State := s, sn_DomainRole := r\<rparr>)) c1,
                          Inl ErrNoDomainQuorum))
               else domain_votes candidateID request rest
                      (if dvp_Granted response then votes + 1 else votes) c1))"

text \<open>What a member does with the announcement of a new domain leader.\<close>

definition accept_domain :: "DomainLeaderIdentity \<Rightarrow> (SimNode \<Rightarrow> SimNode) \<Rightarrow> string \<Rightarrow> Cluster \<Rightarrow> Cluster \<times> bool" where
  "accept_domain identity stage i c =
     (case fmlookup (cl_nodes c) i of
        None \<Rightarrow> (c, False)
      | Some node \<Rightarrow>
          (case transitionAcceptDomainLeader (sn_State node) (sn_DomainRole node) (sn_ID node) identity of
             (s, r, ok) \<Rightarrow>
               let c1 = upd_node i (\<lambda>n. n\<lparr>sn_State := s, sn_DomainRole := r\<rparr>) c in
               if ok then (upd_node i persist (resetElectionDeadlineLocked i (upd_node i stage c1)), True)
               else (c1, False)))"

definition announce_domain :: "DomainLeaderIdentity \<Rightarrow> Node \<Rightarrow> Cluster \<Rightarrow> Cluster" where
  "announce_domain identity member c =
     (if \<not> CanSend (cl_network c) (NodeID identity) (nd_ID member) DomainReadyMessage then c
      else fst (accept_domain identity (\<lambda>n. n\<lparr>sn_Stage := GlobalElecting\<rparr>) (nd_ID member) c))"

definition become_domain :: "DomainLeaderIdentity \<Rightarrow> SimNode \<Rightarrow> SimNode" where
  "become_domain identity n =
     (case transitionBecomeDomainLeader (sn_State n) (sn_DomainRole n) identity of
        (s, r) \<Rightarrow> persist (n\<lparr>sn_State := s, sn_DomainRole := r, sn_Stage := GlobalElecting\<rparr>))"

text \<open>The election after the campaign has started and its vote is persisted, and the installation
  of the winner.\<close>

definition install_domain_leader :: "DomainLeaderIdentity \<Rightarrow> Cluster \<Rightarrow> Cluster" where
  "install_domain_leader identity c =
     (let previous = get_or no_dli (cl_domainLeaders c) (DomainID identity);
          c1 = c\<lparr>cl_domainLeaders := fmupd (DomainID identity) identity (cl_domainLeaders c)\<rparr>;
          c2 = fold (announce_domain identity) (DomainMembers (cl_config c) (DomainID identity)) c1;
          c3 = upd_node (NodeID identity) (become_domain identity) c2
      in if dli_Valid previous \<and> previous \<noteq> identity then invalidateGlobalLeaderLocked c3 else c3)"

definition start_domain_campaign :: "SimNode \<Rightarrow> SimNode" where
  "start_domain_campaign n =
     (case transitionStartDomainCampaign (sn_State n) (sn_DomainRole n) (sn_ID n) of
        (s, r, _, _) \<Rightarrow> n\<lparr>sn_Stage := DomainElecting, sn_State := s, sn_DomainRole := r\<rparr>)"

definition electDomainLeaderLocked ::
    "string \<Rightarrow> string \<Rightarrow> Cluster \<Rightarrow> Cluster \<times> (error + DomainLeaderIdentity)" where
  "electDomainLeaderLocked domain candidateID c =
     (case fmlookup (cl_nodes c) candidateID of
        None \<Rightarrow> (c, Inl (ErrNotInDomain candidateID domain))
      | Some candidate \<Rightarrow>
          if sn_DomainCode candidate \<noteq> domain then (c, Inl (ErrNotInDomain candidateID domain))
          else if IsStopped (cl_network c) candidateID then (c, Inl ErrNodeStopped)
          else if sn_Stage candidate = Booting then (c, Inl ErrNotServing)
          else
            let campaign = start_domain_campaign candidate;
                c1 = resetElectionDeadlineLocked candidateID (upd_node candidateID (\<lambda>_. campaign) c);
                request = \<lparr>dvr_DomainID = domain, dvr_Candidate = sn_ID candidate,
                           dvr_DomainTerm = ps_DomainTerm (sn_State campaign),
                           dvr_Log = Summary (sn_State campaign)\<rparr>;
                members = DomainMembers (cl_config c) domain
            in (case persist_at candidateID c1 of
                  (c2, Some e) \<Rightarrow> (c2, Inl e)
                | (c2, None) \<Rightarrow>
                    (case domain_votes candidateID request members 1 c2 of
                       (c3, Inl e) \<Rightarrow> (c3, Inl e)
                     | (c3, Inr votes) \<Rightarrow>
                         if votes < majority (length members) then (c3, Inl ErrNoDomainQuorum)
                         else let identity = \<lparr>DomainID = domain, NodeID = candidateID,
                                DomainTerm = (case fmlookup (cl_nodes c3) candidateID of
                                   None \<Rightarrow> 0 | Some n \<Rightarrow> ps_DomainTerm (sn_State n))\<rparr>
                              in (install_domain_leader identity c3, Inr identity))))"

fun deliver_domain_heartbeats ::
    "DomainLeaderIdentity \<Rightarrow> Node list \<Rightarrow> nat \<Rightarrow> Cluster \<Rightarrow> Cluster \<times> nat" where
  "deliver_domain_heartbeats identity [] delivered c = (c, delivered)"
| "deliver_domain_heartbeats identity (member # rest) delivered c =
     (if nd_ID member = NodeID identity \<or>
         \<not> CanSend (cl_network c) (NodeID identity) (nd_ID member) DomainHeartbeatMessage
      then deliver_domain_heartbeats identity rest delivered c
      else case accept_domain identity (\<lambda>n. n) (nd_ID member) c of
        (c1, ok) \<Rightarrow>
          deliver_domain_heartbeats identity rest (if ok then delivered + 1 else delivered) c1)"

definition SendDomainHeartbeat :: "DomainLeaderIdentity \<Rightarrow> Cluster \<Rightarrow> Cluster \<times> bool" where
  "SendDomainHeartbeat identity c =
     (if \<not> domainIdentityCurrentLocked c identity then (c, False)
      else let members = DomainMembers (cl_config c) (DomainID identity) in
           case deliver_domain_heartbeats identity members 1 c of
             (c1, delivered) \<Rightarrow> (c1, delivered \<ge> majority (length members)))"

section \<open>Global elections\<close>

definition handleGlobalVoteLocked ::
    "string \<Rightarrow> GlobalVoteRequest \<Rightarrow> Cluster \<Rightarrow> Cluster \<times> GlobalVoteResponse" where
  "handleGlobalVoteLocked voterID request c =
     (case fmlookup (cl_nodes c) voterID of
        None \<Rightarrow> (c, \<lparr>gvp_Voter = no_dli, gvp_GlobalTerm = 0, gvp_Granted = False\<rparr>)
      | Some vnode \<Rightarrow>
          if IsStopped (cl_network c) voterID \<or> sn_Stage vnode = Booting
          then (c, \<lparr>gvp_Voter = no_dli, gvp_GlobalTerm = 0, gvp_Granted = False\<rparr>)
          else let term = ps_GlobalTerm (sn_State vnode) in
            case fmlookup (cl_domainLeaders c) (sn_DomainCode vnode) of
              None \<Rightarrow> (c, \<lparr>gvp_Voter = no_dli, gvp_GlobalTerm = term, gvp_Granted = False\<rparr>)
            | Some voterIdentity \<Rightarrow>
                if NodeID voterIdentity \<noteq> voterID \<or> \<not> domainIdentityCurrentLocked c voterIdentity
                then (c, \<lparr>gvp_Voter = no_dli, gvp_GlobalTerm = term, gvp_Granted = False\<rparr>)
                else if \<not> domainIdentityCurrentLocked c (gvr_Candidate request) \<or> gvr_GlobalTerm request < term
                then (c, \<lparr>gvp_Voter = voterIdentity, gvp_GlobalTerm = term, gvp_Granted = False\<rparr>)
                else case transitionGlobalVote (sn_State vnode) (sn_GlobalRole vnode) (sn_Stage vnode) request of
                  (s, r, g, response, _, _) \<Rightarrow>
                    (upd_node voterID (\<lambda>n. persist (n\<lparr>sn_State := s, sn_GlobalRole := r, sn_Stage := g\<rparr>)) c,
                     response\<lparr>gvp_Voter := voterIdentity\<rparr>))"

fun global_votes ::
    "string \<Rightarrow> GlobalVoteRequest \<Rightarrow> string list \<Rightarrow> nat \<Rightarrow> Cluster \<Rightarrow> Cluster \<times> (error + nat)" where
  "global_votes candidateID request [] votes c = (c, Inr votes)"
| "global_votes candidateID request (domain # rest) votes c =
     (case fmlookup (cl_domainLeaders c) domain of
        None \<Rightarrow> global_votes candidateID request rest votes c
      | Some voterIdentity \<Rightarrow>
          if NodeID voterIdentity = candidateID \<or> \<not> domainIdentityCurrentLocked c voterIdentity \<or>
             \<not> CanSend (cl_network c) candidateID (NodeID voterIdentity) GlobalVoteMessage
          then global_votes candidateID request rest votes c
          else case handleGlobalVoteLocked (NodeID voterIdentity) request c of
            (c1, response) \<Rightarrow>
              (case fmlookup (cl_nodes c1) candidateID of
                 None \<Rightarrow> (c1, Inl ErrNoGlobalQuorum)
               | Some candidate \<Rightarrow>
                   if gvp_GlobalTerm response > ps_GlobalTerm (sn_State candidate)
                   then (case transitionObserveHigherGlobalTerm (sn_State candidate) (sn_GlobalRole candidate)
                                (sn_Stage candidate) (gvp_GlobalTerm response) of
                           (s, r, g, _) \<Rightarrow>
                             (upd_node candidateID
                                (\<lambda>n. persist (n\<lparr>sn_State := s, sn_GlobalRole := r, sn_Stage := g\<rparr>)) c1,
                              Inl ErrNoGlobalQuorum))
                   else global_votes candidateID request rest
                          (if gvp_Granted response then votes + 1 else votes) c1))"

definition accept_global :: "GlobalLeaderIdentity \<Rightarrow> SimNode \<Rightarrow> SimNode" where
  "accept_global identity node =
     (case transitionAcceptGlobalLeader (sn_State node) (sn_GlobalRole node) (sn_Stage node) (sn_ID node) identity of
        (s, r, g, _) \<Rightarrow> persist (node\<lparr>sn_State := s, sn_GlobalRole := r, sn_Stage := g\<rparr>))"

text \<open>The loop that announces a global leader to every reachable node that has booted.\<close>

definition announce_global :: "GlobalLeaderIdentity \<Rightarrow> string \<Rightarrow> Cluster \<Rightarrow> Cluster" where
  "announce_global identity i c =
     (case fmlookup (cl_nodes c) i of
        None \<Rightarrow> c
      | Some node \<Rightarrow>
          if sn_Stage node = Booting \<or>
             \<not> CanSend (cl_network c) (NodeID (gli_DomainLeader identity)) (sn_ID node) GlobalHeartbeatMessage
          then c else upd_node i (accept_global identity) c)"

definition become_global :: "GlobalLeaderIdentity \<Rightarrow> SimNode \<Rightarrow> SimNode" where
  "become_global identity n =
     (case transitionBecomeGlobalLeader (sn_State n) (sn_GlobalRole n) (sn_Stage n) identity of
        (s, r, g) \<Rightarrow> persist (n\<lparr>sn_State := s, sn_GlobalRole := r, sn_Stage := g\<rparr>))"

definition install_global_leader :: "GlobalLeaderIdentity \<Rightarrow> Cluster \<Rightarrow> Cluster" where
  "install_global_leader identity c =
     (let c1 = c\<lparr>cl_globalLeader := identity\<rparr>;
          c2 = fold (announce_global identity) (node_ids c1) c1
      in upd_node (NodeID (gli_DomainLeader identity)) (become_global identity) c2)"

definition start_global_campaign :: "DomainLeaderIdentity \<Rightarrow> SimNode \<Rightarrow> SimNode" where
  "start_global_campaign identity n =
     (case transitionStartGlobalCampaign (sn_State n) (sn_GlobalRole n) identity of
        (s, r, _, _) \<Rightarrow> n\<lparr>sn_Stage := GlobalElecting, sn_State := s, sn_GlobalRole := r\<rparr>)"

definition electGlobalLeaderLocked ::
    "string \<Rightarrow> Cluster \<Rightarrow> Cluster \<times> (error + GlobalLeaderIdentity)" where
  "electGlobalLeaderLocked candidateID c =
     (case fmlookup (cl_nodes c) candidateID of
        None \<Rightarrow> (c, Inl ErrNodeStopped)
      | Some candidate \<Rightarrow>
          if IsStopped (cl_network c) candidateID then (c, Inl ErrNodeStopped)
          else if sn_Stage candidate = Booting then (c, Inl ErrNotServing)
          else case fmlookup (cl_domainLeaders c) (sn_DomainCode candidate) of
            None \<Rightarrow> (c, Inl ErrNotDomainLeader)
          | Some candidateIdentity \<Rightarrow>
              if NodeID candidateIdentity \<noteq> candidateID \<or> \<not> domainIdentityCurrentLocked c candidateIdentity
              then (c, Inl ErrNotDomainLeader)
              else
                let campaign = start_global_campaign candidateIdentity candidate;
                    term = ps_GlobalTerm (sn_State campaign);
                    c1 = upd_node candidateID (\<lambda>_. campaign) c;
                    c2 = (if gli_Valid (cl_globalLeader c1) \<and> term > gli_GlobalTerm (cl_globalLeader c1)
                          then invalidateGlobalLeaderLocked c1 else c1);
                    request = \<lparr>gvr_Candidate = candidateIdentity, gvr_GlobalTerm = term,
                               gvr_Log = Summary (sn_State campaign)\<rparr>;
                    domains = Domains (cl_config c)
                in (case persist_at candidateID c2 of
                      (c3, Some e) \<Rightarrow> (c3, Inl e)
                    | (c3, None) \<Rightarrow>
                        (case global_votes candidateID request domains 1 c3 of
                           (c4, Inl e) \<Rightarrow> (c4, Inl e)
                         | (c4, Inr votes) \<Rightarrow>
                             if votes < globalElectionThreshold (length domains)
                             then (c4, Inl ErrNoGlobalQuorum)
                             else let identity = \<lparr>gli_DomainLeader = candidateIdentity,
                                    gli_GlobalTerm = (case fmlookup (cl_nodes c4) candidateID of
                                       None \<Rightarrow> 0 | Some n \<Rightarrow> ps_GlobalTerm (sn_State n))\<rparr>
                                  in (install_global_leader identity c4, Inr identity))))"

definition SendGlobalHeartbeat :: "GlobalLeaderIdentity \<Rightarrow> Cluster \<Rightarrow> Cluster \<times> bool" where
  "SendGlobalHeartbeat identity c =
     (if \<not> globalIdentityCurrentLocked c identity then (c, False)
      else if domainLeaderAcks c identity < globalElectionThreshold (length (Domains (cl_config c)))
      then (c, False)
      else (fold (announce_global identity) (node_ids c) c, True))"

section \<open>Choosing candidates\<close>

text \<open>
  \<open>sort.Slice\<close> with the comparison "greater summary first, then the smaller identifier": a linear
  order on the (distinct) identifiers, so any sorting algorithm gives the same list.
\<close>

definition prefer_le :: "(LogSummary \<times> string) \<Rightarrow> (LogSummary \<times> string) \<Rightarrow> bool" where
  "prefer_le a b \<longleftrightarrow>
     (if fst a \<noteq> fst b then AtLeast (fst a) (fst b) else snd a \<le> snd b)"

fun insert_by :: "('a \<Rightarrow> 'a \<Rightarrow> bool) \<Rightarrow> 'a \<Rightarrow> 'a list \<Rightarrow> 'a list" where
  "insert_by le x [] = [x]"
| "insert_by le x (y # ys) = (if le x y then x # y # ys else y # insert_by le x ys)"

definition sort_by :: "('a \<Rightarrow> 'a \<Rightarrow> bool) \<Rightarrow> 'a list \<Rightarrow> 'a list" where
  "sort_by le xs = foldr (insert_by le) xs []"

definition summary_of :: "Cluster \<Rightarrow> string \<Rightarrow> LogSummary" where
  "summary_of c i =
     (case fmlookup (cl_nodes c) i of
        None \<Rightarrow> \<lparr>LastGlobalTerm = 0, LastGlobalIndex = 0\<rparr>
      | Some n \<Rightarrow> Summary (sn_State n))"

definition rank :: "Cluster \<Rightarrow> string list \<Rightarrow> string list" where
  "rank c ids = map snd (sort_by prefer_le (map (\<lambda>i. (summary_of c i, i)) ids))"

definition reachable_from :: "Cluster \<Rightarrow> MessageKind \<Rightarrow> string list \<Rightarrow> string \<Rightarrow> nat" where
  "reachable_from c kind ids i =
     1 + length (filter (\<lambda>j. j \<noteq> i \<and> CanSend (cl_network c) i j kind) ids)"

definition bestAvailableDomainCandidateLocked :: "Cluster \<Rightarrow> string \<Rightarrow> string option" where
  "bestAvailableDomainCandidateLocked c domain =
     (let members = map nd_ID (DomainMembers (cl_config c) domain);
          candidates = rank c (filter (\<lambda>i. \<not> IsStopped (cl_network c) i) members)
      in List.find (\<lambda>i. majority (length members) \<le> reachable_from c DomainVoteMessage members i) candidates)"

definition bestAvailableGlobalCandidateLocked :: "Cluster \<Rightarrow> string option" where
  "bestAvailableGlobalCandidateLocked c =
     (let identities = map (NodeID \<circ> snd) (filter (\<lambda>(_, identity). domainIdentityCurrentLocked c identity)
                         (sorted_list_of_fmap (cl_domainLeaders c)));
          candidates = rank c identities
      in List.find (\<lambda>i. globalElectionThreshold (length (Domains (cl_config c)))
                          \<le> reachable_from c GlobalVoteMessage identities i) candidates)"

section \<open>Starting, stopping and recovery\<close>

text \<open>\<open>StartAll\<close>'s loop over the domains; an error ends it.\<close>

fun elect_domains :: "string list \<Rightarrow> Cluster \<Rightarrow> Cluster \<times> error option" where
  "elect_domains [] c = (c, None)"
| "elect_domains (domain # rest) c =
     (case bestAvailableDomainCandidateLocked c domain of
        None \<Rightarrow> (c, Some (ErrNoDomainQuorumOf domain))
      | Some candidate \<Rightarrow>
          (case electDomainLeaderLocked domain candidate c of
             (c1, Inl e) \<Rightarrow> (c1, Some e)
           | (c1, Inr _) \<Rightarrow> elect_domains rest c1))"

definition elect_best_global :: "Cluster \<Rightarrow> Cluster \<times> error option" where
  "elect_best_global c =
     (case bestAvailableGlobalCandidateLocked c of
        None \<Rightarrow> (c, Some ErrNoGlobalQuorum)
      | Some candidate \<Rightarrow>
          (case electGlobalLeaderLocked candidate c of
             (c1, Inl e) \<Rightarrow> (c1, Some e)
           | (c1, Inr _) \<Rightarrow> (c1, None)))"

definition StartAll :: "Cluster \<Rightarrow> Cluster \<times> error option" where
  "StartAll c =
     (let c1 = fold (\<lambda>i c. resetElectionDeadlineLocked i
                  (upd_node i (\<lambda>n. n\<lparr>sn_Stage := DomainElecting\<rparr>) c)) (node_ids c) c
      in case elect_domains (Domains (cl_config c)) c1 of
           (c2, Some e) \<Rightarrow> (c2, Some e)
         | (c2, None) \<Rightarrow> elect_best_global c2)"

definition StartNode :: "string \<Rightarrow> Cluster \<Rightarrow> Cluster \<times> error option" where
  "StartNode nodeID c =
     (case fmlookup (cl_nodes c) nodeID of
        None \<Rightarrow> (c, Some (ErrUnknownNode nodeID))
      | Some node \<Rightarrow>
          if IsStopped (cl_network c) nodeID then (c, Some ErrNodeStopped)
          else persist_at nodeID (resetElectionDeadlineLocked nodeID
                 (upd_node nodeID (\<lambda>n. n\<lparr>sn_Stage := DomainElecting, sn_DomainRole := Follower,
                                         sn_GlobalRole := Follower\<rparr>) c)))"

definition RestartNode :: "string \<Rightarrow> Cluster \<Rightarrow> Cluster \<times> error option" where
  "RestartNode nodeID c =
     (case fmlookup (cl_nodes c) nodeID of
        None \<Rightarrow> (c, Some (ErrUnknownNode nodeID))
      | Some node \<Rightarrow>
          (case store_Load (sn_store node) of
             Inl e \<Rightarrow> (c, Some e)
           | Inr state \<Rightarrow>
               (resetElectionDeadlineLocked nodeID
                  ((upd_node nodeID (\<lambda>n. n\<lparr>sn_State := state, sn_Stage := DomainElecting,
                                          sn_DomainRole := Follower, sn_GlobalRole := Follower\<rparr>) c)
                   \<lparr>cl_network := net_Recover (cl_network c) nodeID\<rparr>),
                None)))"

definition StopNode :: "string \<Rightarrow> Cluster \<Rightarrow> Cluster" where
  "StopNode nodeID c = c\<lparr>cl_network := net_Stop (cl_network c) nodeID\<rparr>"

definition cluster_Advance :: "duration \<Rightarrow> Cluster \<Rightarrow> Cluster" where
  "cluster_Advance d c = c\<lparr>cl_clock := clock_Advance (cl_clock c) d\<rparr>"

text \<open>\<open>DetectAndReelect\<close>: one iteration of its loop over the domains, and the whole method.\<close>

definition reelect_domain :: "string \<Rightarrow> Cluster \<Rightarrow> Cluster" where
  "reelect_domain domain c =
     (if (case fmlookup (cl_domainLeaders c) domain of
            None \<Rightarrow> False | Some identity \<Rightarrow> domainIdentityHasQuorumLocked c identity)
      then c
      else case bestAvailableDomainCandidateLocked c domain of
        None \<Rightarrow> c\<lparr>cl_domainLeaders := fmdrop domain (cl_domainLeaders c)\<rparr>
      | Some candidate \<Rightarrow>
          (case electDomainLeaderLocked domain candidate c of
             (c1, Inl _) \<Rightarrow> c1\<lparr>cl_domainLeaders := fmdrop domain (cl_domainLeaders c1)\<rparr>
           | (c1, Inr _) \<Rightarrow> c1))"

definition DetectAndReelect :: "Cluster \<Rightarrow> Cluster \<times> error option" where
  "DetectAndReelect c =
     (let c1 = fold reelect_domain (Domains (cl_config c)) c in
      if globalIdentityHasElectionQuorumLocked c1 (cl_globalLeader c1) then (c1, None)
      else elect_best_global (invalidateGlobalLeaderLocked c1))"

section \<open>The uniqueness check\<close>

definition digit :: "nat \<Rightarrow> char" where
  "digit d = ''0123456789'' ! d"

fun show_nat :: "nat \<Rightarrow> string" where
  "show_nat n = (if n < 10 then [digit n] else show_nat (n div 10) @ [digit (n mod 10)])"

declare show_nat.simps [simp del]

definition term_key :: "string \<Rightarrow> u64 \<Rightarrow> string" where
  "term_key d t = d @ ''/'' @ show_nat (unat t)"

datatype uniqueness_error = TwoDomainLeaders string string string | TwoGlobalLeaders u64 string string

fun check_leaders ::
    "TestNetwork \<Rightarrow> SimNode list \<Rightarrow> string gomap \<Rightarrow> (u64, string) fmap \<Rightarrow> uniqueness_error option" where
  "check_leaders net [] perDomainTerm globalTerms = None"
| "check_leaders net (node # rest) perDomainTerm globalTerms =
     (let up = \<not> IsStopped net (sn_ID node);
          isD = (sn_DomainRole node = Leader \<and> up);
          isG = (sn_GlobalRole node = Leader \<and> up);
          key = term_key (sn_DomainCode node) (ps_DomainTerm (sn_State node));
          t = ps_GlobalTerm (sn_State node);
          dprev = get_or (sn_ID node) perDomainTerm key;
          gprev = get_or (sn_ID node) globalTerms t
      in if isD \<and> dprev \<noteq> sn_ID node then Some (TwoDomainLeaders key dprev (sn_ID node))
         else if isG \<and> gprev \<noteq> sn_ID node then Some (TwoGlobalLeaders t gprev (sn_ID node))
         else check_leaders net rest
                (if isD then fmupd key (sn_ID node) perDomainTerm else perDomainTerm)
                (if isG then fmupd t (sn_ID node) globalTerms else globalTerms))"

definition AssertLeaderUniqueness :: "Cluster \<Rightarrow> uniqueness_error option" where
  "AssertLeaderUniqueness c =
     check_leaders (cl_network c) (map snd (sorted_list_of_fmap (cl_nodes c))) fmempty fmempty"

end
