(* ===== verification/Sim_Data.thy ===== *)
theory Sim_Data
  imports Sim_Model
begin

text \<open>
  \<open>internal/cdraft/sim/data.go\<close>: the data path of the deterministic cluster.  Replication counts
  in-domain acknowledgements, the global leader commits what its own domain and one other domain
  have by majority, and the origin domain's leader may answer early (Fast Return).
\<close>

section \<open>Replication\<close>

definition append_at :: "string \<Rightarrow> LogEntry \<Rightarrow> Cluster \<Rightarrow> Cluster \<times> bool" where
  "append_at i entry c =
     (case fmlookup (cl_nodes c) i of
        None \<Rightarrow> (c, False)
      | Some n \<Rightarrow>
          (case appendEntry (sn_State n) entry of
             (s, ok) \<Rightarrow> if ok then (upd_node i (\<lambda>n. persist (n\<lparr>sn_State := s\<rparr>)) c, True) else (c, False)))"

definition raise_quorum :: "string \<Rightarrow> u64 \<Rightarrow> SimNode \<Rightarrow> SimNode" where
  "raise_quorum domain index n =
     (let m = ps_DomainQuorumIndex (sn_State n) in
      n\<lparr>sn_State := (sn_State n)\<lparr>ps_DomainQuorumIndex := fmupd domain (max (getz m domain) index) m\<rparr>\<rparr>)"

fun replicate_members :: "LogEntry \<Rightarrow> string \<Rightarrow> Node list \<Rightarrow> nat \<Rightarrow> Cluster \<Rightarrow> Cluster \<times> nat" where
  "replicate_members entry leader [] acks c = (c, acks)"
| "replicate_members entry leader (member # rest) acks c =
     (if nd_ID member = leader \<or> \<not> CanSend (cl_network c) leader (nd_ID member) ReplicateEntryMessage
      then replicate_members entry leader rest acks c
      else case append_at (nd_ID member) entry c of
        (c1, ok) \<Rightarrow> replicate_members entry leader rest (if ok then acks + 1 else acks) c1)"

definition mark_quorum :: "string \<Rightarrow> LogEntry \<Rightarrow> Node \<Rightarrow> Cluster \<Rightarrow> Cluster" where
  "mark_quorum domain entry member c =
     (case fmlookup (cl_nodes c) (nd_ID member) of
        None \<Rightarrow> c
      | Some n \<Rightarrow>
          if hasEntry (ps_Log (sn_State n)) (GlobalIndex entry) (RequestID entry)
          then upd_node (nd_ID member) (persist \<circ> raise_quorum domain (GlobalIndex entry)) c else c)"

text \<open>One iteration of \<open>replicateEntryLocked\<close>: the domain's leader, its followers, its quorum mark.\<close>

definition quorum_index :: "Cluster \<Rightarrow> string \<Rightarrow> string \<Rightarrow> u64" where
  "quorum_index c i domain =
     (case fmlookup (cl_nodes c) i of None \<Rightarrow> 0 | Some n \<Rightarrow> getz (ps_DomainQuorumIndex (sn_State n)) domain)"

definition replicate_domain ::
    "LogEntry \<Rightarrow> string \<Rightarrow> string \<Rightarrow> Cluster \<times> bool gomap \<Rightarrow> Cluster \<times> bool gomap" where
  "replicate_domain entry globalID domain cq =
     (case cq of (c, quorums) \<Rightarrow>
       (case fmlookup (cl_domainLeaders c) domain of
          None \<Rightarrow> (c, quorums)
        | Some domainLeader \<Rightarrow>
            if \<not> domainIdentityCurrentLocked c domainLeader \<or>
               (NodeID domainLeader \<noteq> globalID \<and>
                \<not> CanSend (cl_network c) globalID (NodeID domainLeader) ReplicateEntryMessage)
            then (c, quorums)
            else case append_at (NodeID domainLeader) entry c of
              (c1, False) \<Rightarrow> (c1, quorums)
            | (c1, True) \<Rightarrow>
                let members = DomainMembers (cl_config c1) domain in
                (case replicate_members entry (NodeID domainLeader) members 1 c1 of
                   (c2, acks) \<Rightarrow>
                     if acks \<ge> majority (length members) \<and>
                        quorum_index c2 (NodeID domainLeader) domain + 1 \<ge> GlobalIndex entry
                     then (fold (mark_quorum domain entry) members c2, fmupd domain True quorums)
                     else (c2, quorums))))"

definition replicateEntryLocked :: "LogEntry \<Rightarrow> Cluster \<Rightarrow> Cluster \<times> bool gomap" where
  "replicateEntryLocked entry c =
     fold (replicate_domain entry (NodeID (gli_DomainLeader (cl_globalLeader c))))
       (Domains (cl_config c)) (c, fmempty)"

section \<open>Commit\<close>

text \<open>
  The loop \<open>for next := known + 1; next <= target; next++\<close> on one state, stopping at the first
  missing entry.  No log can hold an entry at the largest index, so \<open>next\<close> never wraps and the
  loop ends.
\<close>

function apply_upto :: "u64 \<Rightarrow> u64 \<Rightarrow> PersistentState \<Rightarrow> PersistentState" where
  "apply_upto target next s =
     (if next \<le> target
      then case findEntryByIndex (ps_Log s) next of
             None \<Rightarrow> s
           | Some entry \<Rightarrow> apply_upto target (next + 1) (applyEntry s entry)
      else s)"
  by pat_completeness auto

termination apply_upto
  by (relation "measure (\<lambda>(target, next, s). Suc (unat target) - unat next)") (auto intro: next_measure)

declare apply_upto.simps [simp del]

text \<open>Applying one committed entry everywhere the notice arrives and the entry is held, then at the
  global leader itself.\<close>

definition apply_node :: "LogEntry \<Rightarrow> SimNode \<Rightarrow> SimNode" where
  "apply_node entry n = persist (n\<lparr>sn_State := applyEntry (sn_State n) entry\<rparr>)"

definition notify_commit :: "string \<Rightarrow> LogEntry \<Rightarrow> u64 \<Rightarrow> string \<Rightarrow> Cluster \<Rightarrow> Cluster" where
  "notify_commit globalID entry next i c =
     (case fmlookup (cl_nodes c) i of
        None \<Rightarrow> c
      | Some n \<Rightarrow>
          if CanSend (cl_network c) globalID (sn_ID n) CommitNoticeMessage \<and>
             hasEntry (ps_Log (sn_State n)) next (RequestID entry)
          then upd_node i (apply_node entry) c else c)"

definition commit_entry :: "string \<Rightarrow> LogEntry \<Rightarrow> u64 \<Rightarrow> Cluster \<Rightarrow> Cluster" where
  "commit_entry globalID entry next c =
     upd_node globalID (apply_node entry)
       (fold (notify_commit globalID entry next) (node_ids c) c)"

function advance_loop :: "string \<Rightarrow> u64 \<Rightarrow> u64 \<Rightarrow> Cluster \<Rightarrow> Cluster" where
  "advance_loop globalID target next c =
     (if next \<le> target
      then case fmlookup (cl_nodes c) globalID of
             None \<Rightarrow> c
           | Some global \<Rightarrow>
               (case findEntryByIndex (ps_Log (sn_State global)) next of
                  None \<Rightarrow> c
                | Some entry \<Rightarrow>
                    advance_loop globalID target (next + 1) (commit_entry globalID entry next c))
      else c)"
  by pat_completeness auto

termination advance_loop
  by (relation "measure (\<lambda>(g, target, next, c). Suc (unat target) - unat next)") (auto intro: next_measure)

declare advance_loop.simps [simp del]

text \<open>\<open>otherQuorum\<close>: the best quorum mark of a domain other than the global leader's.\<close>

definition otherQuorum :: "u64 gomap \<Rightarrow> string \<Rightarrow> u64" where
  "otherQuorum m globalDomain =
     fold (\<lambda>(domain, index) best. if domain \<noteq> globalDomain then max best index else best)
       (sorted_list_of_fmap m) 0"

definition commit_target :: "u64 gomap \<Rightarrow> string \<Rightarrow> u64" where
  "commit_target m globalDomain = min (getz m globalDomain) (otherQuorum m globalDomain)"

definition advanceGlobalCommitLocked :: "Cluster \<Rightarrow> Cluster" where
  "advanceGlobalCommitLocked c =
     (if \<not> globalIdentityCurrentLocked c (cl_globalLeader c) then c
      else let leader = gli_DomainLeader (cl_globalLeader c) in
        case fmlookup (cl_nodes c) (NodeID leader) of
          None \<Rightarrow> c
        | Some global \<Rightarrow>
            advance_loop (NodeID leader)
              (commit_target (ps_DomainQuorumIndex (sn_State global)) (DomainID leader))
              (ps_KnownGlobalCommitIndex (sn_State global) + 1) c)"

definition applyCommitToDomainLocked :: "string \<Rightarrow> u64 \<Rightarrow> Cluster \<Rightarrow> Cluster" where
  "applyCommitToDomainLocked domain target c =
     fold (\<lambda>configured. upd_node (nd_ID configured)
             (\<lambda>n. persist (n\<lparr>sn_State := apply_upto target
                 (ps_KnownGlobalCommitIndex (sn_State n) + 1) (sn_State n)\<rparr>)))
       (DomainMembers (cl_config c) domain) c"

definition reconcile_ack :: "string \<Rightarrow> string \<Rightarrow> string \<times> DomainLeaderIdentity \<Rightarrow> Cluster \<Rightarrow> Cluster" where
  "reconcile_ack globalID globalDomain entry c =
     (case entry of (domain, identity) \<Rightarrow>
        if \<not> domainIdentityCurrentLocked c identity then c
        else if domain = globalDomain \<or>
                CanSend (cl_network c) (NodeID identity) globalID DomainQuorumAckMessage
        then upd_node globalID (raise_quorum domain (quorum_index c (NodeID identity) domain)) c
        else c)"

definition reconcileAcksLocked :: "Cluster \<Rightarrow> Cluster" where
  "reconcileAcksLocked c =
     (if \<not> globalIdentityCurrentLocked c (cl_globalLeader c) then c
      else let leader = gli_DomainLeader (cl_globalLeader c) in
           upd_node (NodeID leader) persist
             (fold (reconcile_ack (NodeID leader) (DomainID leader))
                (sorted_list_of_fmap (cl_domainLeaders c)) c))"

definition Reconcile :: "Cluster \<Rightarrow> Cluster" where
  "Reconcile c = advanceGlobalCommitLocked (reconcileAcksLocked c)"

section \<open>Fast Return\<close>

definition fastReturnContiguousLocked :: "Cluster \<Rightarrow> string \<Rightarrow> u64 \<Rightarrow> bool" where
  "fastReturnContiguousLocked c originLeaderID index \<longleftrightarrow>
     (case fmlookup (cl_nodes c) originLeaderID of
        None \<Rightarrow> False
      | Some leader \<Rightarrow> ps_KnownGlobalCommitIndex (sn_State leader) + 1 \<ge> index)"

definition FastReturnEligible :: "Cluster \<Rightarrow> string \<Rightarrow> string \<Rightarrow> bool" where
  "FastReturnEligible c requestID originDomain \<longleftrightarrow>
     ft_FastReturnEnabled (cfg_Features (cl_config c)) \<and>
     globalIdentityCurrentLocked c (cl_globalLeader c) \<and>
     (let leader = gli_DomainLeader (cl_globalLeader c) in
      case fmlookup (cl_nodes c) (NodeID leader) of
        None \<Rightarrow> False
      | Some global \<Rightarrow>
          (case findEntryByRequest (ps_Log (sn_State global)) requestID of
             None \<Rightarrow> False
           | Some entry \<Rightarrow>
               (case fmlookup (cl_domainLeaders c) originDomain of
                  None \<Rightarrow> False
                | Some originLeader \<Rightarrow>
                    domainIdentityCurrentLocked c originLeader \<and>
                    getz (ps_DomainQuorumIndex (sn_State global)) (DomainID leader) \<ge> GlobalIndex entry \<and>
                    quorum_index c (NodeID originLeader) originDomain \<ge> GlobalIndex entry \<and>
                    fastReturnContiguousLocked c (NodeID originLeader) (GlobalIndex entry) \<and>
                    CanSend (cl_network c) (sn_ID global) (NodeID originLeader) GlobalDomainQuorumAckMessage)))"

section \<open>Write\<close>

definition write_failed :: "error \<Rightarrow> error \<Rightarrow> WriteOutcome" where
  "write_failed n f = \<lparr>wo_Normal = None, wo_NormalErr = Some n, wo_Fast = None, wo_FastErr = Some f\<rparr>"

definition new_entry :: "Cluster \<Rightarrow> PersistentState \<Rightarrow> ClientWriteRequest \<Rightarrow> LogEntry" where
  "new_entry c s request =
     \<lparr>GlobalTerm = gli_GlobalTerm (cl_globalLeader c), GlobalIndex = LastGlobalIndex (Summary s) + 1,
      RequestID = cwr_RequestID request, OriginDomain = cwr_OriginDomain request,
      Cmd = cwr_Command request, Result = commandResult (cwr_Command request)\<rparr>"

text \<open>The acknowledgements that reach the global leader after a replication.\<close>

definition collect_acks :: "string \<Rightarrow> string \<Rightarrow> LogEntry \<Rightarrow> bool gomap \<Rightarrow> Cluster \<Rightarrow> Cluster" where
  "collect_acks nodeID globalDomain entry quorums c =
     (let mark = (\<lambda>domain. upd_node nodeID (persist \<circ> raise_quorum domain (GlobalIndex entry)));
          c1 = (if get_or False quorums globalDomain then mark globalDomain c else c)
      in fold (\<lambda>(domain, ready) c.
             if \<not> ready \<or> domain = globalDomain then c
             else if CanSend (cl_network c) (NodeID (get_or no_dli (cl_domainLeaders c) domain)) nodeID
                       DomainQuorumAckMessage
             then mark domain c else c)
           (sorted_list_of_fmap quorums) c1)"

definition fast_result :: "ClientWriteRequest \<Rightarrow> LogEntry \<Rightarrow> ClientResult" where
  "fast_result request entry =
     \<lparr>cr_RequestID = cwr_RequestID request, cr_GlobalTerm = GlobalTerm entry,
      cr_GlobalIndex = GlobalIndex entry, cr_Result = Result entry, cr_Source = FastResponse,
      cr_Committed = True, cr_ResponderDomain = []\<rparr>"

definition fast_return ::
    "string \<Rightarrow> ClientWriteRequest \<Rightarrow> LogEntry \<Rightarrow> bool gomap \<Rightarrow> Cluster \<Rightarrow> Cluster \<times> ClientResult option" where
  "fast_return nodeID request entry quorums c =
     (let globalDomain = DomainID (gli_DomainLeader (cl_globalLeader c)) in
      if ft_FastReturnEnabled (cfg_Features (cl_config c)) \<and> cwr_ReplyRoute request \<noteq> [] \<and>
         get_or False quorums globalDomain \<and> get_or False quorums (cwr_OriginDomain request)
      then case fmlookup (cl_domainLeaders c) (cwr_OriginDomain request) of
             None \<Rightarrow> (c, None)
           | Some originLeader \<Rightarrow>
               if domainIdentityCurrentLocked c originLeader \<and>
                  CanSend (cl_network c) nodeID (NodeID originLeader) GlobalDomainQuorumAckMessage \<and>
                  fastReturnContiguousLocked c (NodeID originLeader) (GlobalIndex entry)
               then (applyCommitToDomainLocked (cwr_OriginDomain request) (GlobalIndex entry) c,
                     Some (fast_result request entry))
               else (c, None)
      else (c, None))"

text \<open>Replication, acknowledgements, Fast Return and commit of an entry that is in the leader's log.\<close>

definition node_result :: "Cluster \<Rightarrow> string \<Rightarrow> string \<Rightarrow> ClientResult option" where
  "node_result c nodeID requestID =
     (case fmlookup (cl_nodes c) nodeID of
        None \<Rightarrow> None | Some n \<Rightarrow> fmlookup (ps_Results (sn_State n)) requestID)"

definition write_entry ::
    "string \<Rightarrow> ClientWriteRequest \<Rightarrow> LogEntry \<Rightarrow> Cluster \<Rightarrow> Cluster \<times> WriteOutcome" where
  "write_entry nodeID request entry c =
     (case replicateEntryLocked entry c of
        (c1, quorums) \<Rightarrow>
          let globalDomain = DomainID (gli_DomainLeader (cl_globalLeader c1));
              c2 = collect_acks nodeID globalDomain entry quorums c1
          in case fast_return nodeID request entry quorums c2 of
               (c3, fast) \<Rightarrow>
                 let c4 = advanceGlobalCommitLocked c3;
                     normal = map_option (\<lambda>r. r\<lparr>cr_Source := GlobalResponse\<rparr>)
                                (node_result c4 nodeID (cwr_RequestID request))
                 in (c4, \<lparr>wo_Normal = normal,
                          wo_NormalErr = (if normal = None then Some ErrNoCommit else None),
                          wo_Fast = fast,
                          wo_FastErr = (if fast = None then Some ErrInvalidResult else None)\<rparr>))"

text \<open>The request is in the log or in the results with another command or origin.\<close>

definition entry_matches :: "LogEntry \<Rightarrow> ClientWriteRequest \<Rightarrow> bool" where
  "entry_matches entry request \<longleftrightarrow>
     Cmd entry = cwr_Command request \<and> OriginDomain entry = cwr_OriginDomain request"

definition Write :: "string \<Rightarrow> ClientWriteRequest \<Rightarrow> Cluster \<Rightarrow> Cluster \<times> WriteOutcome" where
  "Write nodeID request c =
     (case fmlookup (cl_nodes c) nodeID of
        None \<Rightarrow> (c, write_failed ErrNodeStopped ErrNodeStopped)
      | Some node \<Rightarrow>
          if IsStopped (cl_network c) nodeID then (c, write_failed ErrNodeStopped ErrNodeStopped)
          else if sn_Stage node \<noteq> Serving then (c, write_failed ErrNotServing ErrNotServing)
          else if \<not> globalIdentityCurrentLocked c (cl_globalLeader c) \<or>
                  NodeID (gli_DomainLeader (cl_globalLeader c)) \<noteq> nodeID
          then (c, write_failed ErrNotGlobalLeader ErrNotGlobalLeader)
          else if cwr_RequestID request = [] \<or> Key (cwr_Command request) = []
          then (c, write_failed ErrInvalidWriteRequest ErrInvalidWriteRequest)
          else let s = sn_State node in
            case fmlookup (ps_Results s) (cwr_RequestID request) of
              Some final \<Rightarrow>
                if (case findEntryByRequest (ps_Log s) (cwr_RequestID request) of
                      Some entry \<Rightarrow> \<not> entry_matches entry request
                    | None \<Rightarrow> cr_GlobalIndex final > ps_SnapshotLastIndex s \<or>
                        cr_Result final \<noteq> commandResult (cwr_Command request))
                then (c, write_failed ErrRequestReused ErrInvalidResult)
                else (c, \<lparr>wo_Normal = Some (final\<lparr>cr_Source := GlobalResponse\<rparr>), wo_NormalErr = None,
                          wo_Fast = None, wo_FastErr = Some ErrInvalidResult\<rparr>)
            | None \<Rightarrow>
                (case findEntryByRequest (ps_Log s) (cwr_RequestID request) of
                   Some entry \<Rightarrow>
                     if \<not> entry_matches entry request then (c, write_failed ErrRequestReused ErrInvalidResult)
                     else write_entry nodeID request entry c
                 | None \<Rightarrow>
                     let entry = new_entry c s request in
                     write_entry nodeID request entry
                       (upd_node nodeID (\<lambda>n. persist (n\<lparr>sn_State := s\<lparr>ps_Log := ps_Log s @ [entry]\<rparr>\<rparr>)) c)))"

section \<open>Read\<close>

definition Read :: "string \<Rightarrow> string \<Rightarrow> Cluster \<Rightarrow> Cluster \<times> (error + string)" where
  "Read nodeID key c =
     (case fmlookup (cl_nodes c) nodeID of
        None \<Rightarrow> (c, Inl ErrNodeStopped)
      | Some node \<Rightarrow>
          if IsStopped (cl_network c) nodeID then (c, Inl ErrNodeStopped)
          else if sn_Stage node \<noteq> Serving then (c, Inl ErrNotServing)
          else if \<not> globalIdentityCurrentLocked c (cl_globalLeader c) \<or>
                  NodeID (gli_DomainLeader (cl_globalLeader c)) \<noteq> nodeID
          then (c, Inl ErrNotGlobalLeader)
          else let c1 = Reconcile c in
            case fmlookup (cl_nodes c1) nodeID of
              None \<Rightarrow> (c1, Inl ErrReadBarrier)
            | Some node1 \<Rightarrow>
                let s = sn_State node1;
                    barrier = getz (ps_DomainQuorumIndex s) (DomainID (gli_DomainLeader (cl_globalLeader c1)))
                in if ps_KnownGlobalCommitIndex s < barrier \<or> ps_AppliedIndex s < barrier
                   then (c1, Inl ErrReadBarrier)
                   else (c1, Inr (get_or [] (ps_StateMachine s) key)))"

section \<open>Compaction and snapshots\<close>

text \<open>\<open>None\<close> is the slice panic of \<open>CompactLog\<close>.\<close>

definition Compact :: "string \<Rightarrow> u64 \<Rightarrow> Cluster \<Rightarrow> (Cluster \<times> bool \<times> error option) option" where
  "Compact nodeID retain c =
     (case fmlookup (cl_nodes c) nodeID of
        None \<Rightarrow> Some (c, False, Some (ErrUnknownNode nodeID))
      | Some node \<Rightarrow>
          if ps_AppliedIndex (sn_State node) \<le> retain then Some (c, False, None)
          else case compactLog (sn_State node) (ps_AppliedIndex (sn_State node) - retain) of
            None \<Rightarrow> None
          | Some (s, False) \<Rightarrow> Some (c, False, None)
          | Some (s, True) \<Rightarrow>
              (case persist_at nodeID (upd_node nodeID (\<lambda>n. n\<lparr>sn_State := s\<rparr>) c) of
                 (c1, e) \<Rightarrow> Some (c1, True, e)))"

text \<open>The term and request of the last applied entry, from the log or the snapshot boundary.\<close>

definition applied_boundary :: "PersistentState \<Rightarrow> (u64 \<times> string) option" where
  "applied_boundary s =
     (case findEntryByIndex (ps_Log s) (ps_AppliedIndex s) of
        Some entry \<Rightarrow> Some (GlobalTerm entry, RequestID entry)
      | None \<Rightarrow>
          if ps_AppliedIndex s = ps_SnapshotLastIndex s
          then Some (ps_SnapshotLastTerm s, ps_SnapshotLastRequestID s) else None)"

definition install_at :: "string \<Rightarrow> PersistentState \<Rightarrow> u64 \<Rightarrow> string \<Rightarrow> Cluster \<Rightarrow> Cluster \<times> bool" where
  "install_at i g lastTerm lastRequestID c =
     (case fmlookup (cl_nodes c) i of
        None \<Rightarrow> (c, False)
      | Some n \<Rightarrow>
          (case installSnapshotState (sn_State n) (ps_AppliedIndex g) lastTerm lastRequestID
                  (ps_StateMachine g) (ps_Results g) of
             (s, ok) \<Rightarrow> if ok then (upd_node i (\<lambda>n. persist (n\<lparr>sn_State := s\<rparr>)) c, True) else (c, False)))"

fun install_members ::
    "PersistentState \<Rightarrow> u64 \<Rightarrow> string \<Rightarrow> string \<Rightarrow> Node list \<Rightarrow> nat \<Rightarrow> Cluster \<Rightarrow> Cluster \<times> nat" where
  "install_members g lastTerm lastRequestID leader [] acks c = (c, acks)"
| "install_members g lastTerm lastRequestID leader (member # rest) acks c =
     (if nd_ID member = leader \<or> \<not> CanSend (cl_network c) leader (nd_ID member) ReplicateEntryMessage
      then install_members g lastTerm lastRequestID leader rest acks c
      else case install_at (nd_ID member) g lastTerm lastRequestID c of
        (c1, ok) \<Rightarrow> install_members g lastTerm lastRequestID leader rest (if ok then acks + 1 else acks) c1)"

definition mark_installed :: "string \<Rightarrow> u64 \<Rightarrow> Node \<Rightarrow> Cluster \<Rightarrow> Cluster" where
  "mark_installed domain lastIndex member c =
     (case fmlookup (cl_nodes c) (nd_ID member) of
        None \<Rightarrow> c
      | Some n \<Rightarrow>
          if ps_AppliedIndex (sn_State n) \<ge> lastIndex
          then upd_node (nd_ID member) (persist \<circ> raise_quorum domain lastIndex) c else c)"

definition InstallSnapshotFromGlobal :: "string \<Rightarrow> Cluster \<Rightarrow> Cluster \<times> bool \<times> error option" where
  "InstallSnapshotFromGlobal targetDomain c =
     (if \<not> globalIdentityCurrentLocked c (cl_globalLeader c) then (c, False, Some ErrNotGlobalLeader)
      else let globalID = NodeID (gli_DomainLeader (cl_globalLeader c)) in
        case fmlookup (cl_nodes c) globalID of
          None \<Rightarrow> (c, False, Some ErrNotGlobalLeader)
        | Some global \<Rightarrow>
          (case fmlookup (cl_domainLeaders c) targetDomain of
             None \<Rightarrow> (c, False, Some ErrNotDomainLeader)
           | Some leaderIdentity \<Rightarrow>
               if \<not> domainIdentityCurrentLocked c leaderIdentity then (c, False, Some ErrNotDomainLeader)
               else if \<not> CanSend (cl_network c) globalID (NodeID leaderIdentity) ReplicateEntryMessage
               then (c, False, Some ErrNodeStopped)
               else let g = sn_State global; lastIndex = ps_AppliedIndex g in
                 if lastIndex = 0 then (c, False, None)
                 else case applied_boundary g of
                   None \<Rightarrow> (c, False, Some (ErrBoundaryUnknown lastIndex))
                 | Some (lastTerm, lastRequestID) \<Rightarrow>
                     (case install_at (NodeID leaderIdentity) g lastTerm lastRequestID c of
                        (c1, False) \<Rightarrow> (c1, False, None)
                      | (c1, True) \<Rightarrow>
                          let members = DomainMembers (cl_config c1) targetDomain in
                          (case install_members g lastTerm lastRequestID (NodeID leaderIdentity) members 1 c1 of
                             (c2, acks) \<Rightarrow>
                               if acks < majority (length members) then (c2, False, None)
                               else (fold (mark_installed targetDomain lastIndex) members c2, True, None)))))"

section \<open>The commit check\<close>

datatype commit_error = AppliedBeyondKnown string | KnownBeyondQuorum string

definition check_commit :: "string \<Rightarrow> SimNode \<Rightarrow> commit_error option" where
  "check_commit globalDomain node =
     (let s = sn_State node in
      if ps_AppliedIndex s > ps_KnownGlobalCommitIndex s then Some (AppliedBeyondKnown (sn_ID node))
      else if ps_KnownGlobalCommitIndex s > getz (ps_DomainQuorumIndex s) globalDomain \<and>
              sn_DomainCode node = globalDomain
      then Some (KnownBeyondQuorum (sn_ID node))
      else None)"

fun first_error :: "('a \<Rightarrow> 'e option) \<Rightarrow> 'a list \<Rightarrow> 'e option" where
  "first_error f [] = None"
| "first_error f (x # xs) = (case f x of None \<Rightarrow> first_error f xs | Some e \<Rightarrow> Some e)"

definition AssertCommitInvariants :: "Cluster \<Rightarrow> commit_error option" where
  "AssertCommitInvariants c =
     (if \<not> globalIdentityCurrentLocked c (cl_globalLeader c) then None
      else first_error (check_commit (DomainID (gli_DomainLeader (cl_globalLeader c))))
             (map snd (sorted_list_of_fmap (cl_nodes c))))"

end
