(* ===== verification/Sim_Steps.thy ===== *)
theory Sim_Steps
  imports Sim_Data
begin

text \<open>
  What one operation of the simulated cluster does to its nodes.  The interface \<open>node_step\<close> lists
  the node-level transitions the cluster composes; a relation that is reflexive, transitive and
  closed under them relates every node before and after every cluster operation (the operations
  are walked once, here).  It is interpreted for well-formed logs, for durability and for the
  votes of both election layers.
\<close>

abbreviation look :: "Cluster \<Rightarrow> string \<Rightarrow> SimNode option" where
  "look c i \<equiv> fmlookup (cl_nodes c) i"

section \<open>Frame lemmas\<close>

lemma look_upd [simp]:
  "look (upd_node i f c) j = (if j = i then map_option f (look c j) else look c j)"
  by (simp add: upd_node_def split: option.splits)

lemma upd_node_frame [simp]:
  "cl_config (upd_node i f c) = cl_config c"
  "cl_network (upd_node i f c) = cl_network c"
  "cl_clock (upd_node i f c) = cl_clock c"
  "cl_domainLeaders (upd_node i f c) = cl_domainLeaders c"
  "cl_globalLeader (upd_node i f c) = cl_globalLeader c"
  by (simp_all add: upd_node_def split: option.splits)

definition reset_to :: "Cluster \<Rightarrow> time" where
  "reset_to c = clock_Now (cl_clock c) + (150 + int (cl_rng c (cl_draws c)) mod 151) * millisecond"

lemma reset_frame [simp]:
  "cl_config (resetElectionDeadlineLocked i c) = cl_config c"
  "cl_network (resetElectionDeadlineLocked i c) = cl_network c"
  "cl_clock (resetElectionDeadlineLocked i c) = cl_clock c"
  "cl_domainLeaders (resetElectionDeadlineLocked i c) = cl_domainLeaders c"
  "cl_globalLeader (resetElectionDeadlineLocked i c) = cl_globalLeader c"
  by (simp_all add: resetElectionDeadlineLocked_def Let_def)

lemma look_reset [simp]:
  "look (resetElectionDeadlineLocked i c) j =
     (if j = i then map_option (\<lambda>n. n\<lparr>sn_ElectionDeadline := reset_to c\<rparr>) (look c j) else look c j)"
  by (simp add: resetElectionDeadlineLocked_def Let_def reset_to_def)

lemma persist_at_eq: "fst (persist_at i c) = upd_node i persist c"
  by (simp add: persist_at_def upd_node_def persist_def split: option.splits prod.splits)

lemma persist_frame [simp]:
  "sn_ID (persist n) = sn_ID n" "sn_DomainCode (persist n) = sn_DomainCode n"
  "sn_Stage (persist n) = sn_Stage n" "sn_DomainRole (persist n) = sn_DomainRole n"
  "sn_GlobalRole (persist n) = sn_GlobalRole n" "sn_State (persist n) = sn_State n"
  by (simp_all add: persist_def persistLocked_def split: prod.splits)

lemma set_node_ids [simp]: "i \<in> set (node_ids c) \<longleftrightarrow> look c i \<noteq> None"
proof -
  have "i \<in> set (node_ids c) \<longleftrightarrow> (\<exists>n. (i, n) \<in> set (sorted_list_of_fmap (cl_nodes c)))"
    by (force simp: node_ids_def)
  then show ?thesis by (simp add: in_sorted_list_of_fmap)
qed

lemma look_fold_upd:
  "distinct ids \<Longrightarrow> look (fold (\<lambda>i. upd_node i f) ids c) j =
     (if j \<in> set ids then map_option f (look c j) else look c j)"
  by (induction ids arbitrary: c) auto

lemma distinct_node_ids [simp]: "distinct (node_ids c)"
  by (simp add: node_ids_def)

lemma look_invalidate [simp]: "look (invalidateGlobalLeaderLocked c) i = map_option revoke (look c i)"
  by (cases "look c i") (simp_all add: invalidateGlobalLeaderLocked_def look_fold_upd)

lemma fold_upd_frame:
  assumes "\<And>x c. g (f x c) = g c"
  shows "g (fold f xs c) = g c"
  using assms by (rule fold_eq)

lemma invalidate_frame [simp]:
  "cl_config (invalidateGlobalLeaderLocked c) = cl_config c"
  "cl_network (invalidateGlobalLeaderLocked c) = cl_network c"
  "cl_domainLeaders (invalidateGlobalLeaderLocked c) = cl_domainLeaders c"
  "cl_globalLeader (invalidateGlobalLeaderLocked c) = no_gli"
  by (simp_all add: invalidateGlobalLeaderLocked_def fold_upd_frame [where g = cl_config]
      fold_upd_frame [where g = cl_network] fold_upd_frame [where g = cl_domainLeaders]
      fold_upd_frame [where g = cl_globalLeader])

section \<open>Relations on nodes, lifted to clusters\<close>

definition nodes_rel :: "(SimNode \<Rightarrow> SimNode \<Rightarrow> bool) \<Rightarrow> Cluster \<Rightarrow> Cluster \<Rightarrow> bool" where
  "nodes_rel R c c' \<longleftrightarrow> cfg_Nodes (cl_config c') = cfg_Nodes (cl_config c) \<and>
     (\<forall>i. rel_option R (look c i) (look c' i))"

lemma nodes_rel_look:
  "nodes_rel R c c' \<Longrightarrow> look c' i = Some n' \<Longrightarrow> \<exists>n. look c i = Some n \<and> R n n'"
  unfolding nodes_rel_def by (metis option_rel_Some2)

lemma nodes_rel_look_fwd:
  "nodes_rel R c c' \<Longrightarrow> look c i = Some n \<Longrightarrow> \<exists>n'. look c' i = Some n' \<and> R n n'"
  unfolding nodes_rel_def by (metis option_rel_Some1)

text \<open>What a data-path operation may do to the persistent state of a node: it keeps the election
  fields and the well-formedness of the log.\<close>

definition same_election :: "PersistentState \<Rightarrow> PersistentState \<Rightarrow> bool" where
  "same_election s s' \<longleftrightarrow>
     ps_DomainTerm s' = ps_DomainTerm s \<and> ps_DomainVotedFor s' = ps_DomainVotedFor s \<and>
     ps_DomainLeader s' = ps_DomainLeader s \<and> ps_GlobalTerm s' = ps_GlobalTerm s \<and>
     ps_GlobalVotedFor s' = ps_GlobalVotedFor s \<and> ps_GlobalLeader s' = ps_GlobalLeader s"

definition data_le :: "PersistentState \<Rightarrow> PersistentState \<Rightarrow> bool" where
  "data_le s s' \<longleftrightarrow> same_election s s' \<and> (wf_state s \<longrightarrow> wf_state s')"

lemma data_le_refl [simp]: "data_le s s"
  by (simp add: data_le_def same_election_def)

lemma data_le_trans: "data_le s t \<Longrightarrow> data_le t u \<Longrightarrow> data_le s u"
  by (simp add: data_le_def same_election_def)

lemma same_election_simps:
  "same_election s (s\<lparr>ps_Log := l\<rparr>)" "same_election s (s\<lparr>ps_DomainQuorumIndex := q\<rparr>)"
  by (simp_all add: same_election_def)

lemma data_le_append: "GlobalIndex e \<noteq> max_u64 \<Longrightarrow> data_le s (fst (appendEntry s e))"
  using appendEntry_wf [of s e]
  by (auto simp: data_le_def same_election_def appendEntry_def split: option.splits)

lemma data_le_raise: "data_le s (s\<lparr>ps_DomainQuorumIndex := q\<rparr>)"
  by (auto simp: data_le_def same_election_def wf_state_def)

lemma data_le_apply:
  assumes "findEntryByIndex (ps_Log s) (GlobalIndex e) \<noteq> None"
  shows "data_le s (applyEntry s e)"
proof -
  have "wf_state (applyEntry s e)" if "wf_state s"
  proof -
    have "GlobalIndex e \<le> LastLogIndex s" "GlobalIndex e \<noteq> 0"
      using assms that by (auto simp: wf_find split: if_splits)
    then show ?thesis using applyEntry_wf that by blast
  qed
  then show ?thesis by (simp add: data_le_def same_election_def frame_simps)
qed

lemma data_le_compact: "compactLog s i = Some (s', ok) \<Longrightarrow> data_le s s'"
  using compactLog_spec [of s i]
  by (auto simp: data_le_def same_election_def compactLog_def Let_def split: if_splits option.splits)

lemma data_le_install: "i \<noteq> max_u64 \<Longrightarrow> data_le s (fst (installSnapshotState s i t r sm res))"
  using installSnapshotState_wf [of s i t r sm res]
  by (auto simp: data_le_def same_election_def installSnapshotState_def rollbackQuorumAbove_def Let_def)

lemma data_le_new_entry:
  assumes "GlobalIndex e = LastGlobalIndex (Summary s) + 1" "GlobalIndex e \<noteq> max_u64"
  shows "data_le s (s\<lparr>ps_Log := ps_Log s @ [e]\<rparr>)"
  using new_entry_wf [OF _ assms] by (simp add: data_le_def same_election_def)

section \<open>The phases of an election\<close>

text \<open>The cluster once a candidate has started its campaign and saved its vote.\<close>

definition domain_campaigned :: "string \<Rightarrow> SimNode \<Rightarrow> Cluster \<Rightarrow> Cluster" where
  "domain_campaigned i n c =
     upd_node i persist (resetElectionDeadlineLocked i (upd_node i (\<lambda>_. start_domain_campaign n) c))"

definition domain_request :: "SimNode \<Rightarrow> DomainVoteRequest" where
  "domain_request n =
     \<lparr>dvr_DomainID = sn_DomainCode n, dvr_Candidate = sn_ID n,
      dvr_DomainTerm = ps_DomainTerm (sn_State (start_domain_campaign n)),
      dvr_Log = Summary (sn_State (start_domain_campaign n))\<rparr>"

definition term_of :: "Cluster \<Rightarrow> string \<Rightarrow> u64" where
  "term_of c i = (case look c i of None \<Rightarrow> 0 | Some n \<Rightarrow> ps_DomainTerm (sn_State n))"

definition gterm_of :: "Cluster \<Rightarrow> string \<Rightarrow> u64" where
  "gterm_of c i = (case look c i of None \<Rightarrow> 0 | Some n \<Rightarrow> ps_GlobalTerm (sn_State n))"

lemma electDomain_cases:
  assumes "electDomainLeaderLocked d i c = (c', out)"
  obtains (refused) e where "c' = c" "out = Inl e"
  | (unsaved) n e where "look c i = Some n" "c' = domain_campaigned i n c" "out = Inl e"
  | (lost) n e r where "look c i = Some n" "sn_DomainCode n = d"
      "domain_votes i (domain_request n) (DomainMembers (cl_config c) d) 1 (domain_campaigned i n c) = (c', r)"
      "out = Inl e"
  | (won) n c3 v identity where "look c i = Some n" "sn_DomainCode n = d" "sn_Stage n \<noteq> Booting"
      "\<not> IsStopped (cl_network c) i"
      "domain_votes i (domain_request n) (DomainMembers (cl_config c) d) 1 (domain_campaigned i n c) = (c3, Inr v)"
      "majority (length (DomainMembers (cl_config c) d)) \<le> v"
      "identity = \<lparr>DomainID = d, NodeID = i, DomainTerm = term_of c3 i\<rparr>"
      "c' = install_domain_leader identity c3" "out = Inr identity"
proof -
  have saved: "fst (persist_at i (resetElectionDeadlineLocked i (upd_node i (\<lambda>_. start_domain_campaign n) c)))
      = domain_campaigned i n c" for n
    by (simp add: persist_at_eq domain_campaigned_def)
  show thesis
  proof (cases "\<exists>e. c' = c \<and> out = Inl e")
    case True
    then show thesis using refused by blast
  next
    case False
    then obtain n where n: "look c i = Some n" "sn_DomainCode n = d" "\<not> IsStopped (cl_network c) i"
        "sn_Stage n \<noteq> Booting"
      using assms by (auto simp: electDomainLeaderLocked_def split: option.splits if_splits)
    obtain c2 r where p: "persist_at i (resetElectionDeadlineLocked i
        (upd_node i (\<lambda>_. start_domain_campaign n) c)) = (c2, r)" by fastforce
    then have c2: "c2 = domain_campaigned i n c" using saved [of n] by simp
    obtain c3 q where v: "domain_votes i (domain_request n) (DomainMembers (cl_config c) d) 1 c2 = (c3, q)"
      by fastforce
    have v': "domain_votes i \<lparr>dvr_DomainID = d, dvr_Candidate = sn_ID n,
         dvr_DomainTerm = ps_DomainTerm (sn_State (start_domain_campaign n)),
         dvr_Log = Summary (sn_State (start_domain_campaign n))\<rparr>
       (DomainMembers (cl_config c) d) 1 c2 = (c3, q)"
      using v n(2) by (simp add: domain_request_def)
    note unfolded = assms [unfolded electDomainLeaderLocked_def Let_def]
    show thesis
    proof (cases r)
      case (Some e)
      then show thesis using unfolded n p c2 unsaved by auto
    next
      case None
      then show thesis using unfolded n p c2 v v' lost won
        by (auto simp: term_of_def split: sum.splits if_splits)
    qed
  qed
qed

definition global_campaigned :: "string \<Rightarrow> DomainLeaderIdentity \<Rightarrow> SimNode \<Rightarrow> Cluster \<Rightarrow> Cluster" where
  "global_campaigned i identity n c =
     (let c1 = upd_node i (\<lambda>_. start_global_campaign identity n) c;
          c2 = (if gli_Valid (cl_globalLeader c) \<and>
                   ps_GlobalTerm (sn_State (start_global_campaign identity n)) > gli_GlobalTerm (cl_globalLeader c)
                then invalidateGlobalLeaderLocked c1 else c1)
      in upd_node i persist c2)"

definition global_request :: "DomainLeaderIdentity \<Rightarrow> SimNode \<Rightarrow> GlobalVoteRequest" where
  "global_request identity n =
     \<lparr>gvr_Candidate = identity,
      gvr_GlobalTerm = ps_GlobalTerm (sn_State (start_global_campaign identity n)),
      gvr_Log = Summary (sn_State (start_global_campaign identity n))\<rparr>"

lemma electGlobal_cases:
  assumes "electGlobalLeaderLocked i c = (c', out)"
  obtains (refused) e where "c' = c" "out = Inl e"
  | (unsaved) n did e where "look c i = Some n" "c' = global_campaigned i did n c" "out = Inl e"
  | (lost) n did e r where "look c i = Some n"
      "global_votes i (global_request did n) (Domains (cl_config c)) 1 (global_campaigned i did n c) = (c', r)"
      "out = Inl e"
  | (won) n did c4 v identity where "look c i = Some n" "sn_Stage n \<noteq> Booting"
      "fmlookup (cl_domainLeaders c) (sn_DomainCode n) = Some did" "NodeID did = i"
      "domainIdentityCurrentLocked c did"
      "global_votes i (global_request did n) (Domains (cl_config c)) 1 (global_campaigned i did n c) = (c4, Inr v)"
      "globalElectionThreshold (length (Domains (cl_config c))) \<le> v"
      "identity = \<lparr>gli_DomainLeader = did, gli_GlobalTerm = gterm_of c4 i\<rparr>"
      "c' = install_global_leader identity c4" "out = Inr identity"
proof (cases "\<exists>e. c' = c \<and> out = Inl e")
  case True
  then show thesis using refused by blast
next
  case False
  then obtain n did where n: "look c i = Some n" "\<not> IsStopped (cl_network c) i" "sn_Stage n \<noteq> Booting"
      "fmlookup (cl_domainLeaders c) (sn_DomainCode n) = Some did" "NodeID did = i"
      "domainIdentityCurrentLocked c did"
    using assms by (auto simp: electGlobalLeaderLocked_def split: option.splits if_splits)
  define c2 where "c2 = (let c1 = upd_node i (\<lambda>_. start_global_campaign did n) c in
      if gli_Valid (cl_globalLeader c1) \<and>
         ps_GlobalTerm (sn_State (start_global_campaign did n)) > gli_GlobalTerm (cl_globalLeader c1)
      then invalidateGlobalLeaderLocked c1 else c1)"
  obtain c3 r where p: "persist_at i c2 = (c3, r)" by fastforce
  then have c3: "c3 = global_campaigned i did n c"
    using persist_at_eq [of i c2] by (simp add: c2_def global_campaigned_def Let_def)
  obtain c4 q where v: "global_votes i (global_request did n) (Domains (cl_config c)) 1 c3 = (c4, q)"
    by fastforce
  note unfolded = assms [unfolded electGlobalLeaderLocked_def Let_def]
  note p' = p [unfolded c2_def Let_def]
  note v' = v [unfolded global_request_def]
  show thesis
  proof (cases r)
    case (Some e)
    then show thesis using unfolded n p' c3 unsaved by auto
  next
    case None
    then show thesis using unfolded n p' c3 v v' lost won
      by (auto simp: gterm_of_def split: sum.splits if_splits)
  qed
qed

text \<open>Everything after the votes of an election but the last step of the winner.\<close>

definition domain_announced :: "DomainLeaderIdentity \<Rightarrow> Cluster \<Rightarrow> Cluster" where
  "domain_announced identity c =
     fold (announce_domain identity) (DomainMembers (cl_config c) (DomainID identity))
       (c\<lparr>cl_domainLeaders := fmupd (DomainID identity) identity (cl_domainLeaders c)\<rparr>)"

definition global_announced :: "GlobalLeaderIdentity \<Rightarrow> Cluster \<Rightarrow> Cluster" where
  "global_announced identity c = fold (announce_global identity) (node_ids c) (c\<lparr>cl_globalLeader := identity\<rparr>)"

lemma install_domain_leader_eq:
  "install_domain_leader identity c =
     (let c3 = upd_node (NodeID identity) (become_domain identity) (domain_announced identity c);
          previous = get_or no_dli (cl_domainLeaders c) (DomainID identity)
      in if dli_Valid previous \<and> previous \<noteq> identity then invalidateGlobalLeaderLocked c3 else c3)"
  by (simp add: install_domain_leader_def domain_announced_def Let_def)

lemma install_global_leader_eq:
  "install_global_leader identity c =
     upd_node (NodeID (gli_DomainLeader identity)) (become_global identity) (global_announced identity c)"
  by (simp add: install_global_leader_def global_announced_def Let_def node_ids_def)

section \<open>The interface\<close>

text \<open>What the data path may do to a node: any change of its state that \<open>le\<close> allows, saved at once.\<close>

locale data_path =
  fixes R :: "SimNode \<Rightarrow> SimNode \<Rightarrow> bool" and le :: "PersistentState \<Rightarrow> PersistentState \<Rightarrow> bool"
  assumes keep_refl: "R n n"
    and keep_trans: "R n n' \<Longrightarrow> R n' n'' \<Longrightarrow> R n n''"
    and keep_data: "le (sn_State n) s \<Longrightarrow> R n (persist (n\<lparr>sn_State := s\<rparr>))"
    and le_refl [simp]: "le s s"
    and le_trans: "le s s' \<Longrightarrow> le s' s'' \<Longrightarrow> le s s''"
    and le_append: "GlobalIndex e \<noteq> max_u64 \<Longrightarrow> le s (fst (appendEntry s e))"
    and le_raise: "(\<And>d. getz (ps_DomainQuorumIndex s) d \<le> getz q d) \<Longrightarrow> le s (s\<lparr>ps_DomainQuorumIndex := q\<rparr>)"
    and le_apply: "findEntryByIndex (ps_Log s) (GlobalIndex e) \<noteq> None \<Longrightarrow> le s (applyEntry s e)"
begin

lemma rel_refl [simp]: "nodes_rel R c c"
  by (simp add: nodes_rel_def keep_refl option.rel_refl)

lemma rel_trans: "nodes_rel R a b \<Longrightarrow> nodes_rel R b c \<Longrightarrow> nodes_rel R a c"
  unfolding nodes_rel_def
proof safe
  fix i assume "\<forall>i. rel_option R (look a i) (look b i)" "\<forall>i. rel_option R (look b i) (look c i)"
  then have "(rel_option R OO rel_option R) (look a i) (look c i)" by blast
  then have "rel_option (R OO R) (look a i) (look c i)" by (simp add: option.rel_compp)
  moreover have "R OO R \<le> R" using keep_trans by blast
  ultimately show "rel_option R (look a i) (look c i)" by (metis option.rel_mono predicate2D)
qed auto

text \<open>The form in which every operation is related: one node changes, the others stay.\<close>

lemma rel_at:
  assumes "cfg_Nodes (cl_config c') = cfg_Nodes (cl_config c)"
    "\<And>j. j \<noteq> i \<Longrightarrow> look c' j = look c j"
    "look c i = Some n" "look c' i = Some n'" "R n n'"
  shows "nodes_rel R c c'"
  unfolding nodes_rel_def
proof safe
  fix j show "rel_option R (look c j) (look c' j)"
    using assms by (cases "j = i") (simp_all add: keep_refl option.rel_refl)
qed (use assms in auto)

lemma rel_same:
  assumes "cfg_Nodes (cl_config c') = cfg_Nodes (cl_config c)" "\<And>j. look c' j = look c j"
  shows "nodes_rel R c c'"
  using assms by (simp add: nodes_rel_def keep_refl option.rel_refl)

lemma rel_upd:
  assumes "\<And>n. look c i = Some n \<Longrightarrow> R n (f n)"
  shows "nodes_rel R c (upd_node i f c)"
proof (cases "look c i")
  case None
  then show ?thesis by (simp add: upd_node_def)
next
  case (Some n)
  then show ?thesis using assms by (auto intro: rel_at [of _ c i n "f n"])
qed

lemma rel_all:
  assumes "cfg_Nodes (cl_config c') = cfg_Nodes (cl_config c)" "\<And>i. look c' i = map_option f (look c i)"
    "\<And>n. R n (f n)"
  shows "nodes_rel R c c'"
  using assms by (simp add: nodes_rel_def option.rel_map option.rel_refl)

lemma rel_fold:
  assumes "\<And>x c. x \<in> set xs \<Longrightarrow> nodes_rel R c (f x c)"
  shows "nodes_rel R c (fold f xs c)"
  by (rule fold_rel [where R = "nodes_rel R"]) (use assms rel_trans in auto)

lemma le_apply_upto: "le s (apply_upto target next s)"
proof (induction target "next" s rule: apply_upto.induct)
  case (1 target "next" s)
  show ?case
  proof (cases "next \<le> target \<and> findEntryByIndex (ps_Log s) next \<noteq> None")
    case True
    then obtain e where e: "findEntryByIndex (ps_Log s) next = Some e" by auto
    then have "le s (applyEntry s e)" using find_Some_index [OF e] by (intro le_apply) simp
    moreover have "le (applyEntry s e) (apply_upto target (next + 1) (applyEntry s e))"
      using 1 True e by auto
    ultimately show ?thesis using True e le_trans by (subst apply_upto.simps) auto
  next
    case False
    then show ?thesis by (subst apply_upto.simps) (auto split: option.splits)
  qed
qed

text \<open>The data path.\<close>

lemma rel_raise: "nodes_rel R c (upd_node i (persist \<circ> raise_quorum d k) c)"
  by (auto simp: raise_quorum_def Let_def getz_fmupd intro!: rel_upd keep_data le_raise)

lemma rel_append_at:
  assumes "append_at i e c = (c', ok)" "GlobalIndex e \<noteq> max_u64"
  shows "nodes_rel R c c'"
proof (cases "c' = c")
  case False
  then obtain n s where "look c i = Some n" "appendEntry (sn_State n) e = (s, True)"
    "c' = upd_node i (\<lambda>n. persist (n\<lparr>sn_State := s\<rparr>)) c"
    using assms(1) by (auto simp: append_at_def split: option.splits prod.splits if_splits)
  then show ?thesis using le_append [OF assms(2), of "sn_State n"] by (auto intro!: rel_upd keep_data)
qed simp

lemma rel_replicate_members:
  assumes "replicate_members e l ms a c = (c', a')" "GlobalIndex e \<noteq> max_u64"
  shows "nodes_rel R c c'"
  using assms(1)
proof (induction ms arbitrary: a c)
  case (Cons m ms)
  obtain c1 ok where a: "append_at (nd_ID m) e c = (c1, ok)" by fastforce
  have "nodes_rel R c c1" using a assms(2) by (rule rel_append_at)
  then show ?case using Cons a by (auto split: if_splits intro: rel_trans)
qed simp

lemma rel_mark_quorum: "nodes_rel R c (mark_quorum d e m c)"
  by (auto simp: mark_quorum_def rel_raise split: option.splits)

lemma rel_replicate_domain:
  assumes "GlobalIndex e \<noteq> max_u64"
  shows "nodes_rel R (fst cq) (fst (replicate_domain e g d cq))"
proof -
  obtain c q where cq: "cq = (c, q)" by (cases cq)
  obtain c1 ok where a: "append_at (NodeID (the (fmlookup (cl_domainLeaders c) d))) e c = (c1, ok)" by fastforce
  obtain c2 k where m: "replicate_members e (NodeID (the (fmlookup (cl_domainLeaders c) d)))
      (DomainMembers (cl_config c1) d) 1 c1 = (c2, k)" by fastforce
  have "nodes_rel R c c1" "nodes_rel R c c2" "nodes_rel R c (fold (mark_quorum d e) xs c2)" for xs
    using rel_append_at [OF a assms] rel_replicate_members [OF m assms] rel_fold [of xs "mark_quorum d e" c2]
      rel_mark_quorum rel_trans by blast+
  then show ?thesis using a m by (auto simp: replicate_domain_def cq Let_def split: option.splits bool.splits)
qed

lemma rel_replicateEntry:
  assumes "replicateEntryLocked e c = (c', q)" "GlobalIndex e \<noteq> max_u64"
  shows "nodes_rel R c c'"
proof -
  let ?g = "NodeID (gli_DomainLeader (cl_globalLeader c))"
  have "nodes_rel R (fst (c, fmempty :: bool gomap))
      (fst (fold (replicate_domain e ?g) (Domains (cl_config c)) (c, fmempty)))"
    using rel_replicate_domain [OF assms(2)] rel_trans
    by (intro fold_rel [where R = "\<lambda>a b :: Cluster \<times> bool gomap. nodes_rel R (fst a) (fst b)"]) auto
  then show ?thesis using assms(1) by (simp add: replicateEntryLocked_def)
qed

lemma rel_collect_acks: "nodes_rel R c (collect_acks i d e q c)"
proof -
  let ?mark = "\<lambda>domain. upd_node i (persist \<circ> raise_quorum domain (GlobalIndex e))"
  let ?f = "\<lambda>(domain, ready) c. if \<not> ready \<or> domain = d then c
      else if CanSend (cl_network c) (NodeID (get_or no_dli (cl_domainLeaders c) domain)) i DomainQuorumAckMessage
      then ?mark domain c else c"
  have "nodes_rel R c (?f x c)" for x c by (cases x) (auto intro: rel_raise)
  then have "nodes_rel R c (fold ?f xs c)" for xs c by (intro rel_fold) blast
  then show ?thesis unfolding collect_acks_def Let_def
    by (cases "get_or False q d") (auto intro: rel_trans [OF rel_raise])
qed

lemma rel_applyCommit: "nodes_rel R c (applyCommitToDomainLocked d t c)"
  unfolding applyCommitToDomainLocked_def
  by (rule rel_fold) (auto intro!: rel_upd keep_data le_apply_upto)

lemma rel_fast_return: "fast_return i req e q c = (c', r) \<Longrightarrow> nodes_rel R c c'"
  by (auto simp: fast_return_def Let_def rel_applyCommit split: if_splits option.splits)

lemma rel_commit_entry:
  assumes "look c g = Some n" "findEntryByIndex (ps_Log (sn_State n)) k = Some e"
  shows "nodes_rel R c (commit_entry g e k c)"
proof -
  have k: "GlobalIndex e = k" using find_Some_index [OF assms(2)] by simp
  let ?S = "\<lambda>n n'. \<exists>s. le (sn_State n) s \<and> ps_Log s = ps_Log (sn_State n) \<and> n' = persist (n\<lparr>sn_State := s\<rparr>)"
  have app: "R m (apply_node e m)" if "findEntryByIndex (ps_Log (sn_State m)) k \<noteq> None" for m
    using that k by (auto simp: apply_node_def intro!: keep_data le_apply)
  have one: "nodes_rel R c (notify_commit g e k i c)" for i c
    using app by (auto simp: notify_commit_def hasEntry_def split: option.splits intro!: rel_upd)
  have logs: "map_option (ps_Log \<circ> sn_State) (look (notify_commit g e k i c) j) =
      map_option (ps_Log \<circ> sn_State) (look c j)" for i j c
    by (cases "look c i"; cases "look c j")
       (auto simp: notify_commit_def apply_node_def frame_simps)
  define c1 where "c1 = fold (notify_commit g e k) (node_ids c) c"
  have "map_option (ps_Log \<circ> sn_State) (look c1 g) = map_option (ps_Log \<circ> sn_State) (look c g)"
    unfolding c1_def by (rule fold_eq) (rule logs)
  then have "nodes_rel R c1 (upd_node g (apply_node e) c1)"
    using assms by (auto intro!: rel_upd app)
  moreover have "nodes_rel R c c1" unfolding c1_def by (rule rel_fold) (rule one)
  ultimately show ?thesis unfolding commit_entry_def c1_def using rel_trans by blast
qed

lemma rel_advance_loop: "nodes_rel R c (advance_loop g t k c)"
proof (induction g t k c rule: advance_loop.induct)
  case (1 g t k c)
  show ?case
  proof (cases "k \<le> t \<and> (\<exists>n e. look c g = Some n \<and> findEntryByIndex (ps_Log (sn_State n)) k = Some e)")
    case True
    then obtain n e where n: "look c g = Some n" "findEntryByIndex (ps_Log (sn_State n)) k = Some e" by auto
    then have "nodes_rel R c (commit_entry g e k c)" by (rule rel_commit_entry)
    moreover have "nodes_rel R (commit_entry g e k c) (advance_loop g t (k + 1) (commit_entry g e k c))"
      using 1 True n by auto
    ultimately show ?thesis using True n rel_trans by (subst advance_loop.simps) auto
  next
    case False
    then show ?thesis by (subst advance_loop.simps) (auto split: option.splits)
  qed
qed

lemma rel_advanceGlobalCommit: "nodes_rel R c (advanceGlobalCommitLocked c)"
  by (auto simp: advanceGlobalCommitLocked_def Let_def rel_advance_loop split: option.splits)

text \<open>Acknowledgements only raise quorum marks of the global leader, which is saved at the end.\<close>

lemma reconcile_marks:
  assumes "look c g = Some n"
  shows "\<exists>q. look (fold (reconcile_ack g d) xs c) g =
     Some (n\<lparr>sn_State := (sn_State n)\<lparr>ps_DomainQuorumIndex := q\<rparr>\<rparr>) \<and>
     (\<forall>d. getz (ps_DomainQuorumIndex (sn_State n)) d \<le> getz q d)"
  using assms
proof (induction xs arbitrary: c n)
  case Nil
  then show ?case by (intro exI [of _ "ps_DomainQuorumIndex (sn_State n)"]) simp
next
  case (Cons x xs)
  obtain q where q: "look (reconcile_ack g d x c) g = Some (n\<lparr>sn_State := (sn_State n)\<lparr>ps_DomainQuorumIndex := q\<rparr>\<rparr>)"
    and le: "\<forall>d. getz (ps_DomainQuorumIndex (sn_State n)) d \<le> getz q d"
  proof (cases "look (reconcile_ack g d x c) g = Some n")
    case True
    then show thesis using that [of "ps_DomainQuorumIndex (sn_State n)"] by simp
  next
    case False
    then show thesis using Cons.prems that
      by (cases x) (auto simp: reconcile_ack_def raise_quorum_def Let_def getz_fmupd split: if_splits)
  qed
  show ?case using Cons.IH [OF q] le by (auto intro: order_trans)
qed

lemma reconcile_others: "j \<noteq> g \<Longrightarrow> look (fold (reconcile_ack g d) xs c) j = look c j"
  by (rule fold_eq) (auto simp: reconcile_ack_def split: prod.splits)

lemma reconcile_env:
  "cl_config (fold (reconcile_ack g d) xs c) = cl_config c"
  by (rule fold_eq) (auto simp: reconcile_ack_def split: prod.splits)

lemma rel_reconcile: "nodes_rel R c (reconcileAcksLocked c)"
proof (cases "globalIdentityCurrentLocked c (cl_globalLeader c)")
  case True
  let ?l = "gli_DomainLeader (cl_globalLeader c)"
  let ?c = "fold (reconcile_ack (NodeID ?l) (DomainID ?l)) (sorted_list_of_fmap (cl_domainLeaders c)) c"
  have e: "reconcileAcksLocked c = upd_node (NodeID ?l) persist ?c"
    using True by (simp add: reconcileAcksLocked_def Let_def)
  obtain n where n: "look c (NodeID ?l) = Some n"
    using True by (auto simp: globalIdentityCurrentLocked_def split: option.splits)
  obtain q where q: "look ?c (NodeID ?l) = Some (n\<lparr>sn_State := (sn_State n)\<lparr>ps_DomainQuorumIndex := q\<rparr>\<rparr>)"
    "\<forall>d. getz (ps_DomainQuorumIndex (sn_State n)) d \<le> getz q d"
    using reconcile_marks [OF n] by blast
  show ?thesis unfolding e
    by (rule rel_at [of _ _ "NodeID ?l" n "persist (n\<lparr>sn_State := (sn_State n)\<lparr>ps_DomainQuorumIndex := q\<rparr>\<rparr>)"])
       (auto simp: n q(1) q(2) [rule_format] reconcile_others reconcile_env intro!: keep_data le_raise)
qed (simp add: reconcileAcksLocked_def)

lemma rel_Reconcile: "nodes_rel R c (Reconcile c)"
  unfolding Reconcile_def using rel_reconcile rel_advanceGlobalCommit rel_trans by blast

lemma rel_Read: "Read i k c = (c', r) \<Longrightarrow> nodes_rel R c c'"
  by (auto simp: Read_def Let_def rel_Reconcile split: option.splits if_splits)

lemma rel_write_entry:
  assumes "write_entry i req e c = (c', r)" "GlobalIndex e \<noteq> max_u64"
  shows "nodes_rel R c c'"
proof -
  obtain c1 q where 1: "replicateEntryLocked e c = (c1, q)" by fastforce
  define c2 where "c2 = collect_acks i (DomainID (gli_DomainLeader (cl_globalLeader c1))) e q c1"
  obtain c3 fr where 3: "fast_return i req e q c2 = (c3, fr)" by fastforce
  have "c' = advanceGlobalCommitLocked c3" using assms(1) 1 3 by (auto simp: write_entry_def Let_def c2_def)
  then show ?thesis
    using rel_replicateEntry [OF 1 assms(2)] rel_collect_acks [of c1 i _ e q, folded c2_def]
      rel_fast_return [OF 3] rel_advanceGlobalCommit [of c3] rel_trans
    unfolding c2_def by blast
qed

end

text \<open>All the operations: the data path with \<open>data_le\<close> and the election transitions.\<close>

locale node_step =
  fixes R :: "SimNode \<Rightarrow> SimNode \<Rightarrow> bool"
  assumes refl: "R n n"
    and trans: "R n n' \<Longrightarrow> R n' n'' \<Longrightarrow> R n n''"
    and soft: "R n (n\<lparr>sn_Stage := g, sn_ElectionDeadline := t\<rparr>)"
    and demote: "R n (persist (n\<lparr>sn_Stage := g, sn_DomainRole := Follower, sn_GlobalRole := Follower,
                    sn_ElectionDeadline := t\<rparr>))"
    and restart: "R n (n\<lparr>sn_State := coerce_state (sn_State n), sn_Stage := g, sn_DomainRole := Follower,
                    sn_GlobalRole := Follower, sn_ElectionDeadline := t\<rparr>)"
    and domain_vote: "transitionDomainVote (sn_State n) (sn_DomainRole n) req = (s, r, resp, b) \<Longrightarrow>
      R n (persist (n\<lparr>sn_State := s, sn_DomainRole := r, sn_ElectionDeadline := t\<rparr>))"
    and domain_observe: "transitionObserveHigherDomainTerm (sn_State n) (sn_DomainRole n) dt = (s, r, b) \<Longrightarrow>
      R n (persist (n\<lparr>sn_State := s, sn_DomainRole := r\<rparr>))"
    and domain_accept: "transitionAcceptDomainLeader (sn_State n) (sn_DomainRole n) (sn_ID n) i = (s, r, b) \<Longrightarrow>
      R n (persist (n\<lparr>sn_State := s, sn_DomainRole := r, sn_Stage := g, sn_ElectionDeadline := t\<rparr>))"
    and domain_campaign: "ps_DomainTerm (sn_State n) \<noteq> max_u64 \<Longrightarrow>
      R n (persist ((start_domain_campaign n)\<lparr>sn_ElectionDeadline := t\<rparr>))"
    and revoke: "R n (revoke n)"
    and global_vote: "transitionGlobalVote (sn_State n) (sn_GlobalRole n) (sn_Stage n) greq = (s, r, g, gresp, b, h) \<Longrightarrow>
      R n (persist (n\<lparr>sn_State := s, sn_GlobalRole := r, sn_Stage := g\<rparr>))"
    and global_observe:
      "transitionObserveHigherGlobalTerm (sn_State n) (sn_GlobalRole n) (sn_Stage n) gt = (s, r, g, b) \<Longrightarrow>
      R n (persist (n\<lparr>sn_State := s, sn_GlobalRole := r, sn_Stage := g\<rparr>))"
    and global_accept: "R n (accept_global gi n)"
    and global_campaign: "ps_GlobalTerm (sn_State n) \<noteq> max_u64 \<Longrightarrow>
      R n (persist (start_global_campaign i n)) \<and> R n (persist (Sim_Model.revoke (start_global_campaign i n)))"
    and data: "data_le (sn_State n) s \<Longrightarrow> R n (persist (n\<lparr>sn_State := s\<rparr>))"

sublocale node_step < data_path R data_le
  by unfold_locales (auto intro: refl trans data data_le_trans data_le_append data_le_raise data_le_apply)

context node_step
begin

lemma rel_invalidate: "nodes_rel R c (invalidateGlobalLeaderLocked c)"
  by (rule rel_all [where f = Sim_Model.revoke]) (simp_all add: revoke)

lemma rel_domain_vote:
  assumes "handleDomainVoteLocked i req c = (c', resp)"
  shows "nodes_rel R c c'"
proof (cases "c' = c")
  case False
  then obtain n s r b where n: "look c i = Some n"
    and t: "transitionDomainVote (sn_State n) (sn_DomainRole n) req = (s, r, resp, b)"
    and c': "c' = upd_node i persist
       (if b then resetElectionDeadlineLocked i (upd_node i (\<lambda>n. n\<lparr>sn_State := s, sn_DomainRole := r\<rparr>) c)
        else upd_node i (\<lambda>n. n\<lparr>sn_State := s, sn_DomainRole := r\<rparr>) c)"
    using assms
    by (auto simp: handleDomainVoteLocked_def Let_def split: option.splits if_splits prod.splits)
  let ?t = "if b then reset_to (upd_node i (\<lambda>n. n\<lparr>sn_State := s, sn_DomainRole := r\<rparr>) c)
     else sn_ElectionDeadline n"
  have "R n (persist (n\<lparr>sn_State := s, sn_DomainRole := r, sn_ElectionDeadline := ?t\<rparr>))"
    using t by (rule domain_vote)
  then show ?thesis by (rule rel_at [of _ _ i, rotated -1]) (auto simp: c' n)
qed simp

lemma rel_domain_votes:
  "domain_votes cand req ms v c = (c', out) \<Longrightarrow> nodes_rel R c c'"
proof (induction cand req ms v c arbitrary: out rule: domain_votes.induct)
  case (1 cand req v c)
  then show ?case by simp
next
  case (2 cand req m ms v c)
  show ?case
  proof (cases "nd_ID m = cand \<or> \<not> CanSend (cl_network c) cand (nd_ID m) DomainVoteMessage")
    case True
    then show ?thesis using 2 by auto
  next
    case False
    obtain c1 resp where h: "handleDomainVoteLocked (nd_ID m) req c = (c1, resp)" by fastforce
    have r1: "nodes_rel R c c1" using h by (rule rel_domain_vote)
    have "nodes_rel R c1 c'"
    proof (cases "look c1 cand")
      case None
      then show ?thesis using 2(3) False h by auto
    next
      case (Some n)
      show ?thesis
      proof (cases "dvp_DomainTerm resp > ps_DomainTerm (sn_State n)")
        case True
        then show ?thesis using 2(3) False h Some
          by (auto split: prod.splits intro!: rel_upd domain_observe)
      next
        case False': False
        then show ?thesis using 2(2) [OF False h [symmetric] Some] 2(3) False h Some by auto
      qed
    qed
    then show ?thesis using r1 rel_trans by blast
  qed
qed

lemma rel_accept_domain:
  assumes "accept_domain identity st i c = (c', ok)" "\<And>n. \<exists>g. st n = n\<lparr>sn_Stage := g\<rparr>"
  shows "nodes_rel R c c'"
proof (cases "look c i")
  case None
  then show ?thesis using assms by (auto simp: accept_domain_def)
next
  case (Some n)
  obtain s r b where t: "transitionAcceptDomainLeader (sn_State n) (sn_DomainRole n) (sn_ID n) identity = (s, r, b)"
    by (metis prod_cases3)
  let ?n = "n\<lparr>sn_State := s, sn_DomainRole := r\<rparr>"
  obtain g where g: "st ?n = ?n\<lparr>sn_Stage := g\<rparr>" using assms(2) by blast
  show ?thesis
  proof (cases b)
    case False
    then have "s = sn_State n" "r = sn_DomainRole n" using AcceptDomain_cases(5) [OF t] by auto
    then show ?thesis using assms(1) Some t False
      by (auto simp: accept_domain_def intro!: rel_upd refl)
  next
    case True
    let ?u = "upd_node i st (upd_node i (\<lambda>n. n\<lparr>sn_State := s, sn_DomainRole := r\<rparr>) c)"
    have "R n (persist (n\<lparr>sn_State := s, sn_DomainRole := r, sn_Stage := g, sn_ElectionDeadline := reset_to ?u\<rparr>))"
      using t by (rule domain_accept)
    moreover have "c' = upd_node i persist (resetElectionDeadlineLocked i ?u)"
      using assms(1) Some t True by (auto simp: accept_domain_def)
    ultimately show ?thesis using Some g by (auto intro!: rel_at [of _ c i n])
  qed
qed

lemma stage_id: "\<exists>g. n = n\<lparr>sn_Stage := g\<rparr>"
  by (rule exI [of _ "sn_Stage n"]) simp

lemma rel_announce_domain: "nodes_rel R c (announce_domain identity m c)"
  using rel_accept_domain [of identity "\<lambda>n. n\<lparr>sn_Stage := GlobalElecting\<rparr>" "nd_ID m" c]
  by (auto simp: announce_domain_def) (metis prod.collapse)

lemma rel_deliver:
  "deliver_domain_heartbeats identity ms k c = (c', k') \<Longrightarrow> nodes_rel R c c'"
proof (induction ms arbitrary: k c)
  case Nil
  then show ?case by simp
next
  case (Cons m ms)
  obtain c1 ok where a: "accept_domain identity (\<lambda>n. n) (nd_ID m) c = (c1, ok)" by fastforce
  then have "nodes_rel R c c1" by (rule rel_accept_domain) (rule stage_id)
  then show ?case using Cons a by (auto split: if_splits intro: rel_trans)
qed

lemma rel_SendDomainHeartbeat: "SendDomainHeartbeat identity c = (c', b) \<Longrightarrow> nodes_rel R c c'"
  by (auto simp: SendDomainHeartbeat_def Let_def split: if_splits prod.splits intro: rel_deliver)

lemma rel_domain_campaigned:
  assumes "look c i = Some n" "ps_DomainTerm (sn_State n) \<noteq> max_u64"
  shows "nodes_rel R c (domain_campaigned i n c)"
  using assms domain_campaign [OF assms(2)]
  by (auto simp: domain_campaigned_def intro!: rel_at [of _ c i n])

lemma rel_domain_announced: "nodes_rel R c (domain_announced identity c)"
proof -
  have "nodes_rel R c (c\<lparr>cl_domainLeaders := fmupd (DomainID identity) identity (cl_domainLeaders c)\<rparr>)"
    by (rule rel_same) simp_all
  then show ?thesis unfolding domain_announced_def
    by (rule rel_trans) (rule rel_fold, rule rel_announce_domain)
qed

lemma rel_global_vote:
  assumes "handleGlobalVoteLocked i req c = (c', resp)"
  shows "nodes_rel R c c'"
proof (cases "c' = c")
  case False
  then obtain n s r g b h resp' where "look c i = Some n"
    "transitionGlobalVote (sn_State n) (sn_GlobalRole n) (sn_Stage n) req = (s, r, g, resp', b, h)"
    "c' = upd_node i (\<lambda>n. persist (n\<lparr>sn_State := s, sn_GlobalRole := r, sn_Stage := g\<rparr>)) c"
    using assms
    by (auto simp: handleGlobalVoteLocked_def Let_def split: option.splits if_splits prod.splits)
  then show ?thesis by (auto intro!: rel_upd global_vote)
qed simp

lemma rel_global_votes:
  "global_votes cand req ds v c = (c', out) \<Longrightarrow> nodes_rel R c c'"
proof (induction ds arbitrary: v c)
  case Nil
  then show ?case by simp
next
  case (Cons d ds)
  have rec: "nodes_rel R c c'" if "global_votes cand req ds v' c = (c', out)" for v'
    using Cons.IH that by blast
  show ?case
  proof (cases "fmlookup (cl_domainLeaders c) d")
    case None
    then show ?thesis using Cons by auto
  next
    case (Some did)
    obtain c1 resp where h: "handleGlobalVoteLocked (NodeID did) req c = (c1, resp)" by fastforce
    have r1: "nodes_rel R c c1" using h by (rule rel_global_vote)
    show ?thesis
    proof (cases "c' = c1 \<or> (\<exists>v'. global_votes cand req ds v' c = (c', out)) \<or>
        (\<exists>v'. global_votes cand req ds v' c1 = (c', out))")
      case True
      then show ?thesis using r1 rec Cons.IH rel_trans by blast
    next
      case False
      then obtain n s r g b where "look c1 cand = Some n"
        "transitionObserveHigherGlobalTerm (sn_State n) (sn_GlobalRole n) (sn_Stage n) (gvp_GlobalTerm resp) = (s, r, g, b)"
        "c' = upd_node cand (\<lambda>n. persist (n\<lparr>sn_State := s, sn_GlobalRole := r, sn_Stage := g\<rparr>)) c1"
        using Cons.prems Some h by (auto split: if_splits option.splits prod.splits)
      then have "nodes_rel R c1 c'" by (auto intro!: rel_upd global_observe)
      then show ?thesis using r1 rel_trans by blast
    qed
  qed
qed

lemma rel_announce_global: "nodes_rel R c (announce_global identity i c)"
  by (auto simp: announce_global_def global_accept split: option.splits intro!: rel_upd)

lemma rel_SendGlobalHeartbeat: "SendGlobalHeartbeat identity c = (c', b) \<Longrightarrow> nodes_rel R c c'"
  by (auto simp: SendGlobalHeartbeat_def split: if_splits intro: rel_fold rel_announce_global)

lemma rel_global_campaigned:
  assumes "look c i = Some n" "ps_GlobalTerm (sn_State n) \<noteq> max_u64"
  shows "nodes_rel R c (global_campaigned i did n c)"
proof -
  note camp = global_campaign [OF assms(2), of did]
  show ?thesis
  proof (cases "gli_Valid (cl_globalLeader c) \<and>
      ps_GlobalTerm (sn_State (start_global_campaign did n)) > gli_GlobalTerm (cl_globalLeader c)")
    case False
    then have "global_campaigned i did n c = upd_node i persist (upd_node i (\<lambda>_. start_global_campaign did n) c)"
      by (auto simp: global_campaigned_def)
    then show ?thesis using camp assms(1) by (auto intro!: rel_at [of _ c i n])
  next
    case True
    then have e: "global_campaigned i did n c =
        upd_node i persist (invalidateGlobalLeaderLocked (upd_node i (\<lambda>_. start_global_campaign did n) c))"
      by (auto simp: global_campaigned_def)
    have "rel_option R (look c j) (look (global_campaigned i did n c) j)" for j
      using camp assms(1) revoke by (cases "look c j") (auto simp: e)
    then show ?thesis by (simp add: nodes_rel_def e)
  qed
qed

lemma rel_global_announced: "nodes_rel R c (global_announced identity c)"
proof -
  have "nodes_rel R c (c\<lparr>cl_globalLeader := identity\<rparr>)" by (rule rel_same) simp_all
  then show ?thesis unfolding global_announced_def
    by (rule rel_trans) (rule rel_fold, rule rel_announce_global)
qed

end

end
