(* ===== verification/Sim_Runs.thy ===== *)
theory Sim_Runs
  imports Sim_Steps
begin

text \<open>
  Runs of the simulated cluster.  \<open>cluster_step\<close> has one rule per operation of the cluster and of
  its fault injection, and one for each part of the whole-cluster operations: \<open>StartAll\<close> composes
  \<open>mark_started\<close>, \<open>elect_domain\<close> and \<open>elect_global\<close>, and \<open>DetectAndReelect\<close> composes \<open>reelect\<close>,
  \<open>invalidate\<close> and \<open>elect_global\<close>.  Terms and indices are assumed not to have reached the largest
  \<open>uint64\<close> when an operation increments them (\<open>room\<close>).
\<close>

section \<open>Predicates on all nodes\<close>

definition room :: "Cluster \<Rightarrow> bool" where
  "room c = fmpred (\<lambda>_ n. ps_DomainTerm (sn_State n) \<noteq> max_u64 \<and> ps_GlobalTerm (sn_State n) \<noteq> max_u64 \<and>
     LastGlobalIndex (Summary (sn_State n)) + 1 \<noteq> max_u64) (cl_nodes c)"

definition wf_nodes :: "Cluster \<Rightarrow> bool" where
  "wf_nodes c = fmpred (\<lambda>_ n. wf_state (sn_State n)) (cl_nodes c)"

text \<open>A store that refuses nothing, and a node whose last saved state is its current one.\<close>

fun reliable :: "Store \<Rightarrow> bool" where
  "reliable (MemoryStore _) = True"
| "reliable (FileStore st) = (\<not> mkdir_fails (fs_faults st) \<and> \<not> write_fails (fs_faults st) \<and>
     \<not> rename_fails (fs_faults st) \<and> \<not> read_fails (fs_faults st))"

definition durable :: "SimNode \<Rightarrow> bool" where
  "durable n \<longleftrightarrow> reliable (sn_store n) \<and> store_Load (sn_store n) = Inr (coerce_state (sn_State n))"

definition durable_nodes :: "Cluster \<Rightarrow> bool" where
  "durable_nodes c = fmpred (\<lambda>_ n. reliable (sn_store n) \<and>
     store_Load (sn_store n) = Inr (coerce_state (sn_State n))) (cl_nodes c)"

lemma roomD: "room c \<Longrightarrow> look c i = Some n \<Longrightarrow> ps_DomainTerm (sn_State n) \<noteq> max_u64 \<and>
    ps_GlobalTerm (sn_State n) \<noteq> max_u64 \<and> LastGlobalIndex (Summary (sn_State n)) + 1 \<noteq> max_u64"
  by (simp add: room_def fmpred_iff)

lemma wf_nodesD: "wf_nodes c \<Longrightarrow> look c i = Some n \<Longrightarrow> wf_state (sn_State n)"
  by (simp add: wf_nodes_def fmpred_iff)

lemma durable_nodes_iff: "durable_nodes c \<longleftrightarrow> (\<forall>i n. look c i = Some n \<longrightarrow> durable n)"
  by (auto simp: durable_nodes_def durable_def fmpred_iff)

lemma wf_entry_index: "wf_state s \<Longrightarrow> e \<in> set (ps_Log s) \<Longrightarrow> GlobalIndex e \<noteq> max_u64"
proof -
  assume wf: "wf_state s" and "e \<in> set (ps_Log s)"
  then obtain k where k: "k < length (ps_Log s)" "e = ps_Log s ! k" by (auto simp: in_set_conv_nth)
  then have "unat (GlobalIndex e) = unat (ps_SnapshotLastIndex s) + k + 1"
    using wf by (simp add: wf_state_def contig_def)
  then show ?thesis using wf_length [OF wf] k by (simp add: neq_max_u64_iff)
qed

section \<open>The remaining operations\<close>

context node_step
begin

lemma rel_Write:
  assumes "Write i req c = (c', r)" "room c" "wf_nodes c"
  shows "nodes_rel R c c'"
proof (cases "c' = c")
  case False
  then obtain n where n: "look c i = Some n"
    using assms(1) by (auto simp: Write_def split: option.splits)
  let ?e = "new_entry c (sn_State n) req"
  let ?c1 = "upd_node i (\<lambda>n'. persist (n'\<lparr>sn_State := (sn_State n)\<lparr>ps_Log := ps_Log (sn_State n) @ [?e]\<rparr>\<rparr>)) c"
  have i: "GlobalIndex ?e = LastGlobalIndex (Summary (sn_State n)) + 1" "GlobalIndex ?e \<noteq> max_u64"
    using roomD [OF assms(2) n] by (simp_all add: new_entry_def)
  have c1: "nodes_rel R c ?c1"
    using data_le_new_entry [OF i] n by (auto intro!: rel_upd data)
  consider (old) e where "findEntryByRequest (ps_Log (sn_State n)) (cwr_RequestID req) = Some e"
      "write_entry i req e c = (c', r)"
    | (new) "write_entry i req ?e ?c1 = (c', r)"
    using assms(1) False n by (auto simp: Write_def Let_def split: if_splits option.splits)
  then show ?thesis
  proof cases
    case old
    then have "e \<in> set (ps_Log (sn_State n))"
      by (auto simp: findEntryByRequest_def find_Some_iff)
    then show ?thesis using old rel_write_entry wf_entry_index wf_nodesD [OF assms(3) n] by blast
  next
    case new
    then show ?thesis using rel_write_entry [OF new i(2)] rel_trans [OF c1] by blast
  qed
qed simp

lemma rel_Compact:
  assumes "Compact i k c = Some (c', b, e)"
  shows "nodes_rel R c c'"
proof (cases "c' = c")
  case False
  then obtain n s where n: "look c i = Some n" "compactLog (sn_State n) (ps_AppliedIndex (sn_State n) - k) = Some (s, True)"
      "c' = fst (persist_at i (upd_node i (\<lambda>n. n\<lparr>sn_State := s\<rparr>) c))"
    using assms by (auto simp: Compact_def split: option.splits if_splits prod.splits bool.splits)
  then show ?thesis using data_le_compact [OF n(2)]
    by (auto simp: persist_at_eq intro!: rel_at [of _ c i n] data)
qed simp

lemma rel_install_at:
  assumes "install_at i g t q c = (c', ok)" "ps_AppliedIndex g \<noteq> max_u64"
  shows "nodes_rel R c c'"
proof (cases "c' = c")
  case False
  then obtain n s where "look c i = Some n"
    "installSnapshotState (sn_State n) (ps_AppliedIndex g) t q (ps_StateMachine g) (ps_Results g) = (s, True)"
    "c' = upd_node i (\<lambda>n. persist (n\<lparr>sn_State := s\<rparr>)) c"
    using assms(1) by (auto simp: install_at_def split: option.splits prod.splits if_splits)
  then show ?thesis
    using data_le_install [OF assms(2), of "sn_State n" t q "ps_StateMachine g" "ps_Results g"]
    by (auto intro!: rel_upd data)
qed simp

lemma rel_install_members:
  assumes "install_members g t q l ms a c = (c', a')" "ps_AppliedIndex g \<noteq> max_u64"
  shows "nodes_rel R c c'"
  using assms(1)
proof (induction ms arbitrary: a c)
  case (Cons m ms)
  obtain c1 ok where i: "install_at (nd_ID m) g t q c = (c1, ok)" by fastforce
  have "nodes_rel R c c1" using i assms(2) by (rule rel_install_at)
  then show ?case using Cons i by (auto split: if_splits intro: rel_trans)
qed simp

lemma rel_InstallSnapshot:
  assumes "InstallSnapshotFromGlobal d c = (c', b, e)" "wf_nodes c"
  shows "nodes_rel R c c'"
proof (cases "c' = c")
  case False
  let ?g = "NodeID (gli_DomainLeader (cl_globalLeader c))"
  obtain n l t q where n: "look c ?g = Some n" "fmlookup (cl_domainLeaders c) d = Some l"
      "applied_boundary (sn_State n) = Some (t, q)"
    using False assms(1)
    by (auto simp: InstallSnapshotFromGlobal_def Let_def split: option.splits if_splits)
  have max: "ps_AppliedIndex (sn_State n) \<noteq> max_u64"
    using wf_nodesD [OF assms(2) n(1)] wf_known_lt_max by (auto simp: wf_state_def)
  obtain c1 ok where 1: "install_at (NodeID l) (sn_State n) t q c = (c1, ok)" by fastforce
  obtain c2 a where 2: "install_members (sn_State n) t q (NodeID l) (DomainMembers (cl_config c1) d) 1 c1 = (c2, a)"
    by fastforce
  have mark: "nodes_rel R c (mark_installed d k m c)" for c k m
    by (auto simp: mark_installed_def rel_raise split: option.splits)
  have 3: "nodes_rel R c2 (fold (mark_installed d (ps_AppliedIndex (sn_State n))) ms c2)" for ms
    by (rule rel_fold) (rule mark)
  have "c' = c1 \<or> c' = c2 \<or>
      c' = fold (mark_installed d (ps_AppliedIndex (sn_State n))) (DomainMembers (cl_config c1) d) c2"
    using False assms(1) n 1 2
    by (auto simp: InstallSnapshotFromGlobal_def Let_def split: if_splits bool.splits)
  then show ?thesis
    using rel_install_at [OF 1 max] rel_install_members [OF 2 max] 3 rel_trans by blast
qed simp

lemma rel_mark_started:
  "nodes_rel R c (fold (\<lambda>i c. resetElectionDeadlineLocked i
      (upd_node i (\<lambda>n. n\<lparr>sn_Stage := DomainElecting\<rparr>) c)) ids c)"
proof (rule rel_fold)
  fix i c
  let ?c = "upd_node i (\<lambda>n. n\<lparr>sn_Stage := DomainElecting\<rparr>) c"
  show "nodes_rel R c (resetElectionDeadlineLocked i ?c)"
  proof (cases "look c i")
    case None
    then show ?thesis by (intro rel_same) simp_all
  next
    case (Some n)
    then show ?thesis using soft [where n = n and g = DomainElecting and t = "reset_to ?c"]
      by (intro rel_at [of _ c i n]) simp_all
  qed
qed

lemma rel_StartNode:
  assumes "StartNode i c = (c', r)"
  shows "nodes_rel R c c'"
proof (cases "c' = c")
  case False
  let ?u = "upd_node i (\<lambda>n. n\<lparr>sn_Stage := DomainElecting, sn_DomainRole := Follower, sn_GlobalRole := Follower\<rparr>) c"
  obtain n where n: "look c i = Some n" "c' = upd_node i persist (resetElectionDeadlineLocked i ?u)"
    using False assms persist_at_eq [of i "resetElectionDeadlineLocked i ?u"]
    by (auto simp: StartNode_def split: option.splits if_splits)
  show ?thesis using n demote [where n = n and g = DomainElecting and t = "reset_to ?u"]
    by (intro rel_at [of _ c i n]) simp_all
qed simp

lemma rel_RestartNode:
  assumes "RestartNode i c = (c', r)" "durable_nodes c"
  shows "nodes_rel R c c'"
proof (cases "c' = c")
  case False
  then obtain n s where n: "look c i = Some n" "store_Load (sn_store n) = Inr s"
    using assms(1) by (auto simp: RestartNode_def split: option.splits sum.splits)
  then have s: "s = coerce_state (sn_State n)" using assms(2) by (auto simp: durable_nodes_iff durable_def)
  let ?u = "(upd_node i (\<lambda>n. n\<lparr>sn_State := s, sn_Stage := DomainElecting,
      sn_DomainRole := Follower, sn_GlobalRole := Follower\<rparr>) c)\<lparr>cl_network := net_Recover (cl_network c) i\<rparr>"
  have "c' = resetElectionDeadlineLocked i ?u" using assms(1) n by (auto simp: RestartNode_def)
  then show ?thesis using n(1) restart [where n = n and g = DomainElecting and t = "reset_to ?u"]
    by (intro rel_at [of _ c i n]) (simp_all add: s)
qed simp

lemma rel_electDomain_pre:
  assumes "look c i = Some n" "room c" "domain_votes i req ms v (domain_campaigned i n c) = (c', r)"
  shows "nodes_rel R c c'"
  using rel_domain_campaigned [OF assms(1)] roomD [OF assms(2,1)] rel_domain_votes [OF assms(3)] rel_trans by blast

lemma rel_electGlobal_pre:
  assumes "look c i = Some n" "room c" "global_votes i req ds v (global_campaigned i did n c) = (c', r)"
  shows "nodes_rel R c c'"
  using rel_global_campaigned [OF assms(1)] roomD [OF assms(2,1)] rel_global_votes [OF assms(3)] rel_trans by blast

end

locale domain_become = node_step +
  assumes become_domain: "R n (become_domain did n)"
begin

lemma rel_electDomain:
  assumes "electDomainLeaderLocked d i c = (c', out)" "room c"
  shows "nodes_rel R c c'"
  using assms(1)
proof (cases rule: electDomain_cases)
  case (unsaved n e)
  then show ?thesis using rel_domain_campaigned roomD [OF assms(2)] by blast
next
  case (lost n e r)
  then show ?thesis using rel_electDomain_pre assms(2) by blast
next
  case (won n c3 v identity)
  let ?u = "upd_node (NodeID identity) (Sim_Model.become_domain identity) (domain_announced identity c3)"
  have "nodes_rel R c c3" using won rel_electDomain_pre assms(2) by blast
  moreover have "nodes_rel R c3 ?u"
    using rel_domain_announced by (rule rel_trans) (auto intro: rel_upd become_domain)
  moreover have "c' = ?u \<or> c' = invalidateGlobalLeaderLocked ?u"
    using won by (auto simp: install_domain_leader_eq Let_def)
  ultimately show ?thesis using rel_invalidate rel_trans by blast
qed simp_all

lemma rel_reelect_domain:
  assumes "room c"
  shows "nodes_rel R c (reelect_domain d c)"
proof -
  have drop: "nodes_rel R c (c'\<lparr>cl_domainLeaders := x\<rparr>)" if "nodes_rel R c c'" for c' x
    using that by (simp add: nodes_rel_def)
  show ?thesis using rel_electDomain assms drop
    by (auto simp: reelect_domain_def split: option.splits prod.splits sum.splits)
qed

end

locale global_become = node_step +
  assumes become_global: "R n (become_global gid n)"
begin

lemma rel_electGlobal:
  assumes "electGlobalLeaderLocked i c = (c', out)" "room c"
  shows "nodes_rel R c c'"
  using assms(1)
proof (cases rule: electGlobal_cases)
  case (unsaved n did e)
  then show ?thesis using rel_global_campaigned roomD [OF assms(2)] by blast
next
  case (lost n did e r)
  then show ?thesis using rel_electGlobal_pre assms(2) by blast
next
  case (won n did c4 v identity)
  have "nodes_rel R c c4" using won rel_electGlobal_pre assms(2) by blast
  moreover have "nodes_rel R c4 c'" unfolding won(9) install_global_leader_eq
    using rel_global_announced by (rule rel_trans) (auto intro: rel_upd become_global)
  ultimately show ?thesis using rel_trans by blast
qed simp_all

end

locale full_step = domain_become + global_become

section \<open>Well-formed logs and durable states\<close>

text \<open>The election transitions leave the log, its boundaries and its results alone.\<close>

definition same_log :: "PersistentState \<Rightarrow> PersistentState \<Rightarrow> bool" where
  "same_log s s' \<longleftrightarrow> ps_Log s' = ps_Log s \<and> ps_SnapshotLastIndex s' = ps_SnapshotLastIndex s \<and>
     ps_AppliedIndex s' = ps_AppliedIndex s \<and> ps_KnownGlobalCommitIndex s' = ps_KnownGlobalCommitIndex s"

lemma same_log_wf: "same_log s s' \<Longrightarrow> wf_state s' = wf_state s"
  by (rule wf_state_frame) (simp_all add: same_log_def)

lemma transitions_same_log:
  "transitionDomainVote s r req = (s', r', resp, b) \<Longrightarrow> same_log s s'"
  "transitionObserveHigherDomainTerm s r t = (s', r', b) \<Longrightarrow> same_log s s'"
  "transitionAcceptDomainLeader s r i did = (s', r', b) \<Longrightarrow> same_log s s'"
  "transitionGlobalVote s r g greq = (s', r', g', gresp, b, h) \<Longrightarrow> same_log s s'"
  "transitionObserveHigherGlobalTerm s r g t = (s', r', g', b) \<Longrightarrow> same_log s s'"
  by (auto simp: same_log_def transition_defs Let_def split: if_splits prod.splits)

lemma nodes_same_log:
  "same_log (sn_State n) (sn_State (start_domain_campaign n))"
  "same_log (sn_State n) (sn_State (start_global_campaign did n))"
  "same_log (sn_State n) (sn_State (revoke n))"
  "same_log (sn_State n) (sn_State (accept_global gid n))"
  "same_log (sn_State n) (sn_State (become_domain did n))"
  "same_log (sn_State n) (sn_State (become_global gid n))"
  by (auto simp: same_log_def start_domain_campaign_def start_global_campaign_def revoke_def accept_global_def
      become_domain_def become_global_def transition_defs Let_def split: if_splits prod.splits)

lemma wf_coerce [simp]: "wf_state (coerce_state s) = wf_state s"
proof -
  have "contig b (map coerce_entry l) = contig b l" for b l by (auto simp: contig_def)
  then show ?thesis by (simp add: wf_state_def)
qed

interpretation wf_step: full_step "\<lambda>n n'. wf_state (sn_State n) \<longrightarrow> wf_state (sn_State n')"
proof
  fix n did gid
  show "(wf_state (sn_State n) \<longrightarrow> wf_state (sn_State (persist (start_global_campaign did n)))) \<and>
    (wf_state (sn_State n) \<longrightarrow> wf_state (sn_State (persist (revoke (start_global_campaign did n)))))"
    using nodes_same_log [THEN same_log_wf] by simp
qed (auto simp: data_le_def nodes_same_log [THEN same_log_wf] dest: transitions_same_log [THEN same_log_wf])

lemma reliable_save: "reliable st \<Longrightarrow> store_Save st s = (st', e) \<Longrightarrow> reliable st' \<and> e = None"
  by (cases st) (auto simp: MemoryStore_Save_def FileStore_Save_def Let_def split: if_splits)

lemma reliable_readable: "reliable st \<Longrightarrow> readable st"
  by (cases st) auto

lemma durable_persist: "reliable (sn_store n) \<Longrightarrow> durable (persist n)"
proof -
  assume r: "reliable (sn_store n)"
  obtain st e where s: "store_Save (sn_store n) (sn_State n) = (st, e)" by fastforce
  then have "reliable st" "e = None" using reliable_save [OF r s] by auto
  moreover have "store_Load st = Inr (coerce_state (sn_State n))"
    using anystore.load_saved reliable_readable [OF r] s \<open>e = None\<close> by blast
  ultimately show ?thesis using s by (simp add: durable_def persist_def persistLocked_def)
qed

lemma campaign_store [simp]:
  "sn_store (start_domain_campaign n) = sn_store n" "sn_store (start_global_campaign did n) = sn_store n"
  by (simp_all add: start_domain_campaign_def start_global_campaign_def split: prod.splits)

lemma durable_updates:
  "reliable (sn_store n) \<Longrightarrow> durable (revoke n)"
  "reliable (sn_store n) \<Longrightarrow> durable (accept_global gid n)"
  "reliable (sn_store n) \<Longrightarrow> durable (become_domain did n)"
  "reliable (sn_store n) \<Longrightarrow> durable (become_global gid n)"
  by (auto simp: revoke_def accept_global_def become_domain_def become_global_def
      intro!: durable_persist split: prod.splits)

lemma durable_reliable: "durable n \<Longrightarrow> reliable (sn_store n)"
  by (simp add: durable_def)

interpretation durable_step: full_step "\<lambda>n n'. durable n \<longrightarrow> durable n'"
proof
  fix n g t
  show "durable n \<longrightarrow> durable (n\<lparr>sn_Stage := g, sn_ElectionDeadline := t\<rparr>)"
    by (simp add: durable_def)
  show "durable n \<longrightarrow> durable (n\<lparr>sn_State := coerce_state (sn_State n), sn_Stage := g, sn_DomainRole := Follower,
      sn_GlobalRole := Follower, sn_ElectionDeadline := t\<rparr>)"
    by (simp add: durable_def)
  show "(durable n \<longrightarrow> durable (persist (start_global_campaign did n))) \<and>
      (durable n \<longrightarrow> durable (persist (revoke (start_global_campaign did n))))" for did
    using durable_reliable [of n] durable_updates(1) [of "start_global_campaign did n"]
    by (auto simp: durable_persist durable_reliable)
qed (auto dest!: durable_reliable intro!: durable_persist durable_updates)

section \<open>Steps and runs\<close>

inductive cluster_step :: "Cluster \<Rightarrow> Cluster \<Rightarrow> bool" where
  elect_domain: "electDomainLeaderLocked d i c = (c', r) \<Longrightarrow> room c \<Longrightarrow> cluster_step c c'"
| elect_global: "electGlobalLeaderLocked i c = (c', gr) \<Longrightarrow> room c \<Longrightarrow> cluster_step c c'"
| reelect: "room c \<Longrightarrow> cluster_step c (reelect_domain d c)"
| vote_domain: "handleDomainVoteLocked i req c = (c', resp) \<Longrightarrow> cluster_step c c'"
| vote_global: "handleGlobalVoteLocked i greq c = (c', gresp) \<Longrightarrow> cluster_step c c'"
| heartbeat_domain: "SendDomainHeartbeat did c = (c', ok) \<Longrightarrow> cluster_step c c'"
| heartbeat_global: "SendGlobalHeartbeat gid c = (c', ok) \<Longrightarrow> cluster_step c c'"
| invalidate: "cluster_step c (invalidateGlobalLeaderLocked c)"
| mark_started: "cluster_step c (fold (\<lambda>i c. resetElectionDeadlineLocked i
      (upd_node i (\<lambda>n. n\<lparr>sn_Stage := DomainElecting\<rparr>) c)) (node_ids c) c)"
| start_node: "StartNode i c = (c', e) \<Longrightarrow> cluster_step c c'"
| restart_node: "RestartNode i c = (c', e) \<Longrightarrow> cluster_step c c'"
| new_network: "cluster_step c (c\<lparr>cl_network := net\<rparr>)"
| advance_clock: "cluster_step c (cluster_Advance t c)"
| set_fast: "cluster_step c (SetFastReturnEnabled c b)"
| client_write: "Write i wreq c = (c', out) \<Longrightarrow> room c \<Longrightarrow> cluster_step c c'"
| client_read: "Read i k c = (c', v) \<Longrightarrow> cluster_step c c'"
| reconcile: "cluster_step c (Reconcile c)"
| compact_log: "Compact i keep c = Some (c', ok, e) \<Longrightarrow> cluster_step c c'"
| install_snapshot: "InstallSnapshotFromGlobal d c = (c', ok, e) \<Longrightarrow> cluster_step c c'"

context node_step
begin

text \<open>Every step but the two that can create a leader.\<close>

lemma rel_step:
  assumes "cluster_step c c'" "wf_nodes c" "durable_nodes c"
    and dom: "\<And>d i r. electDomainLeaderLocked d i c = (c', r) \<Longrightarrow> room c \<Longrightarrow> nodes_rel R c c'"
    and re: "\<And>d. c' = reelect_domain d c \<Longrightarrow> room c \<Longrightarrow> nodes_rel R c c'"
    and glob: "\<And>i r. electGlobalLeaderLocked i c = (c', r) \<Longrightarrow> room c \<Longrightarrow> nodes_rel R c c'"
  shows "nodes_rel R c c'"
  using assms(1)
proof cases
  case elect_domain
  then show ?thesis by (rule dom)
next
  case elect_global
  then show ?thesis by (rule glob)
next
  case (reelect d)
  then show ?thesis using re by blast
next
  case mark_started
  then show ?thesis using rel_mark_started by simp
qed (auto intro: rel_domain_vote rel_global_vote rel_SendDomainHeartbeat rel_SendGlobalHeartbeat rel_invalidate
      rel_StartNode rel_RestartNode [OF _ assms(3)] rel_Write [OF _ _ assms(2)] rel_Read rel_Reconcile rel_Compact
      rel_InstallSnapshot [OF _ assms(2)] rel_same
      simp: cluster_Advance_def SetFastReturnEnabled_def)

end

context full_step
begin

lemma rel_any_step:
  assumes "cluster_step c c'" "wf_nodes c" "durable_nodes c"
  shows "nodes_rel R c c'"
  using assms by (rule rel_step) (use rel_electDomain rel_electGlobal rel_reelect_domain in blast)+

end

section \<open>Clusters that a constructor and steps produce\<close>

text \<open>The nodes are exactly the configured ones, under their own identifiers.\<close>

definition wf_cluster :: "Cluster \<Rightarrow> bool" where
  "wf_cluster c \<longleftrightarrow> distinct (map nd_ID (cfg_Nodes (cl_config c))) \<and>
     (\<forall>i. map_option (\<lambda>n. (sn_ID n, sn_DomainCode n)) (look c i) =
          map_option (\<lambda>m. (nd_ID m, nd_DomainCode m)) (config_Node (cl_config c) i))"

lemma wf_cluster_node:
  assumes "wf_cluster c" "look c i = Some n"
  shows "sn_ID n = i" "\<exists>m \<in> set (cfg_Nodes (cl_config c)). nd_ID m = i \<and> nd_DomainCode m = sn_DomainCode n"
proof -
  have "map_option (\<lambda>n. (sn_ID n, sn_DomainCode n)) (look c i) =
      map_option (\<lambda>m. (nd_ID m, nd_DomainCode m)) (config_Node (cl_config c) i)"
    using assms(1) by (simp add: wf_cluster_def)
  then obtain m where m: "config_Node (cl_config c) i = Some m" "nd_ID m = sn_ID n" "nd_DomainCode m = sn_DomainCode n"
    using assms(2) by (cases "config_Node (cl_config c) i") auto
  then have "m \<in> set (cfg_Nodes (cl_config c)) \<and> nd_ID m = i"
    using config_Node_Some assms(1) by (auto simp: wf_cluster_def)
  then show "sn_ID n = i" "\<exists>m \<in> set (cfg_Nodes (cl_config c)). nd_ID m = i \<and> nd_DomainCode m = sn_DomainCode n"
    using m by auto
qed

lemma wf_cluster_member:
  assumes "wf_cluster c" "m \<in> set (cfg_Nodes (cl_config c))"
  shows "\<exists>n. look c (nd_ID m) = Some n \<and> sn_DomainCode n = nd_DomainCode m"
proof -
  have "config_Node (cl_config c) (nd_ID m) = Some m"
    using assms config_Node_Some by (auto simp: wf_cluster_def)
  then have "map_option (\<lambda>n. (sn_ID n, sn_DomainCode n)) (look c (nd_ID m)) = Some (nd_ID m, nd_DomainCode m)"
    using assms(1) by (simp add: wf_cluster_def)
  then show ?thesis by auto
qed

lemma Domains_cong: "cfg_Nodes a = cfg_Nodes b \<Longrightarrow> Domains a = Domains b"
  by (simp add: Domains_def ConsensusDomains_def)

lemma DomainMembers_cong: "cfg_Nodes a = cfg_Nodes b \<Longrightarrow> DomainMembers a = DomainMembers b"
  by (auto simp: DomainMembers_def)

lemma config_Node_cong: "cfg_Nodes a = cfg_Nodes b \<Longrightarrow> config_Node a = config_Node b"
  by (auto simp: config_Node_def)

definition same_name :: "SimNode \<Rightarrow> SimNode \<Rightarrow> bool" where
  "same_name n n' \<longleftrightarrow> sn_ID n' = sn_ID n \<and> sn_DomainCode n' = sn_DomainCode n"

lemma nodes_same_name:
  "same_name n (start_domain_campaign n)" "same_name n (start_global_campaign did n)"
  "same_name n (revoke n)" "same_name n (accept_global gid n)"
  "same_name n (become_domain did n)" "same_name n (become_global gid n)"
  by (simp_all add: same_name_def start_domain_campaign_def start_global_campaign_def revoke_def accept_global_def
      become_domain_def become_global_def split: prod.splits)

interpretation name_step: full_step same_name
proof
  fix n did
  show "same_name n (persist (start_global_campaign did n)) \<and> same_name n (persist (revoke (start_global_campaign did n)))"
    using nodes_same_name(2) [of n did] nodes_same_name(3) [of "start_global_campaign did n"]
    by (simp add: same_name_def)
  show "same_name n (persist (start_domain_campaign n\<lparr>sn_ElectionDeadline := t\<rparr>))" for t
    using nodes_same_name(1) [of n] by (simp add: same_name_def)
qed (use nodes_same_name in \<open>auto simp: same_name_def\<close>)

lemma nodes_rel_name:
  assumes "nodes_rel same_name c c'" "wf_cluster c"
  shows "wf_cluster c'"
proof -
  have cfg: "cfg_Nodes (cl_config c') = cfg_Nodes (cl_config c)" using assms(1) by (simp add: nodes_rel_def)
  have "map_option (\<lambda>n. (sn_ID n, sn_DomainCode n)) (look c' i) =
      map_option (\<lambda>n. (sn_ID n, sn_DomainCode n)) (look c i)" for i
  proof -
    have "rel_option same_name (look c i) (look c' i)" using assms(1) by (simp add: nodes_rel_def)
    then show ?thesis by (cases "look c i"; cases "look c' i") (simp_all add: same_name_def)
  qed
  then show ?thesis using assms(2) config_Node_cong [OF cfg] cfg by (simp add: wf_cluster_def)
qed

text \<open>The invariant the other invariants rest on.\<close>

definition sound :: "Cluster \<Rightarrow> bool" where
  "sound c \<longleftrightarrow> wf_cluster c \<and> wf_nodes c \<and> durable_nodes c"

lemma sound_step:
  assumes "cluster_step c c'" "sound c"
  shows "sound c'"
proof -
  have wf: "wf_nodes c" "durable_nodes c" using assms(2) by (auto simp: sound_def)
  have "nodes_rel same_name c c'" using assms(1) wf by (rule name_step.rel_any_step)
  moreover have "wf_nodes c'" unfolding wf_nodes_def fmpred_iff
    using nodes_rel_look [OF wf_step.rel_any_step [OF assms(1) wf]] wf_nodesD [OF wf(1)] by blast
  moreover have "durable_nodes c'" unfolding durable_nodes_iff
    using nodes_rel_look [OF durable_step.rel_any_step [OF assms(1) wf]] wf(2) durable_nodes_iff by blast
  ultimately show ?thesis using assms(2) nodes_rel_name by (auto simp: sound_def)
qed

lemma sound_run: "cluster_step\<^sup>*\<^sup>* c c' \<Longrightarrow> sound c \<Longrightarrow> sound c'"
  by (induction rule: rtranclp_induct) (auto intro: sound_step)

lemma load_nodes_spec:
  assumes "load_nodes stores ms nodes = Inr nodes'"
  shows "fmlookup nodes' i =
    (case List.find (\<lambda>m. nd_ID m = i) (rev ms) of
       None \<Rightarrow> fmlookup nodes i
     | Some m \<Rightarrow> (case store_Load (get_or (MemoryStore NewMemoryStore) stores i) of
         Inl _ \<Rightarrow> None
       | Inr s \<Rightarrow> Some \<lparr>sn_ID = nd_ID m, sn_DomainCode = nd_DomainCode m, sn_Stage = Booting,
                sn_DomainRole = Follower, sn_GlobalRole = Follower, sn_ElectionDeadline = 0,
                sn_State = s, sn_store = get_or (MemoryStore NewMemoryStore) stores i\<rparr>))"
  using assms
proof (induction ms arbitrary: nodes)
  case Nil
  then show ?case by simp
next
  case (Cons m ms)
  have find: "List.find P (xs @ [x]) = (case List.find P xs of None \<Rightarrow> if P x then Some x else None | Some y \<Rightarrow> Some y)"
    for P and xs :: "Node list" and x by (induction xs) auto
  show ?case using Cons by (auto simp: Let_def find split: sum.splits option.splits)
qed

lemma option_eqI: "(\<And>x. a = Some x \<longleftrightarrow> b = Some x) \<Longrightarrow> a = b"
  by (cases a; cases b) auto

lemma find_distinct:
  "distinct (map f ys) \<Longrightarrow> List.find (\<lambda>x. f x = k) ys = Some x \<longleftrightarrow> x \<in> set ys \<and> f x = k"
  by (induction ys) auto

lemma find_rev:
  assumes "distinct (map f xs)"
  shows "List.find (\<lambda>x. f x = k) (rev xs) = List.find (\<lambda>x. f x = k) xs"
proof -
  have "distinct (map f (rev xs))" using assms by (simp add: rev_map [symmetric])
  then have "List.find (\<lambda>x. f x = k) (rev xs) = Some x \<longleftrightarrow> List.find (\<lambda>x. f x = k) xs = Some x" for x
    using find_distinct [of f "rev xs"] find_distinct [OF assms] by simp
  then show ?thesis by (rule option_eqI)
qed

text \<open>What is asked of the stores a cluster is built on: they work, and what they hold is a state
  that \<open>Save\<close> can have written (valid UTF-8) with a well-formed log.\<close>

definition good_stores :: "Config \<Rightarrow> Store gomap \<Rightarrow> bool" where
  "good_stores config stores \<longleftrightarrow>
     list_all (\<lambda>m. let st = get_or (MemoryStore NewMemoryStore) stores (nd_ID m) in
       reliable st \<and> (case store_Load st of Inl _ \<Rightarrow> True | Inr s \<Rightarrow> wf_state s \<and> valid_state s)) (cfg_Nodes config)"

lemma NewCluster_nodes:
  assumes "NewCluster rng config stores net clk = Inr c"
  shows "config_Validate config = None" "cl_config c = config" "cl_domainLeaders c = fmempty" "cl_globalLeader c = no_gli"
    "look c i = Some n \<Longrightarrow> \<exists>m \<in> set (cfg_Nodes config). nd_ID m = i \<and> sn_DomainRole n = Follower \<and>
       sn_GlobalRole n = Follower \<and> sn_store n = get_or (MemoryStore NewMemoryStore) stores i \<and>
       store_Load (sn_store n) = Inr (sn_State n)"
    "wf_cluster c"
proof -
  obtain nodes where l: "load_nodes stores (cfg_Nodes config) fmempty = Inr nodes" "cl_nodes c = nodes"
    and v: "config_Validate config = None" and c: "cl_config c = config"
    and init: "cl_domainLeaders c = fmempty" "cl_globalLeader c = no_gli"
    using assms by (auto simp: NewCluster_def split: option.splits sum.splits)
  have d: "distinct (map nd_ID (cfg_Nodes config))" using v Validate_None by (simp add: valid_config_def)
  have lk: "look c j = (case config_Node config j of None \<Rightarrow> None
     | Some m \<Rightarrow> (case store_Load (get_or (MemoryStore NewMemoryStore) stores j) of
         Inl _ \<Rightarrow> None
       | Inr s \<Rightarrow> Some \<lparr>sn_ID = nd_ID m, sn_DomainCode = nd_DomainCode m, sn_Stage = Booting,
                sn_DomainRole = Follower, sn_GlobalRole = Follower, sn_ElectionDeadline = 0,
                sn_State = s, sn_store = get_or (MemoryStore NewMemoryStore) stores j\<rparr>))" for j
    using load_nodes_spec [OF l(1), of j] l(2) find_rev [OF d, of j]
    by (cases "config_Node config j") (simp_all add: config_Node_def)
  show "config_Validate config = None" "cl_config c = config" "cl_domainLeaders c = fmempty" "cl_globalLeader c = no_gli"
    using v c init by auto
  show "\<exists>m \<in> set (cfg_Nodes config). nd_ID m = i \<and> sn_DomainRole n = Follower \<and>
       sn_GlobalRole n = Follower \<and> sn_store n = get_or (MemoryStore NewMemoryStore) stores i \<and>
       store_Load (sn_store n) = Inr (sn_State n)" if n: "look c i = Some n"
  proof -
    obtain m where m: "config_Node config i = Some m" using n lk [of i] by (cases "config_Node config i") auto
    moreover obtain s where "store_Load (get_or (MemoryStore NewMemoryStore) stores i) = Inr s"
      using n lk [of i] m by (cases "store_Load (get_or (MemoryStore NewMemoryStore) stores i)") auto
    ultimately show ?thesis using n lk [of i] config_Node_Some [OF d, of i m] by auto
  qed
  have loads: "store_Load (get_or (MemoryStore NewMemoryStore) stores (nd_ID m)) = Inl e \<Longrightarrow> False"
    if "m \<in> set ms" "load_nodes stores ms x = Inr y" for m ms x y e
    using that by (induction ms arbitrary: x) (auto simp: Let_def split: sum.splits)
  have "map_option (\<lambda>n. (sn_ID n, sn_DomainCode n)) (look c j) =
      map_option (\<lambda>m. (nd_ID m, nd_DomainCode m)) (config_Node config j)" for j
  proof (cases "config_Node config j")
    case None
    then show ?thesis using lk [of j] by simp
  next
    case (Some m)
    then have "m \<in> set (cfg_Nodes config)" "nd_ID m = j" using config_Node_Some [OF d] by auto
    then show ?thesis using lk [of j] Some loads [OF _ l(1), of m]
      by (cases "store_Load (get_or (MemoryStore NewMemoryStore) stores j)") auto
  qed
  then show "wf_cluster c" using d c by (simp add: wf_cluster_def)
qed

lemma NewCluster_sound:
  assumes "NewCluster rng config stores net clk = Inr c" "good_stores config stores"
  shows "sound c"
proof -
  note nc = NewCluster_nodes [OF assms(1)]
  have "reliable (sn_store n) \<and> wf_state (sn_State n) \<and> valid_state (sn_State n)"
    if n: "look c i = Some n" for i n
    using nc(5) [OF n] assms(2) by (auto simp: good_stores_def list_all_iff Let_def split: sum.splits)
  moreover have "store_Load (sn_store n) = Inr (sn_State n)" if n: "look c i = Some n" for i n
    using nc(5) [OF n] by auto
  ultimately have "wf_nodes c" "durable_nodes c"
    by (auto simp: wf_nodes_def fmpred_iff durable_nodes_iff durable_def coerce_state_valid)
  then show ?thesis using nc(6) by (simp add: sound_def)
qed

end
