(* ===== verification/Sim_Elections.thy ===== *)
theory Sim_Elections
  imports Sim_Runs
begin

text \<open>
  Election safety of the simulated cluster: at most one leader per domain and domain term, in every
  run, with crashes, restarts, partitions and message loss.  A leader holds a mandate: a majority of
  its domain that voted for it in its term or has moved on.  The mandate survives every step, and a
  second winner of the same term would need a vote from it.
\<close>

section \<open>Votes across restarts\<close>

text \<open>\<open>dvote_le\<close> weakened by what a restart can do to a vote: a name that is not valid UTF-8 does not
  survive the JSON file.\<close>

definition dvote_ok :: "PersistentState \<Rightarrow> PersistentState \<Rightarrow> bool" where
  "dvote_ok s s' \<longleftrightarrow> ps_DomainTerm s \<le> ps_DomainTerm s' \<and>
     (ps_DomainTerm s' = ps_DomainTerm s \<longrightarrow> ps_DomainVotedFor s \<noteq> [] \<longrightarrow> valid_utf8 (ps_DomainVotedFor s) \<longrightarrow>
        ps_DomainVotedFor s' = ps_DomainVotedFor s)"

lemma dvote_le_ok: "dvote_le s s' \<Longrightarrow> dvote_ok s s'"
  by (simp add: dvote_le_def dvote_ok_def)

lemma dvote_ok_refl [simp]: "dvote_ok s s"
  by (simp add: dvote_ok_def)

lemma dvote_ok_trans: "dvote_ok s t \<Longrightarrow> dvote_ok t u \<Longrightarrow> dvote_ok s u"
  unfolding dvote_ok_def by (metis order.antisym order.trans)

lemma dvote_ok_coerce: "dvote_ok s (coerce_state s)"
  by (simp add: dvote_ok_def)

text \<open>A node keeps its votes and does not become a domain leader.\<close>

definition dquiet :: "SimNode \<Rightarrow> SimNode \<Rightarrow> bool" where
  "dquiet n n' \<longleftrightarrow> same_name n n' \<and> dvote_ok (sn_State n) (sn_State n') \<and>
     (sn_DomainRole n' = Leader \<longrightarrow>
        sn_DomainRole n = Leader \<and> ps_DomainTerm (sn_State n') = ps_DomainTerm (sn_State n))"

lemma dquiet_trans: "dquiet n n' \<Longrightarrow> dquiet n' n'' \<Longrightarrow> dquiet n n''"
  by (auto simp: dquiet_def same_name_def dest: dvote_ok_trans)

lemma dquiet_persist [simp]: "dquiet n (persist n') = dquiet n n'"
  by (simp add: dquiet_def same_name_def)

lemma dquiet_global:
  "dquiet n (revoke n)" "dquiet n (accept_global gid n)" "dquiet n (become_global gid n)"
  "dquiet n (start_global_campaign did n)"
  by (auto simp: dquiet_def same_name_def revoke_def accept_global_def become_global_def
      start_global_campaign_def transition_defs Let_def dvote_ok_def split: prod.splits)

lemma dquiet_campaign:
  assumes "ps_DomainTerm (sn_State n) \<noteq> max_u64"
  shows "dquiet n (start_domain_campaign n\<lparr>sn_ElectionDeadline := t\<rparr>)"
  using u64_less_plus1 [OF assms]
  by (auto simp: dquiet_def same_name_def start_domain_campaign_def transition_defs Let_def dvote_ok_def)

interpretation dstep: global_become dquiet
proof
  fix n did
  show "dquiet n (persist (start_global_campaign did n)) \<and> dquiet n (persist (revoke (start_global_campaign did n)))"
    using dquiet_global dquiet_trans by (metis dquiet_persist)
  fix s r g resp b h t
  show "dquiet n (persist (n\<lparr>sn_State := s, sn_GlobalRole := r, sn_Stage := g\<rparr>))"
    if "transitionGlobalVote (sn_State n) (sn_GlobalRole n) (sn_Stage n) req = (s, r, g, resp, b, h)" for req
    using that
    by (auto simp: dquiet_def same_name_def transition_defs Let_def dvote_ok_def split: if_splits prod.splits)
  show "dquiet n (persist (n\<lparr>sn_State := s, sn_GlobalRole := r, sn_Stage := g\<rparr>))"
    if "transitionObserveHigherGlobalTerm (sn_State n) (sn_GlobalRole n) (sn_Stage n) t = (s, r, g, b)"
    using that by (auto simp: dquiet_def same_name_def transition_defs dvote_ok_def split: if_splits)
  show "dquiet n (persist (n\<lparr>sn_State := s\<rparr>))" if "data_le (sn_State n) s"
    using that by (simp add: dquiet_def same_name_def data_le_def same_election_def dvote_ok_def)
qed (auto simp: dquiet_global dquiet_campaign intro: dquiet_trans,
     auto simp: dquiet_def same_name_def dvote_ok_coerce
       dest: DomainVote_cases Observe_domain AcceptDomain_cases intro: dvote_le_ok)

section \<open>Evidence of a vote\<close>

definition voted :: "u64 \<Rightarrow> string \<Rightarrow> PersistentState \<Rightarrow> bool" where
  "voted t i s \<longleftrightarrow> t < ps_DomainTerm s \<or> ps_DomainTerm s = t \<and> ps_DomainVotedFor s = i"

definition could_vote :: "u64 \<Rightarrow> string \<Rightarrow> PersistentState \<Rightarrow> bool" where
  "could_vote t i s \<longleftrightarrow> ps_DomainTerm s < t \<or> ps_DomainTerm s = t \<and>
     (ps_DomainVotedFor s = [] \<or> \<not> valid_utf8 (ps_DomainVotedFor s) \<or> ps_DomainVotedFor s = i)"

lemma voted_mono: "voted t i s \<Longrightarrow> dvote_ok s s' \<Longrightarrow> i \<noteq> [] \<Longrightarrow> valid_utf8 i \<Longrightarrow> voted t i s'"
  by (cases "ps_DomainTerm s' = ps_DomainTerm s") (auto simp: voted_def dvote_ok_def)

lemma could_vote_before: "could_vote t i s' \<Longrightarrow> dvote_ok s s' \<Longrightarrow> could_vote t i s"
  by (cases "ps_DomainTerm s' = ps_DomainTerm s") (auto simp: could_vote_def dvote_ok_def)

lemma vote_conflict: "voted t i s \<Longrightarrow> could_vote t j s \<Longrightarrow> i \<noteq> [] \<Longrightarrow> valid_utf8 i \<Longrightarrow> i = j"
  by (auto simp: voted_def could_vote_def)

lemma handleDomainVote_granted:
  assumes "handleDomainVoteLocked q req c = (c', resp)" "dvp_Granted resp"
  obtains n n' where "look c q = Some n" "look c' q = Some n'"
    "could_vote (dvr_DomainTerm req) (dvr_Candidate req) (sn_State n)"
    "voted (dvr_DomainTerm req) (dvr_Candidate req) (sn_State n')"
proof -
  obtain n s r b where n: "look c q = Some n"
    and t: "transitionDomainVote (sn_State n) (sn_DomainRole n) req = (s, r, resp, b)"
    and c': "c' = upd_node q persist
       (if b then resetElectionDeadlineLocked q (upd_node q (\<lambda>n. n\<lparr>sn_State := s, sn_DomainRole := r\<rparr>) c)
        else upd_node q (\<lambda>n. n\<lparr>sn_State := s, sn_DomainRole := r\<rparr>) c)"
    and le: "\<not> dvr_DomainTerm req < ps_DomainTerm (sn_State n)"
    using assms by (auto simp: handleDomainVoteLocked_def Let_def split: option.splits if_splits prod.splits)
  have b: b using assms(2) DomainVote_cases(4) [OF t] by simp
  note g = DomainVote_cases(3) [OF t b]
  have "could_vote (dvr_DomainTerm req) (dvr_Candidate req) (sn_State n)"
    using g le by (auto simp: could_vote_def)
  moreover have "\<exists>n'. look c' q = Some n' \<and> voted (dvr_DomainTerm req) (dvr_Candidate req) (sn_State n')"
    using g n b by (auto simp: c' voted_def)
  ultimately show thesis using n that by blast
qed

lemma handleDomainVote_other:
  "handleDomainVoteLocked q req c = (c', resp) \<Longrightarrow> j \<noteq> q \<Longrightarrow> look c' j = look c j"
  by (auto simp: handleDomainVoteLocked_def Let_def split: option.splits if_splits prod.splits)

lemma domain_votes_candidate: "domain_votes i req ms v c = (c', Inr v') \<Longrightarrow> look c' i = look c i"
proof (induction ms arbitrary: v c)
  case Nil
  then show ?case by simp
next
  case (Cons m ms)
  obtain c1 resp where h: "handleDomainVoteLocked (nd_ID m) req c = (c1, resp)" by fastforce
  show ?case using Cons h handleDomainVote_other [OF h, of i]
    by (auto split: if_splits option.splits prod.splits)
qed

text \<open>The votes counted come from distinct members that could still vote and then had voted.\<close>

lemma domain_votes_evidence:
  assumes "domain_votes i req ms v c = (c', Inr v')" "distinct (map nd_ID ms)"
    and i: "dvr_Candidate req = i" "i \<noteq> []" "valid_utf8 i"
  shows "\<exists>Q. Q \<subseteq> nd_ID ` set ms - {i} \<and> v' = v + card Q \<and>
    (\<forall>q \<in> Q. \<exists>n n'. look c q = Some n \<and> look c' q = Some n' \<and>
       could_vote (dvr_DomainTerm req) i (sn_State n) \<and> voted (dvr_DomainTerm req) i (sn_State n'))"
  using assms(1,2)
proof (induction ms arbitrary: v c)
  case Nil
  then show ?case by (intro exI [of _ "{}"]) simp
next
  case (Cons m ms)
  have finQ: "finite Q" if "Q \<subseteq> nd_ID ` set ms - {i}" for Q using that finite_subset by blast
  show ?case
  proof (cases "nd_ID m = i \<or> \<not> CanSend (cl_network c) i (nd_ID m) DomainVoteMessage")
    case True
    then show ?thesis using Cons by fastforce
  next
    case False
    obtain c1 resp where h: "handleDomainVoteLocked (nd_ID m) req c = (c1, resp)" by fastforce
    let ?v = "if dvp_Granted resp then v + 1 else v"
    have rest: "domain_votes i req ms ?v c1 = (c', Inr v')"
      using Cons.prems False h by (auto split: option.splits if_splits prod.splits)
    then obtain Q where Q: "Q \<subseteq> nd_ID ` set ms - {i}" "v' = ?v + card Q"
      "\<forall>q \<in> Q. \<exists>n n'. look c1 q = Some n \<and> look c' q = Some n' \<and>
         could_vote (dvr_DomainTerm req) i (sn_State n) \<and> voted (dvr_DomainTerm req) i (sn_State n')"
      using Cons.IH [of ?v c1] Cons.prems(2) by auto
    have m: "nd_ID m \<notin> Q" using Q(1) Cons.prems(2) by auto
    have old: "look c q = look c1 q" if "q \<in> Q" for q
      using handleDomainVote_other [OF h] that m by metis
    show ?thesis
    proof (cases "dvp_Granted resp")
      case False
      then show ?thesis using Q old by (intro exI [of _ Q]) auto
    next
      case True
      obtain n n' where n: "look c (nd_ID m) = Some n" "look c1 (nd_ID m) = Some n'"
          "could_vote (dvr_DomainTerm req) i (sn_State n)" "voted (dvr_DomainTerm req) i (sn_State n')"
        using handleDomainVote_granted [OF h True] i(1) by blast
      obtain n'' where n'': "look c' (nd_ID m) = Some n''" "dquiet n' n''"
        using nodes_rel_look_fwd [OF dstep.rel_domain_votes [OF rest] n(2)] by blast
      then have "voted (dvr_DomainTerm req) i (sn_State n'')"
        using voted_mono [OF n(4)] i by (auto simp: dquiet_def)
      then show ?thesis using Q old n n'' m finQ [OF Q(1)] True False
        by (intro exI [of _ "insert (nd_ID m) Q"]) auto
    qed
  qed
qed

section \<open>Mandates\<close>

abbreviation member_ids :: "Cluster \<Rightarrow> string \<Rightarrow> string set" where
  "member_ids c d \<equiv> nd_ID ` set (DomainMembers (cl_config c) d)"

definition ids_ok :: "Config \<Rightarrow> bool" where
  "ids_ok config = list_all (\<lambda>m. nd_ID m \<noteq> [] \<and> nd_DomainCode m \<noteq> [] \<and>
     valid_utf8 (nd_ID m) \<and> valid_utf8 (nd_DomainCode m)) (cfg_Nodes config)"

definition mandate :: "Cluster \<Rightarrow> string \<Rightarrow> string \<Rightarrow> u64 \<Rightarrow> bool" where
  "mandate c d i t \<longleftrightarrow>
     (\<exists>Q \<subseteq> member_ids c d. majority (length (DomainMembers (cl_config c) d)) \<le> card Q \<and>
        (\<forall>q \<in> Q. \<exists>m. look c q = Some m \<and> voted t i (sn_State m)))"

definition domain_leader_at :: "Cluster \<Rightarrow> string \<Rightarrow> string \<Rightarrow> u64 \<Rightarrow> bool" where
  "domain_leader_at c i d t \<longleftrightarrow>
     (\<exists>n. look c i = Some n \<and> sn_DomainRole n = Leader \<and> sn_DomainCode n = d \<and>
        ps_DomainTerm (sn_State n) = t)"

definition dinv :: "Cluster \<Rightarrow> bool" where
  "dinv c \<longleftrightarrow> ids_ok (cl_config c) \<and>
     (\<forall>i d t. domain_leader_at c i d t \<longrightarrow> mandate c d i t) \<and>
     (\<forall>i j d t. domain_leader_at c i d t \<longrightarrow> domain_leader_at c j d t \<longrightarrow> i = j)"

lemma ids_ok_node:
  assumes "ids_ok (cl_config c)" "wf_cluster c" "look c i = Some n"
  shows "i \<noteq> []" "valid_utf8 i"
  using wf_cluster_node(2) [OF assms(2,3)] assms(1) by (auto simp: ids_ok_def list_all_iff)

lemma domain_leader_before:
  assumes "nodes_rel dquiet c c'" "domain_leader_at c' i d t"
  shows "domain_leader_at c i d t"
proof -
  obtain n' where n': "look c' i = Some n'" "sn_DomainRole n' = Leader" "sn_DomainCode n' = d"
      "ps_DomainTerm (sn_State n') = t" using assms(2) by (auto simp: domain_leader_at_def)
  obtain n where "look c i = Some n" "dquiet n n'" using nodes_rel_look [OF assms(1) n'(1)] by blast
  then show ?thesis using n' by (auto simp: domain_leader_at_def dquiet_def same_name_def)
qed

lemma mandate_rel:
  assumes "mandate c d i t" "i \<noteq> []" "valid_utf8 i" "cfg_Nodes (cl_config c') = cfg_Nodes (cl_config c)"
    and keep: "\<And>q n. look c q = Some n \<Longrightarrow> \<exists>n'. look c' q = Some n' \<and> dvote_ok (sn_State n) (sn_State n')"
  shows "mandate c' d i t"
proof -
  obtain Q where Q: "Q \<subseteq> member_ids c d" "majority (length (DomainMembers (cl_config c) d)) \<le> card Q"
    "\<And>q. q \<in> Q \<Longrightarrow> \<exists>m. look c q = Some m \<and> voted t i (sn_State m)"
    using assms(1) by (auto simp: mandate_def)
  have "\<exists>m. look c' q = Some m \<and> voted t i (sn_State m)" if "q \<in> Q" for q
    using Q(3) [OF that] keep voted_mono assms(2,3) by blast
  then show ?thesis unfolding mandate_def DomainMembers_cong [OF assms(4)] using Q(1,2) by blast
qed

lemma dquiet_keep:
  "nodes_rel dquiet c c' \<Longrightarrow> look c q = Some n \<Longrightarrow> \<exists>n'. look c' q = Some n' \<and> dvote_ok (sn_State n) (sn_State n')"
  using nodes_rel_look_fwd [of dquiet c c' q n] by (auto simp: dquiet_def)

lemma dinv_quiet:
  assumes "nodes_rel dquiet c c'" "dinv c" "wf_cluster c"
  shows "dinv c'"
proof -
  have cfg: "cfg_Nodes (cl_config c') = cfg_Nodes (cl_config c)" using assms(1) by (simp add: nodes_rel_def)
  note before = domain_leader_before [OF assms(1)]
  have "mandate c' d i t" if l: "domain_leader_at c' i d t" for i d t
  proof (rule mandate_rel [where c = c])
    show "mandate c d i t" using before [OF l] assms(2) by (auto simp: dinv_def)
    show "i \<noteq> []" "valid_utf8 i"
      using before [OF l] assms(2,3) ids_ok_node by (auto simp: dinv_def domain_leader_at_def)
  qed (use cfg dquiet_keep [OF assms(1)] in auto)
  moreover have "i = j" if "domain_leader_at c' i d t" "domain_leader_at c' j d t" for i j d t
    using before [OF that(1)] before [OF that(2)] assms(2) unfolding dinv_def by blast
  moreover have "ids_ok (cl_config c')" using assms(2) cfg by (simp add: dinv_def ids_ok_def)
  ultimately show ?thesis unfolding dinv_def by blast
qed

section \<open>The winner of a domain election\<close>

lemma announce_keeps_term:
  assumes "term_of c i = DomainTerm did"
  shows "term_of (announce_domain did m c) i = DomainTerm did"
proof -
  have "term_of (fst (accept_domain did st j c)) i = DomainTerm did"
    if st: "\<And>n. sn_State (st n) = sn_State n" for st j
  proof (cases "look c j")
    case (Some n)
    obtain s r b where t: "transitionAcceptDomainLeader (sn_State n) (sn_DomainRole n) (sn_ID n) did = (s, r, b)"
      by (metis prod_cases3)
    show ?thesis using assms Some t AcceptDomain_cases(4,5) [OF t] st
      by (cases "i = j"; cases b) (auto simp: accept_domain_def term_of_def)
  qed (use assms in \<open>simp add: accept_domain_def\<close>)
  then show ?thesis using assms by (simp add: announce_domain_def)
qed

lemma domain_announced_term:
  assumes "term_of c i = DomainTerm did"
  shows "term_of (domain_announced did c) i = DomainTerm did"
proof -
  have "term_of (c\<lparr>cl_domainLeaders := x\<rparr>) i = DomainTerm did" for x using assms by (simp add: term_of_def)
  then show ?thesis unfolding domain_announced_def by (rule fold_inv) (rule announce_keeps_term)
qed

lemma become_domain_fields:
  "dvote_ok (sn_State n) (sn_State (become_domain did n))" "sn_DomainRole (become_domain did n) = Leader"
  "same_name n (become_domain did n)"
  "ps_DomainTerm (sn_State (become_domain did n)) = max (ps_DomainTerm (sn_State n)) (DomainTerm did)"
  by (auto simp: become_domain_def transition_defs dvote_ok_def same_name_def)

text \<open>The phases of a won election: campaign and votes, announcement, and the winner's last step.\<close>

lemma domain_win_phases:
  assumes "electDomainLeaderLocked d i c = (c', Inr identity)" "room c" "sound c" "ids_ok (cl_config c)"
  obtains t n c3 v c4 where "identity = \<lparr>DomainID = d, NodeID = i, DomainTerm = t\<rparr>"
    "look c i = Some n" "sn_DomainCode n = d" "ps_DomainTerm (sn_State n) < t" "i \<noteq> []" "valid_utf8 i"
    "domain_votes i (domain_request n) (DomainMembers (cl_config c) d) 1 (domain_campaigned i n c) = (c3, Inr v)"
    "majority (length (DomainMembers (cl_config c) d)) \<le> v"
    "dvr_Candidate (domain_request n) = i" "dvr_DomainTerm (domain_request n) = t"
    "\<forall>n3. look c3 i = Some n3 \<longrightarrow> voted t i (sn_State n3)"
    "nodes_rel dquiet c c3" "nodes_rel dquiet c3 c4" "term_of c4 i = t"
    "nodes_rel dquiet (upd_node i (become_domain identity) c4) c'"
    "c' = upd_node i (become_domain identity) c4 \<or>
     c' = invalidateGlobalLeaderLocked (upd_node i (become_domain identity) c4)"
proof -
  obtain n c3 v where n: "look c i = Some n" "sn_DomainCode n = d"
    and vote: "domain_votes i (domain_request n) (DomainMembers (cl_config c) d) 1 (domain_campaigned i n c) = (c3, Inr v)"
      "majority (length (DomainMembers (cl_config c) d)) \<le> v"
    and ident: "identity = \<lparr>DomainID = d, NodeID = i, DomainTerm = term_of c3 i\<rparr>"
      "c' = install_domain_leader identity c3"
    using assms(1) by (cases rule: electDomain_cases) blast+
  have wf: "wf_cluster c" using assms(3) by (simp add: sound_def)
  define t where "t = ps_DomainTerm (sn_State (start_domain_campaign n))"
  have i: "i \<noteq> []" "valid_utf8 i" "sn_ID n = i"
    using ids_ok_node [OF assms(4) wf n(1)] wf_cluster_node(1) [OF wf n(1)] by auto
  have camp: "ps_DomainVotedFor (sn_State (start_domain_campaign n)) = i" "ps_DomainTerm (sn_State n) < t"
    using u64_less_plus1 roomD [OF assms(2) n(1)] i(3)
    by (auto simp: t_def start_domain_campaign_def transition_defs Let_def)
  have c3i: "\<exists>n3. look c3 i = Some n3 \<and> sn_State n3 = sn_State (start_domain_campaign n)"
    using domain_votes_candidate [OF vote(1)] n(1) by (auto simp: domain_campaigned_def)
  then have t3: "term_of c3 i = t" by (auto simp: term_of_def t_def)
  let ?c5 = "upd_node i (become_domain identity) (domain_announced identity c3)"
  have c': "c' = ?c5 \<or> c' = invalidateGlobalLeaderLocked ?c5"
    using ident by (auto simp: install_domain_leader_eq Let_def)
  show thesis
  proof (rule that [OF _ n _ i(1,2) vote])
    show "identity = \<lparr>DomainID = d, NodeID = i, DomainTerm = t\<rparr>" using ident t3 by simp
    show "nodes_rel dquiet c c3" using dstep.rel_electDomain_pre n vote assms(2) by blast
    show "term_of (domain_announced identity c3) i = t"
      using domain_announced_term [of c3 i identity] t3 ident by simp
    show "\<forall>n3. look c3 i = Some n3 \<longrightarrow> voted t i (sn_State n3)"
      using c3i camp(1) by (auto simp: voted_def t_def)
    show "nodes_rel dquiet ?c5 c'" using c' dstep.rel_invalidate dstep.rel_refl by auto
  qed (use camp c' i in \<open>auto simp: domain_request_def t_def intro: dstep.rel_domain_announced\<close>)
qed

lemma become_keep:
  assumes "nodes_rel dquiet c3 c4" "nodes_rel dquiet (upd_node i (become_domain did) c4) c'" "look c3 q = Some n"
  shows "\<exists>n'. look c' q = Some n' \<and> dvote_ok (sn_State n) (sn_State n')"
proof -
  have "\<exists>n'. look (upd_node i (become_domain did) c4) q = Some n' \<and> dvote_ok (sn_State n) (sn_State n')"
    using dquiet_keep [OF assms(1,3)] become_domain_fields(1) dvote_ok_trans by (cases "q = i") fastforce+
  then show ?thesis using dquiet_keep [OF assms(2)] dvote_ok_trans by blast
qed

lemma become_leads:
  assumes "look c4 i = Some n4" "ps_DomainTerm (sn_State n4) = DomainTerm did"
    and "c' = upd_node i (become_domain did) c4 \<or> c' = invalidateGlobalLeaderLocked (upd_node i (become_domain did) c4)"
  shows "domain_leader_at c' i d t \<longleftrightarrow> d = sn_DomainCode n4 \<and> t = DomainTerm did"
proof -
  have "look c' i = Some (become_domain did n4) \<or> look c' i = Some (revoke (become_domain did n4))"
    using assms(1,3) by auto
  then show ?thesis using assms(2) become_domain_fields [where n = n4 and did = did]
    by (auto simp: revoke_def transition_defs same_name_def domain_leader_at_def)
qed

text \<open>The whole election, from the state before the campaign to the installed leader: nobody but the
  winner has become a leader, and the winner's majority could vote for it before and has voted for it
  after.\<close>

lemma domain_election_won:
  assumes "electDomainLeaderLocked d i c = (c', Inr identity)" "room c" "sound c" "ids_ok (cl_config c)"
  obtains t Q where "identity = \<lparr>DomainID = d, NodeID = i, DomainTerm = t\<rparr>"
    "\<And>d' t'. domain_leader_at c' i d' t' \<longleftrightarrow> d' = d \<and> t' = t"
    "Q \<subseteq> member_ids c d" "majority (length (DomainMembers (cl_config c) d)) \<le> card Q"
    "\<And>q. q \<in> Q \<Longrightarrow> \<exists>n n'. look c q = Some n \<and> look c' q = Some n' \<and>
       could_vote t i (sn_State n) \<and> voted t i (sn_State n')"
    "\<And>j d' t'. j \<noteq> i \<Longrightarrow> domain_leader_at c' j d' t' \<Longrightarrow> domain_leader_at c j d' t'"
    "\<And>q n. look c q = Some n \<Longrightarrow> \<exists>n'. look c' q = Some n' \<and> dvote_ok (sn_State n) (sn_State n')"
    "cfg_Nodes (cl_config c') = cfg_Nodes (cl_config c)"
proof -
  obtain t n c3 v c4 where id: "identity = \<lparr>DomainID = d, NodeID = i, DomainTerm = t\<rparr>"
    and n: "look c i = Some n" "sn_DomainCode n = d" "ps_DomainTerm (sn_State n) < t" and i: "i \<noteq> []" "valid_utf8 i"
    and vote: "domain_votes i (domain_request n) (DomainMembers (cl_config c) d) 1 (domain_campaigned i n c) = (c3, Inr v)"
      "majority (length (DomainMembers (cl_config c) d)) \<le> v"
    and req: "dvr_Candidate (domain_request n) = i" "dvr_DomainTerm (domain_request n) = t"
    and own: "\<forall>n3. look c3 i = Some n3 \<longrightarrow> voted t i (sn_State n3)"
    and r: "nodes_rel dquiet c c3" "nodes_rel dquiet c3 c4" "term_of c4 i = t"
      "nodes_rel dquiet (upd_node i (become_domain identity) c4) c'"
    and c': "c' = upd_node i (become_domain identity) c4 \<or>
       c' = invalidateGlobalLeaderLocked (upd_node i (become_domain identity) c4)"
    by (rule domain_win_phases [OF assms]) (rule that)
  have wf: "wf_cluster c" using assms(3) by (simp add: sound_def)
  note keep = become_keep [OF r(2,4)]
  obtain n4 where n4: "look c4 i = Some n4" "sn_DomainCode n4 = d" "ps_DomainTerm (sn_State n4) = t"
    using nodes_rel_look_fwd [OF dstep.rel_trans [OF r(1,2)] n(1)] r(3) n(2)
    by (auto simp: dquiet_def term_of_def same_name_def)
  have dist: "distinct (map nd_ID (DomainMembers (cl_config c) d))"
    using wf by (intro distinct_DomainMembers) (simp add: wf_cluster_def)
  obtain Q where Q: "Q \<subseteq> member_ids c d - {i}" "v = 1 + card Q"
      "\<And>q. q \<in> Q \<Longrightarrow> \<exists>n2 n3. look (domain_campaigned i n c) q = Some n2 \<and> look c3 q = Some n3 \<and>
         could_vote t i (sn_State n2) \<and> voted t i (sn_State n3)"
    using domain_votes_evidence [OF vote(1) dist req(1) i] req(2) by auto
  have sub: "insert i Q \<subseteq> member_ids c d" using wf_cluster_node(2) [OF wf n(1)] n(2) Q(1) by auto
  have maj: "majority (length (DomainMembers (cl_config c) d)) \<le> card (insert i Q)"
    using vote(2) Q(1,2) finite_subset [OF Q(1)] by (auto simp: card_insert_if)
  have ev: "\<exists>n n'. look c q = Some n \<and> look c' q = Some n' \<and> could_vote t i (sn_State n) \<and> voted t i (sn_State n')"
    if q: "q \<in> insert i Q" for q
  proof (cases "q = i")
    case True
    obtain n3 where n3: "look c3 i = Some n3" using nodes_rel_look_fwd [OF r(1) n(1)] by blast
    show ?thesis using True n keep [OF n3] own n3 voted_mono [of t i "sn_State n3"] i
      by (auto simp: could_vote_def)
  next
    case False
    then obtain n2 n3 where q2: "look c q = Some n2" "look c3 q = Some n3"
       "could_vote t i (sn_State n2)" "voted t i (sn_State n3)"
      using Q(3) [of q] q by (auto simp: domain_campaigned_def)
    then show ?thesis using keep [OF q2(2)] voted_mono [OF q2(4)] i by blast
  qed
  have old: "domain_leader_at c j d' t'" if "j \<noteq> i" "domain_leader_at c' j d' t'" for j d' t'
    using domain_leader_before [OF r(4) that(2)] that(1) domain_leader_before [OF dstep.rel_trans [OF r(1,2)]]
    by (simp add: domain_leader_at_def)
  have kept: "\<exists>n'. look c' q = Some n' \<and> dvote_ok (sn_State n) (sn_State n')" if "look c q = Some n" for q n
    using dquiet_keep [OF r(1) that] keep dvote_ok_trans by blast
  have cfg: "cfg_Nodes (cl_config c') = cfg_Nodes (cl_config c)" using r by (simp add: nodes_rel_def)
  have lead: "domain_leader_at c' i d' t' \<longleftrightarrow> d' = d \<and> t' = t" for d' t'
    using become_leads [OF n4(1) _ c'] n4 id by simp
  show thesis by (rule that [OF id lead sub maj ev old kept cfg])
qed

lemma dinv_won:
  assumes "electDomainLeaderLocked d i c = (c', Inr identity)" "room c" "sound c" "dinv c"
  shows "dinv c'"
proof -
  have ids: "ids_ok (cl_config c)" and wf: "wf_cluster c"
    using assms(3,4) by (auto simp: dinv_def sound_def)
  obtain t Q where win: "\<And>d' t'. domain_leader_at c' i d' t' \<longleftrightarrow> d' = d \<and> t' = t"
    and Q: "Q \<subseteq> member_ids c d" "majority (length (DomainMembers (cl_config c) d)) \<le> card Q"
    and ev: "\<And>q. q \<in> Q \<Longrightarrow> \<exists>n n'. look c q = Some n \<and> look c' q = Some n' \<and>
       could_vote t i (sn_State n) \<and> voted t i (sn_State n')"
    and old: "\<And>j d' t'. j \<noteq> i \<Longrightarrow> domain_leader_at c' j d' t' \<Longrightarrow> domain_leader_at c j d' t'"
    and keep: "\<And>q n. look c q = Some n \<Longrightarrow> \<exists>n'. look c' q = Some n' \<and> dvote_ok (sn_State n) (sn_State n')"
    and cfg: "cfg_Nodes (cl_config c') = cfg_Nodes (cl_config c)"
    using domain_election_won [OF assms(1-3) ids] by blast
  have named: "j \<noteq> [] \<and> valid_utf8 j" if "domain_leader_at c j d' t'" for j d' t'
    using that ids_ok_node [OF ids wf] by (auto simp: domain_leader_at_def)
  have "mandate c' d i t"
    unfolding mandate_def DomainMembers_cong [OF cfg] using Q ev by blast
  then have "mandate c' d' j t'" if "domain_leader_at c' j d' t'" for j d' t'
  proof (cases "j = i")
    case False
    then have l: "domain_leader_at c j d' t'" using old that by blast
    then show ?thesis using mandate_rel [OF _ _ _ cfg keep] named assms(4) by (auto simp: dinv_def)
  qed (use that win in auto)
  moreover have single: "j = i" if j: "domain_leader_at c' j d t" for j
  proof (rule ccontr)
    assume "j \<noteq> i"
    then have l: "domain_leader_at c j d t" using old j by blast
    then have "mandate c d j t" using assms(4) by (simp add: dinv_def)
    then obtain P where P: "P \<subseteq> member_ids c d" "majority (length (DomainMembers (cl_config c) d)) \<le> card P"
        "\<And>q. q \<in> P \<Longrightarrow> \<exists>m. look c q = Some m \<and> voted t j (sn_State m)"
      by (auto simp: mandate_def)
    have len: "length (DomainMembers (cl_config c) d) = card (set (map nd_ID (DomainMembers (cl_config c) d)))"
      using wf distinct_card [OF distinct_DomainMembers [of "cl_config c" d]] by (simp add: wf_cluster_def)
    have "P \<inter> Q \<noteq> {}"
      using member_majority.quorums_intersect [of P "map nd_ID (DomainMembers (cl_config c) d)" Q] P(1,2) Q len by simp
    then obtain q m where "look c q = Some m" "voted t j (sn_State m)" "could_vote t i (sn_State m)"
      using P(3) ev by (metis (no_types, lifting) IntE ex_in_conv option.inject)
    then show False using vote_conflict named [OF l] \<open>j \<noteq> i\<close> by blast
  qed
  moreover have "j = k" if "domain_leader_at c' j d' t'" "domain_leader_at c' k d' t'" for j k d' t'
  proof (cases "j = i \<or> k = i")
    case True
    then have "d' = d" "t' = t" using that win by auto
    then show ?thesis using single that by metis
  next
    case False
    then show ?thesis using that old assms(4) unfolding dinv_def by blast
  qed
  ultimately show ?thesis using ids cfg unfolding dinv_def ids_ok_def by auto
qed

section \<open>Every step keeps the mandates\<close>

lemma dinv_lost:
  assumes "electDomainLeaderLocked d i c = (c', Inl e)" "room c"
  shows "nodes_rel dquiet c c'"
  using assms(1)
proof (cases rule: electDomain_cases)
  case (unsaved n e)
  then show ?thesis using dstep.rel_domain_campaigned roomD [OF assms(2)] by blast
next
  case (lost n e r)
  then show ?thesis using dstep.rel_electDomain_pre assms(2) by blast
qed (use dstep.rel_refl in auto)

lemma dinv_elect:
  assumes "electDomainLeaderLocked d i c = (c', out)" "room c" "sound c" "dinv c"
  shows "dinv c'"
proof (cases out)
  case (Inl e)
  have "nodes_rel dquiet c c'" using assms(1,2) Inl dinv_lost by blast
  then show ?thesis using dinv_quiet assms(3,4) by (auto simp: sound_def)
next
  case (Inr identity)
  then show ?thesis using dinv_won assms by blast
qed

lemma dinv_leaders: "dinv (c\<lparr>cl_domainLeaders := x\<rparr>) = dinv c"
  by (simp add: dinv_def mandate_def domain_leader_at_def)

lemma dinv_reelect:
  assumes "room c" "sound c" "dinv c"
  shows "dinv (reelect_domain d c)"
  using dinv_elect [OF _ assms] assms(3)
  by (auto simp: reelect_domain_def dinv_leaders split: option.splits prod.splits sum.splits)

lemma dinv_step:
  assumes "cluster_step c c'" "sound c" "dinv c"
  shows "dinv c'"
proof (cases "(\<exists>d i r. electDomainLeaderLocked d i c = (c', r) \<and> room c) \<or> (\<exists>d. c' = reelect_domain d c \<and> room c)")
  case True
  then show ?thesis using dinv_elect dinv_reelect assms by blast
next
  case False
  have "nodes_rel dquiet c c'"
    using assms(1)
    by (rule dstep.rel_step) (use assms(2) False dstep.rel_electGlobal in \<open>auto simp: sound_def\<close>)
  then show ?thesis using dinv_quiet assms by (auto simp: sound_def)
qed

lemma dinv_run:
  assumes "cluster_step\<^sup>*\<^sup>* c c'" "sound c" "dinv c"
  shows "dinv c'"
  using assms
proof (induction rule: rtranclp_induct)
  case (step c1 c2)
  then show ?case using dinv_step sound_run by blast
qed

lemma dinv_new:
  assumes "NewCluster rng config stores net clk = Inr c" "ids_ok config"
  shows "dinv c"
proof -
  have "\<not> domain_leader_at c i d t" for i d t
    using NewCluster_nodes(5) [OF assms(1)] by (fastforce simp: domain_leader_at_def)
  then show ?thesis using NewCluster_nodes(2) [OF assms(1)] assms(2) by (simp add: dinv_def)
qed

text \<open>C1: election safety of the domain layer: in every run of a cluster built on working stores, with
  any elections, crashes, restarts, message loss and client traffic, two nodes that lead the same
  domain in the same domain term are the same node, and a majority of that domain has voted for it
  in that term or has moved to a later one.\<close>

theorem domain_election_safety:
  assumes "NewCluster rng config stores net clk = Inr c0" "good_stores config stores" "ids_ok config"
    and "cluster_step\<^sup>*\<^sup>* c0 c"
    and "look c i = Some n" "sn_DomainRole n = Leader"
    and "look c j = Some m" "sn_DomainRole m = Leader"
    and "sn_DomainCode n = sn_DomainCode m" "ps_DomainTerm (sn_State n) = ps_DomainTerm (sn_State m)"
  shows "i = j \<and> mandate c (sn_DomainCode n) i (ps_DomainTerm (sn_State n))"
proof -
  have "dinv c" using dinv_run [OF assms(4) NewCluster_sound [OF assms(1,2)] dinv_new [OF assms(1,3)]] .
  moreover have "domain_leader_at c i (sn_DomainCode n) (ps_DomainTerm (sn_State n))"
    "domain_leader_at c j (sn_DomainCode n) (ps_DomainTerm (sn_State n))"
    using assms(5-10) by (auto simp: domain_leader_at_def)
  ultimately show ?thesis unfolding dinv_def by blast
qed

text \<open>C25: crash safety of every run: each node's store always holds its current state, its log is
  well-formed, and a restart brings back exactly that state, whatever operations came before.\<close>

theorem run_durable:
  assumes "NewCluster rng config stores net clk = Inr c0" "good_stores config stores"
    and "cluster_step\<^sup>*\<^sup>* c0 c" "look c i = Some n"
  shows "wf_state (sn_State n) \<and> store_Load (sn_store n) = Inr (Clone (sn_State n)) \<and>
    (\<exists>c'. RestartNode i c = (c', None) \<and>
       (\<exists>n'. look c' i = Some n' \<and> sn_State n' = Clone (sn_State n) \<and> sn_DomainRole n' = Follower \<and>
          sn_GlobalRole n' = Follower \<and> \<not> IsStopped (cl_network c') i))"
proof -
  have "sound c" using sound_run [OF assms(3) NewCluster_sound [OF assms(1,2)]] .
  then have d: "wf_state (sn_State n)" "durable n"
    using assms(4) wf_nodesD by (auto simp: sound_def durable_nodes_iff)
  then show ?thesis using assms(4) by (auto simp: durable_def Clone_eq RestartNode_def)
qed

end
