(* ===== verification/Sim_Frames.thy ===== *)
theory Sim_Frames
  imports Sim_Runs
begin

text \<open>
  What the operations of the simulated cluster leave alone.  A view of the cluster that ignores the
  nodes and the random source is unchanged by votes, heartbeats and the whole data path; the walk
  over the operations is done once, for any such view (\<open>cluster_view\<close>).
\<close>

locale cluster_view =
  fixes view :: "Cluster \<Rightarrow> 'a"
  assumes nodes: "view (c\<lparr>cl_nodes := x\<rparr>) = view c"
    and draws: "view (c\<lparr>cl_draws := k\<rparr>) = view c"
begin

lemma view_upd [simp]: "view (upd_node i f c) = view c"
  by (simp add: upd_node_def nodes split: option.splits)

lemma view_reset [simp]: "view (resetElectionDeadlineLocked i c) = view c"
  by (simp add: resetElectionDeadlineLocked_def Let_def draws)

lemma view_persist_at [simp]: "persist_at i c = (c', e) \<Longrightarrow> view c' = view c"
  by (auto simp: persist_at_def nodes split: option.splits prod.splits)

lemma view_domain_vote [simp]: "handleDomainVoteLocked i req c = (c', resp) \<Longrightarrow> view c' = view c"
  by (auto simp: handleDomainVoteLocked_def Let_def split: option.splits if_splits prod.splits)

lemma view_domain_votes: "domain_votes cand req ms v c = (c', out) \<Longrightarrow> view c' = view c"
proof (induction ms arbitrary: v c)
  case (Cons m ms)
  obtain c1 resp where h: "handleDomainVoteLocked (nd_ID m) req c = (c1, resp)" by fastforce
  show ?case using Cons h view_domain_vote [OF h] by (auto split: if_splits option.splits prod.splits)
qed simp

lemma view_accept_domain [simp]: "accept_domain did st i c = (c', ok) \<Longrightarrow> view c' = view c"
  by (auto simp: accept_domain_def Let_def split: option.splits if_splits prod.splits)

lemma view_announce_domain [simp]: "view (announce_domain did m c) = view c"
  using view_accept_domain [OF prod.collapse [symmetric]] by (simp add: announce_domain_def)

lemma view_deliver: "deliver_domain_heartbeats did ms k c = (c', k') \<Longrightarrow> view c' = view c"
proof (induction ms arbitrary: k c)
  case (Cons m ms)
  obtain c1 ok where a: "accept_domain did (\<lambda>n. n) (nd_ID m) c = (c1, ok)" by fastforce
  show ?case using Cons a view_accept_domain [OF a] by (auto split: if_splits)
qed simp

lemma view_SendDomainHeartbeat: "SendDomainHeartbeat did c = (c', ok) \<Longrightarrow> view c' = view c"
  by (auto simp: SendDomainHeartbeat_def Let_def split: if_splits prod.splits dest: view_deliver)

lemma view_global_vote [simp]: "handleGlobalVoteLocked i req c = (c', resp) \<Longrightarrow> view c' = view c"
  by (auto simp: handleGlobalVoteLocked_def Let_def split: option.splits if_splits prod.splits)

lemma view_global_votes: "global_votes cand req ds v c = (c', out) \<Longrightarrow> view c' = view c"
proof (induction ds arbitrary: v c)
  case (Cons d ds)
  show ?case
  proof (cases "fmlookup (cl_domainLeaders c) d")
    case (Some did)
    obtain c1 resp where h: "handleGlobalVoteLocked (NodeID did) req c = (c1, resp)" by fastforce
    show ?thesis using Cons Some h view_global_vote [OF h] by (auto split: if_splits option.splits prod.splits)
  qed (use Cons in simp)
qed simp

lemma view_announce_global [simp]: "view (announce_global gid i c) = view c"
  by (simp add: announce_global_def split: option.splits)

lemma view_fold: "(\<And>x c. view (f x c) = view c) \<Longrightarrow> view (fold f xs c) = view c"
  by (rule fold_eq)

lemma view_SendGlobalHeartbeat: "SendGlobalHeartbeat gid c = (c', ok) \<Longrightarrow> view c' = view c"
  by (auto simp: SendGlobalHeartbeat_def view_fold split: if_splits)

lemma view_append_at [simp]: "append_at i e c = (c', ok) \<Longrightarrow> view c' = view c"
  by (auto simp: append_at_def split: option.splits prod.splits if_splits)

lemma view_replicate_members: "replicate_members e l ms a c = (c', a') \<Longrightarrow> view c' = view c"
proof (induction ms arbitrary: a c)
  case (Cons m ms)
  obtain c1 ok where a: "append_at (nd_ID m) e c = (c1, ok)" by fastforce
  show ?case using Cons a view_append_at [OF a] by (auto split: if_splits)
qed simp

lemma view_mark_quorum [simp]: "view (mark_quorum d e m c) = view c"
  by (simp add: mark_quorum_def split: option.splits)

lemma view_replicate_domain: "view (fst (replicate_domain e g d cq)) = view (fst cq)"
proof -
  obtain c q where cq: "cq = (c, q)" by (cases cq)
  obtain c1 ok where a: "append_at (NodeID (the (fmlookup (cl_domainLeaders c) d))) e c = (c1, ok)" by fastforce
  obtain c2 k where m: "replicate_members e (NodeID (the (fmlookup (cl_domainLeaders c) d)))
      (DomainMembers (cl_config c1) d) 1 c1 = (c2, k)" by fastforce
  show ?thesis using a m view_append_at [OF a] view_replicate_members [OF m]
    by (auto simp: replicate_domain_def cq Let_def view_fold split: option.splits bool.splits)
qed

lemma view_replicateEntry: "replicateEntryLocked e c = (c', q) \<Longrightarrow> view c' = view c"
  using fold_eq [of "Domains (cl_config c)" "\<lambda>cq. view (fst cq)"
      "replicate_domain e (NodeID (gli_DomainLeader (cl_globalLeader c)))" "(c, fmempty)"]
  by (simp add: replicateEntryLocked_def view_replicate_domain)

lemma view_collect_acks [simp]: "view (collect_acks i d e q c) = view c"
  by (simp add: collect_acks_def Let_def view_fold split: prod.splits)

lemma view_applyCommit [simp]: "view (applyCommitToDomainLocked d t c) = view c"
  by (simp add: applyCommitToDomainLocked_def view_fold)

lemma view_fast_return: "fast_return i req e q c = (c', r) \<Longrightarrow> view c' = view c"
  by (auto simp: fast_return_def Let_def split: if_splits option.splits)

lemma view_commit_entry [simp]: "view (commit_entry g e k c) = view c"
proof -
  have "view (notify_commit g e k i c) = view c" for i c by (simp add: notify_commit_def split: option.splits)
  then show ?thesis by (simp add: commit_entry_def view_fold)
qed

lemma view_advance_loop [simp]: "view (advance_loop g t k c) = view c"
proof (induction g t k c rule: advance_loop.induct)
  case (1 g t k c)
  show ?case using 1 by (subst advance_loop.simps) (auto split: option.splits)
qed

lemma view_advance [simp]: "view (advanceGlobalCommitLocked c) = view c"
  by (simp add: advanceGlobalCommitLocked_def Let_def split: option.splits)

lemma view_reconcile [simp]: "view (reconcileAcksLocked c) = view c"
proof -
  have "view (reconcile_ack g d x c) = view c" for g d x c
    by (simp add: reconcile_ack_def split: prod.splits)
  then show ?thesis by (simp add: reconcileAcksLocked_def Let_def view_fold)
qed

lemma view_Reconcile [simp]: "view (Reconcile c) = view c"
  by (simp add: Reconcile_def)

lemma view_write_entry: "write_entry i req e c = (c', out) \<Longrightarrow> view c' = view c"
  by (auto simp: write_entry_def Let_def dest!: view_replicateEntry view_fast_return split: prod.splits)

lemma view_Write: "Write i req c = (c', out) \<Longrightarrow> view c' = view c"
  by (auto simp: Write_def Let_def split: option.splits if_splits dest!: view_write_entry)

lemma view_Read: "Read i k c = (c', r) \<Longrightarrow> view c' = view c"
  by (auto simp: Read_def Let_def split: option.splits if_splits)

lemma view_Compact: "Compact i k c = Some (c', ok, e) \<Longrightarrow> view c' = view c"
  by (auto simp: Compact_def split: option.splits if_splits prod.splits bool.splits)

lemma view_install_at [simp]: "install_at i g t q c = (c', ok) \<Longrightarrow> view c' = view c"
  by (auto simp: install_at_def split: option.splits prod.splits if_splits)

lemma view_install_members: "install_members g t q l ms a c = (c', a') \<Longrightarrow> view c' = view c"
proof (induction ms arbitrary: a c)
  case (Cons m ms)
  obtain c1 ok where a: "install_at (nd_ID m) g t q c = (c1, ok)" by fastforce
  show ?case using Cons a view_install_at [OF a] by (auto split: if_splits)
qed simp

lemma view_mark_installed [simp]: "view (mark_installed d k m c) = view c"
  by (simp add: mark_installed_def split: option.splits)

lemma view_InstallSnapshot: "InstallSnapshotFromGlobal d c = (c', ok, e) \<Longrightarrow> view c' = view c"
  by (auto simp: InstallSnapshotFromGlobal_def Let_def view_fold
      split: if_splits option.splits prod.splits bool.splits dest!: view_install_members view_install_at)

lemma view_StartNode: "StartNode i c = (c', e) \<Longrightarrow> view c' = view c"
  by (auto simp: StartNode_def split: option.splits if_splits dest!: view_persist_at)

lemma view_domain_campaigned [simp]: "view (domain_campaigned i n c) = view c"
  by (simp add: domain_campaigned_def)

end

interpretation env: cluster_view
  "\<lambda>c. (cl_config c, cl_network c, cl_clock c, cl_domainLeaders c, cl_globalLeader c)"
  by unfold_locales simp_all

end
