(* ===== verification/Sim_Global.thy ===== *)
theory Sim_Global
  imports Sim_Elections Sim_Frames
begin

text \<open>
  Election safety of the global layer of the simulated cluster: at most one global leader per global
  term, as long as no domain loses its entry in the table of domain leaders.  Each domain votes
  through its recorded leader; replacing that leader revokes the global leadership, but removing the
  entry (\<open>DetectAndReelect\<close> on a domain without quorum) does not, and \<open>Sim_Examples\<close> shows that the
  guarantee fails then.
\<close>

section \<open>Global votes across restarts\<close>

definition gvote_ok :: "PersistentState \<Rightarrow> PersistentState \<Rightarrow> bool" where
  "gvote_ok s s' \<longleftrightarrow> ps_GlobalTerm s \<le> ps_GlobalTerm s' \<and>
     (ps_GlobalTerm s' = ps_GlobalTerm s \<longrightarrow> dli_Valid (ps_GlobalVotedFor s) \<longrightarrow> valid_dli (ps_GlobalVotedFor s) \<longrightarrow>
        ps_GlobalVotedFor s' = ps_GlobalVotedFor s)"

lemma gvote_le_ok: "gvote_le s s' \<Longrightarrow> gvote_ok s s'"
  by (simp add: gvote_le_def gvote_ok_def)

lemma gvote_ok_refl [simp]: "gvote_ok s s"
  by (simp add: gvote_ok_def)

lemma gvote_ok_trans: "gvote_ok s t \<Longrightarrow> gvote_ok t u \<Longrightarrow> gvote_ok s u"
  unfolding gvote_ok_def by (metis order.antisym order.trans)

lemma gvote_ok_coerce: "gvote_ok s (coerce_state s)"
  by (simp add: gvote_ok_def)

definition gquiet :: "SimNode \<Rightarrow> SimNode \<Rightarrow> bool" where
  "gquiet n n' \<longleftrightarrow> same_name n n' \<and> gvote_ok (sn_State n) (sn_State n') \<and>
     (sn_GlobalRole n' = Leader \<longrightarrow>
        sn_GlobalRole n = Leader \<and> ps_GlobalTerm (sn_State n') = ps_GlobalTerm (sn_State n))"

lemma gquiet_trans: "gquiet n n' \<Longrightarrow> gquiet n' n'' \<Longrightarrow> gquiet n n''"
  by (auto simp: gquiet_def same_name_def dest: gvote_ok_trans)

lemma gquiet_persist [simp]: "gquiet n (persist n') = gquiet n n'"
  by (simp add: gquiet_def same_name_def)

lemma gquiet_revoke: "gquiet n (revoke n)"
  by (auto simp: gquiet_def same_name_def revoke_def transition_defs gvote_ok_def split: prod.splits)

lemma gquiet_accept: "gquiet n (accept_global gid n)"
proof -
  obtain s r g b where t: "transitionAcceptGlobalLeader (sn_State n) (sn_GlobalRole n) (sn_Stage n) (sn_ID n) gid = (s, r, g, b)"
    by (metis prod_cases4)
  show ?thesis using AcceptGlobal_cases [OF t] t
    by (auto simp: accept_global_def gquiet_def same_name_def intro: gvote_le_ok)
qed

lemma gquiet_domain:
  "gquiet n (become_domain did n)"
  "gquiet n (start_domain_campaign n\<lparr>sn_ElectionDeadline := t\<rparr>)"
  by (auto simp: gquiet_def same_name_def become_domain_def start_domain_campaign_def transition_defs Let_def gvote_ok_def)

lemma gquiet_campaign:
  assumes "ps_GlobalTerm (sn_State n) \<noteq> max_u64"
  shows "gquiet n (start_global_campaign did n)"
  using u64_less_plus1 [OF assms]
  by (auto simp: gquiet_def same_name_def start_global_campaign_def transition_defs Let_def gvote_ok_def)

interpretation gstep: domain_become gquiet
proof
  fix n did
  show "gquiet n (persist (start_global_campaign did n)) \<and> gquiet n (persist (revoke (start_global_campaign did n)))"
    if "ps_GlobalTerm (sn_State n) \<noteq> max_u64"
    using gquiet_campaign [OF that] gquiet_revoke gquiet_trans by (metis gquiet_persist)
  fix s r g resp b h t req
  show "gquiet n (persist (n\<lparr>sn_State := s, sn_GlobalRole := r, sn_Stage := g\<rparr>))"
    if "transitionGlobalVote (sn_State n) (sn_GlobalRole n) (sn_Stage n) req = (s, r, g, resp, b, h)"
    using GlobalVote_cases(2,7) [OF that] by (auto simp: gquiet_def same_name_def intro: gvote_le_ok)
  show "gquiet n (persist (n\<lparr>sn_State := s, sn_GlobalRole := r, sn_Stage := g\<rparr>))"
    if "transitionObserveHigherGlobalTerm (sn_State n) (sn_GlobalRole n) (sn_Stage n) t = (s, r, g, b)"
    using Observe_global(2,4) [OF that] by (auto simp: gquiet_def same_name_def intro: gvote_le_ok)
  show "gquiet n (persist (n\<lparr>sn_State := s\<rparr>))" if "data_le (sn_State n) s"
    using that by (simp add: gquiet_def same_name_def data_le_def same_election_def gvote_ok_def)
qed (auto simp: gquiet_domain gquiet_revoke gquiet_accept intro: gquiet_trans,
     auto simp: gquiet_def same_name_def gvote_ok_coerce
       dest: DomainVote_cases Observe_domain AcceptDomain_cases intro: gvote_le_ok,
     auto simp: transition_defs gvote_ok_def Let_def split: if_splits prod.splits)

section \<open>Evidence of a global vote\<close>

definition gvoted :: "u64 \<Rightarrow> DomainLeaderIdentity \<Rightarrow> PersistentState \<Rightarrow> bool" where
  "gvoted t did s \<longleftrightarrow> t < ps_GlobalTerm s \<or> ps_GlobalTerm s = t \<and> ps_GlobalVotedFor s = did"

definition gcould_vote :: "u64 \<Rightarrow> DomainLeaderIdentity \<Rightarrow> PersistentState \<Rightarrow> bool" where
  "gcould_vote t did s \<longleftrightarrow> ps_GlobalTerm s < t \<or> ps_GlobalTerm s = t \<and>
     (\<not> dli_Valid (ps_GlobalVotedFor s) \<or> \<not> valid_dli (ps_GlobalVotedFor s) \<or> ps_GlobalVotedFor s = did)"

lemma gvoted_mono: "gvoted t did s \<Longrightarrow> gvote_ok s s' \<Longrightarrow> dli_Valid did \<Longrightarrow> valid_dli did \<Longrightarrow> gvoted t did s'"
  by (cases "ps_GlobalTerm s' = ps_GlobalTerm s") (auto simp: gvoted_def gvote_ok_def)

lemma gcould_vote_before: "gcould_vote t did s' \<Longrightarrow> gvote_ok s s' \<Longrightarrow> gcould_vote t did s"
  by (cases "ps_GlobalTerm s' = ps_GlobalTerm s") (auto simp: gcould_vote_def gvote_ok_def)

lemma gvote_conflict:
  "gvoted t did s \<Longrightarrow> gcould_vote t did' s \<Longrightarrow> dli_Valid did \<Longrightarrow> valid_dli did \<Longrightarrow> did = did'"
  by (auto simp: gvoted_def gcould_vote_def)

lemma handleGlobalVote_granted:
  assumes "handleGlobalVoteLocked q req c = (c', resp)" "gvp_Granted resp"
  obtains n n' where "look c q = Some n" "look c' q = Some n'"
    "gcould_vote (gvr_GlobalTerm req) (gvr_Candidate req) (sn_State n)"
    "gvoted (gvr_GlobalTerm req) (gvr_Candidate req) (sn_State n')"
proof -
  obtain n s r g resp' b h where n: "look c q = Some n"
    and t: "transitionGlobalVote (sn_State n) (sn_GlobalRole n) (sn_Stage n) req = (s, r, g, resp', b, h)"
    and c': "c' = upd_node q (\<lambda>n. persist (n\<lparr>sn_State := s, sn_GlobalRole := r, sn_Stage := g\<rparr>)) c"
    and resp: "resp = resp'\<lparr>gvp_Voter := gvp_Voter resp\<rparr>"
    and le: "\<not> gvr_GlobalTerm req < ps_GlobalTerm (sn_State n)"
    using assms by (auto simp: handleGlobalVoteLocked_def Let_def split: option.splits if_splits prod.splits)
  have "gvp_Granted resp' = gvp_Granted resp" by (subst resp) simp
  then have b: b using assms(2) GlobalVote_cases(4) [OF t] by simp
  note gr = GlobalVote_cases(3) [OF t b]
  have "gcould_vote (gvr_GlobalTerm req) (gvr_Candidate req) (sn_State n)"
    using gr le by (auto simp: gcould_vote_def)
  moreover have "\<exists>n'. look c' q = Some n' \<and> gvoted (gvr_GlobalTerm req) (gvr_Candidate req) (sn_State n')"
    using gr n by (auto simp: c' gvoted_def)
  ultimately show thesis using n that by blast
qed

lemma handleGlobalVote_other:
  "handleGlobalVoteLocked q req c = (c', resp) \<Longrightarrow> j \<noteq> q \<Longrightarrow> look c' j = look c j"
  by (auto simp: handleGlobalVoteLocked_def Let_def split: option.splits if_splits prod.splits)

interpretation leaders: cluster_view cl_domainLeaders
  by unfold_locales simp_all

lemma global_votes_candidate: "global_votes i req ds v c = (c', Inr v') \<Longrightarrow> look c' i = look c i"
proof (induction ds arbitrary: v c)
  case Nil
  then show ?case by simp
next
  case (Cons d ds)
  show ?case
  proof (cases "fmlookup (cl_domainLeaders c) d")
    case (Some did)
    obtain c1 resp where h: "handleGlobalVoteLocked (NodeID did) req c = (c1, resp)" by fastforce
    show ?thesis using Cons Some h handleGlobalVote_other [OF h, of i]
      by (auto split: if_splits option.splits prod.splits)
  qed (use Cons in simp)
qed

text \<open>Domain \<open>d\<close> votes, through its recorded leader, for \<open>did\<close> in term \<open>t\<close> between two clusters.\<close>

definition gballot :: "Cluster \<Rightarrow> Cluster \<Rightarrow> string \<Rightarrow> u64 \<Rightarrow> DomainLeaderIdentity \<Rightarrow> string \<Rightarrow> bool" where
  "gballot c c' i t did d \<longleftrightarrow>
     (\<exists>l n n'. fmlookup (cl_domainLeaders c) d = Some l \<and> NodeID l \<noteq> i \<and>
        look c (NodeID l) = Some n \<and> look c' (NodeID l) = Some n' \<and>
        gcould_vote t did (sn_State n) \<and> gvoted t did (sn_State n'))"

lemma gballot_before:
  assumes "gballot c1 c' i t did d" "nodes_rel gquiet c c1" "cl_domainLeaders c1 = cl_domainLeaders c"
  shows "gballot c c' i t did d"
proof -
  obtain l n n' where l: "fmlookup (cl_domainLeaders c) d = Some l" "NodeID l \<noteq> i" "look c1 (NodeID l) = Some n"
      "look c' (NodeID l) = Some n'" "gcould_vote t did (sn_State n)" "gvoted t did (sn_State n')"
    using assms(1,3) by (auto simp: gballot_def)
  obtain m where "look c (NodeID l) = Some m" "gquiet m n" using nodes_rel_look [OF assms(2) l(3)] by blast
  then show ?thesis using l gcould_vote_before by (auto simp: gballot_def gquiet_def)
qed

lemma gballot_after:
  assumes "gballot c c1 i t did d" "dli_Valid did" "valid_dli did"
    and keep: "\<And>q n. look c1 q = Some n \<Longrightarrow> \<exists>n'. look c' q = Some n' \<and> gvote_ok (sn_State n) (sn_State n')"
  shows "gballot c c' i t did d"
  using assms(1) keep gvoted_mono [OF _ _ assms(2,3)] unfolding gballot_def by meson

lemma gquiet_keep:
  "nodes_rel gquiet c c' \<Longrightarrow> look c q = Some n \<Longrightarrow> \<exists>n'. look c' q = Some n' \<and> gvote_ok (sn_State n) (sn_State n')"
  using nodes_rel_look_fwd [of gquiet c c' q n] by (auto simp: gquiet_def)

lemma global_votes_evidence:
  assumes "global_votes i req ds v c = (c', Inr v')" "distinct ds"
    and did: "gvr_Candidate req = did" "dli_Valid did" "valid_dli did"
  shows "\<exists>D. D \<subseteq> set ds \<and> v' = v + card D \<and> (\<forall>d \<in> D. gballot c c' i (gvr_GlobalTerm req) did d)"
  using assms(1,2)
proof (induction ds arbitrary: v c)
  case Nil
  then show ?case by (intro exI [of _ "{}"]) simp
next
  case (Cons d ds)
  show ?case
  proof (cases "\<exists>l. fmlookup (cl_domainLeaders c) d = Some l \<and> NodeID l \<noteq> i \<and> domainIdentityCurrentLocked c l \<and>
      CanSend (cl_network c) i (NodeID l) GlobalVoteMessage")
    case False
    then have "global_votes i req ds v c = (c', Inr v')" using Cons.prems(1) by (auto split: option.splits if_splits)
    then obtain D where "D \<subseteq> set ds" "v' = v + card D" "\<forall>d \<in> D. gballot c c' i (gvr_GlobalTerm req) did d"
      using Cons.IH [of v c] Cons.prems(2) by auto
    then show ?thesis by (intro exI [of _ D]) auto
  next
    case True
    then obtain l where l: "fmlookup (cl_domainLeaders c) d = Some l" "NodeID l \<noteq> i" by blast
    obtain c1 resp where h: "handleGlobalVoteLocked (NodeID l) req c = (c1, resp)" by fastforce
    let ?v = "if gvp_Granted resp then v + 1 else v"
    have rest: "global_votes i req ds ?v c1 = (c', Inr v')"
      using Cons.prems True l h by (auto split: option.splits if_splits prod.splits)
    obtain D where D: "D \<subseteq> set ds" "v' = ?v + card D" "\<forall>d \<in> D. gballot c1 c' i (gvr_GlobalTerm req) did d"
      using Cons.IH [OF rest] Cons.prems(2) by auto
    have D': "\<forall>d \<in> D. gballot c c' i (gvr_GlobalTerm req) did d"
      using D(3) gballot_before [OF _ gstep.rel_global_vote [OF h] leaders.view_global_vote [OF h]] by blast
    show ?thesis
    proof (cases "gvp_Granted resp")
      case False
      then show ?thesis using D D' by (intro exI [of _ D]) auto
    next
      case granted: True
      obtain n n' where "look c (NodeID l) = Some n" "look c1 (NodeID l) = Some n'"
          "gcould_vote (gvr_GlobalTerm req) did (sn_State n)" "gvoted (gvr_GlobalTerm req) did (sn_State n')"
        using handleGlobalVote_granted [OF h granted] did(1) by blast
      then have "gballot c c1 i (gvr_GlobalTerm req) did d" using l by (auto simp: gballot_def)
      then have new: "gballot c c' i (gvr_GlobalTerm req) did d"
        using did(2,3) gquiet_keep [OF gstep.rel_global_votes [OF rest]] by (rule gballot_after)
      have "d \<notin> D" "finite D" using D(1) Cons.prems(2) finite_subset [OF D(1)] by auto
      then show ?thesis using D(1,2) D' new granted by (intro exI [of _ "insert d D"]) auto
    qed
  qed
qed

section \<open>Mandates\<close>

definition global_leader_at :: "Cluster \<Rightarrow> string \<Rightarrow> u64 \<Rightarrow> bool" where
  "global_leader_at c i t \<longleftrightarrow>
     (\<exists>n. look c i = Some n \<and> sn_GlobalRole n = Leader \<and> ps_GlobalTerm (sn_State n) = t)"

definition gvotes :: "Cluster \<Rightarrow> u64 \<Rightarrow> DomainLeaderIdentity \<Rightarrow> string \<Rightarrow> bool" where
  "gvotes c t did d \<longleftrightarrow>
     (\<exists>l m. fmlookup (cl_domainLeaders c) d = Some l \<and> look c (NodeID l) = Some m \<and> gvoted t did (sn_State m))"

definition gmandate :: "Cluster \<Rightarrow> string \<Rightarrow> u64 \<Rightarrow> bool" where
  "gmandate c i t \<longleftrightarrow>
     (\<exists>did D. NodeID did = i \<and> dli_Valid did \<and> valid_dli did \<and> D \<subseteq> set (Domains (cl_config c)) \<and>
        globalElectionThreshold (length (Domains (cl_config c))) \<le> card D \<and> (\<forall>d \<in> D. gvotes c t did d))"

text \<open>The table of domain leaders holds valid identities of nodes of the right domain.\<close>

definition leaders_ok :: "Cluster \<Rightarrow> bool" where
  "leaders_ok c \<longleftrightarrow>
     (\<forall>d l. fmlookup (cl_domainLeaders c) d = Some l \<longrightarrow>
        DomainID l = d \<and> dli_Valid l \<and> valid_dli l \<and> (\<exists>n. look c (NodeID l) = Some n \<and> sn_DomainCode n = d))"

definition ginv :: "Cluster \<Rightarrow> bool" where
  "ginv c \<longleftrightarrow> ids_ok (cl_config c) \<and> leaders_ok c \<and>
     (\<forall>i t. global_leader_at c i t \<longrightarrow> gmandate c i t) \<and>
     (\<forall>i j t. global_leader_at c i t \<longrightarrow> global_leader_at c j t \<longrightarrow> i = j)"

lemma global_leader_before:
  assumes "nodes_rel gquiet c c'" "global_leader_at c' i t"
  shows "global_leader_at c i t"
proof -
  obtain n' where n': "look c' i = Some n'" "sn_GlobalRole n' = Leader" "ps_GlobalTerm (sn_State n') = t"
    using assms(2) by (auto simp: global_leader_at_def)
  obtain n where "look c i = Some n" "gquiet n n'" using nodes_rel_look [OF assms(1) n'(1)] by blast
  then show ?thesis using n' by (auto simp: global_leader_at_def gquiet_def)
qed

text \<open>A mandate survives as long as the table keeps the entries it had.\<close>

lemma gmandate_rel:
  assumes "gmandate c i t" "cfg_Nodes (cl_config c') = cfg_Nodes (cl_config c)"
    and keep: "\<And>q n. look c q = Some n \<Longrightarrow> \<exists>n'. look c' q = Some n' \<and> gvote_ok (sn_State n) (sn_State n')"
    and entries: "\<And>d l. fmlookup (cl_domainLeaders c) d = Some l \<Longrightarrow> fmlookup (cl_domainLeaders c') d = Some l"
  shows "gmandate c' i t"
proof -
  obtain did D where D: "NodeID did = i" "dli_Valid did" "valid_dli did" "D \<subseteq> set (Domains (cl_config c))"
    "globalElectionThreshold (length (Domains (cl_config c))) \<le> card D" "\<forall>d \<in> D. gvotes c t did d"
    using assms(1) unfolding gmandate_def by blast
  have "gvotes c' t did d" if d: "d \<in> D" for d
  proof -
    obtain l m where l: "fmlookup (cl_domainLeaders c) d = Some l" "look c (NodeID l) = Some m"
        "gvoted t did (sn_State m)" using D(6) d unfolding gvotes_def by blast
    obtain m' where "look c' (NodeID l) = Some m'" "gvote_ok (sn_State m) (sn_State m')" using keep [OF l(2)] by blast
    then show ?thesis using entries [OF l(1)] gvoted_mono [OF l(3) _ D(2,3)] unfolding gvotes_def by blast
  qed
  then show ?thesis using D(1-5) Domains_cong [OF assms(2)] unfolding gmandate_def by metis
qed

lemma leaders_ok_rel:
  assumes "leaders_ok c" "nodes_rel gquiet c c'"
    and new: "\<And>d l. fmlookup (cl_domainLeaders c') d = Some l \<Longrightarrow> fmlookup (cl_domainLeaders c) d = Some l \<or>
      DomainID l = d \<and> dli_Valid l \<and> valid_dli l \<and> (\<exists>n. look c (NodeID l) = Some n \<and> sn_DomainCode n = d)"
  shows "leaders_ok c'"
  unfolding leaders_ok_def
proof (intro allI impI)
  fix d l assume "fmlookup (cl_domainLeaders c') d = Some l"
  then have "DomainID l = d \<and> dli_Valid l \<and> valid_dli l \<and> (\<exists>n. look c (NodeID l) = Some n \<and> sn_DomainCode n = d)"
    using new assms(1) unfolding leaders_ok_def by blast
  then show "DomainID l = d \<and> dli_Valid l \<and> valid_dli l \<and> (\<exists>n. look c' (NodeID l) = Some n \<and> sn_DomainCode n = d)"
    using nodes_rel_look_fwd [OF assms(2)] by (fastforce simp: gquiet_def same_name_def)
qed

lemma ginv_quiet:
  assumes "nodes_rel gquiet c c'" "ginv c"
    and grow: "\<And>d l. fmlookup (cl_domainLeaders c) d = Some l \<Longrightarrow> fmlookup (cl_domainLeaders c') d = Some l"
    and new: "\<And>d l. fmlookup (cl_domainLeaders c') d = Some l \<Longrightarrow> fmlookup (cl_domainLeaders c) d = Some l \<or>
      DomainID l = d \<and> dli_Valid l \<and> valid_dli l \<and> (\<exists>n. look c (NodeID l) = Some n \<and> sn_DomainCode n = d)"
  shows "ginv c'"
proof -
  have cfg: "cfg_Nodes (cl_config c') = cfg_Nodes (cl_config c)" using assms(1) by (simp add: nodes_rel_def)
  note before = global_leader_before [OF assms(1)]
  have "gmandate c' i t" if "global_leader_at c' i t" for i t
  proof (rule gmandate_rel [OF _ cfg])
    show "gmandate c i t" using before [OF that] assms(2) by (auto simp: ginv_def)
  qed (use gquiet_keep [OF assms(1)] grow in auto)
  moreover have "i = j" if "global_leader_at c' i t" "global_leader_at c' j t" for i j t
    using before [OF that(1)] before [OF that(2)] assms(2) unfolding ginv_def by blast
  moreover have "leaders_ok c'" using leaders_ok_rel [OF _ assms(1) new] assms(2) by (auto simp: ginv_def)
  moreover have "ids_ok (cl_config c')" using assms(2) cfg by (simp add: ginv_def ids_ok_def)
  ultimately show ?thesis unfolding ginv_def by blast
qed

lemma ginv_same:
  "nodes_rel gquiet c c' \<Longrightarrow> ginv c \<Longrightarrow> cl_domainLeaders c' = cl_domainLeaders c \<Longrightarrow> ginv c'"
  by (rule ginv_quiet) auto

text \<open>Nobody leads after a revocation.\<close>

lemma ginv_revoked:
  assumes "nodes_rel gquiet c c'" "ginv c" "\<And>i t. \<not> global_leader_at c' i t"
    and new: "\<And>d l. fmlookup (cl_domainLeaders c') d = Some l \<Longrightarrow> fmlookup (cl_domainLeaders c) d = Some l \<or>
      DomainID l = d \<and> dli_Valid l \<and> valid_dli l \<and> (\<exists>n. look c (NodeID l) = Some n \<and> sn_DomainCode n = d)"
  shows "ginv c'"
proof -
  have "ids_ok (cl_config c')" using assms(1,2) by (simp add: ginv_def ids_ok_def nodes_rel_def)
  moreover have "leaders_ok c'" using leaders_ok_rel [OF _ assms(1) new] assms(2) by (auto simp: ginv_def)
  ultimately show ?thesis using assms(3) unfolding ginv_def by blast
qed

lemma invalidate_no_leader: "\<not> global_leader_at (invalidateGlobalLeaderLocked c) i t"
  by (auto simp: global_leader_at_def revoke_def transition_defs)

section \<open>Domain elections\<close>

interpretation leader_view: cluster_view cl_globalLeader
  by unfold_locales simp_all

lemma domain_announced_leaders [simp]:
  "cl_domainLeaders (domain_announced did c) = fmupd (DomainID did) did (cl_domainLeaders c)"
  unfolding domain_announced_def by (subst leaders.view_fold) simp_all

lemma electDomain_leaders:
  assumes "electDomainLeaderLocked d i c = (c', out)"
  shows "cl_domainLeaders c' =
    (case out of Inl _ \<Rightarrow> cl_domainLeaders c | Inr identity \<Rightarrow> fmupd d identity (cl_domainLeaders c))"
  using assms
proof (cases rule: electDomain_cases)
  case (lost n e r)
  then show ?thesis using leaders.view_domain_votes [OF lost(3)] by simp
next
  case (won n c3 v identity)
  then show ?thesis using leaders.view_domain_votes [OF won(5)]
    by (simp add: install_domain_leader_eq Let_def)
qed simp_all

text \<open>A change of an existing entry revokes the global leadership.\<close>

lemma electDomain_revokes:
  assumes "electDomainLeaderLocked d i c = (c', Inr identity)" "fmlookup (cl_domainLeaders c) d = Some l"
    "dli_Valid l" "l \<noteq> identity"
  shows "\<not> global_leader_at c' j t"
  using assms(1)
proof (cases rule: electDomain_cases)
  case (won n c3 v ident)
  have "cl_domainLeaders c3 = cl_domainLeaders c" using leaders.view_domain_votes [OF won(5)] by simp
  then have "get_or no_dli (cl_domainLeaders c3) (DomainID identity) = l"
    using won(7,9) assms(2) by (simp add: get_or_def)
  then show ?thesis using won(8,9) assms(3,4) invalidate_no_leader by (simp add: install_domain_leader_eq Let_def)
qed simp_all

lemma elected_identity_ok:
  assumes "electDomainLeaderLocked d i c = (c', Inr identity)" "room c" "sound c" "ids_ok (cl_config c)"
  shows "DomainID identity = d \<and> dli_Valid identity \<and> valid_dli identity \<and>
    (\<exists>n. look c (NodeID identity) = Some n \<and> sn_DomainCode n = d)"
proof -
  obtain t n where id: "identity = \<lparr>DomainID = d, NodeID = i, DomainTerm = t\<rparr>"
    and n: "look c i = Some n" "sn_DomainCode n = d" "ps_DomainTerm (sn_State n) < t" "i \<noteq> []" "valid_utf8 i"
    by (rule domain_win_phases [OF assms])
  obtain m where "m \<in> set (cfg_Nodes (cl_config c))" "nd_DomainCode m = d"
    using wf_cluster_node(2) [OF _ n(1)] assms(3) n(2) by (auto simp: sound_def)
  then have "d \<noteq> []" "valid_utf8 d" using assms(4) by (auto simp: ids_ok_def list_all_iff)
  moreover have "0 < t" using n(3) by (metis word_neq_0_conv word_not_simps(1))
  ultimately show ?thesis using id n by (simp add: dli_Valid_def valid_dli_def)
qed

lemma ginv_electDomain:
  assumes "electDomainLeaderLocked d i c = (c', out)" "room c" "sound c" "ginv c"
  shows "ginv c'"
proof -
  have rel: "nodes_rel gquiet c c'" using assms(1,2) by (rule gstep.rel_electDomain)
  show ?thesis
  proof (cases out)
    case (Inl e)
    then show ?thesis using ginv_same [OF rel assms(4)] electDomain_leaders [OF assms(1)] by simp
  next
    case (Inr identity)
    have ids: "ids_ok (cl_config c)" using assms(4) by (simp add: ginv_def)
    have e: "electDomainLeaderLocked d i c = (c', Inr identity)" using assms(1) Inr by simp
    note ok = elected_identity_ok [OF e assms(2,3) ids]
    have tab: "cl_domainLeaders c' = fmupd d identity (cl_domainLeaders c)"
      using electDomain_leaders [OF e] by simp
    have new: "fmlookup (cl_domainLeaders c) d' = Some l \<or>
        DomainID l = d' \<and> dli_Valid l \<and> valid_dli l \<and> (\<exists>n. look c (NodeID l) = Some n \<and> sn_DomainCode n = d')"
      if "fmlookup (cl_domainLeaders c') d' = Some l" for d' l
      using that ok by (auto simp: tab split: if_splits)
    show ?thesis
    proof (cases "\<exists>l. fmlookup (cl_domainLeaders c) d = Some l \<and> l \<noteq> identity")
      case True
      then obtain l where l: "fmlookup (cl_domainLeaders c) d = Some l" "l \<noteq> identity" by blast
      then have "dli_Valid l" using assms(4) by (auto simp: ginv_def leaders_ok_def)
      then show ?thesis using ginv_revoked [OF rel assms(4) _ new] electDomain_revokes [OF e l(1) _ l(2)] by blast
    next
      case False
      then have "fmlookup (cl_domainLeaders c') d' = Some l" if "fmlookup (cl_domainLeaders c) d' = Some l" for d' l
        using that by (auto simp: tab)
      then show ?thesis using ginv_quiet [OF rel assms(4) _ new] by blast
    qed
  qed
qed

text \<open>Failure detection is safe as long as it does not remove an entry.\<close>

lemma ginv_reelect:
  assumes "room c" "sound c" "ginv c" "fmdom (cl_domainLeaders c) |\<subseteq>| fmdom (cl_domainLeaders (reelect_domain d c))"
  shows "ginv (reelect_domain d c)"
proof (cases "reelect_domain d c = c")
  case False
  define dropped where "dropped = (\<lambda>c1 :: Cluster. c1\<lparr>cl_domainLeaders := fmdrop d (cl_domainLeaders c1)\<rparr>)"
  have drop: "ginv (dropped c1)" if "reelect_domain d c = dropped c1" "nodes_rel gquiet c c1" "cl_domainLeaders c1 = cl_domainLeaders c" for c1
  proof -
    have "d |\<notin>| fmdom (cl_domainLeaders c)" using assms(4) that(1,3) by (auto simp: dropped_def)
    then have "cl_domainLeaders (dropped c1) = cl_domainLeaders c"
      using that(3) by (simp add: dropped_def fmdrop_idle)
    moreover have "nodes_rel gquiet c (dropped c1)" using that(2) by (simp add: dropped_def nodes_rel_def)
    ultimately show ?thesis using ginv_same assms(3) by blast
  qed
  have nq: "\<not> (case fmlookup (cl_domainLeaders c) d of
      None \<Rightarrow> False | Some identity \<Rightarrow> domainIdentityHasQuorumLocked c identity)"
    using False unfolding reelect_domain_def by presburger
  consider (none) "reelect_domain d c = dropped c"
    | (lost) i c1 e where "electDomainLeaderLocked d i c = (c1, Inl e)" "reelect_domain d c = dropped c1"
    | (won) i c1 x where "electDomainLeaderLocked d i c = (c1, Inr x)" "reelect_domain d c = c1"
  proof (cases "bestAvailableDomainCandidateLocked c d")
    case None
    then have "reelect_domain d c = dropped c" using nq by (simp add: reelect_domain_def dropped_def)
    then show thesis by (rule none)
  next
    case (Some i)
    obtain c1 r where e: "electDomainLeaderLocked d i c = (c1, r)" by fastforce
    then have "reelect_domain d c = (case r of Inl _ \<Rightarrow> dropped c1 | Inr _ \<Rightarrow> c1)"
      using nq Some by (cases r) (simp_all add: reelect_domain_def dropped_def)
    then show thesis using e lost won by (cases r) simp_all
  qed
  then show ?thesis
  proof cases
    case none
    then show ?thesis using drop [OF none] by simp
  next
    case lost
    then show ?thesis
      using drop [OF lost(2) gstep.rel_electDomain [OF lost(1) assms(1)]] electDomain_leaders [OF lost(1)] by simp
  next
    case won
    then show ?thesis using ginv_electDomain [OF won(1) assms(1-3)] by simp
  qed
qed (use assms in simp)

section \<open>The winner of a global election\<close>

lemma global_campaigned_leaders [simp]: "cl_domainLeaders (global_campaigned i did n c) = cl_domainLeaders c"
  by (simp add: global_campaigned_def Let_def)

lemma global_announced_leaders [simp]: "cl_domainLeaders (global_announced gid c) = cl_domainLeaders c"
  unfolding global_announced_def by (subst leaders.view_fold) simp_all

lemma electGlobal_leaders:
  assumes "electGlobalLeaderLocked i c = (c', out)"
  shows "cl_domainLeaders c' = cl_domainLeaders c"
  using assms
proof (cases rule: electGlobal_cases)
  case (lost n did e r)
  then show ?thesis using leaders.view_global_votes [OF lost(2)] by simp
next
  case (won n did c4 v identity)
  then show ?thesis using leaders.view_global_votes [OF won(6)] by (simp add: install_global_leader_eq)
qed simp_all

lemma campaign_state:
  assumes "look c i = Some n"
  shows "\<exists>n'. look (global_campaigned i did n c) i = Some n' \<and>
    ps_GlobalTerm (sn_State n') = ps_GlobalTerm (sn_State n) + 1 \<and> ps_GlobalVotedFor (sn_State n') = did"
  using assms
  by (auto simp: global_campaigned_def Let_def start_global_campaign_def revoke_def transition_defs split: prod.splits)

lemma announce_keeps_gterm:
  assumes "gterm_of c i = gli_GlobalTerm gid"
  shows "gterm_of (announce_global gid j c) i = gli_GlobalTerm gid"
proof (cases "look c j")
  case (Some n)
  obtain s r g b where t: "transitionAcceptGlobalLeader (sn_State n) (sn_GlobalRole n) (sn_Stage n) (sn_ID n) gid = (s, r, g, b)"
    by (metis prod_cases4)
  show ?thesis using assms Some t AcceptGlobal_cases(4,5) [OF t]
    by (cases "i = j"; cases b) (auto simp: announce_global_def gterm_of_def accept_global_def)
qed (use assms in \<open>simp add: announce_global_def\<close>)

lemma global_announced_gterm:
  assumes "gterm_of c i = gli_GlobalTerm gid"
  shows "gterm_of (global_announced gid c) i = gli_GlobalTerm gid"
proof -
  have "gterm_of (c\<lparr>cl_globalLeader := x\<rparr>) i = gli_GlobalTerm gid" for x using assms by (simp add: gterm_of_def)
  then show ?thesis unfolding global_announced_def by (rule fold_inv) (rule announce_keeps_gterm)
qed

lemma become_global_fields:
  "gvote_ok (sn_State n) (sn_State (become_global gid n))" "sn_GlobalRole (become_global gid n) = Leader"
  "same_name n (become_global gid n)"
  "ps_GlobalTerm (sn_State (become_global gid n)) = max (ps_GlobalTerm (sn_State n)) (gli_GlobalTerm gid)"
  by (auto simp: become_global_def transition_defs gvote_ok_def same_name_def)

lemma global_win_phases:
  assumes "electGlobalLeaderLocked i c = (c', Inr identity)" "room c" "ginv c"
  obtains t n did c4 v c5 where "look c i = Some n" "ps_GlobalTerm (sn_State n) < t"
    "fmlookup (cl_domainLeaders c) (sn_DomainCode n) = Some did" "NodeID did = i" "dli_Valid did" "valid_dli did"
    "identity = \<lparr>gli_DomainLeader = did, gli_GlobalTerm = t\<rparr>"
    "nodes_rel gquiet c (global_campaigned i did n c)"
    "global_votes i (global_request did n) (Domains (cl_config c)) 1 (global_campaigned i did n c) = (c4, Inr v)"
    "gvr_GlobalTerm (global_request did n) = t" "gvr_Candidate (global_request did n) = did"
    "globalElectionThreshold (length (Domains (cl_config c))) \<le> v"
    "\<forall>n4. look c4 i = Some n4 \<longrightarrow> gvoted t did (sn_State n4)"
    "nodes_rel gquiet c4 c5" "gterm_of c5 i = t" "c' = upd_node i (become_global identity) c5"
proof -
  obtain n did c4 v where n: "look c i = Some n"
      "fmlookup (cl_domainLeaders c) (sn_DomainCode n) = Some did" "NodeID did = i"
    and vote: "global_votes i (global_request did n) (Domains (cl_config c)) 1 (global_campaigned i did n c) = (c4, Inr v)"
      "globalElectionThreshold (length (Domains (cl_config c))) \<le> v"
    and id: "identity = \<lparr>gli_DomainLeader = did, gli_GlobalTerm = gterm_of c4 i\<rparr>"
      "c' = install_global_leader identity c4"
    using assms(1) by (cases rule: electGlobal_cases) blast+
  have did: "dli_Valid did" "valid_dli did" using assms(3) n(2) by (auto simp: ginv_def leaders_ok_def)
  define t where "t = ps_GlobalTerm (sn_State n) + 1"
  have c4i: "\<exists>n4. look c4 i = Some n4 \<and> ps_GlobalTerm (sn_State n4) = t \<and> ps_GlobalVotedFor (sn_State n4) = did"
    using global_votes_candidate [OF vote(1)] campaign_state [OF n(1)] by (simp add: t_def)
  then have t4: "gterm_of c4 i = t" by (auto simp: gterm_of_def)
  have ident: "identity = \<lparr>gli_DomainLeader = did, gli_GlobalTerm = t\<rparr>" using id(1) t4 by simp
  have max: "ps_GlobalTerm (sn_State n) \<noteq> max_u64" using roomD [OF assms(2) n(1)] by simp
  show thesis
  proof (rule that [OF n(1) _ n(2,3) did ident _ vote(1) _ _ vote(2)])
    show "ps_GlobalTerm (sn_State n) < t" using max u64_less_plus1 by (simp add: t_def)
    show "nodes_rel gquiet c (global_campaigned i did n c)" using gstep.rel_global_campaigned [OF n(1) max] .
    show "gvr_GlobalTerm (global_request did n) = t" "gvr_Candidate (global_request did n) = did"
      by (simp_all add: global_request_def start_global_campaign_def transition_defs Let_def t_def)
    show "\<forall>n4. look c4 i = Some n4 \<longrightarrow> gvoted t did (sn_State n4)" using c4i by (auto simp: gvoted_def)
    show "nodes_rel gquiet c4 (global_announced identity c4)" by (rule gstep.rel_global_announced)
    show "gterm_of (global_announced identity c4) i = t"
      using global_announced_gterm [of c4 i identity] t4 ident by simp
    show "c' = upd_node i (become_global identity) (global_announced identity c4)"
      using id n(3) ident by (simp add: install_global_leader_eq)
  qed
qed

lemma become_global_keep:
  assumes "nodes_rel gquiet c4 c5" "look c4 q = Some n"
  shows "\<exists>n'. look (upd_node i (become_global gid) c5) q = Some n' \<and> gvote_ok (sn_State n) (sn_State n')"
  using gquiet_keep [OF assms] become_global_fields(1) gvote_ok_trans by (cases "q = i") fastforce+

text \<open>The votes of a won election: a quorum of domains whose recorded leader could vote for the winner
  before and has voted for it after.\<close>

lemma global_election_won:
  assumes "electGlobalLeaderLocked i c = (c', Inr identity)" "room c" "sound c" "ginv c"
  obtains t did D where "NodeID did = i" "dli_Valid did" "valid_dli did"
    "D \<subseteq> set (Domains (cl_config c))" "globalElectionThreshold (length (Domains (cl_config c))) \<le> card D"
    "\<forall>d \<in> D. \<exists>l n n'. fmlookup (cl_domainLeaders c) d = Some l \<and> look c (NodeID l) = Some n \<and>
       look c' (NodeID l) = Some n' \<and> gcould_vote t did (sn_State n) \<and> gvoted t did (sn_State n')"
    "\<forall>t'. global_leader_at c' i t' \<longleftrightarrow> t' = t"
    "\<forall>j t'. j \<noteq> i \<longrightarrow> global_leader_at c' j t' \<longrightarrow> global_leader_at c j t'"
    "\<forall>q n. look c q = Some n \<longrightarrow> (\<exists>n'. look c' q = Some n' \<and> gvote_ok (sn_State n) (sn_State n'))"
    "cfg_Nodes (cl_config c') = cfg_Nodes (cl_config c)" "D \<noteq> {}"
proof -
  obtain t n did c4 v c5 where n: "look c i = Some n" "ps_GlobalTerm (sn_State n) < t"
      "fmlookup (cl_domainLeaders c) (sn_DomainCode n) = Some did" "NodeID did = i"
    and did: "dli_Valid did" "valid_dli did"
    and id: "identity = \<lparr>gli_DomainLeader = did, gli_GlobalTerm = t\<rparr>"
    and r0: "nodes_rel gquiet c (global_campaigned i did n c)"
    and vote: "global_votes i (global_request did n) (Domains (cl_config c)) 1 (global_campaigned i did n c) = (c4, Inr v)"
      "gvr_GlobalTerm (global_request did n) = t" "gvr_Candidate (global_request did n) = did"
      "globalElectionThreshold (length (Domains (cl_config c))) \<le> v"
    and own: "\<forall>n4. look c4 i = Some n4 \<longrightarrow> gvoted t did (sn_State n4)"
    and r: "nodes_rel gquiet c4 c5" "gterm_of c5 i = t" "c' = upd_node i (become_global identity) c5"
    by (rule global_win_phases [OF assms(1,2,4)]) (rule that)
  have r04: "nodes_rel gquiet c c4" using gstep.rel_trans [OF r0 gstep.rel_global_votes [OF vote(1)]] .
  have keep: "\<exists>n'. look c' q = Some n' \<and> gvote_ok (sn_State n) (sn_State n')" if "look c4 q = Some n" for q n
    unfolding r(3) using r(1) that by (rule become_global_keep)
  have dist: "distinct (Domains (cl_config c))" by (simp add: Domains_def)
  obtain D where D: "D \<subseteq> set (Domains (cl_config c))" "v = 1 + card D"
      "\<forall>d \<in> D. gballot (global_campaigned i did n c) c4 i t did d"
    using global_votes_evidence [OF vote(1) dist vote(3) did] vote(2) by auto
  have ballots: "gballot c c' i t did d" if "d \<in> D" for d
  proof -
    have "gballot (global_campaigned i did n c) c4 i t did d" using D(3) that by blast
    then have "gballot c c4 i t did d" using r0 global_campaigned_leaders by (rule gballot_before)
    then show ?thesis using did keep by (rule gballot_after)
  qed
  let ?d = "sn_DomainCode n"
  have "?d \<notin> D" using ballots [of ?d] n(3,4) by (auto simp: gballot_def)
  then have card: "globalElectionThreshold (length (Domains (cl_config c))) \<le> card (insert ?d D)"
    using vote(4) D(2) finite_subset [OF D(1)] by simp
  have dom: "?d \<in> set (Domains (cl_config c))"
    using wf_cluster_node(2) [OF _ n(1)] assms(3) by (force simp: sound_def Domains_def image_iff)
  obtain n4 where n4: "look c4 i = Some n4" using nodes_rel_look_fwd [OF r04 n(1)] by blast
  obtain n' where n': "look c' i = Some n'" "gvoted t did (sn_State n')"
    using keep [OF n4] own n4 gvoted_mono did by blast
  have ev: "\<forall>d \<in> insert ?d D. \<exists>l n n'. fmlookup (cl_domainLeaders c) d = Some l \<and> look c (NodeID l) = Some n \<and>
       look c' (NodeID l) = Some n' \<and> gcould_vote t did (sn_State n) \<and> gvoted t did (sn_State n')"
  proof
    fix d assume "d \<in> insert ?d D"
    then consider "d = ?d" | "d \<in> D" by blast
    then show "\<exists>l n n'. fmlookup (cl_domainLeaders c) d = Some l \<and> look c (NodeID l) = Some n \<and>
       look c' (NodeID l) = Some n' \<and> gcould_vote t did (sn_State n) \<and> gvoted t did (sn_State n')"
    proof cases
      case 1
      then show ?thesis using n n' by (auto simp: gcould_vote_def)
    next
      case 2
      from ballots [OF this] show ?thesis unfolding gballot_def by blast
    qed
  qed
  obtain n5 where n5: "look c5 i = Some n5" "ps_GlobalTerm (sn_State n5) = t"
    using nodes_rel_look_fwd [OF r(1) n4] r(2) by (auto simp: gterm_of_def)
  have lead: "\<forall>t'. global_leader_at c' i t' \<longleftrightarrow> t' = t"
    using n5 id by (auto simp: r(3) global_leader_at_def become_global_fields)
  have old: "\<forall>j t'. j \<noteq> i \<longrightarrow> global_leader_at c' j t' \<longrightarrow> global_leader_at c j t'"
    using global_leader_before [OF gstep.rel_trans [OF r04 r(1)]] by (simp add: r(3) global_leader_at_def)
  have kept: "\<forall>q n. look c q = Some n \<longrightarrow> (\<exists>n'. look c' q = Some n' \<and> gvote_ok (sn_State n) (sn_State n'))"
    using gquiet_keep [OF r04] keep gvote_ok_trans by blast
  have cfg: "cfg_Nodes (cl_config c') = cfg_Nodes (cl_config c)" using r04 r by (simp add: nodes_rel_def)
  have "insert ?d D \<subseteq> set (Domains (cl_config c))" using D(1) dom by simp
  from that [OF n(4) did this card ev lead old kept cfg insert_not_empty] show thesis .
qed

lemma ginv_electGlobal:
  assumes "electGlobalLeaderLocked i c = (c', Inr identity)" "room c" "sound c" "ginv c"
  shows "ginv c'"
proof -
  obtain t did D where did: "NodeID did = i" "dli_Valid did" "valid_dli did"
    and D: "D \<subseteq> set (Domains (cl_config c))" "globalElectionThreshold (length (Domains (cl_config c))) \<le> card D"
    and ev: "\<forall>d \<in> D. \<exists>l n n'. fmlookup (cl_domainLeaders c) d = Some l \<and> look c (NodeID l) = Some n \<and>
       look c' (NodeID l) = Some n' \<and> gcould_vote t did (sn_State n) \<and> gvoted t did (sn_State n')"
    and lead: "\<forall>t'. global_leader_at c' i t' \<longleftrightarrow> t' = t"
    and old: "\<forall>j t'. j \<noteq> i \<longrightarrow> global_leader_at c' j t' \<longrightarrow> global_leader_at c j t'"
    and keep: "\<forall>q n. look c q = Some n \<longrightarrow> (\<exists>n'. look c' q = Some n' \<and> gvote_ok (sn_State n) (sn_State n'))"
    and cfg: "cfg_Nodes (cl_config c') = cfg_Nodes (cl_config c)" and ne: "D \<noteq> {}"
    by (rule global_election_won [OF assms]) (rule that)
  have tab: "cl_domainLeaders c' = cl_domainLeaders c" using electGlobal_leaders [OF assms(1)] .
  have won: "gvotes c' t did d" if d: "d \<in> D" for d
  proof -
    obtain l n n' where "fmlookup (cl_domainLeaders c) d = Some l" "look c' (NodeID l) = Some n'"
      "gvoted t did (sn_State n')" using ev d by blast
    then show ?thesis unfolding gvotes_def tab by blast
  qed
  have "gmandate c' i t" unfolding gmandate_def Domains_cong [OF cfg] using did D won by blast
  then have mandates: "gmandate c' j t'" if "global_leader_at c' j t'" for j t'
  proof (cases "j = i")
    case False
    then have "gmandate c j t'" using old that assms(4) unfolding ginv_def by blast
    then show ?thesis using cfg by (rule gmandate_rel) (use keep in blast, simp add: tab)
  qed (use that lead in auto)
  have single: "j = i" if j: "global_leader_at c' j t" for j
  proof (rule ccontr)
    assume other: "j \<noteq> i"
    then have "gmandate c j t" using old j assms(4) unfolding ginv_def by blast
    then obtain did' D' where d': "NodeID did' = j" "dli_Valid did'" "valid_dli did'"
      "D' \<subseteq> set (Domains (cl_config c))" "globalElectionThreshold (length (Domains (cl_config c))) \<le> card D'"
      "\<forall>d \<in> D'. gvotes c t did' d" unfolding gmandate_def by blast
    have "Domains (cl_config c) \<noteq> []"
      using ne D(1) by auto
    then obtain x xs where xs: "Domains (cl_config c) = x # xs" by (cases "Domains (cl_config c)") auto
    have "distinct (x # xs)" using xs [symmetric] by (simp add: Domains_def)
    then have len: "length (Domains (cl_config c)) = card (insert x (set xs))"
      using distinct_card [of "x # xs"] xs by simp
    have "D \<inter> D' \<noteq> {}"
      using domain_threshold.quorums_intersect [of D x xs D'] D d'(4,5) len xs by simp
    then obtain d where d: "d \<in> D" "d \<in> D'" by blast
    obtain l m where l: "fmlookup (cl_domainLeaders c) d = Some l" "look c (NodeID l) = Some m"
      "gvoted t did' (sn_State m)" using d'(6) d(2) unfolding gvotes_def by blast
    then have "gcould_vote t did (sn_State m)" using ev d(1) by fastforce
    then show False using gvote_conflict [OF l(3) _ d'(2,3)] did(1) d'(1) other by blast
  qed
  have "j = k" if "global_leader_at c' j t'" "global_leader_at c' k t'" for j k t'
  proof (cases "j = i \<or> k = i")
    case True
    then have "t' = t" using that lead by auto
    then show ?thesis using single that by metis
  next
    case False
    then show ?thesis using that old assms(4) unfolding ginv_def by blast
  qed
  moreover have "leaders_ok c'" unfolding leaders_ok_def tab
  proof (intro allI impI)
    fix d l assume "fmlookup (cl_domainLeaders c) d = Some l"
    then obtain n where n: "DomainID l = d" "dli_Valid l" "valid_dli l" "look c (NodeID l) = Some n" "sn_DomainCode n = d"
      using assms(4) unfolding ginv_def leaders_ok_def by blast
    have "nodes_rel same_name c c'" using name_step.rel_electGlobal [OF assms(1,2)] .
    then show "DomainID l = d \<and> dli_Valid l \<and> valid_dli l \<and> (\<exists>n. look c' (NodeID l) = Some n \<and> sn_DomainCode n = d)"
      using n nodes_rel_look_fwd [of same_name c c' "NodeID l" n] by (auto simp: same_name_def)
  qed
  moreover have "ids_ok (cl_config c')" using assms(4) cfg by (simp add: ginv_def ids_ok_def)
  ultimately show ?thesis using mandates unfolding ginv_def by blast
qed

section \<open>Every step that keeps the table keeps the mandates\<close>

lemma leaders_same:
  assumes "cluster_step c c'"
    "\<not> (\<exists>d i r. electDomainLeaderLocked d i c = (c', r) \<and> room c)" "\<not> (\<exists>d. c' = reelect_domain d c \<and> room c)"
  shows "cl_domainLeaders c' = cl_domainLeaders c"
  using assms(1)
proof cases
  case (restart_node i e)
  then show ?thesis by (auto simp: RestartNode_def split: option.splits sum.splits)
next
  case mark_started
  show ?thesis unfolding mark_started by (rule leaders.view_fold) simp
qed (use assms(2,3) in \<open>auto simp: cluster_Advance_def SetFastReturnEnabled_def
      dest: electGlobal_leaders leaders.view_domain_vote leaders.view_global_vote leaders.view_SendDomainHeartbeat
        leaders.view_SendGlobalHeartbeat leaders.view_StartNode leaders.view_Write leaders.view_Read
        leaders.view_Compact leaders.view_InstallSnapshot\<close>)

lemma electGlobal_lost:
  assumes "electGlobalLeaderLocked i c = (c', Inl e)" "room c"
  shows "nodes_rel gquiet c c'"
  using assms(1)
proof (cases rule: electGlobal_cases)
  case (unsaved n did e)
  then show ?thesis using gstep.rel_global_campaigned roomD [OF assms(2)] by blast
next
  case (lost n did e r)
  then show ?thesis using gstep.rel_electGlobal_pre assms(2) by blast
qed (use gstep.rel_refl in auto)

text \<open>A step that leaves every domain its entry in the table of leaders.\<close>

definition steady_step :: "Cluster \<Rightarrow> Cluster \<Rightarrow> bool" where
  "steady_step c c' \<longleftrightarrow> cluster_step c c' \<and> fmdom (cl_domainLeaders c) |\<subseteq>| fmdom (cl_domainLeaders c')"

lemma ginv_step:
  assumes "steady_step c c'" "sound c" "ginv c"
  shows "ginv c'"
proof (cases "(\<exists>d i r. electDomainLeaderLocked d i c = (c', r) \<and> room c) \<or> (\<exists>d. c' = reelect_domain d c \<and> room c)")
  case True
  then show ?thesis
    using ginv_electDomain [OF _ _ assms(2,3)] ginv_reelect [OF _ assms(2,3)] assms(1) unfolding steady_step_def by blast
next
  case quiet: False
  show ?thesis
  proof (cases "\<exists>i x. electGlobalLeaderLocked i c = (c', Inr x) \<and> room c")
    case True
    then show ?thesis using ginv_electGlobal assms by blast
  next
    case False
    have step: "cluster_step c c'" using assms(1) by (simp add: steady_step_def)
    have "nodes_rel gquiet c c'" if "electGlobalLeaderLocked i c = (c', r)" "room c" for i r
      using that False electGlobal_lost by (cases r) auto
    then have "nodes_rel gquiet c c'"
      using step by (rule_tac gstep.rel_step) (use assms(2) quiet in \<open>auto simp: sound_def\<close>)
    then show ?thesis using ginv_same assms(3) leaders_same [OF step] quiet by blast
  qed
qed

lemma ginv_run:
  assumes "steady_step\<^sup>*\<^sup>* c c'" "sound c" "ginv c"
  shows "ginv c' \<and> sound c'"
  using assms
proof (induction rule: rtranclp_induct)
  case (step c1 c2)
  then show ?case using ginv_step sound_step unfolding steady_step_def by blast
qed simp

lemma ginv_new:
  assumes "NewCluster rng config stores net clk = Inr c" "ids_ok config"
  shows "ginv c"
proof -
  have "\<not> global_leader_at c i t" for i t
    using NewCluster_nodes(5) [OF assms(1)] by (fastforce simp: global_leader_at_def)
  then show ?thesis using NewCluster_nodes(2,3) [OF assms(1)] assms(2) by (simp add: ginv_def leaders_ok_def)
qed

text \<open>C2: election safety of the global layer: in every run in which no domain loses its entry in the
  table of domain leaders, two nodes that are global leader in the same global term are the same
  node, and the recorded leaders of a quorum of domains (all but at most one, and a majority) have
  voted for it in that term or have moved to a later one.\<close>

theorem global_election_safety:
  assumes "NewCluster rng config stores net clk = Inr c0" "good_stores config stores" "ids_ok config"
    and "steady_step\<^sup>*\<^sup>* c0 c"
    and "look c i = Some n" "sn_GlobalRole n = Leader"
    and "look c j = Some m" "sn_GlobalRole m = Leader"
    and "ps_GlobalTerm (sn_State n) = ps_GlobalTerm (sn_State m)"
  shows "i = j \<and> gmandate c i (ps_GlobalTerm (sn_State n))"
proof -
  have "ginv c" using ginv_run [OF assms(4) NewCluster_sound [OF assms(1,2)] ginv_new [OF assms(1,3)]] by simp
  moreover have "global_leader_at c i (ps_GlobalTerm (sn_State n))"
    "global_leader_at c j (ps_GlobalTerm (sn_State n))"
    using assms(5-9) by (auto simp: global_leader_at_def)
  ultimately show ?thesis unfolding ginv_def by blast
qed

end
