(* ===== verification/Sim_Unique.thy ===== *)
theory Sim_Unique
  imports Sim_Global
begin

text \<open>
  The simulation's own uniqueness check, \<open>AssertLeaderUniqueness\<close>: the keys it builds from domain and
  term are injective, and it passes exactly where the election safety theorems hold.
\<close>

section \<open>Decimal numbers and the keys of the check\<close>

definition digits :: "char set" where
  "digits = set ''0123456789''"

lemma digit_in: "d < 10 \<Longrightarrow> digit d \<in> digits"
  using nth_mem [of d "''0123456789''"] by (simp add: digit_def digits_def)

lemma digit_inj: "d < 10 \<Longrightarrow> e < 10 \<Longrightarrow> digit d = digit e \<Longrightarrow> d = e"
  using nth_eq_iff_index_eq [of "''0123456789''" d e] by (simp add: digit_def)

lemma show_nat_digits: "set (show_nat n) \<subseteq> digits"
  by (induction n rule: show_nat.induct) (subst show_nat.simps, auto simp: digit_in)

lemma show_nat_not_Nil [simp]: "show_nat n \<noteq> []"
  by (subst show_nat.simps) simp

lemma show_nat_small: "n < 10 \<Longrightarrow> show_nat n = [digit n]"
  by (subst show_nat.simps) simp

lemma show_nat_large: "\<not> n < 10 \<Longrightarrow> show_nat n = show_nat (n div 10) @ [digit (n mod 10)]"
  by (subst show_nat.simps) simp

lemma show_nat_inj: "show_nat m = show_nat n \<Longrightarrow> m = n"
proof (induction m arbitrary: n rule: show_nat.induct)
  case (1 m)
  show ?case
  proof (cases "m < 10")
    case True
    then have "n < 10" using 1(2) show_nat_large [of n] show_nat_small [of m] not_sym [OF show_nat_not_Nil [of "n div 10"]]
      by (cases "n < 10") auto
    then show ?thesis using True 1(2) digit_inj by (simp add: show_nat_small)
  next
    case False
    then have large: "\<not> n < 10" using 1(2) show_nat_large [of m] show_nat_small [of n] by auto
    then have "show_nat (m div 10) = show_nat (n div 10)" "digit (m mod 10) = digit (n mod 10)"
      using 1(2) False by (simp_all add: show_nat_large)
    then have "m div 10 = n div 10" "m mod 10 = n mod 10"
      using 1(1) [OF False] digit_inj [of "m mod 10" "n mod 10"] by auto
    then show ?thesis by (metis div_mult_mod_eq)
  qed
qed

lemma append_sep_inj:
  assumes "xs @ s # ys = xs' @ s # ys'" "s \<notin> set ys" "s \<notin> set ys'"
  shows "xs = xs' \<and> ys = ys'"
proof -
  have "takeWhile (\<lambda>x. x \<noteq> s) (rev ys @ s # rev xs) = rev ys"
    "takeWhile (\<lambda>x. x \<noteq> s) (rev ys' @ s # rev xs') = rev ys'"
    using assms(2,3) by (subst takeWhile_append2; auto)+
  moreover have "rev ys @ s # rev xs = rev ys' @ s # rev xs'" using arg_cong [OF assms(1), of rev] by simp
  ultimately have "ys = ys'" by simp
  then show ?thesis using assms(1) by simp
qed

lemma term_key_inj: "term_key d t = term_key d' t' \<Longrightarrow> d = d' \<and> t = t'"
proof -
  assume eq: "term_key d t = term_key d' t'"
  have no_sep: "CHR ''/'' \<notin> set (show_nat n)" for n
    using show_nat_digits [of n] by (auto simp: digits_def)
  have "d = d' \<and> show_nat (unat t) = show_nat (unat t')"
    using append_sep_inj [of d "CHR ''/''" "show_nat (unat t)" d' "show_nat (unat t')"] eq no_sep
    by (simp add: term_key_def)
  then show ?thesis using show_nat_inj unsigned_word_eqI by blast
qed

section \<open>The check\<close>

definition live_dleader :: "TestNetwork \<Rightarrow> SimNode \<Rightarrow> bool" where
  "live_dleader net n \<longleftrightarrow> sn_DomainRole n = Leader \<and> \<not> IsStopped net (sn_ID n)"

definition live_gleader :: "TestNetwork \<Rightarrow> SimNode \<Rightarrow> bool" where
  "live_gleader net n \<longleftrightarrow> sn_GlobalRole n = Leader \<and> \<not> IsStopped net (sn_ID n)"

abbreviation dkey :: "SimNode \<Rightarrow> string" where
  "dkey n \<equiv> term_key (sn_DomainCode n) (ps_DomainTerm (sn_State n))"

definition names_of :: "('k \<Rightarrow> 'a \<Rightarrow> bool) \<Rightarrow> ('a \<Rightarrow> string) \<Rightarrow> 'a set \<Rightarrow> ('k, string) fmap \<Rightarrow> bool" where
  "names_of holds name A m \<longleftrightarrow> (\<forall>k x. fmlookup m k = Some x \<longrightarrow> (\<exists>a \<in> A. holds k a \<and> name a = x))"

lemma names_of_upd: "names_of holds name A m \<Longrightarrow> a \<in> A \<Longrightarrow> holds k a \<Longrightarrow> names_of holds name A (fmupd k (name a) m)"
  by (auto simp: names_of_def)

lemma names_of_get:
  assumes "names_of holds name A m" "\<And>b. b \<in> A \<Longrightarrow> holds k b \<Longrightarrow> name b = name a"
  shows "get_or (name a) m k = name a"
  using assms by (auto simp: names_of_def get_or_def split: option.splits)

lemma check_leaders_None:
  assumes "set ns \<subseteq> A"
    and "names_of (\<lambda>k n. live_dleader net n \<and> dkey n = k) sn_ID A dm"
    and "names_of (\<lambda>t n. live_gleader net n \<and> ps_GlobalTerm (sn_State n) = t) sn_ID A gm"
    and d: "\<And>n m. n \<in> A \<Longrightarrow> m \<in> A \<Longrightarrow> live_dleader net n \<Longrightarrow> live_dleader net m \<Longrightarrow> dkey n = dkey m \<Longrightarrow> sn_ID n = sn_ID m"
    and g: "\<And>n m. n \<in> A \<Longrightarrow> m \<in> A \<Longrightarrow> live_gleader net n \<Longrightarrow> live_gleader net m \<Longrightarrow>
       ps_GlobalTerm (sn_State n) = ps_GlobalTerm (sn_State m) \<Longrightarrow> sn_ID n = sn_ID m"
  shows "check_leaders net ns dm gm = None"
  using assms(1-3)
proof (induction ns arbitrary: dm gm)
  case (Cons n ns)
  have n: "n \<in> A" using Cons.prems(1) by simp
  have dm: "get_or (sn_ID n) dm (dkey n) = sn_ID n" if "live_dleader net n"
    using Cons.prems(2) by (rule names_of_get) (use d n that in blast)
  have gm: "get_or (sn_ID n) gm (ps_GlobalTerm (sn_State n)) = sn_ID n" if "live_gleader net n"
    using Cons.prems(3) by (rule names_of_get) (use g n that in blast)
  have "check_leaders net ns (if live_dleader net n then fmupd (dkey n) (sn_ID n) dm else dm)
      (if live_gleader net n then fmupd (ps_GlobalTerm (sn_State n)) (sn_ID n) gm else gm) = None"
    using Cons.prems n by (intro Cons.IH) (auto intro: names_of_upd)
  then show ?case using dm gm by (auto simp: Let_def live_dleader_def live_gleader_def)
qed simp

lemma uniqueness_holds:
  assumes "dinv c" "ginv c" "wf_cluster c"
  shows "AssertLeaderUniqueness c = None"
proof -
  let ?A = "fmran' (cl_nodes c)"
  have node: "look c (sn_ID n) = Some n" if n: "n \<in> ?A" for n
  proof -
    obtain i where i: "look c i = Some n" using n by (auto simp: fmran'_def ran_def)
    then show ?thesis using wf_cluster_node(1) [OF assms(3) i] by simp
  qed
  show ?thesis unfolding AssertLeaderUniqueness_def
  proof (rule check_leaders_None [of _ ?A])
    show "set (map snd (sorted_list_of_fmap (cl_nodes c))) \<subseteq> ?A"
      by (auto simp: sorted_list_of_fmap_def fmlookup_ran'_iff fmlookup_dom_iff)
    fix n m assume nm: "n \<in> ?A" "m \<in> ?A"
    show "sn_ID n = sn_ID m"
      if "live_dleader (cl_network c) n" "live_dleader (cl_network c) m" "dkey n = dkey m"
    proof -
      have "domain_leader_at c (sn_ID n) (sn_DomainCode n) (ps_DomainTerm (sn_State n))"
        "domain_leader_at c (sn_ID m) (sn_DomainCode n) (ps_DomainTerm (sn_State n))"
        using node [OF nm(1)] node [OF nm(2)] that term_key_inj [OF that(3)]
        by (auto simp: domain_leader_at_def live_dleader_def)
      then show ?thesis using assms(1) unfolding dinv_def by blast
    qed
    show "sn_ID n = sn_ID m"
      if "live_gleader (cl_network c) n" "live_gleader (cl_network c) m"
        "ps_GlobalTerm (sn_State n) = ps_GlobalTerm (sn_State m)"
    proof -
      have "global_leader_at c (sn_ID n) (ps_GlobalTerm (sn_State n))"
        "global_leader_at c (sn_ID m) (ps_GlobalTerm (sn_State n))"
        using node [OF nm(1)] node [OF nm(2)] that by (auto simp: global_leader_at_def live_gleader_def)
      then show ?thesis using assms(2) unfolding ginv_def by blast
    qed
  qed (simp_all add: names_of_def)
qed

text \<open>On a run in which no domain loses its entry in the table of domain leaders the
  simulation's uniqueness check never reports anything.\<close>

theorem uniqueness_check_passes:
  assumes "NewCluster rng config stores net clk = Inr c0" "good_stores config stores" "ids_ok config"
    and "steady_step\<^sup>*\<^sup>* c0 c"
  shows "AssertLeaderUniqueness c = None"
proof (rule uniqueness_holds)
  have run: "cluster_step\<^sup>*\<^sup>* c0 c"
    using assms(4) by (rule rtranclp_mono [THEN predicate2D, rotated]) (auto simp: steady_step_def)
  have s0: "sound c0" using NewCluster_sound assms(1,2) .
  show "ginv c" using ginv_run [OF assms(4) s0 ginv_new [OF assms(1,3)]] by simp
  show "dinv c" using dinv_run [OF run s0 dinv_new [OF assms(1,3)]] .
  show "wf_cluster c" using sound_run [OF run s0] by (simp add: sound_def)
qed

end
