(* ===== verification/Sim_Split.thy ===== *)
theory Sim_Split
  imports Sim_Model
begin

text \<open>
  A run of the simulated cluster, evaluated in the kernel, in which one global term gets two leaders.
  Three domains, \<open>a\<close> and \<open>c\<close> with one node each and \<open>b\<close> with three, and one global vote per domain and
  term as the rule that should keep the leader unique.  The vote is remembered by the node that cast it;
  when failure detection drops the entry of a domain from the table of leaders, the next leader of that
  domain is elected with no previous entry, so the global leader that the domain's old leader voted
  for is not invalidated, and the new leader can vote again in the same term.
\<close>

section \<open>The run\<close>

definition drops :: "(string \<times> string \<times> MessageKind) list \<Rightarrow> Cluster \<Rightarrow> Cluster" where
  "drops ls c = c\<lparr>cl_network := fold (\<lambda>(a, b, k) net. net_Drop net a b k) ls (cl_network c)\<rparr>"

definition allows :: "(string \<times> string \<times> MessageKind) list \<Rightarrow> Cluster \<Rightarrow> Cluster" where
  "allows ls c = c\<lparr>cl_network := fold (\<lambda>(a, b, k) net. net_Allow net a b k) ls (cl_network c)\<rparr>"

text \<open>\<open>a1\<close> is elected by \<open>a\<close> and \<open>b\<close>; neither \<open>c1\<close> nor the other nodes of \<open>b\<close> hear of it.\<close>

definition split0 :: "Cluster \<times> error option" where
  "split0 =
     (case NewCluster (\<lambda>_. 0) ex_config fmempty None None of
        Inl e \<Rightarrow> undefined
      | Inr c \<Rightarrow> StartAll (drops [(''a1'', ''c1'', GlobalVoteMessage), (''a1'', ''c1'', GlobalHeartbeatMessage),
                  (''a1'', ''b2'', GlobalHeartbeatMessage), (''a1'', ''b3'', GlobalHeartbeatMessage)] c))"

text \<open>\<open>b1\<close> stops and \<open>b\<close> has no quorum: its entry is dropped, \<open>a1\<close> keeps the acknowledgements of \<open>a\<close> and \<open>c\<close>.\<close>

definition split1 :: "Cluster \<times> error option" where
  "split1 = DetectAndReelect (drops [(''b2'', ''b3'', DomainVoteMessage), (''b3'', ''b2'', DomainVoteMessage)]
     (StopNode ''b1'' (allows [(''a1'', ''c1'', GlobalHeartbeatMessage)] (fst split0))))"

text \<open>\<open>b\<close> elects \<open>b2\<close>.\<close>

definition split2 :: "Cluster \<times> error option" where
  "split2 = DetectAndReelect
     (allows [(''b2'', ''b3'', DomainVoteMessage), (''b3'', ''b2'', DomainVoteMessage)] (fst split1))"

text \<open>\<open>c1\<close> campaigns in the term of \<open>a1\<close>, and \<open>b2\<close> votes for it.\<close>

definition split3 :: "Cluster \<times> (error + GlobalLeaderIdentity)" where
  "split3 = electGlobalLeaderLocked ''c1'' (drops [(''c1'', ''a1'', GlobalHeartbeatMessage)] (fst split2))"

lemma split_calls: "snd split0 = None" "snd split1 = None" "snd split2 = None"
  by code_simp+

lemma split_unique_before: "AssertLeaderUniqueness (fst split0) = None"
  by code_simp

lemma split_winner:
  "snd split3 = Inr \<lparr>gli_DomainLeader = \<lparr>DomainID = ''c'', NodeID = ''c1'', DomainTerm = 1\<rparr>, gli_GlobalTerm = 1\<rparr>"
  by code_simp

lemma split_found: "AssertLeaderUniqueness (fst split3) = Some (TwoGlobalLeaders 1 ''a1'' ''c1'')"
  by code_simp


end
