(* ===== verification/Sim_Examples.thy ===== *)
theory Sim_Examples
  imports Sim_Unique
begin

text \<open>
  Concrete runs of the simulated cluster, evaluated in the kernel: three domains, \<open>a\<close> and \<open>c\<close> with
  one node each and \<open>b\<close> with three.
\<close>

section \<open>An elected domain leader\<close>

definition ex0 :: Cluster where
  "ex0 = (case NewCluster (\<lambda>_. 0) ex_config fmempty None None of Inr c \<Rightarrow> c)"

definition ex1 :: Cluster where
  "ex1 = fst (StartNode ''b1'' ex0)"

definition ex2 :: Cluster where
  "ex2 = fst (StartNode ''b2'' ex1)"

definition ex3 :: Cluster where
  "ex3 = fst (electDomainLeaderLocked ''b'' ''b1'' ex2)"

lemma ex0_new: "NewCluster (\<lambda>_. 0) ex_config fmempty None None = Inr ex0"
proof -
  have "(case NewCluster (\<lambda>_. 0) ex_config fmempty None None of Inr _ \<Rightarrow> True | Inl _ \<Rightarrow> False)"
    by code_simp
  then show ?thesis by (auto simp: ex0_def split: sum.splits)
qed

lemma ex_good: "good_stores ex_config fmempty" "ids_ok ex_config"
  by code_simp+

lemma ex2_room: "room ex2"
  by code_simp

lemma ex_run: "cluster_step\<^sup>*\<^sup>* ex0 ex3"
proof -
  have "cluster_step ex0 ex1" "cluster_step ex1 ex2"
    unfolding ex1_def ex2_def by (rule start_node, rule prod.collapse [symmetric])+
  moreover have "cluster_step ex2 ex3"
    unfolding ex3_def by (rule elect_domain, rule prod.collapse [symmetric]) (rule ex2_room)
  ultimately show ?thesis by (meson converse_rtranclp_into_rtranclp rtranclp.rtrancl_refl)
qed

lemma ex3_leader:
  "map_option sn_DomainRole (look ex3 ''b1'') = Some Leader"
  "map_option sn_DomainCode (look ex3 ''b1'') = Some ''b''"
  "map_option (ps_DomainTerm \<circ> sn_State) (look ex3 ''b1'') = Some 1"
  by code_simp+

lemma domain_election_safety_witness: "mandate ex3 ''b'' ''b1'' 1"
proof -
  obtain n where n: "look ex3 ''b1'' = Some n" "sn_DomainRole n = Leader" "sn_DomainCode n = ''b''"
      "ps_DomainTerm (sn_State n) = 1"
    using ex3_leader by auto
  then show ?thesis
    using domain_election_safety [OF ex0_new ex_good ex_run n(1,2) n(1,2)] by simp
qed

lemma run_durable_witness:
  "\<exists>n c' n'. look ex3 ''b1'' = Some n \<and> ps_DomainVotedFor (sn_State n) = ''b1'' \<and>
     RestartNode ''b1'' ex3 = (c', None) \<and> look c' ''b1'' = Some n' \<and> sn_State n' = Clone (sn_State n)"
proof -
  obtain n where n: "look ex3 ''b1'' = Some n" using ex3_leader(1) by auto
  have "map_option (ps_DomainVotedFor \<circ> sn_State) (look ex3 ''b1'') = Some ''b1''" by code_simp
  then show ?thesis using run_durable [OF ex0_new ex_good(1) ex_run n] n by auto
qed

section \<open>An elected global leader\<close>

definition ex3a :: Cluster where
  "ex3a = fst (StartNode ''a1'' ex3)"

definition ex4 :: Cluster where
  "ex4 = fst (electDomainLeaderLocked ''a'' ''a1'' ex3a)"

definition ex5 :: Cluster where
  "ex5 = fst (electGlobalLeaderLocked ''a1'' ex4)"

lemma ex_steady_room: "room ex3a" "room ex4"
  by code_simp+

lemma ex_tables:
  "fmdom (cl_domainLeaders ex2) |\<subseteq>| fmdom (cl_domainLeaders ex3)"
  "fmdom (cl_domainLeaders ex3a) |\<subseteq>| fmdom (cl_domainLeaders ex4)"
  by code_simp+

lemma ex_steady_run: "steady_step\<^sup>*\<^sup>* ex0 ex5"
proof -
  have start: "steady_step c (fst (StartNode i c))" for i c
    using start_node [OF prod.collapse [symmetric], where i = i and c = c]
      leaders.view_StartNode [OF prod.collapse [symmetric], where i = i and c = c]
    by (simp add: steady_step_def)
  have "steady_step ex2 ex3" "steady_step ex3a ex4"
    using elect_domain [OF prod.collapse [symmetric], where d = "''b''" and i = "''b1''" and c = ex2] ex2_room
      elect_domain [OF prod.collapse [symmetric], where d = "''a''" and i = "''a1''" and c = ex3a] ex_steady_room(1) ex_tables
    by (simp_all add: steady_step_def ex3_def [symmetric] ex4_def [symmetric])
  moreover have "steady_step ex4 ex5"
    using elect_global [OF prod.collapse [symmetric], where i = "''a1''" and c = ex4] ex_steady_room(2)
      electGlobal_leaders [OF prod.collapse [symmetric], where i = "''a1''" and c = ex4]
    by (simp add: steady_step_def ex5_def [symmetric])
  moreover have "steady_step ex0 ex1" "steady_step ex1 ex2" "steady_step ex3 ex3a"
    unfolding ex1_def ex2_def ex3a_def by (rule start)+
  ultimately show ?thesis by (meson converse_rtranclp_into_rtranclp rtranclp.rtrancl_refl)
qed

lemma ex5_leader:
  "map_option (\<lambda>n. (sn_GlobalRole n, ps_GlobalTerm (sn_State n))) (look ex5 ''a1'') = Some (Leader, 1)"
  by code_simp

lemma global_election_safety_witness: "gmandate ex5 ''a1'' 1"
proof -
  obtain n where n: "look ex5 ''a1'' = Some n" "sn_GlobalRole n = Leader" "ps_GlobalTerm (sn_State n) = 1"
    using ex5_leader by auto
  then show ?thesis
    using global_election_safety [OF ex0_new ex_good ex_steady_run n(1,2) n(1,2)] by simp
qed

lemma uniqueness_check_passes_witness:
  "AssertLeaderUniqueness ex5 = None \<and>
   map_option (\<lambda>n. (sn_GlobalRole n, ps_GlobalTerm (sn_State n))) (look ex5 ''a1'') = Some (Leader, 1)"
  using uniqueness_check_passes [OF ex0_new ex_good ex_steady_run] ex5_leader by simp

end
