(* ===== verification/Sim_Writes.thy ===== *)
theory Sim_Writes
  imports Sim_Global "HOL-Library.Sublist"
begin

text \<open>
  Client writes on the simulated cluster: a Fast Return is only given for an entry that a majority of
  the global leader's domain and a majority of the origin domain hold.
\<close>

section \<open>The table of domain leaders in every run\<close>

definition entry_ok :: "Cluster \<Rightarrow> string \<Rightarrow> DomainLeaderIdentity \<Rightarrow> bool" where
  "entry_ok c d l \<longleftrightarrow> DomainID l = d \<and> dli_Valid l \<and> valid_dli l \<and> (\<exists>n. look c (NodeID l) = Some n \<and> sn_DomainCode n = d)"

lemma leaders_ok_iff: "leaders_ok c \<longleftrightarrow> (\<forall>d l. fmlookup (cl_domainLeaders c) d = Some l \<longrightarrow> entry_ok c d l)"
  by (simp add: leaders_ok_def entry_ok_def)

lemma entry_ok_names: "nodes_rel same_name c c' \<Longrightarrow> entry_ok c d l \<Longrightarrow> entry_ok c' d l"
  using nodes_rel_look_fwd [of same_name c c' "NodeID l"] by (fastforce simp: entry_ok_def same_name_def)

lemma leaders_ok_elect:
  assumes "electDomainLeaderLocked d i c = (c', out)" "room c" "sound c" "ids_ok (cl_config c)" "leaders_ok c"
  shows "leaders_ok c'"
proof -
  have "nodes_rel same_name c c'" using assms(1,2) by (rule name_step.rel_electDomain)
  moreover have "entry_ok c d identity" if "out = Inr identity" for identity
    using elected_identity_ok [of d i c c' identity] assms that by (simp add: entry_ok_def)
  ultimately show ?thesis
    using assms(5) electDomain_leaders [OF assms(1)] entry_ok_names
    by (auto simp: leaders_ok_iff split: sum.splits if_splits)
qed

lemma leaders_ok_drop: "leaders_ok c \<Longrightarrow> leaders_ok (c\<lparr>cl_domainLeaders := fmdrop d (cl_domainLeaders c)\<rparr>)"
  by (auto simp: leaders_ok_def split: if_splits)

lemma leaders_ok_step:
  assumes "cluster_step c c'" "sound c" "ids_ok (cl_config c)" "leaders_ok c"
  shows "leaders_ok c'"
proof (cases "(\<exists>d i r. electDomainLeaderLocked d i c = (c', r) \<and> room c) \<or> (\<exists>d. c' = reelect_domain d c \<and> room c)")
  case True
  then consider d i r where "electDomainLeaderLocked d i c = (c', r)" "room c" | d where "c' = reelect_domain d c" "room c"
    by blast
  then show ?thesis
  proof cases
    case 1
    then show ?thesis using leaders_ok_elect assms by blast
  next
    case 2
    then show ?thesis
      using leaders_ok_elect [of d _ c _ _, OF _ 2(2) assms(2-4)] leaders_ok_drop assms(4)
      by (auto simp: reelect_domain_def split: option.splits prod.splits sum.splits)
  qed
next
  case False
  have "cl_domainLeaders c' = cl_domainLeaders c" using leaders_same [OF assms(1)] False by blast
  moreover have "nodes_rel same_name c c'"
    using assms(1,2) name_step.rel_any_step by (auto simp: sound_def)
  ultimately show ?thesis using assms(4) entry_ok_names by (auto simp: leaders_ok_iff)
qed

lemma run_sound_leaders:
  assumes "cluster_step\<^sup>*\<^sup>* c0 c" "NewCluster rng config stores net clk = Inr c0" "good_stores config stores" "ids_ok config"
  shows "sound c \<and> leaders_ok c \<and> cfg_Nodes (cl_config c) = cfg_Nodes config"
  using assms(1)
proof (induction rule: rtranclp_induct)
  case base
  then show ?case using NewCluster_sound assms NewCluster_nodes(2,3) [OF assms(2)] by (simp add: leaders_ok_def)
next
  case (step c1 c2)
  have "ids_ok (cl_config c1)" using step.IH assms(4) by (simp add: ids_ok_def)
  moreover have "cfg_Nodes (cl_config c2) = cfg_Nodes (cl_config c1)"
    using name_step.rel_any_step [OF step.hyps(2)] step.IH by (auto simp: sound_def nodes_rel_def)
  ultimately show ?case using sound_step leaders_ok_step step by simp
qed

section \<open>Logs only grow on the data path\<close>

definition log_le :: "PersistentState \<Rightarrow> PersistentState \<Rightarrow> bool" where
  "log_le s s' \<longleftrightarrow> data_le s s' \<and> ps_SnapshotLastIndex s' = ps_SnapshotLastIndex s \<and> prefix (ps_Log s) (ps_Log s') \<and>
     (\<forall>d. getz (ps_DomainQuorumIndex s) d \<le> getz (ps_DomainQuorumIndex s') d)"

definition node_le :: "SimNode \<Rightarrow> SimNode \<Rightarrow> bool" where
  "node_le n n' \<longleftrightarrow> sn_ID n' = sn_ID n \<and> sn_DomainCode n' = sn_DomainCode n \<and> sn_Stage n' = sn_Stage n \<and>
     sn_DomainRole n' = sn_DomainRole n \<and> sn_GlobalRole n' = sn_GlobalRole n \<and> log_le (sn_State n) (sn_State n')"

interpretation grow: data_path node_le log_le
proof
  fix s s' s'' :: PersistentState and n n' n'' :: SimNode and e q
  show "node_le n n" by (simp add: node_le_def log_le_def)
  show "log_le s s" by (simp add: log_le_def)
  show le: "log_le s s' \<Longrightarrow> log_le s' s'' \<Longrightarrow> log_le s s''"
    by (auto simp: log_le_def intro: data_le_trans prefix_order.trans order_trans)
  show "node_le n n' \<Longrightarrow> node_le n' n'' \<Longrightarrow> node_le n n''"
    by (auto simp: node_le_def log_le_def intro: data_le_trans prefix_order.trans order_trans)
  show "log_le (sn_State n) s \<Longrightarrow> node_le n (persist (n\<lparr>sn_State := s\<rparr>))" by (simp add: node_le_def)
  show "GlobalIndex e \<noteq> max_u64 \<Longrightarrow> log_le s (fst (appendEntry s e))"
    using data_le_append by (auto simp: log_le_def appendEntry_def split: option.splits)
  show "(\<And>d. getz (ps_DomainQuorumIndex s) d \<le> getz q d) \<Longrightarrow> log_le s (s\<lparr>ps_DomainQuorumIndex := q\<rparr>)"
    by (simp add: log_le_def data_le_raise)
  show "entry_at s (GlobalIndex e) \<noteq> None \<Longrightarrow> log_le s (applyEntry s e)"
    using data_le_apply by (auto simp: log_le_def frame_simps)
qed

text \<open>A node that has the entry, in its log or below its snapshot.\<close>

definition has_it :: "u64 \<Rightarrow> u64 \<Rightarrow> string \<Rightarrow> PersistentState \<Rightarrow> bool" where
  "has_it i t r s \<longleftrightarrow> i \<le> ps_SnapshotLastIndex s \<or>
     (case entry_at s i of None \<Rightarrow> False | Some x \<Rightarrow> GlobalTerm x = t \<and> RequestID x = r)"

lemma entry_at_log_le:
  assumes "log_le s s'" "wf_state s" "entry_at s i = Some x"
  shows "entry_at s' i = Some x"
proof -
  have wf: "wf_state s'" using assms(1,2) by (simp add: log_le_def data_le_def)
  obtain ys where ys: "ps_Log s' = ps_Log s @ ys" using assms(1) by (auto simp: log_le_def prefix_def)
  have snap: "ps_SnapshotLastIndex s' = ps_SnapshotLastIndex s" using assms(1) by (simp add: log_le_def)
  have "LastLogIndex s \<le> LastLogIndex s'"
    using unat_LastLogIndex [OF wf] unat_LastLogIndex [OF assms(2)] ys snap by (simp add: word_le_nat_alt)
  then show ?thesis using assms(2,3) unat_LastLogIndex [OF assms(2)] unfolding wf_find [OF wf] snap
    by (auto simp: wf_find ys nth_append word_le_nat_alt word_less_nat_alt split: if_splits)
qed

lemma has_it_mono: "log_le s s' \<Longrightarrow> wf_state s \<Longrightarrow> has_it i t r s \<Longrightarrow> has_it i t r s'"
  using entry_at_log_le [of s s' i] by (auto simp: has_it_def log_le_def split: option.splits)

lemma appendEntry_has_it:
  assumes "appendEntry s e = (s', True)" "wf_state s" "GlobalIndex e \<noteq> max_u64"
  shows "has_it (GlobalIndex e) (GlobalTerm e) (RequestID e) s'"
proof (cases "GlobalIndex e \<le> ps_SnapshotLastIndex s \<or> entry_at s (GlobalIndex e) \<noteq> None")
  case True
  then show ?thesis using assms(1) by (auto simp: appendEntry_def has_it_def split: option.splits if_splits)
next
  case False
  then have s': "s' = s\<lparr>ps_Log := ps_Log s @ [e]\<rparr>" "GlobalIndex e = LastLogIndex s + 1"
    using assms(1) by (auto simp: appendEntry_def split: option.splits if_splits)
  have wf: "wf_state s'" using appendEntry_wf [OF assms(2,3)] assms(1) by simp
  then have "LastLogIndex s' = GlobalIndex e" by (simp add: s' LastLogIndex_def)
  then show ?thesis using entry_at_last [OF wf] by (simp add: s' has_it_def)
qed

definition holds_at :: "LogEntry \<Rightarrow> Cluster \<Rightarrow> string \<Rightarrow> bool" where
  "holds_at e c i \<longleftrightarrow>
     (case look c i of None \<Rightarrow> False | Some n \<Rightarrow> has_it (GlobalIndex e) (GlobalTerm e) (RequestID e) (sn_State n))"

lemma holds_at_mono:
  assumes "nodes_rel node_le c c'" "wf_nodes c" "holds_at e c i"
  shows "holds_at e c' i"
proof -
  obtain n where n: "look c i = Some n" "has_it (GlobalIndex e) (GlobalTerm e) (RequestID e) (sn_State n)"
    using assms(3) by (auto simp: holds_at_def split: option.splits)
  obtain n' where n': "look c' i = Some n'" "node_le n n'" using nodes_rel_look_fwd [OF assms(1) n(1)] by blast
  then show ?thesis using has_it_mono [of "sn_State n" "sn_State n'"] n wf_nodesD [OF assms(2) n(1)]
    by (auto simp: holds_at_def node_le_def)
qed

lemma node_le_wf:
  assumes "nodes_rel node_le c c'" "wf_nodes c"
  shows "wf_nodes c'"
  unfolding wf_nodes_def fmpred_iff
proof (intro allI impI)
  fix i n' assume "look c' i = Some n'"
  then obtain n where "look c i = Some n" "node_le n n'" using nodes_rel_look [OF assms(1)] by blast
  then show "wf_state (sn_State n')" using wf_nodesD [OF assms(2)] by (simp add: node_le_def log_le_def data_le_def)
qed

lemma append_at_holds:
  assumes "append_at i e c = (c', True)" "wf_nodes c" "GlobalIndex e \<noteq> max_u64"
  shows "holds_at e c' i"
proof -
  obtain n s where n: "look c i = Some n" "appendEntry (sn_State n) e = (s, True)"
      "c' = upd_node i (\<lambda>n. persist (n\<lparr>sn_State := s\<rparr>)) c"
    using assms(1) by (auto simp: append_at_def split: option.splits prod.splits if_splits)
  then show ?thesis using appendEntry_has_it [OF n(2) _ assms(3)] wf_nodesD [OF assms(2) n(1)]
    by (simp add: holds_at_def)
qed

section \<open>Counting the copies\<close>

definition copies :: "LogEntry \<Rightarrow> Cluster \<Rightarrow> Node list \<Rightarrow> nat" where
  "copies e c ms = length (filter (\<lambda>m. holds_at e c (nd_ID m)) ms)"

lemma copies_mono:
  assumes "nodes_rel node_le c c'" "wf_nodes c"
  shows "copies e c ms \<le> copies e c' ms"
  unfolding copies_def using holds_at_mono [OF assms, of e] by (induction ms) auto

lemma copies_filter: "copies e c (filter P ms) \<le> copies e c ms"
  by (induction ms) (auto simp: copies_def)

lemma copies_without:
  assumes "holds_at e c l" "m \<in> set ms" "nd_ID m = l"
  shows "Suc (copies e c (filter (\<lambda>m. nd_ID m \<noteq> l) ms)) \<le> copies e c ms"
  using assms(2)
proof (induction ms)
  case (Cons x ms)
  then show ?case
    using assms(1,3) copies_filter [of e c "\<lambda>m. nd_ID m \<noteq> l" ms] by (cases "nd_ID x = l") (auto simp: copies_def)
qed simp

lemma replicate_members_copies:
  assumes "replicate_members e l ms a c = (c', a')" "wf_nodes c" "GlobalIndex e \<noteq> max_u64"
  shows "a' \<le> a + copies e c' (filter (\<lambda>m. nd_ID m \<noteq> l) ms)"
  using assms(1,2)
proof (induction ms arbitrary: a c)
  case (Cons m ms)
  show ?case
  proof (cases "nd_ID m = l \<or> \<not> CanSend (cl_network c) l (nd_ID m) ReplicateEntryMessage")
    case True
    then have "a' \<le> a + copies e c' (filter (\<lambda>m. nd_ID m \<noteq> l) ms)" using Cons by auto
    then show ?thesis by (simp add: copies_def)
  next
    case False
    obtain c1 ok where c1: "append_at (nd_ID m) e c = (c1, ok)" by fastforce
    have wf: "wf_nodes c1" using grow.rel_append_at [OF c1 assms(3)] Cons.prems(2) by (rule node_le_wf)
    have r: "replicate_members e l ms (if ok then a + 1 else a) c1 = (c', a')" using Cons.prems(1) False c1 by simp
    have "holds_at e c' (nd_ID m)" if ok
      using holds_at_mono [OF grow.rel_replicate_members [OF r assms(3)] wf] append_at_holds [OF _ Cons.prems(2) assms(3)]
        c1 that by simp
    then show ?thesis using Cons.IH [OF r wf] False by (auto simp: copies_def split: if_splits)
  qed
qed (simp add: copies_def)

definition quorum_copies :: "LogEntry \<Rightarrow> Cluster \<Rightarrow> string \<Rightarrow> bool" where
  "quorum_copies e c d \<longleftrightarrow>
     majority (length (DomainMembers (cl_config c) d)) \<le> copies e c (DomainMembers (cl_config c) d)"

lemma quorum_copies_mono:
  assumes "nodes_rel node_le c c'" "wf_nodes c" "quorum_copies e c d"
  shows "quorum_copies e c' d"
proof -
  have "DomainMembers (cl_config c') = DomainMembers (cl_config c)"
    using assms(1) by (intro DomainMembers_cong) (simp add: nodes_rel_def)
  then show ?thesis using assms(3) copies_mono [OF assms(1,2)] by (auto simp: quorum_copies_def intro: order_trans)
qed

lemma replicate_domain_cases:
  assumes "replicate_domain e g d (c, q) = (c', q')" "wf_nodes c" "wf_cluster c" "leaders_ok c" "GlobalIndex e \<noteq> max_u64"
  shows "q' = q \<or> q' = fmupd d True q \<and> quorum_copies e c' d"
proof -
  have le: "nodes_rel node_le c c'" using grow.rel_replicate_domain [OF assms(5), of "(c, q)" g d] assms(1) by simp
  show ?thesis
  proof (cases "q' = q")
    case False
    then obtain l c1 c2 acks where l: "fmlookup (cl_domainLeaders c) d = Some l"
      and c1: "append_at (NodeID l) e c = (c1, True)"
      and c2: "replicate_members e (NodeID l) (DomainMembers (cl_config c1) d) 1 c1 = (c2, acks)"
      and acks: "acks \<ge> majority (length (DomainMembers (cl_config c1) d))" "q' = fmupd d True q"
      and c': "c' = fold (mark_quorum d e) (DomainMembers (cl_config c1) d) c2"
      using assms(1)
      by (auto simp: replicate_domain_def Let_def split: option.splits if_splits prod.splits bool.splits)
    let ?ms = "DomainMembers (cl_config c1) d"
    have r1: "nodes_rel node_le c c1" and r2: "nodes_rel node_le c1 c2" and r3: "nodes_rel node_le c2 c'"
      using grow.rel_append_at [OF c1 assms(5)] grow.rel_replicate_members [OF c2 assms(5)]
        grow.rel_fold [of ?ms "mark_quorum d e" c2] grow.rel_mark_quorum by (auto simp: c')
    have wf1: "wf_nodes c1" using r1 assms(2) by (rule node_le_wf)
    have wf2: "wf_nodes c2" using r2 wf1 by (rule node_le_wf)
    have "holds_at e c2 (NodeID l)" using r2 wf1 append_at_holds [OF c1 assms(2,5)] by (rule holds_at_mono)
    moreover obtain m where "m \<in> set ?ms" "nd_ID m = NodeID l"
    proof -
      obtain n where n: "look c (NodeID l) = Some n" "sn_DomainCode n = d" using assms(4) l by (auto simp: leaders_ok_def)
      then obtain m where "m \<in> set (cfg_Nodes (cl_config c))" "nd_ID m = NodeID l" "nd_DomainCode m = d"
        using wf_cluster_node(2) [OF assms(3) n(1)] by auto
      then show thesis using that [of m] r1 by (simp add: set_DomainMembers nodes_rel_def)
    qed
    ultimately have "Suc (copies e c2 (filter (\<lambda>m. nd_ID m \<noteq> NodeID l) ?ms)) \<le> copies e c2 ?ms"
      by (rule copies_without)
    then have "acks \<le> copies e c2 ?ms" using replicate_members_copies [OF c2 wf1 assms(5)] by simp
    moreover have "DomainMembers (cl_config c2) d = ?ms"
      using r2 DomainMembers_cong [of "cl_config c2" "cl_config c1"] by (simp add: nodes_rel_def)
    ultimately have "quorum_copies e c2 d" using acks(1) by (simp add: quorum_copies_def)
    then have "quorum_copies e c' d" by (rule quorum_copies_mono [OF r3 wf2])
    then show ?thesis using acks(2) by simp
  qed simp
qed

lemma node_le_names: "nodes_rel node_le c c' \<Longrightarrow> nodes_rel same_name c c'"
  unfolding nodes_rel_def using option.rel_mono [of node_le same_name]
  by (auto simp: node_le_def same_name_def le_fun_def)

lemma replicateEntry_quorums:
  assumes "replicateEntryLocked e c = (c', q)" "sound c" "leaders_ok c" "GlobalIndex e \<noteq> max_u64"
    and "get_or False q d"
  shows "quorum_copies e c' d"
proof -
  let ?P = "\<lambda>(c, q). wf_nodes c \<and> wf_cluster c \<and> leaders_ok c \<and> (\<forall>d. get_or False q d \<longrightarrow> quorum_copies e c d)"
  let ?g = "NodeID (gli_DomainLeader (cl_globalLeader c))"
  have "?P (fold (replicate_domain e ?g) (Domains (cl_config c)) (c, fmempty))"
  proof (rule fold_inv [where P = ?P])
    show "?P (c, fmempty)" using assms(2,3) by (simp add: sound_def get_or_def)
    fix d cq assume P: "?P cq"
    obtain c1 q1 c2 q2 where cq: "cq = (c1, q1)" "replicate_domain e ?g d cq = (c2, q2)" by (metis surj_pair)
    have le: "nodes_rel node_le c1 c2" using grow.rel_replicate_domain [OF assms(4), of cq ?g d] cq by simp
    have tab: "cl_domainLeaders c2 = cl_domainLeaders c1"
      using leaders.view_replicate_domain [of e ?g d cq] cq by simp
    have "leaders_ok c2"
      using P cq(1) tab entry_ok_names [OF node_le_names [OF le]] by (simp add: leaders_ok_iff)
    moreover have "wf_nodes c2" "wf_cluster c2"
      using node_le_wf [OF le] nodes_rel_name [OF node_le_names [OF le]] P cq(1) by auto
    moreover have "quorum_copies e c2 d'" if "get_or False q2 d'" for d'
    proof (cases "get_or False q1 d'")
      case True
      then show ?thesis using quorum_copies_mono [OF le] P cq(1) by auto
    next
      case False
      then show ?thesis using replicate_domain_cases [of e ?g d c1 q1 c2 q2] cq P assms(4) that
        by (auto simp: get_or_def split: if_splits)
    qed
    ultimately show "?P (replicate_domain e ?g d cq)" by (simp add: cq(2))
  qed
  then show ?thesis using assms(1,5) by (simp add: replicateEntryLocked_def)
qed

section \<open>Fast Return\<close>

lemma fast_return_Some:
  assumes "fast_return i req e q c = (c', Some f)"
  shows "f = fast_result req e" "get_or False q (DomainID (gli_DomainLeader (cl_globalLeader c)))"
    "get_or False q (cwr_OriginDomain req)" "ft_FastReturnEnabled (cfg_Features (cl_config c))" "cwr_ReplyRoute req \<noteq> []"
  using assms by (auto simp: fast_return_def Let_def split: if_splits option.splits)

lemma write_entry_fast:
  assumes "write_entry i req e c = (c', out)" "wo_Fast out = Some f"
    and "sound c" "leaders_ok c" "GlobalIndex e \<noteq> max_u64"
  shows "f = fast_result req e \<and> quorum_copies e c' (DomainID (gli_DomainLeader (cl_globalLeader c))) \<and>
    quorum_copies e c' (cwr_OriginDomain req)"
proof -
  obtain c1 q where 1: "replicateEntryLocked e c = (c1, q)" by fastforce
  define c2 where "c2 = collect_acks i (DomainID (gli_DomainLeader (cl_globalLeader c1))) e q c1"
  obtain c3 fr where 3: "fast_return i req e q c2 = (c3, fr)" by fastforce
  have c': "c' = advanceGlobalCommitLocked c3" and fr: "fr = Some f"
    using assms(1,2) 1 3 by (auto simp: write_entry_def Let_def c2_def)
  have gl: "cl_globalLeader c2 = cl_globalLeader c"
    using env.view_replicateEntry [OF 1] env.view_collect_acks by (auto simp: c2_def)
  note f = fast_return_Some [OF 3 [unfolded fr]]
  have wf1: "wf_nodes c1" using grow.rel_replicateEntry [OF 1 assms(5)] assms(3) node_le_wf by (auto simp: sound_def)
  have "nodes_rel node_le c1 c3"
    using grow.rel_trans grow.rel_collect_acks grow.rel_fast_return [OF 3] unfolding c2_def by blast
  then have r: "nodes_rel node_le c1 c'" using grow.rel_trans grow.rel_advanceGlobalCommit unfolding c' by blast
  show ?thesis
    using quorum_copies_mono [OF r wf1] replicateEntry_quorums [OF 1 assms(3-5)] f gl by simp
qed

lemma durable_rel:
  assumes "nodes_rel (\<lambda>n n'. durable n \<longrightarrow> durable n') c c'" "durable_nodes c"
  shows "durable_nodes c'"
  using assms(2) nodes_rel_look [OF assms(1)] unfolding durable_nodes_iff by blast

lemma Write_entry:
  assumes "Write i req c = (c', out)" "wo_Fast out = Some f" "room c" "sound c" "leaders_ok c"
  obtains e c1 where "write_entry i req e c1 = (c', out)" "sound c1" "leaders_ok c1" "GlobalIndex e \<noteq> max_u64"
    "cl_globalLeader c1 = cl_globalLeader c" "RequestID e = cwr_RequestID req"
proof -
  obtain n where n: "look c i = Some n"
    using assms(1,2) by (auto simp: Write_def write_failed_def split: option.splits)
  let ?s = "sn_State n"
  show thesis
  proof (cases "write_entry i req (the (findEntryByRequest (ps_Log ?s) (cwr_RequestID req))) c = (c', out) \<and>
      findEntryByRequest (ps_Log ?s) (cwr_RequestID req) \<noteq> None")
    case True
    then obtain e where e: "findEntryByRequest (ps_Log ?s) (cwr_RequestID req) = Some e"
      "write_entry i req e c = (c', out)" by auto
    have "e \<in> set (ps_Log ?s)" "RequestID e = cwr_RequestID req"
      using e(1) by (auto simp: findEntryByRequest_def find_Some_iff)
    moreover have "wf_state ?s" using assms(4) n wf_nodesD by (auto simp: sound_def)
    ultimately show thesis using that [OF e(2) assms(4,5)] wf_entry_index by blast
  next
    case False
    let ?e = "new_entry c ?s req"
    let ?f = "\<lambda>n. persist (n\<lparr>sn_State := ?s\<lparr>ps_Log := ps_Log ?s @ [?e]\<rparr>\<rparr>)"
    have w: "write_entry i req ?e (upd_node i ?f c) = (c', out)"
      using assms(1,2) n False
      by (auto simp: Write_def write_failed_def Let_def split: option.splits if_splits)
    have idx: "GlobalIndex ?e = LastGlobalIndex (Summary ?s) + 1" "GlobalIndex ?e \<noteq> max_u64"
      using roomD [OF assms(3) n] by (auto simp: new_entry_def)
    have le: "data_le ?s (?s\<lparr>ps_Log := ps_Log ?s @ [?e]\<rparr>)" using idx by (rule data_le_new_entry)
    have grown: "nodes_rel node_le c (upd_node i ?f c)"
      using n le by (intro grow.rel_upd) (auto simp: node_le_def log_le_def)
    have "nodes_rel (\<lambda>n n'. durable n \<longrightarrow> durable n') c (upd_node i ?f c)"
      using n le durable_step.data by (intro durable_step.rel_upd) auto
    then have "durable_nodes (upd_node i ?f c)" by (rule durable_rel) (use assms(4) in \<open>simp add: sound_def\<close>)
    then have "sound (upd_node i ?f c)"
      using assms(4) node_le_wf [OF grown] nodes_rel_name [OF node_le_names [OF grown]] by (simp add: sound_def)
    moreover have "leaders_ok (upd_node i ?f c)"
      using assms(5) entry_ok_names [OF node_le_names [OF grown]] by (simp add: leaders_ok_iff)
    ultimately show thesis using that [OF w] idx(2) by (simp add: new_entry_def)
  qed
qed


section \<open>What the global leader commits\<close>

text \<open>The parts of a state that committing leaves alone.\<close>

definition same_marks :: "PersistentState \<Rightarrow> PersistentState \<Rightarrow> bool" where
  "same_marks s s' \<longleftrightarrow> ps_Log s' = ps_Log s \<and> ps_SnapshotLastIndex s' = ps_SnapshotLastIndex s \<and>
     ps_DomainQuorumIndex s' = ps_DomainQuorumIndex s"

definition commit_at :: "u64 \<Rightarrow> PersistentState \<Rightarrow> PersistentState \<Rightarrow> bool" where
  "commit_at k s s' \<longleftrightarrow> wf_state s' \<and> same_marks s s' \<and> ps_KnownGlobalCommitIndex s' = k"

lemma applyEntry_commit_at:
  assumes "wf_state s" "entry_at s k = Some e" "ps_KnownGlobalCommitIndex s + 1 = k"
    and "commit_at k s s' \<or> commit_at (ps_KnownGlobalCommitIndex s) s s'"
  shows "commit_at k s (applyEntry s' e)"
proof -
  have wf: "wf_state s'" and log: "same_marks s s'" using assms(4) by (auto simp: commit_at_def)
  have e: "GlobalIndex e = k" "k \<noteq> 0" "entry_at s' k = Some e"
    using find_Some_index [OF assms(2)] assms(2) log by (auto simp: same_marks_def)
  have "k \<le> LastLogIndex s'" using e(3) wf by (auto simp: wf_find split: if_splits)
  then have wf': "wf_state (applyEntry s' e)" using applyEntry_wf [OF wf] e by simp
  have less: "ps_KnownGlobalCommitIndex s < k" using assms(1,3) u64_less_plus1 wf_known_lt_max by auto
  have "ps_KnownGlobalCommitIndex (applyEntry s' e) = k"
  proof (cases "commit_at k s s'")
    case True
    then show ?thesis using applyEntry_old [OF wf] e by (simp add: commit_at_def)
  next
    case False
    then have "ps_KnownGlobalCommitIndex s' = ps_KnownGlobalCommitIndex s" using assms(4) by (auto simp: commit_at_def)
    then show ?thesis using applyEntry_next [OF wf, of e] e assms(3) less by simp
  qed
  then show ?thesis using wf' log by (simp add: commit_at_def same_marks_def frame_simps)
qed

lemma commit_entry_leader:
  assumes "look c g = Some n" "wf_state (sn_State n)" "entry_at (sn_State n) k = Some e"
    and "ps_KnownGlobalCommitIndex (sn_State n) + 1 = k"
  shows "\<exists>n'. look (commit_entry g e k c) g = Some n' \<and> commit_at k (sn_State n) (sn_State n')"
proof -
  let ?s = "sn_State n"
  let ?P = "\<lambda>c. \<exists>n'. look c g = Some n' \<and>
      (commit_at k ?s (sn_State n') \<or> commit_at (ps_KnownGlobalCommitIndex ?s) ?s (sn_State n'))"
  note app = applyEntry_commit_at [OF assms(2-4)]
  have "?P (fold (notify_commit g e k) (node_ids c) c)"
  proof (rule fold_inv [where P = ?P])
    show "?P c" using assms(1,2) by (simp add: commit_at_def same_marks_def)
    fix i c1 assume "?P c1"
    then obtain n1 where n1: "look c1 g = Some n1"
      "commit_at k ?s (sn_State n1) \<or> commit_at (ps_KnownGlobalCommitIndex ?s) ?s (sn_State n1)" by blast
    show "?P (notify_commit g e k i c1)"
      using n1 app [OF n1(2)] by (cases "i = g") (auto simp: notify_commit_def apply_node_def split: option.splits)
  qed
  then show ?thesis using app by (auto simp: commit_entry_def apply_node_def)
qed

lemma same_marks_last: "same_marks s s' \<Longrightarrow> LastLogIndex s' = LastLogIndex s"
  by (simp add: same_marks_def LastLogIndex_def)

text \<open>The loop commits up to the target, or up to the end of the log where that comes first.\<close>

lemma advance_loop_leader:
  assumes "look c g = Some n" "wf_state (sn_State n)" "ps_KnownGlobalCommitIndex (sn_State n) + 1 = k"
  shows "\<exists>n'. look (advance_loop g t k c) g = Some n' \<and>
    commit_at (max (ps_KnownGlobalCommitIndex (sn_State n)) (min t (LastLogIndex (sn_State n)))) (sn_State n) (sn_State n')"
  using assms
proof (induction g t k c arbitrary: n rule: advance_loop.induct)
  case (1 g t k c)
  let ?s = "sn_State n"
  let ?known = "ps_KnownGlobalCommitIndex ?s"
  have less: "?known < k" using 1(3,4) u64_less_plus1 wf_known_lt_max by auto
  have snap: "ps_SnapshotLastIndex ?s \<le> ?known" using 1(3) by (auto simp: wf_state_def)
  show ?case
  proof (cases "k \<le> t \<and> k \<le> LastLogIndex ?s")
    case True
    then obtain e where e: "entry_at ?s k = Some e" using le_less_trans [OF snap less] 1(3) by (auto simp: wf_find)
    obtain n1 where n1: "look (commit_entry g e k c) g = Some n1" "commit_at k ?s (sn_State n1)"
      using commit_entry_leader [OF 1(2,3) e 1(4)] by blast
    have log: "same_marks ?s (sn_State n1)" and wf: "wf_state (sn_State n1)" "ps_KnownGlobalCommitIndex (sn_State n1) = k"
      using n1(2) by (auto simp: commit_at_def)
    obtain n' where n': "look (advance_loop g t (k + 1) (commit_entry g e k c)) g = Some n'"
      "commit_at (max k (min t (LastLogIndex ?s))) (sn_State n1) (sn_State n')"
      using 1(1) [OF _ 1(2) e n1(1) wf(1)] True wf(2) same_marks_last [OF log] by auto
    have "advance_loop g t k c = advance_loop g t (k + 1) (commit_entry g e k c)"
      using True 1(2) e by (subst advance_loop.simps) simp
    moreover have "max ?known (min t (LastLogIndex ?s)) = max k (min t (LastLogIndex ?s))"
      using True less by (auto simp: max_def min_def)
    ultimately show ?thesis using n' log by (auto simp: commit_at_def same_marks_def)
  next
    case False
    then have "advance_loop g t k c = c"
      using 1(2,3) by (subst advance_loop.simps) (auto simp: wf_find split: option.splits if_splits)
    moreover have "min t (LastLogIndex ?s) < k" using False by (auto simp: min_def not_le)
    then have "min t (LastLogIndex ?s) \<le> ?known"
      using 1(4) unat_u64_plus1 [OF wf_known_lt_max [OF 1(3)]] by (auto simp: word_less_nat_alt word_le_nat_alt)
    then have "max ?known (min t (LastLogIndex ?s)) = ?known" by (rule max_absorb1)
    ultimately show ?thesis using 1(2,3) by (simp add: commit_at_def same_marks_def)
  qed
qed

lemma le_otherQuorum:
  assumes "k \<noteq> 0"
  shows "k \<le> otherQuorum m d \<longleftrightarrow> (\<exists>d' x. d' \<noteq> d \<and> fmlookup m d' = Some x \<and> k \<le> x)"
proof -
  have "k \<le> fold (\<lambda>(domain, index) best. if domain \<noteq> d then max best index else best) xs b \<longleftrightarrow>
      k \<le> b \<or> (\<exists>p \<in> set xs. fst p \<noteq> d \<and> k \<le> snd p)" for xs and b :: u64
    by (induction xs arbitrary: b) (auto simp: le_max_iff_disj split: if_splits)
  then have "k \<le> otherQuorum m d \<longleftrightarrow> (\<exists>p \<in> set (sorted_list_of_fmap m). fst p \<noteq> d \<and> k \<le> snd p)"
    using assms by (simp add: otherQuorum_def)
  moreover have "(d', x) \<in> set (sorted_list_of_fmap m) \<longleftrightarrow> fmlookup m d' = Some x" for d' x
    by (auto simp: sorted_list_of_fmap_def fmlookup_dom_iff)
  ultimately show ?thesis by force
qed


section \<open>Reads after writes\<close>

lemma mark_at_least:
  assumes "look c i = Some n"
  shows "\<exists>n'. look (collect_acks i d e q c) i = Some n' \<and>
    (get_or False q d \<longrightarrow> GlobalIndex e \<le> getz (ps_DomainQuorumIndex (sn_State n')) d)"
proof -
  define c1 where "c1 = (if get_or False q d then upd_node i (persist \<circ> raise_quorum d (GlobalIndex e)) c else c)"
  define f where "f = (\<lambda>(domain, ready) c. if \<not> ready \<or> domain = d then c
      else if CanSend (cl_network c) (NodeID (get_or no_dli (cl_domainLeaders c) domain)) i DomainQuorumAckMessage
      then upd_node i (persist \<circ> raise_quorum domain (GlobalIndex e)) c else c)"
  have eq: "collect_acks i d e q c = fold f (sorted_list_of_fmap q) c1"
    by (simp add: collect_acks_def Let_def c1_def f_def)
  obtain n1 where n1: "look c1 i = Some n1"
    "get_or False q d \<longrightarrow> GlobalIndex e \<le> getz (ps_DomainQuorumIndex (sn_State n1)) d"
    using assms by (cases "get_or False q d") (auto simp: c1_def raise_quorum_def Let_def)
  have "nodes_rel node_le c (f x c)" for x c by (cases x) (auto simp: f_def intro: grow.rel_raise)
  then have "nodes_rel node_le c1 (fold f (sorted_list_of_fmap q) c1)" by (intro grow.rel_fold)
  then show ?thesis unfolding eq
    using nodes_rel_look_fwd [OF _ n1(1)] n1(2) order_trans unfolding node_le_def log_le_def by blast
qed

lemma write_entry_marks:
  assumes "write_entry i req e c = (c', out)" "wo_Fast out = Some f" "GlobalIndex e \<noteq> max_u64" "look c i = Some n"
  shows "\<exists>n'. look c' i = Some n' \<and> GlobalIndex e \<le>
    getz (ps_DomainQuorumIndex (sn_State n')) (DomainID (gli_DomainLeader (cl_globalLeader c')))"
proof -
  obtain c1 q where 1: "replicateEntryLocked e c = (c1, q)" by fastforce
  define c2 where "c2 = collect_acks i (DomainID (gli_DomainLeader (cl_globalLeader c1))) e q c1"
  obtain c3 fr where 3: "fast_return i req e q c2 = (c3, fr)" by fastforce
  have c': "c' = advanceGlobalCommitLocked c3" and fr: "fr = Some f"
    using assms(1,2) 1 3 by (auto simp: write_entry_def Let_def c2_def)
  have gl: "cl_globalLeader c2 = cl_globalLeader c1" "cl_globalLeader c' = cl_globalLeader c1"
    using env.view_collect_acks env.view_fast_return [OF 3] env.view_advance [of c3] by (auto simp: c2_def c')
  obtain n1 where n1: "look c1 i = Some n1"
    using nodes_rel_look_fwd [OF grow.rel_replicateEntry [OF 1 assms(3)] assms(4)] by blast
  obtain n2 where n2: "look c2 i = Some n2"
    "GlobalIndex e \<le> getz (ps_DomainQuorumIndex (sn_State n2)) (DomainID (gli_DomainLeader (cl_globalLeader c1)))"
    using mark_at_least [OF n1, of "DomainID (gli_DomainLeader (cl_globalLeader c1))" e q] fast_return_Some(2) [OF 3 [unfolded fr]] gl
    by (auto simp: c2_def)
  have "nodes_rel node_le c2 c'" using grow.rel_trans grow.rel_fast_return [OF 3] grow.rel_advanceGlobalCommit
    unfolding c' by blast
  then obtain n' where "look c' i = Some n'" "node_le n2 n'" using nodes_rel_look_fwd [OF _ n2(1)] by blast
  then show ?thesis using n2(2) gl(2) by (auto simp: node_le_def log_le_def intro: order_trans)
qed

text \<open>C10: read your writes: a read at the global leader that follows a write answered on the fast path
  either fails or returns the value of the key in a state in which that write has been applied.\<close>

theorem read_your_writes:
  assumes "NewCluster rng config stores net clk = Inr c0" "good_stores config stores" "ids_ok config"
    and "cluster_step\<^sup>*\<^sup>* c0 c" "room c"
    and "Write i req c = (c1, out)" "wo_Fast out = Some f"
    and "Read i key c1 = (c2, Inr v)"
  shows "\<exists>n. look c2 i = Some n \<and> cr_GlobalIndex f \<le> ps_AppliedIndex (sn_State n) \<and>
    v = get_or [] (ps_StateMachine (sn_State n)) key"
proof -
  have ok: "sound c" "leaders_ok c" using run_sound_leaders [OF assms(4,1-3)] by auto
  obtain e c' where e: "write_entry i req e c' = (c1, out)" "sound c'" "leaders_ok c'" "GlobalIndex e \<noteq> max_u64"
    by (rule Write_entry [OF assms(6,7,5) ok])
  have f: "cr_GlobalIndex f = GlobalIndex e" using write_entry_fast [OF e(1) assms(7) e(2-4)] by (simp add: fast_result_def)
  obtain n where n: "look c2 i = Some n" "c2 = Reconcile c1" "v = get_or [] (ps_StateMachine (sn_State n)) key"
    "getz (ps_DomainQuorumIndex (sn_State n)) (DomainID (gli_DomainLeader (cl_globalLeader c2))) \<le> ps_AppliedIndex (sn_State n)"
    using assms(8) by (auto simp: Read_def Let_def not_less split: option.splits if_splits)
  obtain n1 where n1: "look c1 i = Some n1" "node_le n1 n"
    using nodes_rel_look [OF grow.rel_Reconcile n(1) [unfolded n(2)]] by blast
  obtain n0 where "look c' i = Some n0"
    using nodes_rel_look [OF grow.rel_write_entry [OF e(1,4)] n1(1)] by blast
  then have "GlobalIndex e \<le> getz (ps_DomainQuorumIndex (sn_State n1)) (DomainID (gli_DomainLeader (cl_globalLeader c1)))"
    using write_entry_marks [OF e(1) assms(7) e(4)] n1(1) by auto
  moreover have "cl_globalLeader c2 = cl_globalLeader c1" using env.view_Reconcile [of c1] n(2) by simp
  ultimately have "GlobalIndex e \<le> ps_AppliedIndex (sn_State n)"
    using n(4) n1(2) by (auto simp: node_le_def log_le_def intro: order_trans)
  then show ?thesis using n f by auto
qed

end
