(* ===== verification/Sim_Write_Examples.thy ===== *)
theory Sim_Write_Examples
  imports Sim_Examples Sim_Writes
begin

text \<open>
  A write and a read on the elected cluster of \<open>Sim_Examples\<close>, evaluated in the kernel: the global leader
  \<open>a1\<close>, domain \<open>b\<close> the origin, two of its three nodes up.
\<close>

definition ex_request :: ClientWriteRequest where
  "ex_request = \<lparr>cwr_RequestID = ''r1'', cwr_OriginDomain = ''b'', cwr_ReplyRoute = ''client'',
     cwr_Command = \<lparr>Key = ''x'', Val = ''1''\<rparr>\<rparr>"

definition ex6 :: "Cluster \<times> WriteOutcome" where
  "ex6 = Write ''a1'' ex_request ex5"

definition ex_fast :: ClientResult where
  "ex_fast = \<lparr>cr_RequestID = ''r1'', cr_GlobalTerm = 1, cr_GlobalIndex = 1, cr_Result = ''x=1'',
     cr_Source = FastResponse, cr_Committed = True, cr_ResponderDomain = []\<rparr>"

lemma ex5_room: "room ex5"
  by code_simp

lemma ex6_fast: "wo_Fast (snd ex6) = Some ex_fast"
  by code_simp

lemma ex6_read: "snd (Read ''a1'' ''x'' (fst ex6)) = Inr ''1''"
  by code_simp

lemma ex5_global: "DomainID (gli_DomainLeader (cl_globalLeader ex5)) = ''a''"
    "NodeID (gli_DomainLeader (cl_globalLeader ex5)) = ''a1''"
    "globalIdentityCurrentLocked ex5 (cl_globalLeader ex5)"
  by code_simp+

lemma ex5_known: "map_option (ps_KnownGlobalCommitIndex \<circ> sn_State) (look ex5 ''a1'') = Some 0"
  by code_simp

lemma ex5_run: "cluster_step\<^sup>*\<^sup>* ex0 ex5"
  using ex_steady_run by (rule rtranclp_mono [THEN predicate2D, rotated]) (auto simp: steady_step_def)

lemma ex6_write: "Write ''a1'' ex_request ex5 = (fst ex6, snd ex6)"
  by (simp add: ex6_def)


lemma read_your_writes_witness:
  "\<exists>n. look (fst (Read ''a1'' ''x'' (fst ex6))) ''a1'' = Some n \<and> 1 \<le> ps_AppliedIndex (sn_State n) \<and>
     get_or [] (ps_StateMachine (sn_State n)) ''x'' = ''1''"
proof -
  have "Read ''a1'' ''x'' (fst ex6) = (fst (Read ''a1'' ''x'' (fst ex6)), Inr ''1'')"
    using ex6_read by (metis prod.collapse)
  from read_your_writes [OF ex0_new ex_good ex5_run ex5_room ex6_write ex6_fast this]
  show ?thesis by (auto simp: ex_fast_def)
qed


end
