(* ===== verification/Rpc_Node.thy ===== *)
theory Rpc_Node
  imports Stores Transitions Topology Stats
begin

text \<open>
  The production node, \<open>internal/cdraft/rpc_node.go\<close>: its state, timing constants, leases, persistence,
  and the handlers of the election RPCs.

  A handler is one or two critical sections of \<open>n.mu\<close>; each section is a function on the node record.
  What the section reads from outside is an argument: \<open>env_now k\<close> is the result of the \<open>k\<close>-th call of
  \<open>time.Now()\<close> in it and \<open>env_rand k\<close> the \<open>k\<close>-th random draw.  A remote call is not modelled: the replies
  that a handler collects from its peers between two sections are an argument of the second one.
  A protobuf message that may be absent is an \<open>option\<close>.  \<open>failed\<close> also stands for the goroutine
  that stops the node, which is started exactly when it is set.
\<close>

section \<open>State\<close>

record pendingFastReturn =
  pf_RequestID :: string
  pf_Result :: string
  pf_ReplyRoute :: string
  pf_OriginDomain :: string
  pf_ResponderDomain :: string
  pf_GlobalTerm :: u64
  pf_GlobalIndex :: u64

record nodeMetrics =
  nm_fastReturnSuccess :: u64
  nm_fastReturnDegraded :: u64
  nm_floatingResponderChosen :: u64
  nm_floatingResponderFailed :: u64
  nm_floatingRaceGlobalWins :: u64
  nm_floatingRaceFastWins :: u64
  nm_floatingResponderByDomain :: "u64 gomap"
  nm_rejections :: "u64 gomap"

text \<open>
  A channel of \<open>committing\<close> is its number; \<open>rn_closed\<close> lists the channels that have been closed;
  \<open>rn_server\<close> says whether there is a gRPC server.  Connections, listeners, fault injection, artificial
  delays and the write trace are left out, as is the text of \<open>lastMigrationNote\<close>.
\<close>

record RPCNode =
  rn_config :: Config
  rn_local :: Node
  rn_store :: Store
  rn_state :: PersistentState
  rn_stage :: Stage
  rn_domainRole :: Role
  rn_globalRole :: Role
  rn_domainLeaders :: "DomainLeaderIdentity gomap"
  rn_globalLeader :: GlobalLeaderIdentity
  rn_pendingFast :: "(u64, pendingFastReturn) fmap"
  rn_fastSent :: "bool gomap"
  rn_committing :: "nat gomap"
  rn_closed :: "nat list"
  rn_fastReturnEnabled :: bool
  rn_server :: bool
  rn_stopped :: bool
  rn_failed :: bool
  rn_domainDeadline :: time
  rn_globalDeadline :: time
  rn_domainCampaigning :: bool
  rn_globalCampaigning :: bool
  rn_globalLeaseEnabled :: bool
  rn_globalLeaseDuration :: duration
  rn_globalLeaseDeadline :: time
  rn_lastGlobalContact :: time
  rn_domainLeaseEnabled :: bool
  rn_domainLeaseDuration :: duration
  rn_domainLeaseDeadline :: time
  rn_stats :: statsWindow
  rn_rtt :: rttStore
  rn_floatingLatency :: floatingLatencyStore
  rn_migrationsCount :: u64
  rn_migrating :: bool
  rn_draining :: bool
  rn_migrationBarrier :: u64
  rn_catchUpTimeout :: duration
  rn_domainSeen :: "time gomap"
  rn_metrics :: nodeMetrics
  rn_compactionThreshold :: u64
  rn_compactionRetain :: u64

definition floatingTelemetryTTL :: "Config \<Rightarrow> duration" where
  "floatingTelemetryTTL config =
     (let ttl = ft_FloatingTelemetryTTLMillis (cfg_Features config) in
      if ttl = 0 then 5 * second else i64 (i64 (uint ttl) * millisecond))"

definition no_metrics :: nodeMetrics where
  "no_metrics = \<lparr>nm_fastReturnSuccess = 0, nm_fastReturnDegraded = 0, nm_floatingResponderChosen = 0,
     nm_floatingResponderFailed = 0, nm_floatingRaceGlobalWins = 0, nm_floatingRaceFastWins = 0,
     nm_floatingResponderByDomain = fmempty, nm_rejections = fmempty\<rparr>"

datatype node_error = BadConfig config_error | UnknownNode string | StoreError error

text \<open>The node that the constructor builds once the configuration is valid and the store is read.\<close>

definition fresh_node :: "Config \<Rightarrow> Node \<Rightarrow> Store \<Rightarrow> PersistentState \<Rightarrow> RPCNode" where
  "fresh_node config local store1 state =
     \<lparr>rn_config = config, rn_local = local, rn_store = store1, rn_state = state, rn_stage = Booting,
      rn_domainRole = Follower, rn_globalRole = Follower, rn_domainLeaders = fmempty,
      rn_globalLeader = no_gli, rn_pendingFast = fmempty, rn_fastSent = fmempty,
      rn_committing = fmempty, rn_closed = [],
      rn_fastReturnEnabled = ft_FastReturnEnabled (cfg_Features config),
      rn_server = False, rn_stopped = False, rn_failed = False, rn_domainDeadline = 0, rn_globalDeadline = 0,
      rn_domainCampaigning = False, rn_globalCampaigning = False,
      rn_globalLeaseEnabled = False, rn_globalLeaseDuration = 400 * millisecond,
      rn_globalLeaseDeadline = 0, rn_lastGlobalContact = 0,
      rn_domainLeaseEnabled = False, rn_domainLeaseDuration = 400 * millisecond,
      rn_domainLeaseDeadline = 0, rn_stats = newStatsWindow (5 * second), rn_rtt = newRTTStore,
      rn_floatingLatency = newFloatingLatencyStore (floatingTelemetryTTL config),
      rn_migrationsCount = 0, rn_migrating = False, rn_draining = False,
      rn_migrationBarrier = 0, rn_catchUpTimeout = 5 * second, rn_domainSeen = fmempty, rn_metrics = no_metrics,
      rn_compactionThreshold = ft_LogCompactionThreshold (cfg_Features config),
      rn_compactionRetain = ft_LogCompactionRetain (cfg_Features config)\<rparr>"

definition NewRPCNode :: "Config \<Rightarrow> string \<Rightarrow> Store option \<Rightarrow> node_error + RPCNode" where
  "NewRPCNode config nodeID st =
     (case config_Validate config of
        Some e \<Rightarrow> Inl (BadConfig e)
      | None \<Rightarrow>
          (case config_Node config nodeID of
             None \<Rightarrow> Inl (UnknownNode nodeID)
           | Some local \<Rightarrow>
               let store1 = (case st of None \<Rightarrow> MemoryStore NewMemoryStore | Some s \<Rightarrow> s) in
               (case store_Load store1 of
                  Inl e \<Rightarrow> Inl (StoreError e)
                | Inr state \<Rightarrow> Inr (fresh_node config local store1 state))))"

abbreviation local_id :: "RPCNode \<Rightarrow> string" where
  "local_id n \<equiv> nd_ID (rn_local n)"

abbreviation local_domain :: "RPCNode \<Rightarrow> string" where
  "local_domain n \<equiv> nd_DomainCode (rn_local n)"

definition recordRejectionLocked :: "string \<Rightarrow> RPCNode \<Rightarrow> RPCNode" where
  "recordRejectionLocked reason n =
     (let m = rn_metrics n; r = nm_rejections m in
      n\<lparr>rn_metrics := m\<lparr>nm_rejections := fmupd reason (getz r reason + 1) r\<rparr>\<rparr>)"

text \<open>A failing save stops the node for good.\<close>

definition rpc_persistLocked :: "RPCNode \<Rightarrow> RPCNode \<times> error option" where
  "rpc_persistLocked n =
     (case store_Save (rn_store n) (rn_state n) of
        (st, None) \<Rightarrow> (n\<lparr>rn_store := st\<rparr>, None)
      | (st, Some e) \<Rightarrow> (n\<lparr>rn_store := st, rn_failed := True\<rparr>, Some e))"

section \<open>Configuration of a running node\<close>

definition SetLogCompaction :: "u64 \<Rightarrow> u64 \<Rightarrow> RPCNode \<Rightarrow> RPCNode" where
  "SetLogCompaction threshold retain n =
     n\<lparr>rn_compactionThreshold := threshold, rn_compactionRetain := retain\<rparr>"

definition SetFloatingDomains :: "string list \<Rightarrow> bool \<Rightarrow> RPCNode \<Rightarrow> RPCNode" where
  "SetFloatingDomains domains allowUnknown n =
     n\<lparr>rn_config := (rn_config n)\<lparr>cfg_Features := (cfg_Features (rn_config n))
         \<lparr>ft_FloatingDomains := domains, ft_AllowUnknownFloatingDomains := allowUnknown\<rparr>\<rparr>\<rparr>"

definition rpc_SetFastReturnEnabled :: "bool \<Rightarrow> RPCNode \<Rightarrow> RPCNode" where
  "rpc_SetFastReturnEnabled enabled n = n\<lparr>rn_fastReturnEnabled := enabled\<rparr>"

definition SetGlobalLeaseEnabled :: "bool \<Rightarrow> RPCNode \<Rightarrow> RPCNode" where
  "SetGlobalLeaseEnabled enabled n = n\<lparr>rn_globalLeaseEnabled := enabled\<rparr>"

definition SetGlobalLeaseDuration :: "duration \<Rightarrow> RPCNode \<Rightarrow> RPCNode" where
  "SetGlobalLeaseDuration d n = (if d > 0 then n\<lparr>rn_globalLeaseDuration := d\<rparr> else n)"

definition SetDomainLeaseEnabled :: "bool \<Rightarrow> RPCNode \<Rightarrow> RPCNode" where
  "SetDomainLeaseEnabled enabled n = n\<lparr>rn_domainLeaseEnabled := enabled\<rparr>"

definition SetDomainLeaseDuration :: "duration \<Rightarrow> RPCNode \<Rightarrow> RPCNode" where
  "SetDomainLeaseDuration d n = (if d > 0 then n\<lparr>rn_domainLeaseDuration := d\<rparr> else n)"

text \<open>The check that the tests run on every node.\<close>

datatype invariant_error = AppliedBeyondCommit u64 u64 | CommitBeyondQuorum u64 u64

definition AssertInvariants :: "RPCNode \<Rightarrow> invariant_error option" where
  "AssertInvariants n =
     (let s = rn_state n; globalDomain = DomainID (gli_DomainLeader (rn_globalLeader n));
          isGlobalLeader = (rn_globalRole n = Leader \<and> NodeID (gli_DomainLeader (rn_globalLeader n)) = local_id n);
          held = getz (ps_DomainQuorumIndex s) globalDomain
      in if ps_AppliedIndex s > ps_KnownGlobalCommitIndex s
         then Some (AppliedBeyondCommit (ps_AppliedIndex s) (ps_KnownGlobalCommitIndex s))
         else if isGlobalLeader \<and> ps_KnownGlobalCommitIndex s > held
         then Some (CommitBeyondQuorum (ps_KnownGlobalCommitIndex s) held)
         else None)"

definition SetStatsWindow :: "duration \<Rightarrow> RPCNode \<Rightarrow> RPCNode" where
  "SetStatsWindow window n = n\<lparr>rn_stats := (rn_stats n)\<lparr>sw_window := window\<rparr>\<rparr>"

definition SetCatchUpTimeout :: "duration \<Rightarrow> RPCNode \<Rightarrow> RPCNode" where
  "SetCatchUpTimeout timeout n = n\<lparr>rn_catchUpTimeout := timeout\<rparr>"

section \<open>Timing\<close>

record env =
  env_now :: "nat \<Rightarrow> time"
  env_rand :: "nat \<Rightarrow> int"

definition electionDelayFloor :: duration where "electionDelayFloor = 150 * millisecond"
definition electionDelayJitter :: duration where "electionDelayJitter = 200 * millisecond"
definition domainElectionDelayFactor :: int where "domainElectionDelayFactor = 3"
definition globalElectionDelayFactor :: int where "globalElectionDelayFactor = 4"
definition heartbeatInterval :: duration where "heartbeatInterval = 100 * millisecond"

definition minDomainElectionTimeout :: duration where
  "minDomainElectionTimeout = domainElectionDelayFactor * electionDelayFloor"

definition minGlobalElectionTimeout :: duration where
  "minGlobalElectionTimeout = globalElectionDelayFactor * electionDelayFloor"

definition globalStickyWindow :: duration where
  "globalStickyWindow = minGlobalElectionTimeout"

text \<open>\<open>rand.Int63n(n)\<close> is a number below \<open>n\<close>.\<close>

definition randomizedElectionDelay :: "env \<Rightarrow> nat \<Rightarrow> duration" where
  "randomizedElectionDelay env k = electionDelayFloor + env_rand env k mod electionDelayJitter"

definition resetDomainDeadlineLocked :: "env \<Rightarrow> nat \<Rightarrow> RPCNode \<Rightarrow> RPCNode" where
  "resetDomainDeadlineLocked env k n =
     n\<lparr>rn_domainDeadline := env_now env k + domainElectionDelayFactor * randomizedElectionDelay env k\<rparr>"

definition resetGlobalDeadlineLocked :: "env \<Rightarrow> nat \<Rightarrow> RPCNode \<Rightarrow> RPCNode" where
  "resetGlobalDeadlineLocked env k n =
     n\<lparr>rn_globalDeadline := env_now env k + globalElectionDelayFactor * randomizedElectionDelay env k\<rparr>"

datatype lease_error = GlobalLeaseNotPositive | DomainLeaseNotPositive | GlobalLeaseTooLong | DomainLeaseTooLong
  | GlobalLeaseBeyondSticky | HeartbeatTooSlowForGlobal | HeartbeatTooSlowForDomain

definition validateLeaseTiming :: "duration \<Rightarrow> duration \<Rightarrow> lease_error option" where
  "validateLeaseTiming globalLease domainLease =
     (if globalLease \<le> 0 then Some GlobalLeaseNotPositive
      else if domainLease \<le> 0 then Some DomainLeaseNotPositive
      else if globalLease \<ge> minGlobalElectionTimeout then Some GlobalLeaseTooLong
      else if domainLease \<ge> minDomainElectionTimeout then Some DomainLeaseTooLong
      else if globalLease > globalStickyWindow then Some GlobalLeaseBeyondSticky
      else if heartbeatInterval \<ge> globalLease then Some HeartbeatTooSlowForGlobal
      else if heartbeatInterval \<ge> domainLease then Some HeartbeatTooSlowForDomain
      else None)"

section \<open>Start and stop\<close>

text \<open>\<open>clientUp\<close> and \<open>interUp\<close> say whether the two addresses can be listened on.\<close>

datatype listen_error = ListenClient string | ListenInterDomain string

definition rpc_Start :: "env \<Rightarrow> bool \<Rightarrow> bool \<Rightarrow> RPCNode \<Rightarrow> RPCNode \<times> listen_error option" where
  "rpc_Start env clientUp interUp n =
     (if rn_server n then (n, None)
      else if \<not> clientUp then (n, Some (ListenClient (ClientBindAddress (rn_local n))))
      else if \<not> interUp then (n, Some (ListenInterDomain (InterDomainBindAddress (rn_local n))))
      else (resetGlobalDeadlineLocked env 1 (resetDomainDeadlineLocked env 0
              (n\<lparr>rn_server := True, rn_stage := DomainElecting\<rparr>)), None))"

definition rpc_Stop :: "RPCNode \<Rightarrow> RPCNode" where
  "rpc_Stop n = (if rn_stopped n then n else n\<lparr>rn_stopped := True\<rparr>)"

text \<open>The beginning of \<open>Run\<close>; \<open>None\<close> is the panic on an unsafe timing.\<close>

definition rpc_Run :: "RPCNode \<Rightarrow> RPCNode option" where
  "rpc_Run n =
     (let n1 = SetDomainLeaseEnabled True (SetGlobalLeaseEnabled True n) in
      case validateLeaseTiming (rn_globalLeaseDuration n1) (rn_domainLeaseDuration n1) of
        Some e \<Rightarrow> None
      | None \<Rightarrow> Some n1)"

section \<open>Leases\<close>

definition refreshDomainLeaseLocked :: "time \<Rightarrow> RPCNode \<Rightarrow> RPCNode" where
  "refreshDomainLeaseLocked sentAt n =
     (let deadline = sentAt + rn_domainLeaseDuration n in
      if deadline > rn_domainLeaseDeadline n then n\<lparr>rn_domainLeaseDeadline := deadline\<rparr> else n)"

definition refreshGlobalLeaseLocked :: "time \<Rightarrow> RPCNode \<Rightarrow> RPCNode" where
  "refreshGlobalLeaseLocked sentAt n =
     (let deadline = sentAt + rn_globalLeaseDuration n in
      if deadline > rn_globalLeaseDeadline n then n\<lparr>rn_globalLeaseDeadline := deadline\<rparr> else n)"

definition domainLeaseFreshLocked :: "time \<Rightarrow> RPCNode \<Rightarrow> bool" where
  "domainLeaseFreshLocked now n \<longleftrightarrow> (if \<not> rn_domainLeaseEnabled n then True else now < rn_domainLeaseDeadline n)"

definition servesAsGlobalLeaderLocked :: "time \<Rightarrow> RPCNode \<Rightarrow> bool" where
  "servesAsGlobalLeaderLocked now n \<longleftrightarrow>
     (if rn_failed n then False
      else if rn_globalRole n \<noteq> Leader \<or> NodeID (gli_DomainLeader (rn_globalLeader n)) \<noteq> local_id n then False
      else if rn_globalLeaseEnabled n \<and> \<not> now < rn_globalLeaseDeadline n then False
      else True)"

definition globalLeaderAddressLocked :: "RPCNode \<Rightarrow> string" where
  "globalLeaderAddressLocked n =
     (if \<not> gli_Valid (rn_globalLeader n) then []
      else case config_Node (rn_config n) (NodeID (gli_DomainLeader (rn_globalLeader n))) of
             None \<Rightarrow> [] | Some node \<Rightarrow> ClientDialAddress node)"

definition globalRedirectAddressLocked :: "RPCNode \<Rightarrow> string" where
  "globalRedirectAddressLocked n =
     (if NodeID (gli_DomainLeader (rn_globalLeader n)) = local_id n then [] else globalLeaderAddressLocked n)"

text \<open>The three in-memory and persistent fields that \<open>transitionRevokeGlobalLeadership\<close> changes.\<close>

definition revoke_global :: "RPCNode \<Rightarrow> RPCNode" where
  "revoke_global n =
     (case transitionRevokeGlobalLeadership (rn_state n) (rn_globalRole n) (rn_stage n) of
        (s, r, g) \<Rightarrow> n\<lparr>rn_globalLeader := no_gli, rn_state := s, rn_globalRole := r, rn_stage := g\<rparr>)"

definition is_global :: "RPCNode \<Rightarrow> bool" where
  "is_global n \<longleftrightarrow> rn_globalRole n = Leader \<and> NodeID (gli_DomainLeader (rn_globalLeader n)) = local_id n"

definition is_domain :: "RPCNode \<Rightarrow> bool" where
  "is_domain n \<longleftrightarrow> rn_domainRole n = Leader \<and> NodeID (ps_DomainLeader (rn_state n)) = local_id n"

definition maybeStepDownGlobalOnExpiredDomainLeaseLocked :: "env \<Rightarrow> time \<Rightarrow> RPCNode \<Rightarrow> RPCNode \<times> bool" where
  "maybeStepDownGlobalOnExpiredDomainLeaseLocked env now n =
     (if \<not> (rn_domainLeaseEnabled n \<and> is_domain n \<and> now > rn_domainLeaseDeadline n \<and> is_global n) then (n, False)
      else (recordRejectionLocked ''domain_lease_expired'' (resetGlobalDeadlineLocked env 0 (revoke_global n)), True))"

definition maybeStepDownExpiredGlobalLeaseLocked :: "env \<Rightarrow> time \<Rightarrow> RPCNode \<Rightarrow> RPCNode \<times> bool" where
  "maybeStepDownExpiredGlobalLeaseLocked env now n =
     (if \<not> (rn_globalLeaseEnabled n \<and> is_global n \<and> now > rn_globalLeaseDeadline n) then (n, False)
      else (recordRejectionLocked ''global_lease_expired'' (resetGlobalDeadlineLocked env 1 (revoke_global n)), True))"

definition revokeGlobalLeadershipForHandoffLocked :: "env \<Rightarrow> RPCNode \<Rightarrow> RPCNode" where
  "revokeGlobalLeadershipForHandoffLocked env n =
     (let n1 = (if is_global n then revoke_global n else n)
      in fst (rpc_persistLocked (resetGlobalDeadlineLocked env 1 (n1\<lparr>rn_globalLeaseDeadline := env_now env 0\<rparr>))))"

definition adoptHandedOffLeaderLocked :: "env \<Rightarrow> DomainLeaderIdentity \<Rightarrow> u64 \<Rightarrow> RPCNode \<Rightarrow> RPCNode" where
  "adoptHandedOffLeaderLocked env target newTerm n =
     (let leader = \<lparr>gli_DomainLeader = target, gli_GlobalTerm = newTerm\<rparr>;
          n1 = (if newTerm \<ge> ps_GlobalTerm (rn_state n)
                then n\<lparr>rn_state := (rn_state n)\<lparr>ps_GlobalTerm := newTerm, ps_GlobalLeader := leader\<rparr>,
                       rn_globalLeader := leader\<rparr>
                else n)
      in resetGlobalDeadlineLocked env 1 (n1\<lparr>rn_lastGlobalContact := env_now env 0\<rparr>))"

definition needsGlobalElectionLocked :: "time \<Rightarrow> RPCNode \<Rightarrow> bool" where
  "needsGlobalElectionLocked now n \<longleftrightarrow>
     rn_domainRole n = Leader \<and> rn_globalRole n \<noteq> Leader \<and> \<not> rn_globalCampaigning n \<and>
     \<not> rn_migrating n \<and> now > rn_globalDeadline n"

section \<open>Observing a higher term\<close>

definition observeHigherGlobalTerm :: "u64 \<Rightarrow> RPCNode \<Rightarrow> RPCNode" where
  "observeHigherGlobalTerm t n =
     (case transitionObserveHigherGlobalTerm (rn_state n) (rn_globalRole n) (rn_stage n) t of
        (s, r, g, True) \<Rightarrow>
          fst (rpc_persistLocked (n\<lparr>rn_state := s, rn_globalRole := r, rn_stage := g, rn_globalLeader := no_gli\<rparr>))
      | (s, r, g, False) \<Rightarrow> n)"

definition observeHigherDomainTerm :: "env \<Rightarrow> u64 \<Rightarrow> RPCNode \<Rightarrow> RPCNode" where
  "observeHigherDomainTerm env t n =
     (let wasDomainLeader = is_domain n; wasGlobalLeader = is_global n in
      case transitionObserveHigherDomainTerm (rn_state n) (rn_domainRole n) t of
        (s, r, False) \<Rightarrow> n
      | (s, r, True) \<Rightarrow>
          let n1 = n\<lparr>rn_state := s, rn_domainRole := r\<rparr>;
              n2 = (if wasDomainLeader then n1\<lparr>rn_domainLeaders := fmdrop (local_domain n) (rn_domainLeaders n1)\<rparr> else n1);
              n3 = (if wasGlobalLeader then revoke_global n2 else n2);
              n4 = (if wasDomainLeader then resetDomainDeadlineLocked env 0 (n3\<lparr>rn_stage := DomainElecting\<rparr>) else n3)
          in fst (rpc_persistLocked n4))"

section \<open>The domain election service\<close>

definition fromPBDomainIdentity :: "DomainLeaderIdentity option \<Rightarrow> DomainLeaderIdentity" where
  "fromPBDomainIdentity identity = (case identity of None \<Rightarrow> no_dli | Some i \<Rightarrow> i)"

definition fromPBLogSummary :: "LogSummary option \<Rightarrow> LogSummary" where
  "fromPBLogSummary summary =
     (case summary of None \<Rightarrow> \<lparr>LastGlobalTerm = 0, LastGlobalIndex = 0\<rparr> | Some l \<Rightarrow> l)"

record PBDomainVoteRequest =
  pdv_DomainId :: string
  pdv_CandidateId :: string
  pdv_DomainTerm :: u64
  pdv_Log :: "LogSummary option"

definition RequestVote :: "env \<Rightarrow> PBDomainVoteRequest \<Rightarrow> RPCNode \<Rightarrow> RPCNode \<times> DomainVoteResponse" where
  "RequestVote env request n =
     (if pdv_DomainId request \<noteq> local_domain n \<or> rn_stage n = Booting
      then (n, \<lparr>dvp_DomainTerm = ps_DomainTerm (rn_state n), dvp_Granted = False\<rparr>)
      else case transitionDomainVote (rn_state n) (rn_domainRole n)
                  \<lparr>dvr_DomainID = pdv_DomainId request, dvr_Candidate = pdv_CandidateId request,
                   dvr_DomainTerm = pdv_DomainTerm request, dvr_Log = fromPBLogSummary (pdv_Log request)\<rparr> of
        (s, r, response, resetDeadline) \<Rightarrow>
          let n1 = n\<lparr>rn_state := s, rn_domainRole := r\<rparr>;
              n2 = (if resetDeadline then resetDomainDeadlineLocked env 0 n1 else n1)
          in case rpc_persistLocked n2 of
               (n3, Some e) \<Rightarrow> (n3, \<lparr>dvp_DomainTerm = ps_DomainTerm (rn_state n3), dvp_Granted = False\<rparr>)
             | (n3, None) \<Rightarrow> (n3, response))"

text \<open>The argument of \<open>Heartbeat\<close> and \<open>PublishReady\<close> is the leader identity of the message; the log summary
  it also carries is not read.\<close>

definition Heartbeat :: "env \<Rightarrow> DomainLeaderIdentity option \<Rightarrow> RPCNode \<Rightarrow> RPCNode \<times> DomainVoteResponse" where
  "Heartbeat env leader n =
     (let identity = fromPBDomainIdentity leader;
          refuse = (n, \<lparr>dvp_DomainTerm = ps_DomainTerm (rn_state n), dvp_Granted = False\<rparr>)
      in if DomainID identity \<noteq> local_domain n then refuse
         else case transitionAcceptDomainLeader (rn_state n) (rn_domainRole n) (local_id n) identity of
           (s, r, False) \<Rightarrow> (n\<lparr>rn_state := s, rn_domainRole := r\<rparr>, \<lparr>dvp_DomainTerm = ps_DomainTerm s, dvp_Granted = False\<rparr>)
         | (s, r, True) \<Rightarrow>
             let n1 = n\<lparr>rn_state := s, rn_domainRole := r,
                        rn_domainLeaders := fmupd (DomainID identity) identity (rn_domainLeaders n)\<rparr>;
                 n2 = resetDomainDeadlineLocked env 0 n1;
                 n3 = (if rn_stage n2 \<noteq> Serving then n2\<lparr>rn_stage := GlobalElecting\<rparr> else n2)
             in case rpc_persistLocked n3 of
                  (n4, Some e) \<Rightarrow> (n4, \<lparr>dvp_DomainTerm = ps_DomainTerm (rn_state n4), dvp_Granted = False\<rparr>)
                | (n4, None) \<Rightarrow> (n4, \<lparr>dvp_DomainTerm = ps_DomainTerm (rn_state n4), dvp_Granted = True\<rparr>))"

datatype rpc_error =
    InvalidArgument string
  | FailedPrecondition string
  | StaleGlobalTerm u64
  | ConflictsWithCommitted u64
  | FutureGlobalTerm u64
  | Unavailable string
  | DeadlineExceeded string

definition PublishReady ::
    "env \<Rightarrow> DomainLeaderIdentity option \<Rightarrow> RPCNode \<Rightarrow> RPCNode \<times> (rpc_error + DomainVoteResponse)" where
  "PublishReady env leader n =
     (let identity = fromPBDomainIdentity leader in
      if \<not> dli_Valid identity then (n, Inl (InvalidArgument ''invalid domain leader identity''))
      else let current = get_or no_dli (rn_domainLeaders n) (DomainID identity) in
        if dli_Valid current \<and> DomainTerm current > DomainTerm identity
        then (n, Inr \<lparr>dvp_DomainTerm = DomainTerm current, dvp_Granted = False\<rparr>)
        else
          let finish = (\<lambda>n1.
                let n2 = n1\<lparr>rn_domainLeaders := fmupd (DomainID identity) identity (rn_domainLeaders n1)\<rparr>;
                    n3 = (if rn_stage n2 \<noteq> Serving then n2\<lparr>rn_stage := GlobalElecting\<rparr> else n2)
                in case rpc_persistLocked n3 of
                     (n4, Some e) \<Rightarrow> (n4, Inr \<lparr>dvp_DomainTerm = DomainTerm identity, dvp_Granted = False\<rparr>)
                   | (n4, None) \<Rightarrow> (n4, Inr \<lparr>dvp_DomainTerm = DomainTerm identity, dvp_Granted = True\<rparr>))
          in if DomainID identity = local_domain n
             then case transitionAcceptDomainLeader (rn_state n) (rn_domainRole n) (local_id n) identity of
                    (s, r, False) \<Rightarrow> (n\<lparr>rn_state := s, rn_domainRole := r\<rparr>,
                        Inr \<lparr>dvp_DomainTerm = ps_DomainTerm s, dvp_Granted = False\<rparr>)
                  | (s, r, True) \<Rightarrow> finish (resetDomainDeadlineLocked env 0 (n\<lparr>rn_state := s, rn_domainRole := r\<rparr>))
             else finish n)"

section \<open>Commit knowledge\<close>

definition maybeCompactLocked :: "RPCNode \<Rightarrow> RPCNode option" where
  "maybeCompactLocked n =
     (let s = rn_state n in
      if rn_compactionThreshold n = 0 \<or> rn_migrating n \<or> rn_draining n then Some n
      else if ps_AppliedIndex s - ps_SnapshotLastIndex s \<le> rn_compactionThreshold n then Some n
      else if ps_AppliedIndex s \<le> rn_compactionRetain n then Some n
      else let target = ps_AppliedIndex s - rn_compactionRetain n in
        if target \<le> ps_SnapshotLastIndex s then Some n
        else map_option (\<lambda>(s', _). n\<lparr>rn_state := s'\<rparr>) (compactLog s target))"

definition signalCommittedWaiterLocked :: "string \<Rightarrow> RPCNode \<Rightarrow> RPCNode" where
  "signalCommittedWaiterLocked requestID n =
     (case fmlookup (rn_committing n) requestID of
        None \<Rightarrow> n
      | Some done1 \<Rightarrow> n\<lparr>rn_closed := done1 # rn_closed n, rn_committing := fmdrop requestID (rn_committing n)\<rparr>)"

text \<open>The first loop of \<open>advanceCommitLocked\<close>; \<open>None\<close> when an entry is missing.\<close>

function collect_entries :: "LogEntry list \<Rightarrow> u64 \<Rightarrow> u64 \<Rightarrow> LogEntry list option" where
  "collect_entries log next commitIndex =
     (if next \<le> commitIndex
      then case findEntryByIndex log next of
             None \<Rightarrow> None
           | Some entry \<Rightarrow> map_option (Cons entry) (collect_entries log (next + 1) commitIndex)
      else Some [])"
  by pat_completeness auto

termination collect_entries
  by (relation "measure (\<lambda>(log, next, ci). Suc (unat ci) - unat next)") (auto intro: next_measure)

declare collect_entries.simps [simp del]

definition commit_one :: "u64 \<Rightarrow> LogEntry \<Rightarrow> RPCNode \<Rightarrow> RPCNode" where
  "commit_one commitIndex entry n =
     (let n1 = n\<lparr>rn_state := applyEntry (rn_state n) entry\<rparr> in
      if GlobalIndex entry < commitIndex then signalCommittedWaiterLocked (RequestID entry) n1 else n1)"

text \<open>\<open>make([]T, 0, c)\<close> panics when \<open>c\<close> is not representable as an \<open>int\<close>.\<close>

definition make_ok :: "u64 \<Rightarrow> bool" where
  "make_ok c \<longleftrightarrow> uint c < 2 ^ 63"

text \<open>\<open>None\<close> is a panic: of \<open>make\<close>, or of the slice expression in \<open>compactLog\<close>.\<close>

definition advanceCommitLocked :: "u64 \<Rightarrow> u64 \<Rightarrow> string \<Rightarrow> RPCNode \<Rightarrow> (RPCNode \<times> bool) option" where
  "advanceCommitLocked commitIndex commitTerm commitRequestID n =
     (let s = rn_state n in
      if commitIndex \<le> ps_KnownGlobalCommitIndex s then Some (n, True)
      else let from = ps_KnownGlobalCommitIndex s + 1 in
        if \<not> make_ok (commitIndex - from + 1) then None
        else case collect_entries (ps_Log s) from commitIndex of
          None \<Rightarrow> Some (n, False)
        | Some entries \<Rightarrow>
            let top = last entries in
            if GlobalTerm top \<noteq> commitTerm \<or> RequestID top \<noteq> commitRequestID then Some (n, False)
            else map_option (\<lambda>n'. (n', True)) (maybeCompactLocked (fold (commit_one commitIndex) entries n)))"

section \<open>The global election service\<close>

record PBGlobalVoteRequest =
  pgv_Candidate :: "DomainLeaderIdentity option"
  pgv_GlobalTerm :: u64
  pgv_Log :: "LogSummary option"
  pgv_LeadershipTransfer :: bool

definition RequestVoteGlobalInternal ::
    "env \<Rightarrow> PBGlobalVoteRequest \<Rightarrow> RPCNode \<Rightarrow> RPCNode \<times> GlobalVoteResponse" where
  "RequestVoteGlobalInternal env request n =
     (let candidate = fromPBDomainIdentity (pgv_Candidate request);
          selfIdentity = get_or no_dli (rn_domainLeaders n) (local_domain n);
          refused = (\<lambda>n. (n, \<lparr>gvp_Voter = selfIdentity, gvp_GlobalTerm = ps_GlobalTerm (rn_state n), gvp_Granted = False\<rparr>))
      in if rn_domainRole n \<noteq> Leader \<or> NodeID selfIdentity \<noteq> local_id n \<or>
            get_or no_dli (rn_domainLeaders n) (DomainID candidate) \<noteq> candidate
         then refused n
         else if \<not> domainLeaseFreshLocked (env_now env 0) n
         then refused (recordRejectionLocked ''global_vote_no_domain_majority'' n)
         else if pgv_GlobalTerm request < ps_GlobalTerm (rn_state n) then refused n
         else if \<not> pgv_LeadershipTransfer request \<and> gli_Valid (rn_globalLeader n) \<and>
                 gli_DomainLeader (rn_globalLeader n) \<noteq> candidate \<and>
                 env_now env 1 - rn_lastGlobalContact n < globalStickyWindow
         then refused (recordRejectionLocked ''global_vote_sticky'' n)
         else case transitionGlobalVote (rn_state n) (rn_globalRole n) (rn_stage n)
                     \<lparr>gvr_Candidate = candidate, gvr_GlobalTerm = pgv_GlobalTerm request,
                      gvr_Log = fromPBLogSummary (pgv_Log request)\<rparr> of
           (s, r, g, response, resetDeadline, higherTerm) \<Rightarrow>
             let n1 = n\<lparr>rn_state := s, rn_globalRole := r, rn_stage := g\<rparr>;
                 n2 = (if higherTerm then n1\<lparr>rn_globalLeader := no_gli\<rparr> else n1);
                 n3 = (if resetDeadline then resetGlobalDeadlineLocked env 2 n2 else n2)
             in case rpc_persistLocked n3 of
                  (n4, Some e) \<Rightarrow> refused n4
                | (n4, None) \<Rightarrow> (n4, \<lparr>gvp_Voter = selfIdentity, gvp_GlobalTerm = gvp_GlobalTerm response,
                                     gvp_Granted = gvp_Granted response\<rparr>))"

record PBGlobalHeartbeat =
  pgh_Leader :: "DomainLeaderIdentity option"
  pgh_GlobalTerm :: u64
  pgh_CommitIndex :: u64
  pgh_CommitTerm :: u64
  pgh_CommitRequestId :: string

text \<open>The critical section of \<open>HeartbeatGlobalInternal\<close>; the last component says whether the heartbeat is
  passed on to the members of the domain.  \<open>None\<close> is the panic of \<open>advanceCommitLocked\<close>.\<close>

definition HeartbeatGlobalInternal ::
    "env \<Rightarrow> PBGlobalHeartbeat \<Rightarrow> RPCNode \<Rightarrow> (RPCNode \<times> GlobalVoteResponse \<times> bool) option" where
  "HeartbeatGlobalInternal env request n =
     (let leaderIdentity = fromPBDomainIdentity (pgh_Leader request);
          known = get_or no_dli (rn_domainLeaders n) (DomainID leaderIdentity)
      in if known \<noteq> leaderIdentity \<or> pgh_GlobalTerm request < ps_GlobalTerm (rn_state n)
         then Some (n, \<lparr>gvp_Voter = no_dli, gvp_GlobalTerm = ps_GlobalTerm (rn_state n), gvp_Granted = False\<rparr>, False)
         else
           let leader = \<lparr>gli_DomainLeader = leaderIdentity, gli_GlobalTerm = pgh_GlobalTerm request\<rparr> in
           case transitionAcceptGlobalLeader (rn_state n) (rn_globalRole n) (rn_stage n) (local_id n) leader of
             (s, r, g, _) \<Rightarrow>
               let n1 = (resetGlobalDeadlineLocked env 0
                          (n\<lparr>rn_state := s, rn_globalRole := r, rn_stage := g, rn_globalLeader := leader\<rparr>))
                        \<lparr>rn_lastGlobalContact := env_now env 1\<rparr>
               in case advanceCommitLocked (pgh_CommitIndex request) (pgh_CommitTerm request) (pgh_CommitRequestId request) n1 of
                    None \<Rightarrow> None
                  | Some (n2, _) \<Rightarrow>
                      let isDomainLeader = is_domain n2;
                          leaseConfirm = (isDomainLeader \<and> domainLeaseFreshLocked (env_now env 2) n2);
                          selfIdentity = get_or no_dli (rn_domainLeaders n2) (local_domain n2)
                      in case rpc_persistLocked n2 of
                           (n3, Some e) \<Rightarrow> Some (n3, \<lparr>gvp_Voter = selfIdentity, gvp_GlobalTerm = pgh_GlobalTerm request,
                                                    gvp_Granted = False\<rparr>, False)
                         | (n3, None) \<Rightarrow> Some (n3, \<lparr>gvp_Voter = selfIdentity, gvp_GlobalTerm = pgh_GlobalTerm request,
                                                   gvp_Granted = leaseConfirm\<rparr>, isDomainLeader))"

end
