(* ===== verification/Rpc_Log.thy ===== *)
theory Rpc_Log
  imports Rpc_Node Log_History
begin

text \<open>
  The replication service of the production node (\<open>rpc_node.go\<close>): \<open>Replicate\<close>, \<open>AnnounceGlobalDomainQuorum\<close>,
  \<open>Commit\<close> and \<open>InstallSnapshot\<close>.  A handler that asks the members of its domain has two critical sections;
  \<open>others\<close> is what other handlers do to the node in between and \<open>acked\<close> the members that confirmed.
\<close>

section \<open>Messages\<close>

record PBReplicateEntry =
  pre_GlobalTerm :: u64
  pre_GlobalIndex :: u64
  pre_RequestId :: string
  pre_OriginDomain :: string
  pre_Key :: string
  pre_Value :: string
  pre_ReplyRoute :: string
  pre_SenderNodeId :: string
  pre_FanoutToDomain :: bool
  pre_PrevLogIndex :: u64
  pre_PrevLogTerm :: u64

record DomainQuorumAck =
  dqa_GlobalTerm :: u64
  dqa_GlobalIndex :: u64
  dqa_DomainId :: string
  dqa_Quorum :: bool

record GlobalDomainQuorumAck =
  gqa_GlobalTerm :: u64
  gqa_GlobalIndex :: u64
  gqa_GlobalLeaderDomain :: string
  gqa_RequestId :: string
  gqa_Result :: string
  gqa_ReplyRoute :: string
  gqa_OriginDomain :: string
  gqa_ResponderDomain :: string

record CommitNotice =
  cn_GlobalTerm :: u64
  cn_CommitIndex :: u64
  cn_EvidenceDomains :: "string list"
  cn_FanoutToDomain :: bool
  cn_SenderNodeId :: string
  cn_CommitTerm :: u64
  cn_CommitRequestId :: string

record InstallSnapshotResponse =
  isp_GlobalTerm :: u64
  isp_LastIndex :: u64
  isp_Installed :: bool
  isp_Quorum :: bool

section \<open>Replicate\<close>

definition replicationSenderTrustedLocked :: "string \<Rightarrow> RPCNode \<Rightarrow> bool" where
  "replicationSenderTrustedLocked senderID n \<longleftrightarrow>
     (if senderID = [] then True
      else if dli_Valid (ps_DomainLeader (rn_state n)) \<and> senderID = NodeID (ps_DomainLeader (rn_state n)) then True
      else if \<not> gli_Valid (rn_globalLeader n) then True
      else senderID = NodeID (gli_DomainLeader (rn_globalLeader n)))"

definition entry_of :: "PBReplicateEntry \<Rightarrow> LogEntry" where
  "entry_of request =
     \<lparr>GlobalTerm = pre_GlobalTerm request, GlobalIndex = pre_GlobalIndex request,
      RequestID = pre_RequestId request, OriginDomain = pre_OriginDomain request,
      Cmd = \<lparr>Key = pre_Key request, Val = pre_Value request\<rparr>,
      Result = commandResult \<lparr>Key = pre_Key request, Val = pre_Value request\<rparr>\<rparr>"

definition mk_ack :: "RPCNode \<Rightarrow> LogEntry \<Rightarrow> bool \<Rightarrow> DomainQuorumAck" where
  "mk_ack n entry q =
     \<lparr>dqa_GlobalTerm = GlobalTerm entry, dqa_GlobalIndex = GlobalIndex entry, dqa_DomainId = local_domain n, dqa_Quorum = q\<rparr>"

text \<open>The first section ends the call, or leaves an entry to be confirmed by the members of the domain.\<close>

datatype 'a section_end = Answered "rpc_error + 'a" | FanOut

definition replicate_begin :: "PBReplicateEntry \<Rightarrow> RPCNode \<Rightarrow> (RPCNode \<times> DomainQuorumAck section_end) option" where
  "replicate_begin request n =
     (let entry = entry_of request; s = rn_state n; senderID = pre_SenderNodeId request;
          senderIsCurrentDomainLeader =
            (senderID \<noteq> [] \<and> dli_Valid (ps_DomainLeader s) \<and> senderID = NodeID (ps_DomainLeader s))
      in if pre_GlobalTerm request < ps_GlobalTerm s \<and> \<not> senderIsCurrentDomainLeader
         then Some (recordRejectionLocked ''replicate_stale_term'' n, Answered (Inl (StaleGlobalTerm (ps_GlobalTerm s))))
         else if pre_GlobalTerm request = ps_GlobalTerm s \<and> \<not> replicationSenderTrustedLocked senderID n
         then Some (recordRejectionLocked ''replicate_bad_sender'' n,
                    Answered (Inl (FailedPrecondition ''replicate from untrusted sender'')))
         else if pre_FanoutToDomain request \<and> \<not> is_domain n
         then Some (n, Answered (Inl (FailedPrecondition ''target is not current domain leader'')))
         else
           let overwrote = (case findEntryByIndex (ps_Log s) (GlobalIndex entry) of
                  None \<Rightarrow> False
                | Some existing \<Rightarrow> GlobalTerm existing \<noteq> GlobalTerm entry \<or> RequestID existing \<noteq> RequestID entry)
           in case appendEntryChecked s entry (pre_PrevLogIndex request) (pre_PrevLogTerm request) of
                None \<Rightarrow> None
              | Some (s', appendCommittedConflict) \<Rightarrow>
                  Some (recordRejectionLocked ''replicate_committed_conflict'' (n\<lparr>rn_state := s'\<rparr>),
                        Answered (Inl (ConflictsWithCommitted (GlobalIndex entry))))
              | Some (s', outcome) \<Rightarrow>
                  let ok = (outcome = appendAccepted);
                      n1 = n\<lparr>rn_state := s',
                             rn_pendingFast := (if ok \<and> overwrote
                               then fmfilter (\<lambda>idx. \<not> idx \<ge> GlobalIndex entry) (rn_pendingFast n)
                               else rn_pendingFast n)\<rparr>
                  in if pre_FanoutToDomain request \<and> ok then Some (n1, FanOut)
                     else case rpc_persistLocked n1 of
                            (n2, Some e) \<Rightarrow> Some (n2, Answered (Inl (Unavailable ''replicate persistence failed'')))
                          | (n2, None) \<Rightarrow> Some (n2, Answered (Inr (mk_ack n2 entry ok))))"

definition raise_mark :: "string \<Rightarrow> u64 \<Rightarrow> RPCNode \<Rightarrow> RPCNode" where
  "raise_mark domain index n =
     (let s = rn_state n; m = ps_DomainQuorumIndex s in
      n\<lparr>rn_state := s\<lparr>ps_DomainQuorumIndex := fmupd domain (max (getz m domain) index) m\<rparr>\<rparr>)"

text \<open>The part after the members answered; the last component is the Fast Return that is started.\<close>

definition replicate_finish ::
    "LogEntry \<Rightarrow> nat \<Rightarrow> RPCNode \<Rightarrow> (RPCNode \<times> (rpc_error + DomainQuorumAck) \<times> pendingFastReturn option) option" where
  "replicate_finish entry acks n =
     (if acks \<ge> majority (length (DomainMembers (rn_config n) (local_domain n)))
      then
        let n1 = raise_mark (local_domain n) (GlobalIndex entry) n;
            pending = fmlookup (rn_pendingFast n1) (GlobalIndex entry);
            matchesPending = (case pending of None \<Rightarrow> False
               | Some p \<Rightarrow> pf_GlobalTerm p = GlobalTerm entry \<and> pf_RequestID p = RequestID entry)
        in case (if matchesPending then advanceCommitLocked (GlobalIndex entry) (GlobalTerm entry) (RequestID entry) n1
                 else Some (n1, True)) of
             None \<Rightarrow> None
           | Some (n2, _) \<Rightarrow>
               let contiguous = (ps_KnownGlobalCommitIndex (rn_state n2) + 1 \<ge> GlobalIndex entry)
               in case rpc_persistLocked n2 of
                    (n3, Some e) \<Rightarrow> Some (n3, Inl (Unavailable ''replicate persistence failed''), None)
                  | (n3, None) \<Rightarrow> Some (n3, Inr (mk_ack n3 entry True), if matchesPending \<and> contiguous then pending else None)
      else case rpc_persistLocked n of
             (n1, Some e) \<Rightarrow> Some (n1, Inl (Unavailable ''replicate persistence failed''), None)
           | (n1, None) \<Rightarrow> Some (n1, Inr (mk_ack n1 entry False), None))"

definition acks_from :: "RPCNode \<Rightarrow> (string \<Rightarrow> bool) \<Rightarrow> nat" where
  "acks_from n acked =
     1 + length (filter (\<lambda>m. nd_ID m \<noteq> local_id n \<and> acked (nd_ID m)) (DomainMembers (rn_config n) (local_domain n)))"

definition Replicate ::
    "(RPCNode \<Rightarrow> RPCNode) \<Rightarrow> (string \<Rightarrow> bool) \<Rightarrow> PBReplicateEntry \<Rightarrow> RPCNode \<Rightarrow>
     (RPCNode \<times> (rpc_error + DomainQuorumAck) \<times> pendingFastReturn option) option" where
  "Replicate others acked request n =
     (case replicate_begin request n of
        None \<Rightarrow> None
      | Some (n1, Answered r) \<Rightarrow> Some (n1, r, None)
      | Some (n1, FanOut) \<Rightarrow> replicate_finish (entry_of request) (acks_from n1 acked) (others n1))"

section \<open>Fast Return certificates\<close>

definition domainHoldsEntryLocked :: "u64 \<Rightarrow> u64 \<Rightarrow> string \<Rightarrow> RPCNode \<Rightarrow> bool" where
  "domainHoldsEntryLocked globalIndex globalTerm requestID n \<longleftrightarrow>
     (if getz (ps_DomainQuorumIndex (rn_state n)) (local_domain n) < globalIndex then False
      else case findEntryByIndex (ps_Log (rn_state n)) globalIndex of
             None \<Rightarrow> False
           | Some entry \<Rightarrow> GlobalTerm entry = globalTerm \<and> RequestID entry = requestID)"

definition AnnounceGlobalDomainQuorum ::
    "GlobalDomainQuorumAck \<Rightarrow> RPCNode \<Rightarrow> (RPCNode \<times> DomainQuorumAck \<times> pendingFastReturn option) option" where
  "AnnounceGlobalDomainQuorum request n =
     (let responderDomain = (if gqa_ResponderDomain request = [] then local_domain n else gqa_ResponderDomain request);
          pending = \<lparr>pf_RequestID = gqa_RequestId request, pf_Result = gqa_Result request,
            pf_ReplyRoute = gqa_ReplyRoute request, pf_OriginDomain = gqa_OriginDomain request,
            pf_ResponderDomain = responderDomain, pf_GlobalTerm = gqa_GlobalTerm request,
            pf_GlobalIndex = gqa_GlobalIndex request\<rparr>;
          ack = (\<lambda>t q. \<lparr>dqa_GlobalTerm = t, dqa_GlobalIndex = pf_GlobalIndex pending,
                        dqa_DomainId = local_domain n, dqa_Quorum = q\<rparr>);
          term = ps_GlobalTerm (rn_state n)
      in if responderDomain \<noteq> local_domain n
         then Some (recordRejectionLocked ''announce_wrong_responder'' n, ack (gqa_GlobalTerm request) False, None)
         else if gqa_GlobalTerm request < term
         then Some (recordRejectionLocked ''announce_stale_term'' n, ack term False, None)
         else if gqa_GlobalTerm request = term \<and> gli_Valid (rn_globalLeader n) \<and>
                 gqa_GlobalLeaderDomain request \<noteq> [] \<and>
                 gqa_GlobalLeaderDomain request \<noteq> DomainID (gli_DomainLeader (rn_globalLeader n))
         then Some (recordRejectionLocked ''announce_bad_sender'' n, ack (gqa_GlobalTerm request) False, None)
         else
           let n1 = n\<lparr>rn_pendingFast := fmupd (pf_GlobalIndex pending) pending (rn_pendingFast n)\<rparr>;
               localQuorum = domainHoldsEntryLocked (pf_GlobalIndex pending) (pf_GlobalTerm pending) (pf_RequestID pending) n1
           in case (if localQuorum
                    then advanceCommitLocked (pf_GlobalIndex pending) (pf_GlobalTerm pending) (pf_RequestID pending) n1
                    else Some (n1, True)) of
                None \<Rightarrow> None
              | Some (n2, _) \<Rightarrow>
                  let contiguous = (ps_KnownGlobalCommitIndex (rn_state n2) + 1 \<ge> pf_GlobalIndex pending)
                  in Some (n2, ack (pf_GlobalTerm pending) localQuorum, if localQuorum \<and> contiguous then Some pending else None))"

text \<open>\<open>deliverFastReturn\<close>: the section that decides whether the client is called, with the result it is
  sent, and the section that counts how the call went.\<close>

definition deliver_begin :: "pendingFastReturn \<Rightarrow> RPCNode \<Rightarrow> RPCNode \<times> ClientResult option" where
  "deliver_begin pending n =
     (if pf_ReplyRoute pending = [] then (n, None)
      else if \<not> domainHoldsEntryLocked (pf_GlobalIndex pending) (pf_GlobalTerm pending) (pf_RequestID pending) n \<or>
              ps_KnownGlobalCommitIndex (rn_state n) + 1 < pf_GlobalIndex pending \<or>
              pf_GlobalTerm pending < ps_GlobalTerm (rn_state n)
      then (n, None)
      else if get_or False (rn_fastSent n) (pf_RequestID pending) then (n, None)
      else (n\<lparr>rn_fastSent := fmupd (pf_RequestID pending) True (rn_fastSent n)\<rparr>,
            Some \<lparr>cr_RequestID = pf_RequestID pending, cr_GlobalTerm = pf_GlobalTerm pending,
                  cr_GlobalIndex = pf_GlobalIndex pending, cr_Result = pf_Result pending,
                  cr_Source = FastResponse, cr_Committed = True, cr_ResponderDomain = pf_ResponderDomain pending\<rparr>))"

definition deliver_finish :: "pendingFastReturn \<Rightarrow> bool \<Rightarrow> RPCNode \<Rightarrow> RPCNode" where
  "deliver_finish pending ok n =
     (let m = rn_metrics n; floating = (config_DomainKind (rn_config n) (pf_OriginDomain pending) = DomainFloating);
          m1 = (if ok then m\<lparr>nm_fastReturnSuccess := nm_fastReturnSuccess m + 1\<rparr>
                else m\<lparr>nm_fastReturnDegraded := nm_fastReturnDegraded m + 1\<rparr>);
          m2 = (if \<not> floating then m1
                else if ok then m1\<lparr>nm_floatingRaceFastWins := nm_floatingRaceFastWins m1 + 1\<rparr>
                else m1\<lparr>nm_floatingResponderFailed := nm_floatingResponderFailed m1 + 1\<rparr>)
      in n\<lparr>rn_metrics := m2\<rparr>)"

section \<open>Commit\<close>

text \<open>The last component says whether the notice is passed on to the members of the domain.\<close>

definition rpc_Commit ::
    "CommitNotice \<Rightarrow> RPCNode \<Rightarrow> (RPCNode \<times> (rpc_error + DomainQuorumAck) \<times> bool) option" where
  "rpc_Commit request n =
     (let ack = (\<lambda>n q. \<lparr>dqa_GlobalTerm = cn_GlobalTerm request,
            dqa_GlobalIndex = ps_KnownGlobalCommitIndex (rn_state n), dqa_DomainId = local_domain n, dqa_Quorum = q\<rparr>);
          ackStale = (\<lambda>reason n. Some (recordRejectionLocked reason n, Inr (ack n False), False))
      in if cn_GlobalTerm request < ps_GlobalTerm (rn_state n) then ackStale ''commit_stale_term'' n
         else if cn_GlobalTerm request = ps_GlobalTerm (rn_state n) \<and>
                 \<not> replicationSenderTrustedLocked (cn_SenderNodeId request) n
         then ackStale ''commit_bad_sender'' n
         else if distinctDomains (cn_EvidenceDomains request) < 2 then ackStale ''commit_insufficient_evidence'' n
         else case advanceCommitLocked (cn_CommitIndex request) (cn_CommitTerm request) (cn_CommitRequestId request) n of
           None \<Rightarrow> None
         | Some (n1, False) \<Rightarrow> ackStale ''commit_identity_mismatch'' n1
         | Some (n1, True) \<Rightarrow>
             (case rpc_persistLocked n1 of
                (n2, Some e) \<Rightarrow> Some (recordRejectionLocked ''commit_persist_failed'' n2,
                                     Inl (Unavailable ''commit persistence failed''), False)
              | (n2, None) \<Rightarrow> Some (n2, Inr (ack n1 True), cn_FanoutToDomain request \<and> is_domain n1)))"

section \<open>InstallSnapshot\<close>

text \<open>The results field is present in every request that \<open>buildSnapshotRequestLocked\<close> builds.\<close>

definition snapshot_begin ::
    "InstallSnapshotRequest \<Rightarrow> RPCNode \<Rightarrow> RPCNode \<times> InstallSnapshotResponse section_end" where
  "snapshot_begin request n =
     (case dec_map dec_str (isr_StateMachine request) of
        None \<Rightarrow> (n, Answered (Inl (InvalidArgument ''undecodable snapshot state machine'')))
      | Some sm \<Rightarrow>
          (case dec_map dec_result (isr_Results request) of
             None \<Rightarrow> (n, Answered (Inl (InvalidArgument ''undecodable snapshot results'')))
           | Some results \<Rightarrow>
               if isr_GlobalTerm request < ps_GlobalTerm (rn_state n)
               then (recordRejectionLocked ''snapshot_stale_term'' n,
                     Answered (Inl (StaleGlobalTerm (ps_GlobalTerm (rn_state n)))))
               else if isr_GlobalTerm request = ps_GlobalTerm (rn_state n) \<and>
                       \<not> replicationSenderTrustedLocked (isr_SenderNodeId request) n
               then (recordRejectionLocked ''snapshot_bad_sender'' n,
                     Answered (Inl (FailedPrecondition ''snapshot from untrusted sender'')))
               else if isr_FanoutToDomain request \<and> \<not> is_domain n
               then (n, Answered (Inl (FailedPrecondition ''target is not current domain leader'')))
               else case installSnapshotState (rn_state n) (isr_LastIncludedIndex request) (isr_LastIncludedTerm request)
                           (isr_LastIncludedRequestId request) sm results of
                 (s, installed) \<Rightarrow>
                   let n1 = n\<lparr>rn_state := s,
                              rn_pendingFast := (if installed
                                then fmfilter (\<lambda>idx. \<not> idx \<le> isr_LastIncludedIndex request) (rn_pendingFast n)
                                else rn_pendingFast n)\<rparr>
                   in case rpc_persistLocked n1 of
                        (n2, Some e) \<Rightarrow> (n2, Answered (Inl (Unavailable ''snapshot persistence failed'')))
                      | (n2, None) \<Rightarrow>
                          if isr_FanoutToDomain request \<and> installed then (n2, FanOut)
                          else (n2, Answered (Inr \<lparr>isp_GlobalTerm = ps_GlobalTerm (rn_state n2),
                                 isp_LastIndex = LastLogIndex (rn_state n2), isp_Installed = installed, isp_Quorum = False\<rparr>))))"

definition snapshot_finish ::
    "InstallSnapshotRequest \<Rightarrow> RPCNode \<Rightarrow> nat \<Rightarrow> RPCNode \<Rightarrow> RPCNode \<times> (rpc_error + InstallSnapshotResponse)" where
  "snapshot_finish request n1 acks n =
     (let response = (\<lambda>q. \<lparr>isp_GlobalTerm = ps_GlobalTerm (rn_state n1), isp_LastIndex = LastLogIndex (rn_state n1),
                          isp_Installed = True, isp_Quorum = q\<rparr>)
      in if acks \<ge> majority (length (DomainMembers (rn_config n) (local_domain n)))
         then case rpc_persistLocked (raise_mark (local_domain n) (isr_LastIncludedIndex request) n) of
                (n2, Some e) \<Rightarrow> (n2, Inl (Unavailable ''snapshot persistence failed''))
              | (n2, None) \<Rightarrow> (n2, Inr (response True))
         else (n, Inr (response False)))"

definition InstallSnapshot ::
    "(RPCNode \<Rightarrow> RPCNode) \<Rightarrow> (string \<Rightarrow> bool) \<Rightarrow> InstallSnapshotRequest \<Rightarrow> RPCNode \<Rightarrow>
     RPCNode \<times> (rpc_error + InstallSnapshotResponse)" where
  "InstallSnapshot others acked request n =
     (case snapshot_begin request n of
        (n1, Answered r) \<Rightarrow> (n1, r)
      | (n1, FanOut) \<Rightarrow> snapshot_finish request n1 (acks_from n1 acked) (others n1))"

end
