(* ===== verification/Rpc_Elect.thy ===== *)
theory Rpc_Elect
  imports Rpc_Node
begin

text \<open>
  Elections driven by the production node (\<open>rpc_node.go\<close>): the sections of \<open>CampaignDomain\<close> and
  \<open>campaignGlobal\<close>, one tick of \<open>failureDetectorLoop\<close>, and the parts of \<open>sendHeartbeats\<close> that read the state
  and renew the leases.
\<close>

section \<open>Domain campaign\<close>

text \<open>The vote requests go out with the term and log summary of the first section.\<close>

definition campaign_domain_begin :: "RPCNode \<Rightarrow> RPCNode \<times> (error + (u64 \<times> LogSummary))" where
  "campaign_domain_begin n =
     (if rn_stage n = Booting \<or> rn_stopped n then (n, Inl ErrNotServing)
      else if rn_domainCampaigning n then (n, Inl ErrNoDomainQuorum)
      else case transitionStartDomainCampaign (rn_state n) (rn_domainRole n) (local_id n) of
        (s, r, term, summary) \<Rightarrow>
          (case rpc_persistLocked (n\<lparr>rn_domainCampaigning := True, rn_state := s, rn_domainRole := r\<rparr>) of
             (n1, Some e) \<Rightarrow> (n1, Inl ErrNoDomainQuorum)
           | (n1, None) \<Rightarrow> (n1, Inr (term, summary))))"

text \<open>The deferred section of a campaign that set the flag.\<close>

definition campaign_domain_end :: "env \<Rightarrow> RPCNode \<Rightarrow> RPCNode" where
  "campaign_domain_end env n = resetDomainDeadlineLocked env 0 (n\<lparr>rn_domainCampaigning := False\<rparr>)"

definition votes_from :: "RPCNode \<Rightarrow> (string \<Rightarrow> DomainVoteResponse option) \<Rightarrow> nat" where
  "votes_from n replies =
     1 + length (filter (\<lambda>m. nd_ID m \<noteq> local_id n \<and>
           (case replies (nd_ID m) of None \<Rightarrow> False | Some r \<Rightarrow> dvp_Granted r))
         (DomainMembers (rn_config n) (local_domain n)))"

definition campaign_domain_finish :: "env \<Rightarrow> u64 \<Rightarrow> nat \<Rightarrow> RPCNode \<Rightarrow> RPCNode \<times> (error + DomainLeaderIdentity)" where
  "campaign_domain_finish env term votes n =
     (if votes < majority (length (DomainMembers (rn_config n) (local_domain n))) then (n, Inl ErrNoDomainQuorum)
      else let identity = \<lparr>DomainID = local_domain n, NodeID = local_id n, DomainTerm = term\<rparr> in
        if ps_DomainTerm (rn_state n) \<noteq> term then (n, Inl ErrNoDomainQuorum)
        else case transitionBecomeDomainLeader (rn_state n) (rn_domainRole n) identity of
          (s, r) \<Rightarrow>
            let n1 = n\<lparr>rn_state := s, rn_domainRole := r, rn_stage := DomainReady,
                       rn_domainLeaders := fmupd (DomainID identity) identity (rn_domainLeaders n)\<rparr>;
                n2 = refreshDomainLeaseLocked (env_now env 1) (resetDomainDeadlineLocked env 0 n1)
            in (fst (rpc_persistLocked n2), Inr identity))"

text \<open>\<open>publishDomainReady\<close> after its broadcast.\<close>

definition publishDomainReady :: "RPCNode \<Rightarrow> RPCNode" where
  "publishDomainReady n = n\<lparr>rn_stage := GlobalElecting\<rparr>"

section \<open>Global campaign\<close>

definition knownLeaders :: "RPCNode \<Rightarrow> nat" where
  "knownLeaders n = length (filter (\<lambda>(_, i). dli_Valid i) (sorted_list_of_fmap (rn_domainLeaders n)))"

definition campaign_global_begin ::
    "env \<Rightarrow> RPCNode \<Rightarrow> RPCNode \<times> (error + (DomainLeaderIdentity \<times> u64 \<times> LogSummary))" where
  "campaign_global_begin env n =
     (let candidate = get_or no_dli (rn_domainLeaders n) (local_domain n) in
      if NodeID candidate \<noteq> local_id n \<or> DomainTerm candidate \<noteq> ps_DomainTerm (rn_state n) \<or> rn_domainRole n \<noteq> Leader
      then (n, Inl ErrNotDomainLeader)
      else if \<not> domainLeaseFreshLocked (env_now env 0) n then (n, Inl ErrNotDomainLeader)
      else if rn_globalCampaigning n then (n, Inl ErrNoGlobalQuorum)
      else if knownLeaders n < globalElectionThreshold (length (Domains (rn_config n)))
      then (resetGlobalDeadlineLocked env 1 n, Inl ErrNoGlobalQuorum)
      else case transitionStartGlobalCampaign (rn_state n) (rn_globalRole n) candidate of
        (s, r, term, summary) \<Rightarrow>
          (case rpc_persistLocked (n\<lparr>rn_globalCampaigning := True, rn_state := s, rn_globalRole := r,
                                     rn_globalLeader := no_gli\<rparr>) of
             (n1, Some e) \<Rightarrow> (n1, Inl ErrNoGlobalQuorum)
           | (n1, None) \<Rightarrow> (n1, Inr (candidate, term, summary))))"

definition campaign_global_end :: "env \<Rightarrow> RPCNode \<Rightarrow> RPCNode" where
  "campaign_global_end env n = resetGlobalDeadlineLocked env 0 (n\<lparr>rn_globalCampaigning := False\<rparr>)"

definition domainLeaderSnapshot :: "RPCNode \<Rightarrow> DomainLeaderIdentity list" where
  "domainLeaderSnapshot n = filter dli_Valid (map snd (sorted_list_of_fmap (rn_domainLeaders n)))"

definition global_votes_from :: "RPCNode \<Rightarrow> (string \<Rightarrow> GlobalVoteResponse option) \<Rightarrow> nat" where
  "global_votes_from n replies =
     1 + length (filter (\<lambda>i. NodeID i \<noteq> local_id n \<and>
           (case replies (NodeID i) of None \<Rightarrow> False | Some r \<Rightarrow> gvp_Granted r)) (domainLeaderSnapshot n))"

definition campaign_global_finish ::
    "env \<Rightarrow> DomainLeaderIdentity \<Rightarrow> u64 \<Rightarrow> nat \<Rightarrow> RPCNode \<Rightarrow> RPCNode \<times> error option" where
  "campaign_global_finish env candidate term votes n =
     (if votes < globalElectionThreshold (length (Domains (rn_config n))) then (n, Some ErrNoGlobalQuorum)
      else if ps_GlobalTerm (rn_state n) \<noteq> term \<or> rn_domainRole n \<noteq> Leader then (n, Some ErrNoGlobalQuorum)
      else let leader = \<lparr>gli_DomainLeader = candidate, gli_GlobalTerm = term\<rparr> in
        case transitionBecomeGlobalLeader (rn_state n) (rn_globalRole n) (rn_stage n) leader of
          (s, r, g) \<Rightarrow>
            let n1 = n\<lparr>rn_state := s, rn_globalRole := r, rn_stage := g, rn_globalLeader := leader\<rparr>;
                n2 = refreshGlobalLeaseLocked (env_now env 1) (resetGlobalDeadlineLocked env 0 n1)
            in (fst (rpc_persistLocked n2), None))"

section \<open>Bootstrap\<close>

text \<open>What one round of \<open>bootstrapLoop\<close> decides: first whether to campaign for the domain or to wait for
  a global campaign, then, after the wait, whether that is still needed.\<close>

datatype bootstrap_action = CampaignForDomain | WaitForGlobal | NoCampaign

definition bootstrap_decide :: "RPCNode \<Rightarrow> bootstrap_action" where
  "bootstrap_decide n =
     (let domainLeader = get_or no_dli (rn_domainLeaders n) (local_domain n);
          isDomainLeader = (NodeID domainLeader = local_id n \<and> rn_domainRole n = Leader)
      in if \<not> dli_Valid domainLeader then CampaignForDomain
         else if isDomainLeader \<and> \<not> gli_Valid (rn_globalLeader n) then WaitForGlobal
         else NoCampaign)"

definition bootstrap_still_needed :: "RPCNode \<Rightarrow> bool" where
  "bootstrap_still_needed n \<longleftrightarrow> \<not> gli_Valid (rn_globalLeader n) \<and> rn_domainRole n = Leader"

section \<open>Failure detection\<close>

text \<open>One tick at time \<open>now\<close>; the two flags say which campaigns it starts.\<close>

definition failure_detector_tick :: "env \<Rightarrow> time \<Rightarrow> RPCNode \<Rightarrow> RPCNode \<times> bool \<times> bool" where
  "failure_detector_tick env now n =
     (if rn_stopped n then (n, False, False)
      else
        let n1 = fst (maybeStepDownGlobalOnExpiredDomainLeaseLocked env now n);
            n2 = fst (maybeStepDownExpiredGlobalLeaseLocked env now n1);
            needDomainElection = (rn_domainRole n2 \<noteq> Leader \<and> \<not> rn_domainCampaigning n2 \<and> now > rn_domainDeadline n2);
            needGlobalElection = needsGlobalElectionLocked now n2;
            n3 = (if needDomainElection
                  then resetDomainDeadlineLocked env 2
                         (n2\<lparr>rn_domainLeaders := fmdrop (local_domain n2) (rn_domainLeaders n2),
                             rn_state := (rn_state n2)\<lparr>ps_DomainLeader := no_dli\<rparr>, rn_stage := DomainElecting\<rparr>)
                  else n2);
            n4 = (if needGlobalElection
                  then resetGlobalDeadlineLocked env 3
                         (n3\<lparr>rn_globalLeader := no_gli, rn_state := (rn_state n3)\<lparr>ps_GlobalLeader := no_gli\<rparr>,
                             rn_stage := GlobalElecting\<rparr>)
                  else n3)
        in (fst (rpc_persistLocked n4), needDomainElection, needGlobalElection))"

section \<open>Heartbeats\<close>

text \<open>What a Global Leader says about its commit point.\<close>

definition commit_identity :: "PersistentState \<Rightarrow> u64 \<times> string" where
  "commit_identity s =
     (let commit = ps_KnownGlobalCommitIndex s in
      case findEntryByIndex (ps_Log s) commit of
        Some e \<Rightarrow> (GlobalTerm e, RequestID e)
      | None \<Rightarrow> if commit > 0 \<and> commit = ps_SnapshotLastIndex s
                then (ps_SnapshotLastTerm s, ps_SnapshotLastRequestID s) else (0, []))"

definition global_heartbeat :: "RPCNode \<Rightarrow> PBGlobalHeartbeat option" where
  "global_heartbeat n =
     (if rn_stopped n \<or> \<not> is_global n then None
      else Some \<lparr>pgh_Leader = Some (gli_DomainLeader (rn_globalLeader n)), pgh_GlobalTerm = gli_GlobalTerm (rn_globalLeader n),
                 pgh_CommitIndex = ps_KnownGlobalCommitIndex (rn_state n),
                 pgh_CommitTerm = fst (commit_identity (rn_state n)),
                 pgh_CommitRequestId = snd (commit_identity (rn_state n))\<rparr>)"

definition domain_heartbeat :: "RPCNode \<Rightarrow> DomainLeaderIdentity option" where
  "domain_heartbeat n = (if rn_stopped n \<or> \<not> is_domain n then None else Some (ps_DomainLeader (rn_state n)))"

text \<open>The sections after the acknowledgements of one round are in.\<close>

definition domain_round_finish :: "time \<Rightarrow> nat \<Rightarrow> RPCNode \<Rightarrow> RPCNode" where
  "domain_round_finish sentAt acks n =
     (if acks \<ge> majority (length (DomainMembers (rn_config n) (local_domain n)))
      then if is_domain n then refreshDomainLeaseLocked sentAt n else n
      else n)"

definition global_round_finish :: "time \<Rightarrow> u64 \<Rightarrow> nat \<Rightarrow> RPCNode \<Rightarrow> RPCNode" where
  "global_round_finish sentAt term acks n =
     (if acks \<ge> globalElectionThreshold (length (Domains (rn_config n)))
      then if is_global n \<and> gli_GlobalTerm (rn_globalLeader n) = term then refreshGlobalLeaseLocked sentAt n else n
      else n)"

text \<open>Only the identity that was addressed counts as a confirmation.\<close>

definition round_acks :: "DomainLeaderIdentity list \<Rightarrow> (string \<Rightarrow> GlobalVoteResponse option) \<Rightarrow> nat" where
  "round_acks leaders replies =
     length (filter (\<lambda>i. case replies (NodeID i) of None \<Rightarrow> False
        | Some r \<Rightarrow> gvp_Granted r \<and> gvp_Voter r = i) leaders)"

end
