(* ===== verification/Rpc_Client.thy ===== *)
theory Rpc_Client
  imports Rpc_Log Rpc_Elect
begin

text \<open>
  The client service of the production node (\<open>rpc_node.go\<close>): ordering and committing writes, reads, the
  choice of the Fast Return responder, and the two loops that heal quorum marks and commits.
\<close>

section \<open>Ordering a write\<close>

datatype write_step =
    Redirect string
  | Refused rpc_error
  | Settled ClientResult
  | Waiting nat "LogEntry option"

text \<open>
  The first critical section of \<open>Write\<close>.  \<open>Waiting ch (Some e)\<close> starts the background commit of \<open>e\<close> on a
  new channel, \<open>Waiting ch None\<close> joins one that is running.
\<close>

definition fresh_chan :: "RPCNode \<Rightarrow> nat" where
  "fresh_chan n = Suc (Max (insert 0 (set (rn_closed n) \<union> fmran' (rn_committing n))))"

definition join_commit :: "string \<Rightarrow> LogEntry \<Rightarrow> RPCNode \<Rightarrow> RPCNode \<times> write_step" where
  "join_commit requestID entry n =
     (case fmlookup (rn_committing n) requestID of
        Some done1 \<Rightarrow> (n, Waiting done1 None)
      | None \<Rightarrow> let ch = fresh_chan n in
          (n\<lparr>rn_committing := fmupd requestID ch (rn_committing n)\<rparr>, Waiting ch (Some entry)))"

definition write_begin :: "env \<Rightarrow> ClientWriteRequest \<Rightarrow> RPCNode \<Rightarrow> RPCNode \<times> write_step" where
  "write_begin env request n =
     (let requestID = cwr_RequestID request; s = rn_state n in
      if rn_stage n \<noteq> Serving \<or> \<not> servesAsGlobalLeaderLocked (env_now env 0) n
      then let redirect = globalRedirectAddressLocked n; n1 = recordRejectionLocked ''write_not_global_leader'' n in
           (n1, if redirect = [] then Refused (Unavailable ''node is not the current global leader'') else Redirect redirect)
      else if rn_draining n \<and> fmlookup (ps_Results s) requestID = None \<and> findEntryByRequest (ps_Log s) requestID = None
      then (recordRejectionLocked ''write_draining'' n, Refused (Unavailable ''global leader migration in progress''))
      else
        let n1 = (if cwr_OriginDomain request \<noteq> []
                  then n\<lparr>rn_stats := stats_record (rn_stats n) (cwr_OriginDomain request) False (env_now env 1)\<rparr> else n);
            reused = (n1, Refused (InvalidArgument ''requestId reused with different command''))
        in case fmlookup (ps_Results s) requestID of
             Some final \<Rightarrow>
               (case findEntryByRequest (ps_Log s) requestID of
                  Some entry \<Rightarrow>
                    if Cmd entry \<noteq> cwr_Command request \<or> OriginDomain entry \<noteq> cwr_OriginDomain request then reused
                    else (n1, Settled final)
                | None \<Rightarrow>
                    if cr_GlobalIndex final > ps_SnapshotLastIndex s \<or>
                       cr_Result final \<noteq> commandResult (cwr_Command request) then reused
                    else (n1, Settled final))
           | None \<Rightarrow>
               (case findEntryByRequest (ps_Log s) requestID of
                  Some existing \<Rightarrow>
                    if Cmd existing \<noteq> cwr_Command request \<or> OriginDomain existing \<noteq> cwr_OriginDomain request then reused
                    else join_commit requestID existing n1
                | None \<Rightarrow>
                    let entry = \<lparr>GlobalTerm = gli_GlobalTerm (rn_globalLeader n),
                          GlobalIndex = LastGlobalIndex (Summary s) + 1, RequestID = requestID,
                          OriginDomain = cwr_OriginDomain request, Cmd = cwr_Command request,
                          Result = commandResult (cwr_Command request)\<rparr>
                    in join_commit requestID entry (n1\<lparr>rn_state := s\<lparr>ps_Log := ps_Log s @ [entry]\<rparr>\<rparr>)))"

text \<open>The last section, after the channel was closed.\<close>

definition write_result :: "ClientWriteRequest \<Rightarrow> RPCNode \<Rightarrow> RPCNode \<times> (rpc_error + ClientResult)" where
  "write_result request n =
     (case fmlookup (ps_Results (rn_state n)) (cwr_RequestID request) of
        None \<Rightarrow> (n, Inl (Unavailable ''two-domain commit evidence is unavailable''))
      | Some final \<Rightarrow>
          let m = rn_metrics n in
          (if config_DomainKind (rn_config n) (cwr_OriginDomain request) = DomainFloating
           then n\<lparr>rn_metrics := m\<lparr>nm_floatingRaceGlobalWins := nm_floatingRaceGlobalWins m + 1\<rparr>\<rparr> else n,
           Inr final))"

section \<open>Committing a write\<close>

record returnPlan =
  rp_OriginKind :: DomainKind
  rp_Responder :: DomainLeaderIdentity
  rp_Floating :: bool

text \<open>The loop over the leaders, in the order of their domains; \<open>glDelay\<close> is the configured one-way delay
  in milliseconds, used where nothing was measured.\<close>

fun best_responder ::
    "RPCNode \<Rightarrow> time \<Rightarrow> (string \<Rightarrow> rat) \<Rightarrow> string \<Rightarrow> string \<Rightarrow> (string \<times> DomainLeaderIdentity) list \<Rightarrow>
     DomainLeaderIdentity \<Rightarrow> rat \<Rightarrow> DomainLeaderIdentity" where
  "best_responder n now glDelay originDomain globalDomain [] best bestCost = best"
| "best_responder n now glDelay originDomain globalDomain ((domain, leader) # rest) best bestCost =
     (if domain = globalDomain \<or> \<not> dli_Valid leader \<or> \<not> IsConsensusDomain (rn_config n) domain
      then best_responder n now glDelay originDomain globalDomain rest best bestCost
      else case fl_oneWay (rn_floatingLatency n) originDomain domain now of
        None \<Rightarrow> best_responder n now glDelay originDomain globalDomain rest best bestCost
      | Some originToResponder \<Rightarrow>
          let glToResponder = (case lookupOneWay (rn_rtt n) globalDomain domain of None \<Rightarrow> glDelay domain | Some d \<Rightarrow> d);
              cost = glToResponder + originToResponder
          in if \<not> dli_Valid best \<or> cost < bestCost
             then best_responder n now glDelay originDomain globalDomain rest leader cost
             else best_responder n now glDelay originDomain globalDomain rest best bestCost)"

definition selectFloatingResponder ::
    "time \<Rightarrow> (string \<Rightarrow> rat) \<Rightarrow> string \<Rightarrow> string \<Rightarrow> RPCNode \<Rightarrow> DomainLeaderIdentity" where
  "selectFloatingResponder now glDelay originDomain globalDomain n =
     (case fl_oneWay (rn_floatingLatency n) originDomain globalDomain now of
        None \<Rightarrow> no_dli
      | Some _ \<Rightarrow> best_responder n now glDelay originDomain globalDomain (sorted_list_of_fmap (rn_domainLeaders n)) no_dli 0)"

definition planReturnPath ::
    "time \<Rightarrow> (string \<Rightarrow> rat) \<Rightarrow> string \<Rightarrow> string \<Rightarrow> string \<Rightarrow> RPCNode \<Rightarrow> RPCNode \<times> returnPlan" where
  "planReturnPath now glDelay originDomain globalDomain replyRoute n =
     (let kind = config_DomainKind (rn_config n) originDomain;
          plan = \<lparr>rp_OriginKind = kind, rp_Responder = no_dli, rp_Floating = (kind = DomainFloating)\<rparr>
      in if originDomain = [] \<or> originDomain = globalDomain \<or> replyRoute = [] then (n, plan)
         else if \<not> rn_fastReturnEnabled n then (n, plan)
         else case kind of
           DomainConsensus \<Rightarrow> (n, plan\<lparr>rp_Responder := get_or no_dli (rn_domainLeaders n) originDomain\<rparr>)
         | DomainFloating \<Rightarrow>
             let responder = selectFloatingResponder now glDelay originDomain globalDomain n;
                 m = rn_metrics n; by = nm_floatingResponderByDomain m; d = DomainID responder
             in (if dli_Valid responder
                 then n\<lparr>rn_metrics := m\<lparr>nm_floatingResponderChosen := nm_floatingResponderChosen m + 1,
                        nm_floatingResponderByDomain := fmupd d (getz by d + 1) by\<rparr>\<rparr>
                 else n, plan\<lparr>rp_Responder := responder\<rparr>)
         | _ \<Rightarrow> (n, plan))"

definition hasOtherDomainQuorum :: "bool gomap \<Rightarrow> string \<Rightarrow> bool" where
  "hasOtherDomainQuorum quorums globalDomain \<longleftrightarrow>
     list_ex (\<lambda>(domain, quorum). domain \<noteq> globalDomain \<and> quorum) (sorted_list_of_fmap quorums)"

text \<open>The notice that \<open>commitAcrossDomains\<close> sends to every known Domain Leader; the node's own copy is
  handled at once.\<close>

definition commit_notice :: "LogEntry \<Rightarrow> bool gomap \<Rightarrow> RPCNode \<Rightarrow> CommitNotice" where
  "commit_notice entry quorums n =
     \<lparr>cn_GlobalTerm = ps_GlobalTerm (rn_state n), cn_CommitIndex = GlobalIndex entry,
      cn_EvidenceDomains = map fst (filter snd (sorted_list_of_fmap quorums)),
      cn_FanoutToDomain = True, cn_SenderNodeId = local_id n,
      cn_CommitTerm = GlobalTerm entry, cn_CommitRequestId = RequestID entry\<rparr>"

definition commitAcrossDomains :: "LogEntry \<Rightarrow> bool gomap \<Rightarrow> RPCNode \<Rightarrow> RPCNode option" where
  "commitAcrossDomains entry quorums n =
     (let notice = commit_notice entry quorums n in
      fold (\<lambda>leader acc. case acc of
              None \<Rightarrow> None
            | Some n1 \<Rightarrow> if NodeID leader = local_id n1 then map_option fst (rpc_Commit notice n1) else Some n1)
        (domainLeaderSnapshot n) (Some n))"

record commit_progress =
  cp_quorums :: "bool gomap"
  cp_announced :: bool
  cp_signaled :: bool
  cp_committed :: bool

definition commit_start :: commit_progress where
  "commit_start = \<lparr>cp_quorums = fmempty, cp_announced = False, cp_signaled = False, cp_committed = False\<rparr>"

text \<open>
  One iteration of the loop of \<open>replicateAndCommit\<close>: the answer of one domain.  The flag says that the
  Fast Return announcement is sent now.
\<close>

definition quorum_event ::
    "LogEntry \<Rightarrow> string \<Rightarrow> string \<Rightarrow> returnPlan \<Rightarrow> string \<Rightarrow> bool \<Rightarrow> RPCNode \<times> commit_progress \<Rightarrow>
     (RPCNode \<times> commit_progress \<times> bool) option" where
  "quorum_event entry originDomain globalDomain plan domain ok np =
     (case np of (n, p) \<Rightarrow>
       let q1 = (if ok then fmupd domain True (cp_quorums p) else cp_quorums p);
           n1 = (if ok then raise_mark domain (GlobalIndex entry) n else n);
           globalReady = get_or False q1 globalDomain;
           announce = (rn_fastReturnEnabled n1 \<and> globalReady \<and> \<not> cp_announced p \<and> originDomain \<noteq> globalDomain \<and>
                       dli_Valid (rp_Responder plan));
           p1 = p\<lparr>cp_quorums := q1, cp_announced := cp_announced p \<or> announce\<rparr>
       in if \<not> cp_signaled p \<and> globalReady \<and> hasOtherDomainQuorum q1 globalDomain
          then case commitAcrossDomains entry q1 n1 of
                 None \<Rightarrow> None
               | Some n2 \<Rightarrow> Some (signalCommittedWaiterLocked (RequestID entry) n2,
                                 p1\<lparr>cp_signaled := True, cp_committed := True\<rparr>, announce)
          else Some (n1, p1, announce))"

text \<open>What the deferred functions do when the loop has ended.\<close>

definition commit_end :: "LogEntry \<Rightarrow> RPCNode \<times> commit_progress \<Rightarrow> RPCNode" where
  "commit_end entry np =
     (case np of (n, p) \<Rightarrow>
       let n1 = (if cp_committed p then n else fst (rpc_persistLocked n));
           n2 = (if cp_signaled p then n1 else signalCommittedWaiterLocked (RequestID entry) n1)
       in n2\<lparr>rn_committing := fmdrop (RequestID entry) (rn_committing n2)\<rparr>)"

section \<open>Reads\<close>

datatype read_step = ReadRedirect string | ReadRefused rpc_error | ReadValue string

definition rpc_Read :: "env \<Rightarrow> string \<Rightarrow> string \<Rightarrow> RPCNode \<Rightarrow> RPCNode \<times> read_step" where
  "rpc_Read env originDomain key n =
     (if rn_stage n \<noteq> Serving \<or> \<not> servesAsGlobalLeaderLocked (env_now env 0) n
      then let n1 = recordRejectionLocked ''read_not_global_leader'' n; redirect = globalRedirectAddressLocked n1 in
           (n1, if redirect = [] then ReadRefused (Unavailable ''node is not the current global leader'') else ReadRedirect redirect)
      else
        let n1 = (if originDomain \<noteq> []
                  then n\<lparr>rn_stats := stats_record (rn_stats n) originDomain True (env_now env 1)\<rparr> else n);
            s = rn_state n1;
            barrier = getz (ps_DomainQuorumIndex s) (local_domain n1)
        in if ps_KnownGlobalCommitIndex s < barrier \<or> ps_AppliedIndex s < barrier
           then (recordRejectionLocked ''read_barrier'' n1, ReadRefused (Unavailable ''linearizable read barrier is not satisfied''))
           else (n1, ReadValue (get_or [] (ps_StateMachine s) key)))"

end
