(* ===== verification/Rpc_Migrate.thy ===== *)
theory Rpc_Migrate
  imports Rpc_Client
begin

text \<open>
  Healing, catch-up and migration of the production node: \<open>reconfirmDomainQuorum\<close>, \<open>recoverCommittedPrefix\<close>,
  \<open>prevLogFor\<close>, \<open>replicateDomainQuorum\<close> (\<open>rpc_node.go\<close>) and \<open>telemetry.go\<close>.  The functions that ask other
  nodes are again split into their critical sections, with the answers as arguments.
\<close>

section \<open>Reconfirming the quorum of the own domain\<close>

definition prev_term :: "PersistentState \<Rightarrow> u64 \<Rightarrow> u64" where
  "prev_term s index =
     (if index > 1
      then case findEntryByIndex (ps_Log s) (index - 1) of
             Some prev \<Rightarrow> GlobalTerm prev
           | None \<Rightarrow> if index - 1 = ps_SnapshotLastIndex s then ps_SnapshotLastTerm s else 0
      else 0)"

definition entry_request :: "LogEntry \<Rightarrow> string \<Rightarrow> bool \<Rightarrow> string \<Rightarrow> u64 \<Rightarrow> u64 \<Rightarrow> PBReplicateEntry" where
  "entry_request entry sender fanout replyRoute prevIndex prevTerm =
     \<lparr>pre_GlobalTerm = GlobalTerm entry, pre_GlobalIndex = GlobalIndex entry, pre_RequestId = RequestID entry,
      pre_OriginDomain = OriginDomain entry, pre_Key = Key (Cmd entry), pre_Value = Val (Cmd entry),
      pre_ReplyRoute = replyRoute, pre_SenderNodeId = sender, pre_FanoutToDomain = fanout,
      pre_PrevLogIndex = prevIndex, pre_PrevLogTerm = prevTerm\<rparr>"

text \<open>The first section gives the request that goes to the members, or nothing to do.\<close>

definition reconfirm_begin :: "RPCNode \<Rightarrow> (LogEntry \<times> PBReplicateEntry) option" where
  "reconfirm_begin n =
     (if rn_stopped n \<or> \<not> is_domain n then None
      else let s = rn_state n; last = LastGlobalIndex (Summary s) in
        if last \<le> getz (ps_DomainQuorumIndex s) (local_domain n) then None
        else case findEntryByIndex (ps_Log s) last of
          None \<Rightarrow> None
        | Some entry \<Rightarrow> Some (entry, entry_request entry (local_id n) False [] (last - 1) (prev_term s last)))"

definition reconfirm_finish :: "LogEntry \<Rightarrow> nat \<Rightarrow> RPCNode \<Rightarrow> RPCNode" where
  "reconfirm_finish entry acks n =
     (let s = rn_state n; last = GlobalIndex entry; m = ps_DomainQuorumIndex s; domain = local_domain n in
      if acks < majority (length (DomainMembers (rn_config n) domain)) then n
      else if \<not> is_domain n then n
      else if (case findEntryByIndex (ps_Log s) last of
                 None \<Rightarrow> True
               | Some cur \<Rightarrow> GlobalTerm cur \<noteq> GlobalTerm entry \<or> RequestID cur \<noteq> RequestID entry) then n
      else if last \<le> getz m domain then n
      else fst (rpc_persistLocked (n\<lparr>rn_state := s\<lparr>ps_DomainQuorumIndex := fmupd domain last m\<rparr>\<rparr>)))"

section \<open>Recovering the committed prefix\<close>

definition recover_begin :: "env \<Rightarrow> RPCNode \<Rightarrow> (u64 gomap \<times> DomainLeaderIdentity list) option" where
  "recover_begin env n =
     (if rn_stopped n \<or> \<not> servesAsGlobalLeaderLocked (env_now env 0) n then None
      else let s = rn_state n in
        if LastGlobalIndex (Summary s) = 0 \<or>
           getz (ps_DomainQuorumIndex s) (local_domain n) \<le> ps_KnownGlobalCommitIndex s then None
        else Some (ps_DomainQuorumIndex s,
               filter (\<lambda>l. dli_Valid l \<and> IsConsensusDomain (rn_config n) (DomainID l))
                 (map snd (sorted_list_of_fmap (rn_domainLeaders n)))))"

text \<open>The marks learned from the probes of the other Domain Leaders.\<close>

definition learn_marks :: "RPCNode \<Rightarrow> (string \<Rightarrow> u64 option) \<Rightarrow> DomainLeaderIdentity list \<Rightarrow> u64 gomap \<Rightarrow> u64 gomap" where
  "learn_marks n probes leaders known =
     fold (\<lambda>l m. if NodeID l = local_id n then m
        else case probes (NodeID l) of
          None \<Rightarrow> m
        | Some idx \<Rightarrow> if idx > getz m (DomainID l) then fmupd (DomainID l) idx m else m) leaders known"

definition merge_marks :: "Config \<Rightarrow> u64 gomap \<Rightarrow> u64 gomap \<Rightarrow> u64 gomap \<times> bool" where
  "merge_marks config known m =
     fold (\<lambda>(domain, index) (m, changed).
        if \<not> IsConsensusDomain config domain then (m, changed)
        else if index > getz m domain then (fmupd domain index m, True) else (m, changed))
      (sorted_list_of_fmap known) (m, False)"

definition other_held :: "Config \<Rightarrow> string \<Rightarrow> u64 gomap \<Rightarrow> u64" where
  "other_held config globalDomain m =
     fold (\<lambda>(domain, index) best.
        if domain = globalDomain \<or> \<not> IsConsensusDomain config domain then best
        else if index > best then index else best) (sorted_list_of_fmap m) 0"

text \<open>\<open>for target > known { if held { break }; target-- }\<close>.\<close>

function lower_target :: "LogEntry list \<Rightarrow> u64 \<Rightarrow> u64 \<Rightarrow> u64" where
  "lower_target log known target =
     (if target > known
      then if findEntryByIndex log target \<noteq> None then target else lower_target log known (target - 1)
      else target)"
  by pat_completeness auto

lemma u64_pred_less: "known < (target :: u64) \<Longrightarrow> unat (target - 1) < unat target"
proof -
  assume "known < target"
  then have "0 < unat target" by (simp add: word_less_nat_alt)
  moreover from this have "unat (target - 1) = unat target - 1"
    using unat_sub [of 1 target] by (simp add: word_le_nat_alt)
  ultimately show ?thesis by simp
qed

termination lower_target
  by (relation "measure (\<lambda>(log, known, target). unat target)") (auto intro: u64_pred_less)

declare lower_target.simps [simp del]

text \<open>The last section; its second component is the commit that is announced to the other domains.\<close>

definition recover_finish :: "env \<Rightarrow> u64 gomap \<Rightarrow> RPCNode \<Rightarrow> (RPCNode \<times> (LogEntry \<times> bool gomap) option) option" where
  "recover_finish env known n =
     (if rn_stopped n \<or> \<not> servesAsGlobalLeaderLocked (env_now env 0) n then Some (n, None)
      else
        let globalDomain = local_domain n; config = rn_config n; s = rn_state n;
            (m, changed) = merge_marks config known (ps_DomainQuorumIndex s);
            n1 = n\<lparr>rn_state := s\<lparr>ps_DomainQuorumIndex := m\<rparr>\<rparr>;
            kept = (if changed then fst (rpc_persistLocked n1) else n1);
            target = lower_target (ps_Log s) (ps_KnownGlobalCommitIndex s)
                       (min (getz m globalDomain) (other_held config globalDomain m))
        in if target \<le> ps_KnownGlobalCommitIndex s then Some (kept, None)
           else case findEntryByIndex (ps_Log s) target of
             None \<Rightarrow> Some (kept, None)
           | Some entry \<Rightarrow>
               (case advanceCommitLocked target (GlobalTerm entry) (RequestID entry) n1 of
                  None \<Rightarrow> None
                | Some (n2, False) \<Rightarrow> Some (if changed then fst (rpc_persistLocked n2) else n2, None)
                | Some (n2, True) \<Rightarrow>
                    (case rpc_persistLocked n2 of
                       (n3, Some e) \<Rightarrow> Some (n3, None)
                     | (n3, None) \<Rightarrow>
                         Some (n3, Some (entry,
                           fmmap (\<lambda>_. True) (fmfilter (\<lambda>d. IsConsensusDomain config d \<and> getz m d \<ge> target) m))))))"

section \<open>Replication to another domain\<close>

definition prevLogFor :: "u64 \<Rightarrow> RPCNode \<Rightarrow> u64 \<times> u64" where
  "prevLogFor index n = (if index \<le> 1 then (0, 0) else (index - 1, prev_term (rn_state n) index))"

record CatchUpResponse =
  cup_DomainQuorumIndex :: u64
  cup_LastIndex :: u64

text \<open>
  \<open>collectTailEntries\<close>: its loop, and the whole function.  \<open>None\<close> is the panic of \<open>make\<close>; the capacity is
  computed in \<open>uint64\<close>.
\<close>

function tail_loop :: "PersistentState \<Rightarrow> u64 \<Rightarrow> u64 \<Rightarrow> PBReplicateEntry list" where
  "tail_loop s idx barrier =
     (if idx \<le> barrier
      then case findEntryByIndex (ps_Log s) idx of
             None \<Rightarrow> []
           | Some entry \<Rightarrow>
               entry_request entry [] False [] (idx - 1) (prev_term s idx) # tail_loop s (idx + 1) barrier
      else [])"
  by pat_completeness auto

termination tail_loop
  by (relation "measure (\<lambda>(s, idx, barrier). Suc (unat barrier) - unat idx)") (auto intro: next_measure)

declare tail_loop.simps [simp del]

definition collectTailEntries :: "u64 \<Rightarrow> u64 \<Rightarrow> RPCNode \<Rightarrow> PBReplicateEntry list option" where
  "collectTailEntries after barrier n =
     (if \<not> make_ok (barrier - after) then None else Some (tail_loop (rn_state n) (after + 1) barrier))"

text \<open>
  \<open>replicateDomainQuorum\<close> towards another node: \<open>ack\<close> says whether the direct replication was confirmed,
  \<open>probe\<close>, \<open>snap\<close> and \<open>backfill\<close> are the answers to the later calls (\<open>None\<close> for an error), \<open>n1\<close> and
  \<open>n2\<close> the states in which the compaction floor and the tail are read.
\<close>

definition replicateDomainQuorum ::
    "LogEntry \<Rightarrow> bool \<Rightarrow> CatchUpResponse option \<Rightarrow> InstallSnapshotResponse option \<Rightarrow>
     (PBReplicateEntry list \<Rightarrow> CatchUpResponse option) \<Rightarrow> RPCNode \<Rightarrow> RPCNode \<Rightarrow> bool option" where
  "replicateDomainQuorum entry ack probe snap backfill n1 n2 =
     (if ack then Some True
      else case probe of
        None \<Rightarrow> Some False
      | Some p \<Rightarrow>
          if cup_DomainQuorumIndex p \<ge> GlobalIndex entry then Some True
          else
            let finish = (\<lambda>after. case collectTailEntries after (GlobalIndex entry) n2 of
                   None \<Rightarrow> None
                 | Some [] \<Rightarrow> Some False
                 | Some tail \<Rightarrow> (case backfill tail of
                     None \<Rightarrow> Some False
                   | Some resp \<Rightarrow> Some (cup_DomainQuorumIndex resp \<ge> GlobalIndex entry)))
            in if cup_LastIndex p < ps_SnapshotLastIndex (rn_state n1)
               then case snap of
                      None \<Rightarrow> Some False
                    | Some r \<Rightarrow> if isp_Installed r then finish (isp_LastIndex r) else Some False
               else finish (cup_LastIndex p))"

section \<open>Catch-up at the receiving Domain Leader\<close>

definition catch_up_begin :: "PBReplicateEntry list \<Rightarrow> RPCNode \<Rightarrow> rpc_error option" where
  "catch_up_begin entries n =
     (if \<not> is_domain n then Some (FailedPrecondition ''node is not the current domain leader'')
      else if \<not> gli_Valid (rn_globalLeader n) then Some (FailedPrecondition ''no global leader to catch up from'')
      else case List.find (\<lambda>e. pre_GlobalTerm e > ps_GlobalTerm (rn_state n)) entries of
             Some e \<Rightarrow> Some (FutureGlobalTerm (pre_GlobalTerm e))
           | None \<Rightarrow> None)"

text \<open>The loop of local \<open>Replicate\<close> calls, which an error ends.\<close>

fun catch_up_loop ::
    "(RPCNode \<Rightarrow> RPCNode) \<Rightarrow> (string \<Rightarrow> bool) \<Rightarrow> PBReplicateEntry list \<Rightarrow> RPCNode \<Rightarrow> RPCNode option" where
  "catch_up_loop others acked [] n = Some n"
| "catch_up_loop others acked (e # es) n =
     (case Replicate others acked (e\<lparr>pre_ReplyRoute := [], pre_SenderNodeId := local_id n, pre_FanoutToDomain := True\<rparr>) n of
        None \<Rightarrow> None
      | Some (n1, Inl _, _) \<Rightarrow> Some n1
      | Some (n1, Inr _, _) \<Rightarrow> catch_up_loop others acked es n1)"

definition catchUp ::
    "(RPCNode \<Rightarrow> RPCNode) \<Rightarrow> (string \<Rightarrow> bool) \<Rightarrow> PBReplicateEntry list \<Rightarrow> RPCNode \<Rightarrow>
     (RPCNode \<times> (rpc_error + CatchUpResponse)) option" where
  "catchUp others acked entries n =
     (case catch_up_begin entries n of
        Some e \<Rightarrow> Some (n, Inl e)
      | None \<Rightarrow>
          map_option (\<lambda>n1. (n1, Inr \<lparr>cup_DomainQuorumIndex = getz (ps_DomainQuorumIndex (rn_state n1)) (local_domain n1),
                                    cup_LastIndex = LastGlobalIndex (Summary (rn_state n1))\<rparr>))
            (catch_up_loop others acked entries n))"

section \<open>Telemetry\<close>

definition markDomainSeen :: "time \<Rightarrow> string \<Rightarrow> RPCNode \<Rightarrow> RPCNode" where
  "markDomainSeen now domain n = n\<lparr>rn_domainSeen := fmupd domain now (rn_domainSeen n)\<rparr>"

definition ingestTelemetryReport ::
    "time \<Rightarrow> DomainLeaderIdentity option \<Rightarrow> (string \<times> u64) list \<Rightarrow> bool \<Rightarrow> RPCNode \<Rightarrow> RPCNode" where
  "ingestTelemetryReport now reporter rtts available n =
     (let r = fromPBDomainIdentity reporter in
      if DomainID r = [] then n
      else
        let perDomain = fold (\<lambda>(to, ms) m. fmupd to (rat_of_int (uint ms)) m) rtts fmempty;
            n1 = n\<lparr>rn_rtt := rtt_merge (rn_rtt n) (DomainID r) perDomain\<rparr>
        in if available then markDomainSeen now (DomainID r) n1 else n1)"

definition maxFloatingLatency :: duration where
  "maxFloatingLatency = 600 * second"

record FloatingRtt =
  fr_ToDomain :: string
  fr_OneWayMillis :: u64
  fr_RttMillis :: u64

definition fr_oneWay :: "FloatingRtt \<Rightarrow> rat" where
  "fr_oneWay r =
     (if fr_OneWayMillis r = 0 \<and> fr_RttMillis r > 0 then rat_of_int (uint (fr_RttMillis r)) / 2
      else rat_of_int (uint (fr_OneWayMillis r)))"

text \<open>The range check of one measurement: \<open>time.Duration(oneWay)\<close> truncates and the product is an
  \<open>int64\<close>.  Measurements are below \<open>2 ^ 53\<close> here, so that \<open>float64\<close> holds them exactly.\<close>

definition in_latency_range :: "rat \<Rightarrow> bool" where
  "in_latency_range oneWay \<longleftrightarrow> \<not> i64 (\<lfloor>oneWay\<rfloor> * millisecond) > maxFloatingLatency"

datatype floating_error = OriginEmpty | OriginNotFloating string | NotGlobalLeader
  | StaleFloatingTerm u64 u64 | TargetNotConsensus string | LatencyOutOfRange string string

fun ingest_rtts ::
    "Config \<Rightarrow> string \<Rightarrow> time \<Rightarrow> FloatingRtt list \<Rightarrow> floatingLatencyStore \<Rightarrow> floatingLatencyStore \<times> floating_error option" where
  "ingest_rtts config origin now [] st = (st, None)"
| "ingest_rtts config origin now (r # rs) st =
     (if \<not> IsConsensusDomain config (fr_ToDomain r) then (st, Some (TargetNotConsensus (fr_ToDomain r)))
      else if \<not> in_latency_range (fr_oneWay r) then (st, Some (LatencyOutOfRange origin (fr_ToDomain r)))
      else ingest_rtts config origin now rs (fl_observe st origin (fr_ToDomain r) (fr_oneWay r) now))"

definition ingestFloatingLatencyReport ::
    "env \<Rightarrow> string \<Rightarrow> u64 \<Rightarrow> FloatingRtt list \<Rightarrow> RPCNode \<Rightarrow> RPCNode \<times> floating_error option" where
  "ingestFloatingLatencyReport env origin globalTerm rtts n =
     (if origin = [] then (n, Some OriginEmpty)
      else if config_DomainKind (rn_config n) origin \<noteq> DomainFloating then (n, Some (OriginNotFloating origin))
      else if \<not> (rn_stage n = Serving \<and> servesAsGlobalLeaderLocked (env_now env 0) n) then (n, Some NotGlobalLeader)
      else if globalTerm \<noteq> ps_GlobalTerm (rn_state n)
      then (n, Some (StaleFloatingTerm globalTerm (ps_GlobalTerm (rn_state n))))
      else case ingest_rtts (rn_config n) origin (env_now env 1) rtts (rn_floatingLatency n) of
             (st, e) \<Rightarrow> (n\<lparr>rn_floatingLatency := st\<rparr>, e))"

section \<open>Migration of the Global Leader\<close>

datatype move_refusal = MoveNotGlobalLeader DomainLeaderIdentity | MoveEmptyTarget | MoveSameDomain

definition move_check :: "string \<Rightarrow> RPCNode \<Rightarrow> move_refusal option" where
  "move_check target n =
     (if \<not> (\<not> rn_stopped n \<and> is_global n) then Some (MoveNotGlobalLeader (gli_DomainLeader (rn_globalLeader n)))
      else if target = [] then Some MoveEmptyTarget
      else if target = local_domain n then Some MoveSameDomain
      else None)"

datatype migration_note = AlreadyMigrating | NoValidLeader string | TooFewLeaders | BarrierNotReached u64
  | ElectionFailed | Migrated u64

record migrationOutcome =
  mo_success :: bool
  mo_note :: migration_note
  mo_fromTerm :: u64
  mo_newTerm :: u64

definition migration_begin :: "string \<Rightarrow> RPCNode \<Rightarrow> RPCNode \<times> (migrationOutcome + (DomainLeaderIdentity \<times> u64 \<times> u64))" where
  "migration_begin targetDomain n =
     (if rn_migrating n then (n, Inl \<lparr>mo_success = False, mo_note = AlreadyMigrating, mo_fromTerm = 0, mo_newTerm = 0\<rparr>)
      else
        let target = get_or no_dli (rn_domainLeaders n) targetDomain; fromTerm = ps_GlobalTerm (rn_state n) in
        if fmlookup (rn_domainLeaders n) targetDomain = None \<or> \<not> dli_Valid target \<or> NodeID target = local_id n
        then (n, Inl \<lparr>mo_success = False, mo_note = NoValidLeader targetDomain, mo_fromTerm = fromTerm, mo_newTerm = 0\<rparr>)
        else let barrier = LastGlobalIndex (Summary (rn_state n)) in
          (n\<lparr>rn_migrating := True, rn_draining := True, rn_migrationBarrier := barrier\<rparr>, Inr (target, barrier, fromTerm)))"

definition migration_finish :: "RPCNode \<Rightarrow> RPCNode" where
  "migration_finish n = n\<lparr>rn_migrating := False, rn_draining := False, rn_migrationBarrier := 0\<rparr>"

definition reachableDomainLeaders :: "RPCNode \<Rightarrow> nat" where
  "reachableDomainLeaders n = length (domainLeaderSnapshot n)"

text \<open>
  The whole handoff.  \<open>others k\<close> is what other handlers do to the node in the \<open>k\<close>-th unlocked stretch,
  \<open>caughtUp\<close> the outcome of \<open>runCatchUp\<close>, and \<open>reply\<close> the answer of the target (\<open>None\<close> for an error,
  otherwise whether it accepted and its new term).
\<close>

definition initiateMigration ::
    "(nat \<Rightarrow> env) \<Rightarrow> (nat \<Rightarrow> RPCNode \<Rightarrow> RPCNode) \<Rightarrow> bool \<Rightarrow> (bool \<times> u64) option \<Rightarrow> string \<Rightarrow> RPCNode \<Rightarrow> RPCNode \<times> migrationOutcome" where
  "initiateMigration envs others caughtUp reply targetDomain n =
     (case migration_begin targetDomain n of
        (n1, Inl outcome) \<Rightarrow> (n1, outcome)
      | (n1, Inr (target, barrier, fromTerm)) \<Rightarrow>
          let outcome = (\<lambda>ok note t. \<lparr>mo_success = ok, mo_note = note, mo_fromTerm = fromTerm, mo_newTerm = t\<rparr>);
              n2 = others 0 n1
          in if reachableDomainLeaders n2 < globalElectionThreshold (length (Domains (rn_config n2)))
             then (migration_finish (others 1 n2), outcome False TooFewLeaders 0)
             else let n3 = others 1 n2 in
               if \<not> caughtUp then (migration_finish n3, outcome False (BarrierNotReached barrier) 0)
               else let n4 = others 2 (revokeGlobalLeadershipForHandoffLocked (envs 0) n3) in
                 (case reply of
                    Some (True, newTerm) \<Rightarrow>
                      let n5 = fst (rpc_persistLocked (adoptHandedOffLeaderLocked (envs 1) target newTerm
                                 (n4\<lparr>rn_migrationsCount := rn_migrationsCount n4 + 1\<rparr>)))
                      in (migration_finish (others 3 n5), outcome True (Migrated newTerm) newTerm)
                  | _ \<Rightarrow> (migration_finish (others 3 (n4\<lparr>rn_globalDeadline := env_now (envs 2) 0\<rparr>)),
                          outcome False ElectionFailed 0)))"

text \<open>The checks of \<open>beginMigration\<close> at the target, before it campaigns.\<close>

datatype begin_refusal = BeginNotDomainLeader | BeginAlreadyGlobal | BeginStale

definition begin_migration_check :: "string \<Rightarrow> u64 \<Rightarrow> RPCNode \<Rightarrow> begin_refusal option" where
  "begin_migration_check targetDomain fromTerm n =
     (if targetDomain \<noteq> local_domain n \<or> \<not> is_domain n then Some BeginNotDomainLeader
      else if is_global n then Some BeginAlreadyGlobal
      else if \<not> (fromTerm \<noteq> 0 \<and> fromTerm = ps_GlobalTerm (rn_state n) \<and> gli_Valid (rn_globalLeader n) \<and>
                 gli_GlobalTerm (rn_globalLeader n) = fromTerm) then Some BeginStale
      else None)"

end
