(* ===== verification/Rpc_Steps.thy ===== *)
theory Rpc_Steps
  imports Rpc_Migrate
begin

text \<open>
  Every critical section of the production node as one step relation, and what each step keeps: the node's
  name, the terms and votes of both layers, the requests answered on the fast path, and what is on disk.
  The disk of a node may begin or stop failing at any time and the process may restart between two sections.
\<close>

section \<open>What is on disk\<close>

definition no_faults :: io_faults where
  "no_faults = \<lparr>mkdir_fails = False, write_fails = False, rename_fails = False, read_fails = False\<rparr>"

fun set_faults :: "io_faults \<Rightarrow> Store \<Rightarrow> Store" where
  "set_faults f (MemoryStore m) = MemoryStore m"
| "set_faults f (FileStore st) = FileStore (st\<lparr>fs_faults := f\<rparr>)"

text \<open>What a process that can read the disk would load.\<close>

definition stored :: "RPCNode \<Rightarrow> error + PersistentState" where
  "stored n = store_Load (set_faults no_faults (rn_store n))"

definition durable :: "RPCNode \<Rightarrow> bool" where
  "durable n \<longleftrightarrow> stored n = Inr (coerce_state (rn_state n))"

lemma load_is_stored: "store_Load st = Inr s \<Longrightarrow> store_Load (set_faults no_faults st) = Inr s"
  by (cases st) (auto simp: FileStore_Load_def no_faults_def split: option.splits if_splits content.splits)

lemma saved_is_stored: "store_Save st s = (st', None) \<Longrightarrow> store_Load (set_faults no_faults st') = Inr (coerce_state s)"
  by (cases st)
     (auto simp: FileStore_Load_def FileStore_Save_def MemoryStore_Load_def MemoryStore_Save_def no_faults_def
       Clone_eq unmarshal_marshal Let_def split: if_splits)

lemma unsaved_is_stored:
  "store_Save st s = (st', Some e) \<Longrightarrow> store_Load (set_faults no_faults st') = store_Load (set_faults no_faults st)"
  by (cases st)
     (auto simp: FileStore_Load_def FileStore_Save_def MemoryStore_Save_def no_faults_def Let_def
       split: if_splits option.splits)

lemma set_faults_stored [simp]: "store_Load (set_faults no_faults (set_faults f st)) = store_Load (set_faults no_faults st)"
  by (cases st) auto

section \<open>Steps that keep the votes\<close>

definition votes_le :: "PersistentState \<Rightarrow> PersistentState \<Rightarrow> bool" where
  "votes_le s s' \<longleftrightarrow> dvote_le s s' \<and> gvote_le s s'"

definition same_votes :: "PersistentState \<Rightarrow> PersistentState \<Rightarrow> bool" where
  "same_votes s s' \<longleftrightarrow> ps_DomainTerm s' = ps_DomainTerm s \<and> ps_DomainVotedFor s' = ps_DomainVotedFor s \<and>
     ps_GlobalTerm s' = ps_GlobalTerm s \<and> ps_GlobalVotedFor s' = ps_GlobalVotedFor s"

lemma votes_le_refl [simp]: "votes_le s s"
  by (simp add: votes_le_def)

lemma votes_le_trans: "votes_le s t \<Longrightarrow> votes_le t u \<Longrightarrow> votes_le s u"
  by (auto simp: votes_le_def intro: dvote_le_trans gvote_le_trans)

lemma same_votes_refl [simp]: "same_votes s s"
  by (simp add: same_votes_def)

lemma same_votes_trans: "same_votes s t \<Longrightarrow> same_votes t u \<Longrightarrow> same_votes s u"
  by (simp add: same_votes_def)

lemma same_votes_le: "same_votes s s' \<Longrightarrow> votes_le s s'"
  by (simp add: same_votes_def votes_le_def dvote_le_def gvote_le_def)

definition keeps_sent :: "RPCNode \<Rightarrow> RPCNode \<Rightarrow> bool" where
  "keeps_sent n n' \<longleftrightarrow> (\<forall>r. get_or False (rn_fastSent n) r \<longrightarrow> get_or False (rn_fastSent n') r)"

definition rpc_le :: "RPCNode \<Rightarrow> RPCNode \<Rightarrow> bool" where
  "rpc_le n n' \<longleftrightarrow> rn_local n' = rn_local n \<and> keeps_sent n n' \<and> votes_le (rn_state n) (rn_state n') \<and>
     (stored n' = stored n \<or> durable n')"

text \<open>A section that only computes, and one that ends by saving.\<close>

definition quiet :: "RPCNode \<Rightarrow> RPCNode \<Rightarrow> bool" where
  "quiet n n' \<longleftrightarrow> rn_local n' = rn_local n \<and> rn_fastSent n' = rn_fastSent n \<and> rn_store n' = rn_store n \<and>
     votes_le (rn_state n) (rn_state n')"

lemma quiet_refl [simp]: "quiet n n"
  by (simp add: quiet_def)

lemma quiet_trans: "quiet a b \<Longrightarrow> quiet b c \<Longrightarrow> quiet a c"
  by (auto simp: quiet_def intro: votes_le_trans)

lemma quiet_le: "quiet n n' \<Longrightarrow> rpc_le n n'"
  by (simp add: quiet_def rpc_le_def keeps_sent_def stored_def)

lemma rpc_le_refl [simp]: "rpc_le n n"
  by (simp add: quiet_le)

lemma rpc_persist_frame:
  assumes "rpc_persistLocked n = (n', r)"
  shows "rn_local n' = rn_local n" "rn_fastSent n' = rn_fastSent n" "rn_state n' = rn_state n" "rn_config n' = rn_config n"
  using assms by (auto simp: rpc_persistLocked_def split: prod.splits option.splits)

lemma persist_ok: "rpc_persistLocked n = (n', None) \<Longrightarrow> durable n'"
  by (auto simp: rpc_persistLocked_def durable_def stored_def saved_is_stored split: prod.splits option.splits)

lemma persist_failed: "rpc_persistLocked n = (n', Some e) \<Longrightarrow> stored n' = stored n \<and> rn_failed n'"
  by (auto simp: rpc_persistLocked_def stored_def unsaved_is_stored split: prod.splits option.splits)

lemma quiet_persist:
  assumes "quiet n n1" "rpc_persistLocked n1 = (n2, r)"
  shows "rpc_le n n2"
proof -
  have "stored n1 = stored n" using assms(1) by (simp add: quiet_def stored_def)
  then have "stored n2 = stored n \<or> durable n2"
    using assms(2) by (cases r) (auto dest: persist_ok persist_failed)
  then show ?thesis
    using assms(1) rpc_persist_frame [OF assms(2)] by (simp add: quiet_def rpc_le_def keeps_sent_def)
qed

lemma persist_quiet: "rpc_persistLocked n1 = (n2, r) \<Longrightarrow> quiet n n1 \<Longrightarrow> rpc_le n n2"
  by (rule quiet_persist)

lemma quiet_persist_fst: "quiet n n1 \<Longrightarrow> rpc_le n (fst (rpc_persistLocked n1))"
  by (cases "rpc_persistLocked n1") (simp add: quiet_persist)

text \<open>A section whose last state change is followed by frame changes only.\<close>

lemma rpc_le_frame:
  assumes "rpc_le n n1" "rn_local n2 = rn_local n1" "rn_fastSent n2 = rn_fastSent n1" "rn_store n2 = rn_store n1"
    "rn_state n2 = rn_state n1"
  shows "rpc_le n n2"
  using assms by (simp add: rpc_le_def keeps_sent_def stored_def durable_def)

lemma reject_le: "rpc_le n n1 \<Longrightarrow> rpc_le n (recordRejectionLocked reason n1)"
  by (erule rpc_le_frame) (simp_all add: recordRejectionLocked_def Let_def)

section \<open>State changes that keep the votes\<close>

lemma append_same_votes: "appendEntryChecked s e p t = Some (s', out) \<Longrightarrow> same_votes s s'"
  by (auto simp: appendEntryChecked_def same_votes_def rollbackQuorumAbove_def Let_def
      split: if_splits option.splits)

lemma apply_same_votes: "same_votes s (applyEntry s e)"
  by (simp add: same_votes_def frame_simps)

lemma compact_same_votes: "compactLog s i = Some (s', ok) \<Longrightarrow> same_votes s s'"
  by (auto simp: compactLog_def same_votes_def Let_def split: if_splits option.splits)

lemma install_same_votes: "installSnapshotState s i t r sm res = (s', ok) \<Longrightarrow> same_votes s s'"
  by (auto simp: installSnapshotState_def same_votes_def rollbackQuorumAbove_def Let_def split: if_splits)

lemma transitions_votes:
  "transitionObserveHigherDomainTerm s r t = (s1, r1, b) \<Longrightarrow> votes_le s s1"
  "transitionDomainVote s r dq = (s1, r1, dp, b) \<Longrightarrow> votes_le s s1"
  "transitionAcceptDomainLeader s r i l = (s1, r1, b) \<Longrightarrow> votes_le s s1"
  "transitionBecomeDomainLeader s r l = (s1, r1) \<Longrightarrow> votes_le s s1"
  "transitionObserveHigherGlobalTerm s r g t = (s1, r1, g1, b) \<Longrightarrow> votes_le s s1"
  "transitionGlobalVote s r g gq = (s1, r1, g1, gp, b, h) \<Longrightarrow> votes_le s s1"
  "transitionAcceptGlobalLeader s r g i gl = (s1, r1, g1, b) \<Longrightarrow> votes_le s s1"
  "transitionBecomeGlobalLeader s r g gl = (s1, r1, g1) \<Longrightarrow> votes_le s s1"
  "transitionRevokeGlobalLeadership s r g = (s1, r1, g1) \<Longrightarrow> votes_le s s1"
  by (auto simp: votes_le_def dest: Observe_domain DomainVote_cases AcceptDomain_cases BecomeDomain_cases
      Observe_global GlobalVote_cases AcceptGlobal_cases BecomeGlobal_cases Revoke_cases)

lemma campaigns_votes:
  "transitionStartDomainCampaign s r c = (s1, r1, t, l) \<Longrightarrow> ps_DomainTerm s \<noteq> max_u64 \<Longrightarrow> votes_le s s1"
  "transitionStartGlobalCampaign s r d = (s1, r1, t, l) \<Longrightarrow> ps_GlobalTerm s \<noteq> max_u64 \<Longrightarrow> votes_le s s1"
  by (auto simp: votes_le_def dest: StartDomain_cases StartGlobal_cases)

lemmas plain_defs = recordRejectionLocked_def resetDomainDeadlineLocked_def resetGlobalDeadlineLocked_def
  refreshDomainLeaseLocked_def refreshGlobalLeaseLocked_def Let_def

section \<open>Commit knowledge\<close>

lemma compact_quiet: "maybeCompactLocked n = Some n' \<Longrightarrow> quiet n n'"
  by (auto simp: maybeCompactLocked_def quiet_def Let_def split: if_splits
      dest: compact_same_votes [THEN same_votes_le])

lemma signal_quiet: "quiet n (signalCommittedWaiterLocked r n)"
  by (simp add: signalCommittedWaiterLocked_def quiet_def split: option.splits)

lemma commit_one_quiet: "quiet n (commit_one i e n)"
proof -
  have "quiet n (n\<lparr>rn_state := applyEntry (rn_state n) e\<rparr>)"
    by (simp add: quiet_def same_votes_le apply_same_votes)
  then show ?thesis by (auto simp: commit_one_def Let_def intro: quiet_trans [OF _ signal_quiet])
qed

lemma commit_all_quiet: "quiet n (fold (commit_one i) es n)"
  by (rule fold_rel [where R = quiet]) (auto intro: quiet_trans commit_one_quiet)

lemma advance_quiet: "advanceCommitLocked i t r n = Some (n', b) \<Longrightarrow> quiet n n'"
  by (auto simp: advanceCommitLocked_def Let_def split: if_splits option.splits
      intro: quiet_trans [OF commit_all_quiet] dest!: compact_quiet)

section \<open>The handlers\<close>

lemma RequestVote_le: "RequestVote env q n = (n', p) \<Longrightarrow> rpc_le n n'"
  by (auto simp: RequestVote_def plain_defs split: if_splits prod.splits option.splits
      elim!: persist_quiet simp: quiet_def dest: transitions_votes)

lemma Heartbeat_le: "Heartbeat env l n = (n', p) \<Longrightarrow> rpc_le n n'"
  by (auto simp: Heartbeat_def plain_defs split: if_splits prod.splits option.splits bool.splits
      elim!: persist_quiet simp: quiet_def dest: transitions_votes)
     (auto intro!: quiet_le simp: quiet_def dest: transitions_votes)

lemma PublishReady_le: "PublishReady env l n = (n', p) \<Longrightarrow> rpc_le n n'"
  by (auto simp: PublishReady_def plain_defs split: if_splits prod.splits option.splits bool.splits
      elim!: persist_quiet simp: quiet_def dest: transitions_votes)
     (auto intro!: quiet_le simp: quiet_def dest: transitions_votes)

lemma RequestVoteGlobal_le: "RequestVoteGlobalInternal env q n = (n', p) \<Longrightarrow> rpc_le n n'"
  by (auto simp: RequestVoteGlobalInternal_def plain_defs split: if_splits prod.splits option.splits
      elim!: persist_quiet simp: quiet_def dest: transitions_votes)
     (auto intro!: quiet_le simp: quiet_def dest: transitions_votes)

text \<open>The state of a node once it has accepted a heartbeat of the Global Leader, before it looks at the commit
  point in it.\<close>

definition contacted :: "env \<Rightarrow> PBGlobalHeartbeat \<Rightarrow> RPCNode \<Rightarrow> RPCNode" where
  "contacted env q n =
     (let leader = \<lparr>gli_DomainLeader = fromPBDomainIdentity (pgh_Leader q), gli_GlobalTerm = pgh_GlobalTerm q\<rparr> in
      case transitionAcceptGlobalLeader (rn_state n) (rn_globalRole n) (rn_stage n) (local_id n) leader of
        (s, r, g, _) \<Rightarrow>
          (resetGlobalDeadlineLocked env 0 (n\<lparr>rn_state := s, rn_globalRole := r, rn_stage := g, rn_globalLeader := leader\<rparr>))
          \<lparr>rn_lastGlobalContact := env_now env 1\<rparr>)"

lemma contacted_quiet: "quiet n (contacted env q n)"
  by (auto simp: contacted_def plain_defs quiet_def split: prod.splits dest: transitions_votes)

lemma HeartbeatGlobal_cases:
  assumes "HeartbeatGlobalInternal env q n = Some (n', p, b)"
  obtains (refused) "n' = n" "\<not> gvp_Granted p"
  | (accepted) n2 b' e where
      "advanceCommitLocked (pgh_CommitIndex q) (pgh_CommitTerm q) (pgh_CommitRequestId q) (contacted env q n) = Some (n2, b')"
      "rpc_persistLocked n2 = (n', e)"
      "gvp_Granted p \<longleftrightarrow> e = None \<and> is_domain n2 \<and> domainLeaseFreshLocked (env_now env 2) n2"
proof (cases "get_or no_dli (rn_domainLeaders n) (DomainID (fromPBDomainIdentity (pgh_Leader q))) \<noteq>
    fromPBDomainIdentity (pgh_Leader q) \<or> pgh_GlobalTerm q < ps_GlobalTerm (rn_state n)")
  case True
  then show thesis using assms by (intro refused) (auto simp: HeartbeatGlobalInternal_def Let_def)
next
  case False
  then have eq: "HeartbeatGlobalInternal env q n =
      (case advanceCommitLocked (pgh_CommitIndex q) (pgh_CommitTerm q) (pgh_CommitRequestId q) (contacted env q n) of
         None \<Rightarrow> None
       | Some (n2, _) \<Rightarrow>
           let isDomainLeader = is_domain n2;
               leaseConfirm = (isDomainLeader \<and> domainLeaseFreshLocked (env_now env 2) n2);
               selfIdentity = get_or no_dli (rn_domainLeaders n2) (local_domain n2)
           in case rpc_persistLocked n2 of
                (n3, Some e) \<Rightarrow> Some (n3, \<lparr>gvp_Voter = selfIdentity, gvp_GlobalTerm = pgh_GlobalTerm q, gvp_Granted = False\<rparr>, False)
              | (n3, None) \<Rightarrow> Some (n3, \<lparr>gvp_Voter = selfIdentity, gvp_GlobalTerm = pgh_GlobalTerm q,
                                        gvp_Granted = leaseConfirm\<rparr>, isDomainLeader))"
    by (simp add: HeartbeatGlobalInternal_def contacted_def Let_def split: prod.split)
  obtain n2 b' where adv: "advanceCommitLocked (pgh_CommitIndex q) (pgh_CommitTerm q) (pgh_CommitRequestId q)
      (contacted env q n) = Some (n2, b')"
    using assms unfolding eq by (auto split: option.splits)
  obtain n3 e where per: "rpc_persistLocked n2 = (n3, e)" by (cases "rpc_persistLocked n2")
  have "n3 = n'" "gvp_Granted p \<longleftrightarrow> e = None \<and> is_domain n2 \<and> domainLeaseFreshLocked (env_now env 2) n2"
    using assms unfolding eq by (auto simp: adv per Let_def split: option.splits)
  then show thesis using accepted adv per by blast
qed

lemma HeartbeatGlobal_le: "HeartbeatGlobalInternal env q n = Some (n', p, b) \<Longrightarrow> rpc_le n n'"
  by (erule HeartbeatGlobal_cases)
     (auto elim!: persist_quiet intro: quiet_trans [OF contacted_quiet] advance_quiet)

text \<open>The ways the first section of \<open>Replicate\<close> ends.\<close>

definition replicate_guard :: "PBReplicateEntry \<Rightarrow> RPCNode \<Rightarrow> bool" where
  "replicate_guard q n \<longleftrightarrow>
     (let s = rn_state n; sender = pre_SenderNodeId q in
      (ps_GlobalTerm s \<le> pre_GlobalTerm q \<or>
         sender \<noteq> [] \<and> dli_Valid (ps_DomainLeader s) \<and> sender = NodeID (ps_DomainLeader s)) \<and>
      (pre_GlobalTerm q = ps_GlobalTerm s \<longrightarrow> replicationSenderTrustedLocked sender n) \<and>
      (pre_FanoutToDomain q \<longrightarrow> is_domain n))"

lemma replicate_begin_cases:
  assumes "replicate_begin q n = Some (n', r)"
  obtains (refused) "\<not> replicate_guard q n" "\<exists>e. r = Answered (Inl e)"
      "n' = n \<or> (\<exists>reason. n' = recordRejectionLocked reason n)"
  | (conflict) s e reason where
      "appendEntryChecked (rn_state n) (entry_of q) (pre_PrevLogIndex q) (pre_PrevLogTerm q) = Some (s, appendCommittedConflict)"
      "r = Answered (Inl e)" "n' = recordRejectionLocked reason (n\<lparr>rn_state := s\<rparr>)"
  | (deferred) s pf where "replicate_guard q n" "pre_FanoutToDomain q"
      "appendEntryChecked (rn_state n) (entry_of q) (pre_PrevLogIndex q) (pre_PrevLogTerm q) = Some (s, appendAccepted)"
      "n' = n\<lparr>rn_state := s, rn_pendingFast := pf\<rparr>" "r = FanOut" "rn_pendingFast n = fmempty \<longrightarrow> pf = fmempty"
  | (saved) s out pf e where "replicate_guard q n" "\<not> (pre_FanoutToDomain q \<and> out = appendAccepted)"
      "appendEntryChecked (rn_state n) (entry_of q) (pre_PrevLogIndex q) (pre_PrevLogTerm q) = Some (s, out)"
      "rpc_persistLocked (n\<lparr>rn_state := s, rn_pendingFast := pf\<rparr>) = (n', e)"
      "r = Answered (if e = None then Inr (mk_ack n' (entry_of q) (out = appendAccepted))
                     else Inl (Unavailable ''replicate persistence failed''))"
proof (cases "replicate_guard q n")
  case False
  then show thesis using assms
    by (intro refused [OF False])
       (auto simp: replicate_guard_def replicate_begin_def Let_def not_less split: if_splits)
next
  case True
  obtain s out where app: "appendEntryChecked (rn_state n) (entry_of q) (pre_PrevLogIndex q) (pre_PrevLogTerm q) = Some (s, out)"
    using assms True
    by (cases "appendEntryChecked (rn_state n) (entry_of q) (pre_PrevLogIndex q) (pre_PrevLogTerm q)")
       (auto simp: replicate_guard_def replicate_begin_def Let_def not_less split: if_splits)
  have g: "\<not> (pre_GlobalTerm q < ps_GlobalTerm (rn_state n) \<and> \<not> (pre_SenderNodeId q \<noteq> [] \<and>
        dli_Valid (ps_DomainLeader (rn_state n)) \<and> pre_SenderNodeId q = NodeID (ps_DomainLeader (rn_state n))))"
      "\<not> (pre_GlobalTerm q = ps_GlobalTerm (rn_state n) \<and> \<not> replicationSenderTrustedLocked (pre_SenderNodeId q) n)"
      "\<not> (pre_FanoutToDomain q \<and> \<not> is_domain n)"
    using True by (auto simp: replicate_guard_def Let_def)
  define pf where "pf = (if out = appendAccepted \<and>
      (case findEntryByIndex (ps_Log (rn_state n)) (GlobalIndex (entry_of q)) of None \<Rightarrow> False
       | Some existing \<Rightarrow> GlobalTerm existing \<noteq> GlobalTerm (entry_of q) \<or> RequestID existing \<noteq> RequestID (entry_of q))
      then fmfilter (\<lambda>idx. \<not> idx \<ge> GlobalIndex (entry_of q)) (rn_pendingFast n) else rn_pendingFast n)"
  have empty: "rn_pendingFast n = fmempty \<longrightarrow> pf = fmempty" by (auto simp: pf_def intro: fmap_ext)
  let ?n1 = "n\<lparr>rn_state := s, rn_pendingFast := pf\<rparr>"
  obtain n2 e where per: "rpc_persistLocked ?n1 = (n2, e)" by (cases "rpc_persistLocked ?n1")
  have eq: "replicate_begin q n =
     (if out = appendCommittedConflict
      then Some (recordRejectionLocked ''replicate_committed_conflict'' (n\<lparr>rn_state := s\<rparr>),
                 Answered (Inl (ConflictsWithCommitted (GlobalIndex (entry_of q)))))
      else if pre_FanoutToDomain q \<and> out = appendAccepted then Some (?n1, FanOut)
      else Some (n2, Answered (if e = None then Inr (mk_ack n2 (entry_of q) (out = appendAccepted))
                               else Inl (Unavailable ''replicate persistence failed''))))"
    using per unfolding replicate_begin_def Let_def if_not_P [OF g(1)] if_not_P [OF g(2)] if_not_P [OF g(3)] app
    by (cases out; cases e) (simp_all add: pf_def)
  consider "out = appendCommittedConflict" | "pre_FanoutToDomain q" "out = appendAccepted"
    | "out \<noteq> appendCommittedConflict" "\<not> (pre_FanoutToDomain q \<and> out = appendAccepted)" by blast
  then show thesis
  proof cases
    case 1
    then show thesis using assms app unfolding eq by (intro conflict) auto
  next
    case 2
    then show thesis using assms app True empty unfolding eq by (intro deferred) auto
  next
    case 3
    then have "n2 = n'" "r = Answered (if e = None then Inr (mk_ack n2 (entry_of q) (out = appendAccepted))
        else Inl (Unavailable ''replicate persistence failed''))"
      using assms unfolding eq by auto
    then show thesis using 3 app per True by (intro saved) auto
  qed
qed

lemma replicate_begin_le: "replicate_begin q n = Some (n', r) \<Longrightarrow> rpc_le n n'"
  by (erule replicate_begin_cases)
     (auto elim!: persist_quiet simp: quiet_def plain_defs dest: append_same_votes [THEN same_votes_le],
      (auto intro!: quiet_le simp: quiet_def dest: append_same_votes [THEN same_votes_le])+)

lemma raise_mark_quiet: "quiet n (raise_mark d i n)"
  by (simp add: raise_mark_def quiet_def Let_def same_votes_le same_votes_def)

lemma replicate_finish_le: "replicate_finish e acks n = Some (n', r, f) \<Longrightarrow> rpc_le n n'"
  by (auto simp: replicate_finish_def Let_def split: if_splits prod.splits option.splits
      elim!: persist_quiet intro: quiet_trans [OF raise_mark_quiet] advance_quiet raise_mark_quiet)

lemma announce_le: "AnnounceGlobalDomainQuorum q n = Some (n', a, f) \<Longrightarrow> rpc_le n n'"
  by (rule quiet_le)
     (auto simp: AnnounceGlobalDomainQuorum_def Let_def recordRejectionLocked_def quiet_def
       split: if_splits option.splits dest!: advance_quiet)

lemma deliver_begin_le: "deliver_begin p n = (n', c) \<Longrightarrow> rpc_le n n'"
  by (auto simp: deliver_begin_def rpc_le_def keeps_sent_def stored_def split: if_splits)

lemma deliver_finish_le: "rpc_le n (deliver_finish p ok n)"
  by (rule quiet_le) (simp add: deliver_finish_def quiet_def Let_def)

lemma Commit_le:
  assumes "rpc_Commit q n = Some (n', r, f)"
  shows "rpc_le n n'"
proof (cases "advanceCommitLocked (cn_CommitIndex q) (cn_CommitTerm q) (cn_CommitRequestId q) n")
  case None
  then show ?thesis using assms
    by (auto simp: rpc_Commit_def plain_defs quiet_def intro!: quiet_le split: if_splits)
next
  case (Some a)
  then obtain n1 b where adv: "advanceCommitLocked (cn_CommitIndex q) (cn_CommitTerm q) (cn_CommitRequestId q) n = Some (n1, b)"
    by (cases a) auto
  obtain n2 e where per: "rpc_persistLocked n1 = (n2, e)" by (cases "rpc_persistLocked n1")
  have "n' = n2 \<or> (\<exists>reason. n' = recordRejectionLocked reason n \<or> n' = recordRejectionLocked reason n1 \<or>
      n' = recordRejectionLocked reason n2)"
    using assms by (cases b; cases e) (auto simp: rpc_Commit_def Let_def adv per split: if_splits)
  moreover have "rpc_le n (recordRejectionLocked reason n)" "rpc_le n (recordRejectionLocked reason n1)"
    "rpc_le n (recordRejectionLocked reason n2)" "rpc_le n n2" for reason
    using quiet_le [OF advance_quiet [OF adv]] quiet_persist [OF advance_quiet [OF adv] per]
    by (simp_all add: reject_le)
  ultimately show ?thesis by auto
qed

lemma snapshot_begin_le: "snapshot_begin q n = (n', r) \<Longrightarrow> rpc_le n n'"
  by (auto simp: snapshot_begin_def plain_defs split: if_splits prod.splits option.splits
      elim!: persist_quiet simp: quiet_def dest: install_same_votes [THEN same_votes_le])
     (auto intro!: quiet_le simp: quiet_def)

lemma snapshot_finish_le: "snapshot_finish q n1 acks n = (n', r) \<Longrightarrow> rpc_le n n'"
  by (auto simp: snapshot_finish_def Let_def split: if_splits prod.splits option.splits
      elim!: persist_quiet intro: raise_mark_quiet)

section \<open>Elections and loops\<close>

lemma campaign_domain_begin_le:
  "campaign_domain_begin n = (n', r) \<Longrightarrow> ps_DomainTerm (rn_state n) \<noteq> max_u64 \<Longrightarrow> rpc_le n n'"
  by (auto simp: campaign_domain_begin_def split: if_splits prod.splits option.splits
      elim!: persist_quiet simp: quiet_def dest: campaigns_votes)

lemma campaign_global_begin_le:
  "campaign_global_begin env n = (n', r) \<Longrightarrow> ps_GlobalTerm (rn_state n) \<noteq> max_u64 \<Longrightarrow> rpc_le n n'"
  by (auto simp: campaign_global_begin_def plain_defs split: if_splits prod.splits option.splits
      elim!: persist_quiet simp: quiet_def dest: campaigns_votes)
     (auto intro!: quiet_le simp: quiet_def)

lemma campaign_finish_le:
  "campaign_domain_finish env t v n = (n', r) \<Longrightarrow> rpc_le n n'"
  "campaign_global_finish env d t v n = (n', e) \<Longrightarrow> rpc_le n n'"
  by (auto simp: campaign_domain_finish_def campaign_global_finish_def plain_defs split: if_splits prod.splits
      intro!: quiet_persist_fst simp: quiet_def dest: transitions_votes)

lemma campaign_end_le: "rpc_le n (campaign_domain_end env n)" "rpc_le n (campaign_global_end env n)"
  by (auto intro!: quiet_le simp: campaign_domain_end_def campaign_global_end_def plain_defs quiet_def)

lemma revoke_quiet: "quiet n (revoke_global n)"
  by (auto simp: revoke_global_def quiet_def split: prod.splits dest: transitions_votes)

lemma stepdown_quiet:
  "quiet n (fst (maybeStepDownGlobalOnExpiredDomainLeaseLocked env now n))"
  "quiet n (fst (maybeStepDownExpiredGlobalLeaseLocked env now n))"
  using revoke_quiet [of n]
  by (auto simp: maybeStepDownGlobalOnExpiredDomainLeaseLocked_def maybeStepDownExpiredGlobalLeaseLocked_def
      plain_defs quiet_def)

lemma tick_le:
  assumes "failure_detector_tick env now n = (n', d, g)"
  shows "rpc_le n n'"
proof (cases "rn_stopped n")
  case True
  then show ?thesis using assms by (simp add: failure_detector_tick_def)
next
  case False
  define n2 where "n2 = fst (maybeStepDownExpiredGlobalLeaseLocked env now
      (fst (maybeStepDownGlobalOnExpiredDomainLeaseLocked env now n)))"
  have q2: "quiet n n2" unfolding n2_def using stepdown_quiet by (rule quiet_trans)
  define n3 where "n3 = (if rn_domainRole n2 \<noteq> Leader \<and> \<not> rn_domainCampaigning n2 \<and> now > rn_domainDeadline n2
      then resetDomainDeadlineLocked env 2 (n2\<lparr>rn_domainLeaders := fmdrop (local_domain n2) (rn_domainLeaders n2),
             rn_state := (rn_state n2)\<lparr>ps_DomainLeader := no_dli\<rparr>, rn_stage := DomainElecting\<rparr>) else n2)"
  define n4 where "n4 = (if needsGlobalElectionLocked now n2
      then resetGlobalDeadlineLocked env 3 (n3\<lparr>rn_globalLeader := no_gli,
             rn_state := (rn_state n3)\<lparr>ps_GlobalLeader := no_gli\<rparr>, rn_stage := GlobalElecting\<rparr>) else n3)"
  have "quiet n2 n3" "quiet n3 n4"
    by (simp_all add: n3_def n4_def quiet_def plain_defs same_votes_le same_votes_def)
  then have "quiet n n4" using q2 by (meson quiet_trans)
  moreover have "fst (failure_detector_tick env now n) = fst (rpc_persistLocked n4)"
    unfolding failure_detector_tick_def Let_def n4_def n3_def n2_def if_not_P [OF False] fst_conv ..
  ultimately show ?thesis using quiet_persist_fst assms by simp
qed

lemma observe_le: "rpc_le n (observeHigherGlobalTerm t n)" "rpc_le n (observeHigherDomainTerm env t n)"
proof -
  show "rpc_le n (observeHigherGlobalTerm t n)"
    by (auto simp: observeHigherGlobalTerm_def split: prod.splits bool.splits
        intro!: quiet_persist_fst simp: quiet_def dest: transitions_votes)
next
  obtain s r b where t: "transitionObserveHigherDomainTerm (rn_state n) (rn_domainRole n) t = (s, r, b)"
    by (metis prod_cases3)
  define n1 where "n1 = n\<lparr>rn_state := s, rn_domainRole := r\<rparr>"
  define n2 where "n2 = (if is_domain n then n1\<lparr>rn_domainLeaders := fmdrop (local_domain n) (rn_domainLeaders n1)\<rparr> else n1)"
  define n3 where "n3 = (if is_global n then revoke_global n2 else n2)"
  define n4 where "n4 = (if is_domain n then resetDomainDeadlineLocked env 0 (n3\<lparr>rn_stage := DomainElecting\<rparr>) else n3)"
  have "quiet n n1" using transitions_votes(1) [OF t] by (simp add: n1_def quiet_def)
  moreover have "quiet n1 n2" by (simp add: n2_def quiet_def)
  moreover have "quiet n2 n3" using revoke_quiet by (simp add: n3_def)
  moreover have "quiet n3 n4" by (simp add: n4_def quiet_def plain_defs)
  ultimately have "quiet n n4" by (meson quiet_trans)
  then have "rpc_le n (fst (rpc_persistLocked n4))" by (rule quiet_persist_fst)
  moreover have "observeHigherDomainTerm env t n = (if b then fst (rpc_persistLocked n4) else n)"
    unfolding observeHigherDomainTerm_def Let_def t n4_def n3_def n2_def n1_def prod.case by (cases b) simp_all
  ultimately show "rpc_le n (observeHigherDomainTerm env t n)" by simp
qed

lemma round_le: "rpc_le n (domain_round_finish at acks n)" "rpc_le n (global_round_finish at t acks n)"
  by (auto intro!: quiet_le simp: domain_round_finish_def global_round_finish_def plain_defs quiet_def)

section \<open>Clients, healing and migration\<close>

lemma write_begin_le: "write_begin env q n = (n', r) \<Longrightarrow> rpc_le n n'"
  by (rule quiet_le)
     (auto simp: write_begin_def join_commit_def quiet_def plain_defs same_votes_le same_votes_def
       split: if_splits option.splits)

lemma write_result_le: "write_result q n = (n', r) \<Longrightarrow> rpc_le n n'"
  by (rule quiet_le) (auto simp: write_result_def quiet_def Let_def split: if_splits option.splits)

lemma plan_le: "planReturnPath now d origin global route n = (n', plan) \<Longrightarrow> rpc_le n n'"
  by (rule quiet_le) (auto simp: planReturnPath_def quiet_def Let_def split: if_splits DomainKind.splits)

lemma read_le: "rpc_Read env d k n = (n', r) \<Longrightarrow> rpc_le n n'"
  by (rule quiet_le) (auto simp: rpc_Read_def quiet_def plain_defs split: if_splits)

lemma commit_end_le: "rpc_le n (commit_end e (n, p))"
proof -
  have f: "rn_local (signalCommittedWaiterLocked r m) = rn_local m" "rn_fastSent (signalCommittedWaiterLocked r m) = rn_fastSent m"
    "rn_store (signalCommittedWaiterLocked r m) = rn_store m" "rn_state (signalCommittedWaiterLocked r m) = rn_state m" for r m
    by (simp_all add: signalCommittedWaiterLocked_def split: option.splits)
  have "rpc_le n (if cp_committed p then n else fst (rpc_persistLocked n))" by (simp add: quiet_persist_fst)
  then show ?thesis by (rule rpc_le_frame) (simp_all add: commit_end_def Let_def f)
qed

lemma reconfirm_le: "rpc_le n (reconfirm_finish e acks n)"
  by (auto simp: reconfirm_finish_def Let_def quiet_def same_votes_le same_votes_def intro!: quiet_persist_fst)

lemma marks_quiet: "quiet n (n\<lparr>rn_state := (rn_state n)\<lparr>ps_DomainQuorumIndex := m\<rparr>\<rparr>)"
  by (simp add: quiet_def same_votes_le same_votes_def)

lemma recover_le: "recover_finish env known n = Some (n', c) \<Longrightarrow> rpc_le n n'"
  by (auto simp: recover_finish_def Let_def split: if_splits option.splits prod.splits bool.splits
      elim!: persist_quiet
      intro: quiet_persist_fst quiet_le marks_quiet quiet_trans [OF marks_quiet] advance_quiet)

lemma telemetry_le:
  "rpc_le n (ingestTelemetryReport now rep rtts ok n)"
  "ingestFloatingLatencyReport env d t rs n = (n', e) \<Longrightarrow> rpc_le n n'"
  by (auto intro!: quiet_le simp: ingestTelemetryReport_def ingestFloatingLatencyReport_def markDomainSeen_def
      quiet_def Let_def split: if_splits prod.splits)

lemma migration_le:
  "migration_begin d n = (n', r) \<Longrightarrow> rpc_le n n'"
  "rpc_le n (migration_finish n)"
  "rpc_le n (revokeGlobalLeadershipForHandoffLocked env n)"
  "rpc_le n (fst (rpc_persistLocked (adoptHandedOffLeaderLocked env l t (n\<lparr>rn_migrationsCount := c\<rparr>))))"
proof -
  show "rpc_le n n'" if "migration_begin d n = (n', r)"
    using that by (auto intro!: quiet_le simp: migration_begin_def quiet_def Let_def split: if_splits)
  show "rpc_le n (migration_finish n)" by (simp add: quiet_le migration_finish_def quiet_def)
  show "rpc_le n (revokeGlobalLeadershipForHandoffLocked env n)"
    using revoke_quiet [of n]
    by (auto simp: revokeGlobalLeadershipForHandoffLocked_def plain_defs quiet_def intro!: quiet_persist_fst)
  show "rpc_le n (fst (rpc_persistLocked (adoptHandedOffLeaderLocked env l t (n\<lparr>rn_migrationsCount := c\<rparr>))))"
    by (auto simp: adoptHandedOffLeaderLocked_def plain_defs quiet_def votes_le_def dvote_le_def gvote_le_def
        intro!: quiet_persist_fst)
qed

end
