(* ===== verification/Rpc_Votes.thy ===== *)
theory Rpc_Votes
  imports Rpc_Steps
begin

text \<open>
  The life of one production node: sections in any order, a disk that fails and recovers, restarts from the
  store.  A ballot that left the node is never contradicted by a later one of the same term.
\<close>

section \<open>The life of a node\<close>

inductive rpc_step :: "RPCNode \<Rightarrow> RPCNode \<Rightarrow> bool" where
  vote: "RequestVote env dq n = (n', dp) \<Longrightarrow> rpc_step n n'"
| heartbeat: "Heartbeat env dl n = (n', dp) \<Longrightarrow> rpc_step n n'"
| ready: "PublishReady env dl n = (n', er) \<Longrightarrow> rpc_step n n'"
| vote_global: "RequestVoteGlobalInternal env gq n = (n', gp) \<Longrightarrow> rpc_step n n'"
| heartbeat_global: "HeartbeatGlobalInternal env gh n = Some (n', gp, b) \<Longrightarrow> rpc_step n n'"
| replicate_first: "replicate_begin rq n = Some (n', re) \<Longrightarrow> rpc_step n n'"
| replicate_last: "replicate_finish e acks n = Some (n', ra, f) \<Longrightarrow> rpc_step n n'"
| announce: "AnnounceGlobalDomainQuorum aq n = Some (n', a, f) \<Longrightarrow> rpc_step n n'"
| deliver_first: "deliver_begin pf n = (n', c) \<Longrightarrow> rpc_step n n'"
| deliver_last: "rpc_step n (deliver_finish pf b n)"
| commit: "rpc_Commit cq n = Some (n', ra, b) \<Longrightarrow> rpc_step n n'"
| snapshot_first: "snapshot_begin sq n = (n', se) \<Longrightarrow> rpc_step n n'"
| snapshot_last: "snapshot_finish sq n0 acks n = (n', sr) \<Longrightarrow> rpc_step n n'"
| domain_campaign: "campaign_domain_begin n = (n', dc) \<Longrightarrow> ps_DomainTerm (rn_state n) \<noteq> max_u64 \<Longrightarrow> rpc_step n n'"
| domain_won: "campaign_domain_finish env t acks n = (n', dr) \<Longrightarrow> rpc_step n n'"
| domain_campaign_end: "rpc_step n (campaign_domain_end env n)"
| published: "rpc_step n (publishDomainReady n)"
| global_campaign: "campaign_global_begin env n = (n', gc) \<Longrightarrow> ps_GlobalTerm (rn_state n) \<noteq> max_u64 \<Longrightarrow> rpc_step n n'"
| global_won: "campaign_global_finish env i t acks n = (n', ge) \<Longrightarrow> rpc_step n n'"
| global_campaign_end: "rpc_step n (campaign_global_end env n)"
| tick: "failure_detector_tick env now n = (n', b, b') \<Longrightarrow> rpc_step n n'"
| higher_global: "rpc_step n (observeHigherGlobalTerm t n)"
| higher_domain: "rpc_step n (observeHigherDomainTerm env t n)"
| domain_round: "rpc_step n (domain_round_finish now acks n)"
| global_round: "rpc_step n (global_round_finish now t acks n)"
| write_first: "write_begin env wq n = (n', ws) \<Longrightarrow> rpc_step n n'"
| write_last: "write_result wq n = (n', wr) \<Longrightarrow> rpc_step n n'"
| plan: "planReturnPath now delays origin global route n = (n', rp) \<Longrightarrow> rpc_step n n'"
| mark: "rpc_step n (raise_mark d t n)"
| signal: "rpc_step n (signalCommittedWaiterLocked d n)"
| commit_done: "rpc_step n (commit_end e (n, cp))"
| read: "rpc_Read env origin key n = (n', rs) \<Longrightarrow> rpc_step n n'"
| reconfirm: "rpc_step n (reconfirm_finish e acks n)"
| recover: "recover_finish env known n = Some (n', rc) \<Longrightarrow> rpc_step n n'"
| report: "rpc_step n (ingestTelemetryReport now dl rtts b n)"
| floating_report: "ingestFloatingLatencyReport env origin t frs n = (n', fe) \<Longrightarrow> rpc_step n n'"
| migrate: "migration_begin d n = (n', mr) \<Longrightarrow> rpc_step n n'"
| migrate_revoke: "rpc_step n (revokeGlobalLeadershipForHandoffLocked env n)"
| migrate_adopt: "rpc_step n (fst (rpc_persistLocked (adoptHandedOffLeaderLocked env i t (n\<lparr>rn_migrationsCount := t'\<rparr>))))"
| migrate_failed: "rpc_step n (n\<lparr>rn_globalDeadline := now\<rparr>)"
| migrate_done: "rpc_step n (migration_finish n)"
| start: "rpc_Start env b b' n = (n', le) \<Longrightarrow> rpc_step n n'"
| stop: "rpc_step n (rpc_Stop n)"
| run: "rpc_Run n = Some n' \<Longrightarrow> rpc_step n n'"

lemma rpc_step_le: "rpc_step n n' \<Longrightarrow> rpc_le n n'"
proof (induction rule: rpc_step.induct)
  case published
  show ?case by (simp add: publishDomainReady_def quiet_le quiet_def)
next
  case migrate_failed
  show ?case by (simp add: quiet_le quiet_def)
next
  case start
  then show ?case by (auto simp: rpc_Start_def plain_defs quiet_def intro!: quiet_le split: if_splits)
next
  case stop
  show ?case by (simp add: rpc_Stop_def quiet_le quiet_def)
next
  case run
  then show ?case
    by (auto simp: rpc_Run_def SetDomainLeaseEnabled_def SetGlobalLeaseEnabled_def Let_def quiet_def
        intro!: quiet_le split: option.splits)
qed (rule RequestVote_le Heartbeat_le PublishReady_le RequestVoteGlobal_le HeartbeatGlobal_le replicate_begin_le
      replicate_finish_le announce_le deliver_begin_le deliver_finish_le Commit_le snapshot_begin_le
      snapshot_finish_le campaign_domain_begin_le campaign_global_begin_le campaign_finish_le campaign_end_le
      tick_le observe_le round_le write_begin_le write_result_le plan_le read_le commit_end_le reconfirm_le recover_le
      telemetry_le migration_le quiet_le [OF raise_mark_quiet] quiet_le [OF signal_quiet]; assumption)+

inductive node_life :: "RPCNode \<Rightarrow> RPCNode \<Rightarrow> bool" where
  "section": "rpc_step n n' \<Longrightarrow> node_life n n'"
| disk: "node_life n (n\<lparr>rn_store := set_faults f (rn_store n)\<rparr>)"
| restart: "NewRPCNode config (local_id n) (Some (rn_store n)) = Inr n' \<Longrightarrow> node_life n n'"

section \<open>What a node never forgets\<close>

text \<open>A fact about the persistent state that survives every step that keeps terms and votes, and the copy
  through JSON, survives the whole life of a node once it holds in memory and on disk.\<close>

definition remembers :: "(PersistentState \<Rightarrow> bool) \<Rightarrow> RPCNode \<Rightarrow> bool" where
  "remembers P n \<longleftrightarrow> P (rn_state n) \<and> (\<forall>s. stored n = Inr s \<longrightarrow> P s)"

locale memory =
  fixes P :: "PersistentState \<Rightarrow> bool"
  assumes grows: "P s \<Longrightarrow> votes_le s s' \<Longrightarrow> P s'"
    and copied: "P s \<Longrightarrow> P (coerce_state s)"
begin

lemma step_remembers: "remembers P n \<Longrightarrow> rpc_le n n' \<Longrightarrow> remembers P n'"
  using grows [of "rn_state n" "rn_state n'"] copied [of "rn_state n'"]
  by (auto simp: remembers_def rpc_le_def durable_def)

lemma restart_remembers:
  assumes "remembers P n" "NewRPCNode config i (Some (rn_store n)) = Inr n'"
  shows "remembers P n'"
proof -
  have "store_Load (rn_store n) = Inr (rn_state n')" "rn_store n' = rn_store n"
    using assms(2) by (auto simp: NewRPCNode_def fresh_node_def Let_def split: option.splits sum.splits)
  then show ?thesis using assms(1) load_is_stored by (auto simp: remembers_def stored_def)
qed

lemma life_remembers: "node_life n n' \<Longrightarrow> remembers P n \<Longrightarrow> remembers P n'"
proof (induction rule: node_life.induct)
  case (disk n f)
  then show ?case by (simp add: remembers_def stored_def)
qed (auto intro: step_remembers restart_remembers dest: rpc_step_le)

lemma run_remembers: "node_life\<^sup>*\<^sup>* n n' \<Longrightarrow> remembers P n \<Longrightarrow> remembers P n'"
  by (induction rule: rtranclp_induct) (auto intro: life_remembers)

lemma durable_remembers: "durable n \<Longrightarrow> P (rn_state n) \<Longrightarrow> remembers P n"
  by (simp add: remembers_def durable_def copied)

end

definition domain_voted :: "u64 \<Rightarrow> string \<Rightarrow> PersistentState \<Rightarrow> bool" where
  "domain_voted t c s \<longleftrightarrow> (c \<noteq> [] \<and> valid_utf8 c \<longrightarrow>
     t < ps_DomainTerm s \<or> ps_DomainTerm s = t \<and> ps_DomainVotedFor s = c)"

definition global_voted :: "u64 \<Rightarrow> DomainLeaderIdentity \<Rightarrow> PersistentState \<Rightarrow> bool" where
  "global_voted t c s \<longleftrightarrow> (dli_Valid c \<and> valid_dli c \<longrightarrow>
     t < ps_GlobalTerm s \<or> ps_GlobalTerm s = t \<and> ps_GlobalVotedFor s = c)"

interpretation domain_memory: memory "domain_voted t c" for t c
proof
  fix s s'
  assume a: "domain_voted t c s"
  show "domain_voted t c s'" if "votes_le s s'"
    using a that
    by (cases "ps_DomainTerm s' = ps_DomainTerm s") (auto simp: domain_voted_def votes_le_def dvote_le_def)
  show "domain_voted t c (coerce_state s)" using a by (auto simp: domain_voted_def)
qed

interpretation global_memory: memory "global_voted t c" for t c
proof
  fix s s'
  assume a: "global_voted t c s"
  show "global_voted t c s'" if "votes_le s s'"
    using a that
    by (cases "ps_GlobalTerm s' = ps_GlobalTerm s") (auto simp: global_voted_def votes_le_def gvote_le_def)
  show "global_voted t c (coerce_state s)" using a by (auto simp: global_voted_def)
qed

section \<open>Ballots\<close>

text \<open>A ballot leaves the node when a vote request is answered with a grant or when a campaign for itself is
  started.\<close>

definition domain_ballot :: "RPCNode \<Rightarrow> RPCNode \<Rightarrow> u64 \<Rightarrow> string \<Rightarrow> bool" where
  "domain_ballot n n' t c \<longleftrightarrow>
     (\<exists>env q p. RequestVote env q n = (n', p) \<and> dvp_Granted p \<and> pdv_DomainTerm q = t \<and> pdv_CandidateId q = c) \<or>
     (\<exists>l. campaign_domain_begin n = (n', Inr (t, l)) \<and> ps_DomainTerm (rn_state n) \<noteq> max_u64 \<and> local_id n = c)"

definition global_ballot :: "RPCNode \<Rightarrow> RPCNode \<Rightarrow> u64 \<Rightarrow> DomainLeaderIdentity \<Rightarrow> bool" where
  "global_ballot n n' t c \<longleftrightarrow>
     (\<exists>env q p. RequestVoteGlobalInternal env q n = (n', p) \<and> gvp_Granted p \<and> pgv_GlobalTerm q = t \<and>
        fromPBDomainIdentity (pgv_Candidate q) = c) \<or>
     (\<exists>env l. campaign_global_begin env n = (n', Inr (c, t, l)) \<and> ps_GlobalTerm (rn_state n) \<noteq> max_u64)"

lemma RequestVote_granted:
  assumes "RequestVote env q n = (n', p)" "dvp_Granted p"
  obtains req s r n2 where "transitionDomainVote (rn_state n) (rn_domainRole n) req = (s, r, p, True)"
    "dvr_Candidate req = pdv_CandidateId q" "dvr_DomainTerm req = pdv_DomainTerm q"
    "rpc_persistLocked n2 = (n', None)" "rn_state n2 = s"
proof -
  let ?req = "\<lparr>dvr_DomainID = pdv_DomainId q, dvr_Candidate = pdv_CandidateId q,
                   dvr_DomainTerm = pdv_DomainTerm q, dvr_Log = fromPBLogSummary (pdv_Log q)\<rparr>"
  have g: "\<not> (pdv_DomainId q \<noteq> local_domain n \<or> rn_stage n = Booting)"
    using assms by (auto simp: RequestVote_def split: if_splits)
  obtain s r resp b where t: "transitionDomainVote (rn_state n) (rn_domainRole n) ?req = (s, r, resp, b)"
    by (metis prod_cases4)
  define n2 where "n2 = (if b then resetDomainDeadlineLocked env 0 (n\<lparr>rn_state := s, rn_domainRole := r\<rparr>)
      else n\<lparr>rn_state := s, rn_domainRole := r\<rparr>)"
  obtain n3 e where per: "rpc_persistLocked n2 = (n3, e)" by (cases "rpc_persistLocked n2")
  have "e = None \<and> n3 = n' \<and> resp = p"
    using assms per unfolding RequestVote_def if_not_P [OF g] t Let_def prod.case n2_def [symmetric]
    by (auto split: option.splits)
  moreover from this have b using DomainVote_cases(4) [OF t] assms(2) by simp
  ultimately show thesis using that [of ?req s r n2] t per by (simp add: n2_def plain_defs)
qed

lemma domain_ballot_cast:
  assumes "domain_ballot n n' t c"
  shows "durable n'" "ps_DomainTerm (rn_state n') = t" "ps_DomainVotedFor (rn_state n') = c"
    "ps_DomainTerm (rn_state n) \<le> t"
    "ps_DomainTerm (rn_state n) = t \<Longrightarrow> ps_DomainVotedFor (rn_state n) = [] \<or> ps_DomainVotedFor (rn_state n) = c"
proof -
  consider env q p where "RequestVote env q n = (n', p)" "dvp_Granted p" "pdv_DomainTerm q = t" "pdv_CandidateId q = c"
    | l where "campaign_domain_begin n = (n', Inr (t, l))" "ps_DomainTerm (rn_state n) \<noteq> max_u64" "local_id n = c"
    using assms unfolding domain_ballot_def by blast
  then have "durable n' \<and> ps_DomainTerm (rn_state n') = t \<and> ps_DomainVotedFor (rn_state n') = c \<and>
    ps_DomainTerm (rn_state n) \<le> t \<and>
    (ps_DomainTerm (rn_state n) = t \<longrightarrow> ps_DomainVotedFor (rn_state n) = [] \<or> ps_DomainVotedFor (rn_state n) = c)"
  proof cases
    case 1
    then obtain req s r n2 where t: "transitionDomainVote (rn_state n) (rn_domainRole n) req = (s, r, p, True)"
      and q: "dvr_Candidate req = c" "dvr_DomainTerm req = t"
      and per: "rpc_persistLocked n2 = (n', None)" "rn_state n2 = s"
      using RequestVote_granted by blast
    then show ?thesis
      using DomainVote_cases(1,3) [OF t] persist_ok [OF per(1)] rpc_persist_frame(3) [OF per(1)]
      by (auto simp: dvote_le_def)
  next
    case 2
    obtain s r t' l' where t: "transitionStartDomainCampaign (rn_state n) (rn_domainRole n) (local_id n) = (s, r, t', l')"
      by (metis prod_cases4)
    obtain n2 where per: "rpc_persistLocked n2 = (n', None)" "rn_state n2 = s" and "t' = t"
      using 2(1) t by (auto simp: campaign_domain_begin_def split: if_splits prod.splits option.splits)
    then show ?thesis
      using StartDomain_cases [OF t 2(2)] persist_ok [OF per(1)] rpc_persist_frame(3) [OF per(1)] 2(3) by auto
  qed
  then show "durable n'" "ps_DomainTerm (rn_state n') = t" "ps_DomainVotedFor (rn_state n') = c"
    "ps_DomainTerm (rn_state n) \<le> t"
    "ps_DomainTerm (rn_state n) = t \<Longrightarrow> ps_DomainVotedFor (rn_state n) = [] \<or> ps_DomainVotedFor (rn_state n) = c"
    by auto
qed

text \<open>A node casts one domain ballot per term.  Let a ballot for a candidate leave the node in a domain term (a
  granted vote, or its own candidacy).  Whatever the node does afterwards, in any order of its critical sections,
  with a disk that fails and recovers and with restarts from its store, every later ballot of that term is for
  the same candidate.\<close>

theorem rpc_domain_ballot_once:
  assumes "domain_ballot n n1 t c" "c \<noteq> []" "valid_utf8 c"
    and "node_life\<^sup>*\<^sup>* n1 n2" "domain_ballot n2 n3 t c'"
  shows "c' = c"
proof -
  note b1 = domain_ballot_cast [OF assms(1)] and b2 = domain_ballot_cast [OF assms(5)]
  have "domain_voted t c (rn_state n1)" using b1(2,3) by (simp add: domain_voted_def)
  then have "remembers (domain_voted t c) n1" by (rule domain_memory.durable_remembers [OF b1(1)])
  from domain_memory.run_remembers [OF assms(4) this]
  have "domain_voted t c (rn_state n2)" by (simp add: remembers_def)
  then have "ps_DomainTerm (rn_state n2) = t" "ps_DomainVotedFor (rn_state n2) = c"
    using b2(4) assms(2,3) by (auto simp: domain_voted_def)
  then show ?thesis using b2(5) assms(2) by simp
qed

lemma RequestVoteGlobal_granted:
  assumes "RequestVoteGlobalInternal env q n = (n', p)" "gvp_Granted p"
  obtains req s r g resp h n2 where
    "transitionGlobalVote (rn_state n) (rn_globalRole n) (rn_stage n) req = (s, r, g, resp, True, h)"
    "gvr_Candidate req = fromPBDomainIdentity (pgv_Candidate q)" "gvr_GlobalTerm req = pgv_GlobalTerm q"
    "rpc_persistLocked n2 = (n', None)" "rn_state n2 = s"
proof -
  let ?c = "fromPBDomainIdentity (pgv_Candidate q)"
  let ?req = "\<lparr>gvr_Candidate = ?c, gvr_GlobalTerm = pgv_GlobalTerm q, gvr_Log = fromPBLogSummary (pgv_Log q)\<rparr>"
  let ?self = "get_or no_dli (rn_domainLeaders n) (local_domain n)"
  have g: "\<not> (rn_domainRole n \<noteq> Leader \<or> NodeID ?self \<noteq> local_id n \<or> get_or no_dli (rn_domainLeaders n) (DomainID ?c) \<noteq> ?c)"
    "\<not> \<not> domainLeaseFreshLocked (env_now env 0) n" "\<not> pgv_GlobalTerm q < ps_GlobalTerm (rn_state n)"
    "\<not> (\<not> pgv_LeadershipTransfer q \<and> gli_Valid (rn_globalLeader n) \<and> gli_DomainLeader (rn_globalLeader n) \<noteq> ?c \<and>
        env_now env 1 - rn_lastGlobalContact n < globalStickyWindow)"
    using assms by (auto simp: RequestVoteGlobalInternal_def Let_def split: if_splits)
  obtain s r g resp b h where t: "transitionGlobalVote (rn_state n) (rn_globalRole n) (rn_stage n) ?req = (s, r, g, resp, b, h)"
    by (metis prod_cases6)
  define n1 where "n1 = n\<lparr>rn_state := s, rn_globalRole := r, rn_stage := g\<rparr>"
  define n2 where "n2 = (if h then n1\<lparr>rn_globalLeader := no_gli\<rparr> else n1)"
  define n3 where "n3 = (if b then resetGlobalDeadlineLocked env 2 n2 else n2)"
  obtain n4 e where per: "rpc_persistLocked n3 = (n4, e)" by (cases "rpc_persistLocked n3")
  have "e = None \<and> n4 = n' \<and> gvp_Granted resp"
    using assms per
    unfolding RequestVoteGlobalInternal_def Let_def if_not_P [OF g(1)] if_not_P [OF g(2)] if_not_P [OF g(3)]
      if_not_P [OF g(4)] t prod.case n1_def [symmetric] n2_def [symmetric] n3_def [symmetric]
    by (auto split: option.splits)
  moreover from this have b using GlobalVote_cases(4) [OF t] by simp
  ultimately show thesis
    using that [of ?req s r g resp h n3] t per by (simp add: n1_def n2_def n3_def plain_defs)
qed

lemma global_ballot_cast:
  assumes "global_ballot n n' t c"
  shows "durable n'" "ps_GlobalTerm (rn_state n') = t" "ps_GlobalVotedFor (rn_state n') = c"
    "ps_GlobalTerm (rn_state n) \<le> t"
    "ps_GlobalTerm (rn_state n) = t \<Longrightarrow> \<not> dli_Valid (ps_GlobalVotedFor (rn_state n)) \<or> ps_GlobalVotedFor (rn_state n) = c"
proof -
  consider env q p where "RequestVoteGlobalInternal env q n = (n', p)" "gvp_Granted p" "pgv_GlobalTerm q = t"
      "fromPBDomainIdentity (pgv_Candidate q) = c"
    | env l where "campaign_global_begin env n = (n', Inr (c, t, l))" "ps_GlobalTerm (rn_state n) \<noteq> max_u64"
    using assms unfolding global_ballot_def by blast
  then have "durable n' \<and> ps_GlobalTerm (rn_state n') = t \<and> ps_GlobalVotedFor (rn_state n') = c \<and>
    ps_GlobalTerm (rn_state n) \<le> t \<and>
    (ps_GlobalTerm (rn_state n) = t \<longrightarrow> \<not> dli_Valid (ps_GlobalVotedFor (rn_state n)) \<or> ps_GlobalVotedFor (rn_state n) = c)"
  proof cases
    case 1
    then obtain req s r g resp h n2 where
      t: "transitionGlobalVote (rn_state n) (rn_globalRole n) (rn_stage n) req = (s, r, g, resp, True, h)"
      and q: "gvr_Candidate req = c" "gvr_GlobalTerm req = t"
      and per: "rpc_persistLocked n2 = (n', None)" "rn_state n2 = s"
      using RequestVoteGlobal_granted by blast
    then show ?thesis
      using GlobalVote_cases(2,3) [OF t] persist_ok [OF per(1)] rpc_persist_frame(3) [OF per(1)]
      by (auto simp: gvote_le_def)
  next
    case 2
    obtain s r t' l' where t: "transitionStartGlobalCampaign (rn_state n) (rn_globalRole n)
        (get_or no_dli (rn_domainLeaders n) (local_domain n)) = (s, r, t', l')"
      by (metis prod_cases4)
    obtain n2 where per: "rpc_persistLocked n2 = (n', None)" "rn_state n2 = s" and "t' = t"
      and "get_or no_dli (rn_domainLeaders n) (local_domain n) = c"
      using 2(1) t by (auto simp: campaign_global_begin_def Let_def split: if_splits prod.splits option.splits)
    then show ?thesis
      using StartGlobal_cases [OF t 2(2)] persist_ok [OF per(1)] rpc_persist_frame(3) [OF per(1)] by auto
  qed
  then show "durable n'" "ps_GlobalTerm (rn_state n') = t" "ps_GlobalVotedFor (rn_state n') = c"
    "ps_GlobalTerm (rn_state n) \<le> t"
    "ps_GlobalTerm (rn_state n) = t \<Longrightarrow> \<not> dli_Valid (ps_GlobalVotedFor (rn_state n)) \<or> ps_GlobalVotedFor (rn_state n) = c"
    by auto
qed

text \<open>A Domain Leader casts one global ballot per global term, through the same life of sections, disk faults and
  restarts: a later ballot of that term is for the same identity.\<close>

theorem rpc_global_ballot_once:
  assumes "global_ballot n n1 t c" "dli_Valid c" "valid_dli c"
    and "node_life\<^sup>*\<^sup>* n1 n2" "global_ballot n2 n3 t c'"
  shows "c' = c"
proof -
  note b1 = global_ballot_cast [OF assms(1)] and b2 = global_ballot_cast [OF assms(5)]
  have "global_voted t c (rn_state n1)" using b1(2,3) by (simp add: global_voted_def)
  then have "remembers (global_voted t c) n1" by (rule global_memory.durable_remembers [OF b1(1)])
  from global_memory.run_remembers [OF assms(4) this]
  have "global_voted t c (rn_state n2)" by (simp add: remembers_def)
  then have "ps_GlobalTerm (rn_state n2) = t" "ps_GlobalVotedFor (rn_state n2) = c"
    using b2(4) assms(2,3) by (auto simp: global_voted_def)
  then show ?thesis using b2(5) assms(2) by simp
qed

end
