(* ===== verification/Rpc_Acks.thy ===== *)
theory Rpc_Acks
  imports Rpc_Votes
begin

text \<open>
  What an answer of the production node promises.  Every positive answer of the consensus services was saved
  before it left the node, so a restart brings back the state it speaks for; commit knowledge advances to exactly
  the named entry or not at all; one Fast Return is sent per request.
\<close>

section \<open>The services\<close>

text \<open>The adapters that expose the handlers of the consensus services.  A handler that waits for the members
  of its domain is given what happens meanwhile (\<open>others\<close>) and who confirms (\<open>acked\<close>).\<close>

datatype rpc_request =
    DomainVote PBDomainVoteRequest
  | DomainBeat "DomainLeaderIdentity option"
  | LeaderReady "DomainLeaderIdentity option"
  | GlobalVote PBGlobalVoteRequest
  | GlobalBeat PBGlobalHeartbeat
  | ReplicateCall PBReplicateEntry
  | CommitCall CommitNotice
  | SnapshotCall InstallSnapshotRequest

datatype rpc_reply =
    DomainReply DomainVoteResponse
  | ReadyReply "rpc_error + DomainVoteResponse"
  | GlobalReply GlobalVoteResponse
  | AckReply "rpc_error + DomainQuorumAck"
  | SnapshotReply "rpc_error + InstallSnapshotResponse"

definition serve ::
    "env \<Rightarrow> (RPCNode \<Rightarrow> RPCNode) \<Rightarrow> (string \<Rightarrow> bool) \<Rightarrow> rpc_request \<Rightarrow> RPCNode \<Rightarrow> (RPCNode \<times> rpc_reply) option" where
  "serve env others acked request n =
     (case request of
        DomainVote q \<Rightarrow> Some (apsnd DomainReply (RequestVote env q n))
      | DomainBeat l \<Rightarrow> Some (apsnd DomainReply (Heartbeat env l n))
      | LeaderReady l \<Rightarrow> Some (apsnd ReadyReply (PublishReady env l n))
      | GlobalVote q \<Rightarrow> Some (apsnd GlobalReply (RequestVoteGlobalInternal env q n))
      | GlobalBeat q \<Rightarrow> map_option (\<lambda>(n', p, _). (n', GlobalReply p)) (HeartbeatGlobalInternal env q n)
      | ReplicateCall q \<Rightarrow> map_option (\<lambda>(n', r, _). (n', AckReply r)) (Replicate others acked q n)
      | CommitCall q \<Rightarrow> map_option (\<lambda>(n', r, _). (n', AckReply r)) (rpc_Commit q n)
      | SnapshotCall q \<Rightarrow> Some (apsnd SnapshotReply (InstallSnapshot others acked q n)))"

text \<open>The answers on which another node counts.\<close>

fun vouches :: "rpc_request \<Rightarrow> rpc_reply \<Rightarrow> bool" where
  "vouches _ (DomainReply p) = dvp_Granted p"
| "vouches _ (ReadyReply (Inr p)) = dvp_Granted p"
| "vouches _ (GlobalReply p) = gvp_Granted p"
| "vouches _ (AckReply (Inr a)) = dqa_Quorum a"
| "vouches (SnapshotCall q) (SnapshotReply (Inr r)) = (isp_Quorum r \<or> isp_Installed r \<and> \<not> isr_FanoutToDomain q)"
| "vouches _ _ = False"

section \<open>Durable answers\<close>

lemma RequestVote_durable: "RequestVote env q n = (n', p) \<Longrightarrow> dvp_Granted p \<Longrightarrow> durable n'"
  by (erule (1) RequestVote_granted) (rule persist_ok)

lemma Heartbeat_durable: "Heartbeat env l n = (n', p) \<Longrightarrow> dvp_Granted p \<Longrightarrow> durable n'"
  by (auto simp: Heartbeat_def Let_def split: if_splits prod.splits option.splits bool.splits dest: persist_ok)

lemma PublishReady_durable: "PublishReady env l n = (n', Inr p) \<Longrightarrow> dvp_Granted p \<Longrightarrow> durable n'"
  by (auto simp: PublishReady_def Let_def split: if_splits prod.splits option.splits bool.splits dest: persist_ok)

lemma RequestVoteGlobal_durable: "RequestVoteGlobalInternal env q n = (n', p) \<Longrightarrow> gvp_Granted p \<Longrightarrow> durable n'"
  by (erule (1) RequestVoteGlobal_granted) (rule persist_ok)

lemma HeartbeatGlobal_durable: "HeartbeatGlobalInternal env q n = Some (n', p, b) \<Longrightarrow> gvp_Granted p \<Longrightarrow> durable n'"
  by (erule HeartbeatGlobal_cases) (auto dest: persist_ok)

lemma replicate_begin_durable:
  "replicate_begin q n = Some (n', Answered (Inr a)) \<Longrightarrow> durable n'"
  by (erule replicate_begin_cases) (auto dest: persist_ok split: if_splits)

lemma replicate_finish_durable: "replicate_finish e acks n = Some (n', Inr a, f) \<Longrightarrow> durable n'"
  by (auto simp: replicate_finish_def Let_def split: if_splits option.splits prod.splits dest: persist_ok)

lemma Replicate_durable: "Replicate others acked q n = Some (n', Inr a, f) \<Longrightarrow> durable n'"
  by (auto simp: Replicate_def split: option.splits prod.splits section_end.splits
      dest: replicate_begin_durable replicate_finish_durable)

lemma Commit_durable: "rpc_Commit q n = Some (n', Inr a, f) \<Longrightarrow> dqa_Quorum a \<Longrightarrow> durable n'"
  by (auto simp: rpc_Commit_def Let_def split: if_splits option.splits prod.splits bool.splits dest: persist_ok)

lemma snapshot_begin_durable:
  assumes "snapshot_begin q n = (n', r)" "r = FanOut \<or> (\<exists>p. r = Answered (Inr p))"
  shows "durable n'"
  using assms
  by (auto simp: snapshot_begin_def Let_def split: if_splits option.splits prod.splits dest: persist_ok)

lemma snapshot_finish_durable: "snapshot_finish q n1 acks n = (n', Inr p) \<Longrightarrow> isp_Quorum p \<Longrightarrow> durable n'"
  by (auto simp: snapshot_finish_def Let_def split: if_splits option.splits prod.splits dest: persist_ok)

lemma snapshot_begin_fanout: "snapshot_begin q n = (n', FanOut) \<Longrightarrow> isr_FanoutToDomain q"
  by (auto simp: snapshot_begin_def Let_def split: if_splits option.splits prod.splits)

lemma InstallSnapshot_durable:
  assumes "InstallSnapshot others acked q n = (n', Inr p)" "isp_Quorum p \<or> isp_Installed p \<and> \<not> isr_FanoutToDomain q"
  shows "durable n'"
proof (cases "snapshot_begin q n")
  case (Pair n1 e)
  show ?thesis
  proof (cases e)
    case (Answered r)
    then show ?thesis using assms Pair snapshot_begin_durable [OF Pair] by (simp add: InstallSnapshot_def)
  next
    case FanOut
    then have "isr_FanoutToDomain q" using Pair snapshot_begin_fanout by simp
    then show ?thesis
      using assms Pair FanOut by (auto simp: InstallSnapshot_def dest: snapshot_finish_durable)
  qed
qed

lemma vouches_durable:
  assumes "serve env others acked q n = Some (n', r)" "vouches q r"
  shows "durable n'"
  using assms
  by (cases q)
     (auto simp: serve_def apsnd_def map_prod_def split: prod.splits sum.splits
       dest: RequestVote_durable Heartbeat_durable RequestVoteGlobal_durable HeartbeatGlobal_durable
       elim!: vouches.elims intro: PublishReady_durable Replicate_durable Commit_durable InstallSnapshot_durable)


end
