(* ===== verification/Rpc_Commit.thy ===== *)
theory Rpc_Commit
  imports Rpc_Acks
begin

text \<open>
  How the production node learns what is committed.  \<open>advanceCommitLocked\<close> applies exactly the entries up to the
  named one, when it holds that very entry, and changes nothing otherwise; a commit notice needs a trusted sender
  and the evidence of two domains.
\<close>

section \<open>Applying a stretch of the log\<close>

text \<open>The entries that are known but not yet committed, up to an index.\<close>

definition uncommitted :: "PersistentState \<Rightarrow> u64 \<Rightarrow> LogEntry list" where
  "uncommitted s i = take (unat i - unat (ps_KnownGlobalCommitIndex s))
     (drop (unat (ps_KnownGlobalCommitIndex s) - unat (ps_SnapshotLastIndex s)) (ps_Log s))"

text \<open>One step of a loop that walks up the log.\<close>

lemma log_next:
  assumes wf: "wf_state s" and "ps_SnapshotLastIndex s < i" "i \<le> LastLogIndex s"
  obtains x where "findEntryByIndex (ps_Log s) i = Some x" "GlobalIndex x = i" "unat (i + 1) = unat i + 1"
    "ps_SnapshotLastIndex s < i + 1"
    "drop (unat i - unat (ps_SnapshotLastIndex s) - 1) (ps_Log s) =
       x # drop (unat (i + 1) - unat (ps_SnapshotLastIndex s) - 1) (ps_Log s)"
proof -
  let ?j = "unat i - unat (ps_SnapshotLastIndex s) - 1"
  have j: "?j < length (ps_Log s)"
    using assms(2,3) unat_LastLogIndex [OF wf] by (auto simp: word_less_nat_alt word_le_nat_alt)
  have find: "findEntryByIndex (ps_Log s) i = Some (ps_Log s ! ?j)" using assms(2,3) by (simp add: wf_find [OF wf])
  have "i \<noteq> max_u64" using find by auto
  then have i1: "unat (i + 1) = unat i + 1" by (rule unat_u64_plus1)
  have "unat (i + 1) - unat (ps_SnapshotLastIndex s) - 1 = Suc ?j"
    using assms(2) i1 by (simp add: word_less_nat_alt)
  then have "drop ?j (ps_Log s) = ps_Log s ! ?j # drop (unat (i + 1) - unat (ps_SnapshotLastIndex s) - 1) (ps_Log s)"
    using j by (simp add: Cons_nth_drop_Suc)
  moreover have "ps_SnapshotLastIndex s < i + 1" using assms(2) i1 by (simp add: word_less_nat_alt)
  ultimately show thesis using that find find_Some_index [OF find] i1 by blast
qed

lemma collect_wf:
  assumes wf: "wf_state s" and "ps_SnapshotLastIndex s < next"
  shows "collect_entries (ps_Log s) next i =
     (if next \<le> i then if i \<le> LastLogIndex s
        then Some (take (Suc (unat i) - unat next) (drop (unat next - unat (ps_SnapshotLastIndex s) - 1) (ps_Log s)))
        else None
      else Some [])"
  using assms(2)
proof (induction "ps_Log s" "next" i rule: collect_entries.induct)
  case (1 "next" i)
  show ?case
  proof (cases "next \<le> i \<and> next \<le> LastLogIndex s")
    case False
    then show ?thesis using 1(2) by (auto simp: collect_entries.simps [of _ "next"] wf_find [OF wf])
  next
    case True
    then obtain x where x: "findEntryByIndex (ps_Log s) next = Some x" "unat (next + 1) = unat next + 1"
      "ps_SnapshotLastIndex s < next + 1"
      "drop (unat next - unat (ps_SnapshotLastIndex s) - 1) (ps_Log s) =
         x # drop (unat (next + 1) - unat (ps_SnapshotLastIndex s) - 1) (ps_Log s)"
      using log_next [OF wf 1(2)] by blast
    note IH = 1(1) [OF _ x(1,3)]
    have le: "next + 1 \<le> i \<longleftrightarrow> next < i" using x(2) by (simp add: word_le_nat_alt word_less_nat_alt Suc_le_eq)
    show ?thesis
    proof (cases "i = next")
      case i: True
      then show ?thesis using IH x le True by (simp add: collect_entries.simps [of _ "next"])
    next
      case False
      then have lt: "next < i" using True by (simp add: order_less_le)
      then have "Suc (unat i) - unat next = Suc (Suc (unat i) - unat (next + 1))"
        using x(2) by (simp add: word_less_nat_alt)
      then show ?thesis using IH x le True lt by (simp add: collect_entries.simps [of _ "next"])
    qed
  qed
qed

lemma apply_all:
  assumes "wf_state s" "contig (unat (ps_KnownGlobalCommitIndex s)) es"
    and "unat (ps_KnownGlobalCommitIndex s) + length es \<le> unat (LastLogIndex s)"
  defines "s' \<equiv> fold (\<lambda>e s. applyEntry s e) es s"
  shows "wf_state s' \<and> unat (ps_KnownGlobalCommitIndex s') = unat (ps_KnownGlobalCommitIndex s) + length es \<and>
     ps_Log s' = ps_Log s \<and> ps_SnapshotLastIndex s' = ps_SnapshotLastIndex s \<and>
     ps_StateMachine s' = fold (\<lambda>e. fmupd (Key (Cmd e)) (Val (Cmd e))) es (ps_StateMachine s) \<and>
     ps_Results s' = fold (\<lambda>e. fmupd (RequestID e) (entry_result e)) es (ps_Results s)"
  unfolding s'_def using assms(1-3)
proof (induction es arbitrary: s)
  case Nil
  then show ?case by simp
next
  case (Cons e es)
  let ?k = "ps_KnownGlobalCommitIndex s"
  have nm: "?k \<noteq> max_u64" using Cons.prems(1) by (rule wf_known_lt_max)
  have e: "GlobalIndex e = ?k + 1"
    using Cons.prems(2) unat_u64_plus1 [OF nm] by (simp add: contig_Cons word_unat_eq_iff)
  have le: "GlobalIndex e \<le> LastLogIndex s" using Cons.prems(3) e unat_u64_plus1 [OF nm] by (simp add: word_le_nat_alt)
  have nz: "GlobalIndex e \<noteq> 0" using e unat_u64_plus1 [OF nm] by auto
  have gt: "max ?k (GlobalIndex e) = GlobalIndex e" using e u64_less_plus1 [OF nm] by (simp add: max_def)
  let ?s1 = "applyEntry s e"
  note s1 = applyEntry_next [OF Cons.prems(1) e]
  have "wf_state ?s1" using applyEntry_wf [OF Cons.prems(1) nz le] .
  moreover have k1: "unat (ps_KnownGlobalCommitIndex ?s1) = unat ?k + 1"
    using e unat_u64_plus1 [OF nm] gt by (simp add: s1)
  moreover have "contig (unat (ps_KnownGlobalCommitIndex ?s1)) es"
    using Cons.prems(2) k1 by (simp add: contig_Cons)
  moreover have last: "LastLogIndex ?s1 = LastLogIndex s" by (simp add: LastLogIndex_def frame_simps)
  ultimately show ?case using Cons.IH [of ?s1] Cons.prems(3)
    by (simp add: frame_simps) (simp add: s1)
qed

lemma commit_fold_state: "rn_state (fold (commit_one i) es n) = fold (\<lambda>e s. applyEntry s e) es (rn_state n)"
proof (induction es arbitrary: n)
  case (Cons e es)
  have "rn_state (commit_one i e n) = applyEntry (rn_state n) e"
    by (simp add: commit_one_def Let_def signalCommittedWaiterLocked_def split: option.splits)
  then show ?case using Cons by simp
qed simp

text \<open>Compaction does not touch what is applied.\<close>

definition same_applied :: "PersistentState \<Rightarrow> PersistentState \<Rightarrow> bool" where
  "same_applied s s' \<longleftrightarrow> ps_KnownGlobalCommitIndex s' = ps_KnownGlobalCommitIndex s \<and>
     ps_AppliedIndex s' = ps_AppliedIndex s \<and> ps_StateMachine s' = ps_StateMachine s \<and> ps_Results s' = ps_Results s"

lemma compact_wf:
  assumes "wf_state (rn_state n)"
  shows "\<exists>n'. maybeCompactLocked n = Some n' \<and> wf_state (rn_state n') \<and> same_applied (rn_state n) (rn_state n')"
proof -
  obtain s ok where c: "compactLog (rn_state n) (ps_AppliedIndex (rn_state n) - rn_compactionRetain n) = Some (s, ok)"
    and wf: "wf_state s"
    using compactLog_spec [OF assms, of "ps_AppliedIndex (rn_state n) - rn_compactionRetain n"] by blast
  have "same_applied (rn_state n) s"
    using c by (auto simp: compactLog_def same_applied_def Let_def split: if_splits option.splits)
  then show ?thesis using c wf assms by (auto simp: maybeCompactLocked_def Let_def same_applied_def)
qed

lemma make_ok_span: "k \<le> i \<Longrightarrow> unat i < unat k + 2 ^ 63 \<Longrightarrow> make_ok (i - (k + 1) + 1)" for i k :: u64
proof -
  assume le: "k \<le> i" and lt: "unat i < unat k + 2 ^ 63"
  have "i - (k + 1) + 1 = i - k" by simp
  then have "unat (i - (k + 1) + 1) < 2 ^ 63" using le lt by (simp add: unat_sub word_le_nat_alt)
  moreover have "int m < 2 ^ 63 \<longleftrightarrow> m < 2 ^ 63" for m by simp
  ultimately have "int (unat (i - (k + 1) + 1)) < 2 ^ 63" by blast
  then show ?thesis by (simp add: make_ok_def)
qed

text \<open>What becomes of a state whose uncommitted entries up to an index are applied.\<close>

definition applied_upto :: "PersistentState \<Rightarrow> u64 \<Rightarrow> PersistentState \<Rightarrow> bool" where
  "applied_upto s i s' \<longleftrightarrow> ps_KnownGlobalCommitIndex s' = i \<and> ps_AppliedIndex s' = i \<and>
     ps_StateMachine s' = fold (\<lambda>e. fmupd (Key (Cmd e)) (Val (Cmd e))) (uncommitted s i) (ps_StateMachine s) \<and>
     ps_Results s' = fold (\<lambda>e. fmupd (RequestID e) (entry_result e)) (uncommitted s i) (ps_Results s)"

lemma uncommitted_contig:
  assumes "wf_state s" "ps_KnownGlobalCommitIndex s \<le> i" "i \<le> LastLogIndex s"
  shows "contig (unat (ps_KnownGlobalCommitIndex s)) (uncommitted s i)"
    "length (uncommitted s i) = unat i - unat (ps_KnownGlobalCommitIndex s)"
proof -
  let ?b = "unat (ps_SnapshotLastIndex s)" and ?k = "unat (ps_KnownGlobalCommitIndex s)"
  have wf: "contig ?b (ps_Log s)" "?b \<le> ?k" "?k \<le> ?b + length (ps_Log s)"
    using assms(1) by (auto simp: wf_state_def word_le_nat_alt)
  have "contig (?b + (?k - ?b)) (drop (?k - ?b) (ps_Log s))" using wf by (intro contig_drop) auto
  then show "contig ?k (uncommitted s i)" using wf by (simp add: uncommitted_def contig_take)
  show "length (uncommitted s i) = unat i - ?k"
    using wf assms(3) unat_LastLogIndex [OF assms(1)] by (auto simp: uncommitted_def word_le_nat_alt)
qed

lemma apply_uncommitted:
  assumes "wf_state s" "ps_KnownGlobalCommitIndex s \<le> i" "i \<le> LastLogIndex s"
  defines "s' \<equiv> fold (\<lambda>e s. applyEntry s e) (uncommitted s i) s"
  shows "wf_state s'" "applied_upto s i s'"
proof -
  note c = uncommitted_contig [OF assms(1-3)]
  have le: "unat (ps_KnownGlobalCommitIndex s) \<le> unat i" "unat i \<le> unat (LastLogIndex s)"
    using assms(2,3) by (simp_all add: word_le_nat_alt)
  note all = apply_all [OF assms(1) c(1), folded s'_def]
  have *: "unat (ps_KnownGlobalCommitIndex s) + length (uncommitted s i) \<le> unat (LastLogIndex s)"
    using c(2) le by simp
  show wf: "wf_state s'" using all [OF *] by simp
  have "ps_KnownGlobalCommitIndex s' = i" using all [OF *] c(2) le by (simp add: word_unat_eq_iff)
  moreover have "ps_AppliedIndex s' = ps_KnownGlobalCommitIndex s'" using wf by (simp add: wf_state_def)
  ultimately show "applied_upto s i s'" using all [OF *] by (simp add: applied_upto_def)
qed

lemma last_uncommitted:
  assumes "wf_state s" "ps_KnownGlobalCommitIndex s < i" "i \<le> LastLogIndex s"
  shows "entry_at s i = Some (last (uncommitted s i))"
proof -
  let ?b = "unat (ps_SnapshotLastIndex s)" and ?k = "unat (ps_KnownGlobalCommitIndex s)"
  have wf: "?b \<le> ?k" using assms(1) by (auto simp: wf_state_def word_le_nat_alt)
  have lt: "?k < unat i" "unat i \<le> ?b + length (ps_Log s)"
    using assms(2,3) unat_LastLogIndex [OF assms(1)] by (simp_all add: word_less_nat_alt word_le_nat_alt)
  have "length (uncommitted s i) = unat i - ?k" using uncommitted_contig [OF assms(1) _ assms(3)] assms(2) by simp
  then have "last (uncommitted s i) = uncommitted s i ! (unat i - ?k - 1)"
    using lt by (subst last_conv_nth) auto
  also have "\<dots> = ps_Log s ! (unat i - ?b - 1)" using lt wf by (simp add: uncommitted_def)
  finally show ?thesis using assms(1,3) wf lt by (simp add: wf_find word_less_nat_alt)
qed

lemma advance_spec:
  assumes "wf_state (rn_state n)" "unat i < unat (ps_KnownGlobalCommitIndex (rn_state n)) + 2 ^ 63"
  shows "\<exists>n' ok. advanceCommitLocked i t r n = Some (n', ok) \<and> wf_state (rn_state n') \<and>
     (ok \<longleftrightarrow> i \<le> ps_KnownGlobalCommitIndex (rn_state n) \<or>
        (\<exists>e. entry_at (rn_state n) i = Some e \<and> GlobalTerm e = t \<and> RequestID e = r)) \<and>
     (if ok \<and> ps_KnownGlobalCommitIndex (rn_state n) < i then applied_upto (rn_state n) i (rn_state n') else n' = n)"
proof (cases "i \<le> ps_KnownGlobalCommitIndex (rn_state n)")
  case True
  then show ?thesis using assms(1)
    by (intro exI [of _ n] exI [of _ True]) (simp add: advanceCommitLocked_def Let_def leD)
next
  case False
  let ?s = "rn_state n" and ?k = "ps_KnownGlobalCommitIndex (rn_state n)"
  have k: "?k < i" "?k \<le> i" using False by auto
  have nm: "?k \<noteq> max_u64" using assms(1) by (rule wf_known_lt_max)
  have snap: "ps_SnapshotLastIndex ?s \<le> ?k" using assms(1) by (auto simp: wf_state_def)
  then have gt: "ps_SnapshotLastIndex ?s < ?k + 1" using u64_less_plus1 [OF nm] by simp
  have from_le: "?k + 1 \<le> i" using k unat_u64_plus1 [OF nm] by (simp add: word_le_nat_alt word_less_nat_alt)
  have eq: "collect_entries (ps_Log ?s) (?k + 1) i = (if i \<le> LastLogIndex ?s then Some (uncommitted ?s i) else None)"
    using collect_wf [OF assms(1) gt, of i] from_le unat_u64_plus1 [OF nm] by (simp add: uncommitted_def)
  have adv: "advanceCommitLocked i t r n = (if i \<le> LastLogIndex ?s then
      if GlobalTerm (last (uncommitted ?s i)) \<noteq> t \<or> RequestID (last (uncommitted ?s i)) \<noteq> r then Some (n, False)
      else map_option (\<lambda>n'. (n', True)) (maybeCompactLocked (fold (commit_one i) (uncommitted ?s i) n)) else Some (n, False))"
    using False make_ok_span [OF k(2) assms(2)] eq by (simp add: advanceCommitLocked_def Let_def)
  show ?thesis
  proof (cases "i \<le> LastLogIndex ?s")
    case False
    then show ?thesis using adv assms(1) k by (simp add: wf_find)
  next
    case True
    note app = apply_uncommitted [OF assms(1) k(2) True] and top = last_uncommitted [OF assms(1) k(1) True]
    let ?n1 = "fold (commit_one i) (uncommitted ?s i) n"
    have "wf_state (rn_state ?n1)" "applied_upto ?s i (rn_state ?n1)" using app by (simp_all add: commit_fold_state)
    moreover obtain n' where "maybeCompactLocked ?n1 = Some n'" "wf_state (rn_state n')"
      "same_applied (rn_state ?n1) (rn_state n')"
      using compact_wf calculation(1) by blast
    ultimately show ?thesis
      using adv True k top assms(1) by (auto simp: applied_upto_def same_applied_def)
  qed
qed


section \<open>Commit notices\<close>

text \<open>What a notice must show before the node looks at its log.\<close>

definition notice_ok :: "CommitNotice \<Rightarrow> RPCNode \<Rightarrow> bool" where
  "notice_ok q n \<longleftrightarrow> ps_GlobalTerm (rn_state n) \<le> cn_GlobalTerm q \<and>
     (cn_GlobalTerm q = ps_GlobalTerm (rn_state n) \<longrightarrow> replicationSenderTrustedLocked (cn_SenderNodeId q) n) \<and>
     2 \<le> distinctDomains (cn_EvidenceDomains q)"

lemma reject_state [simp]: "rn_state (recordRejectionLocked reason n) = rn_state n"
  by (simp add: recordRejectionLocked_def Let_def)

lemma reject_failed [simp]: "rn_failed (recordRejectionLocked reason n) = rn_failed n"
  by (simp add: recordRejectionLocked_def Let_def)

lemma Commit_cases:
  assumes "rpc_Commit q n = Some (n', r, f)"
  obtains (refused) reason where "\<not> notice_ok q n" "n' = recordRejectionLocked reason n" "\<exists>a. r = Inr a \<and> \<not> dqa_Quorum a"
  | (mismatch) reason n1 where "notice_ok q n"
      "advanceCommitLocked (cn_CommitIndex q) (cn_CommitTerm q) (cn_CommitRequestId q) n = Some (n1, False)"
      "n' = recordRejectionLocked reason n1" "\<exists>a. r = Inr a \<and> \<not> dqa_Quorum a"
  | (failed) n1 e where "notice_ok q n"
      "advanceCommitLocked (cn_CommitIndex q) (cn_CommitTerm q) (cn_CommitRequestId q) n = Some (n1, True)"
      "rn_failed n'" "r = Inl e"
  | (settled) n1 a where "notice_ok q n"
      "advanceCommitLocked (cn_CommitIndex q) (cn_CommitTerm q) (cn_CommitRequestId q) n = Some (n1, True)"
      "rn_state n' = rn_state n1" "r = Inr a" "dqa_Quorum a" "dqa_GlobalIndex a = ps_KnownGlobalCommitIndex (rn_state n1)"
proof (cases "notice_ok q n")
  case False
  then have "(\<exists>reason. n' = recordRejectionLocked reason n) \<and> (\<exists>a. r = Inr a \<and> \<not> dqa_Quorum a)"
    using assms by (auto simp: rpc_Commit_def Let_def notice_ok_def not_less split: if_splits)
  then show thesis using refused False by blast
next
  case True
  then have g: "\<not> cn_GlobalTerm q < ps_GlobalTerm (rn_state n)"
    "\<not> (cn_GlobalTerm q = ps_GlobalTerm (rn_state n) \<and> \<not> replicationSenderTrustedLocked (cn_SenderNodeId q) n)"
    "\<not> distinctDomains (cn_EvidenceDomains q) < 2"
    by (auto simp: notice_ok_def)
  note eq = assms [unfolded rpc_Commit_def Let_def if_not_P [OF g(1)] if_not_P [OF g(2)] if_not_P [OF g(3)]]
  obtain n1 b where adv: "advanceCommitLocked (cn_CommitIndex q) (cn_CommitTerm q) (cn_CommitRequestId q) n = Some (n1, b)"
    using eq by (auto split: option.splits)
  obtain n2 e where per: "rpc_persistLocked n1 = (n2, e)" by (cases "rpc_persistLocked n1")
  show thesis
  proof (cases b)
    case False
    then show thesis using eq adv True by (intro mismatch) auto
  next
    case b: True
    show thesis
    proof (cases e)
      case None
      have "rn_state n2 = rn_state n1" by (rule rpc_persist_frame(3) [OF per])
      then show thesis using eq adv True b None by (intro settled) (auto simp: per)
    next
      case (Some x)
      then have "rn_failed n2" using persist_failed per by blast
      then show thesis using eq adv True b Some by (intro failed) (auto simp: per)
    qed
  qed
qed

text \<open>C6: a commit notice is followed only with evidence.  \<open>Commit\<close> answers positively only if the notice is not of
  an old term, comes from a trusted sender, names two domains and identifies the entry in the log; then the
  node has applied exactly up to that entry.  A refused notice changes no persistent state, and an error
  means that the node is failing.\<close>

theorem commit_notice_checked:
  assumes "wf_state (rn_state n)" "unat (cn_CommitIndex q) < unat (ps_KnownGlobalCommitIndex (rn_state n)) + 2 ^ 63"
  shows "\<exists>n' r f. rpc_Commit q n = Some (n', r, f) \<and>
    (case r of
       Inr a \<Rightarrow>
         if dqa_Quorum a
         then notice_ok q n \<and> wf_state (rn_state n') \<and> cn_CommitIndex q \<le> ps_KnownGlobalCommitIndex (rn_state n') \<and>
           (ps_KnownGlobalCommitIndex (rn_state n) < cn_CommitIndex q \<longrightarrow>
             applied_upto (rn_state n) (cn_CommitIndex q) (rn_state n') \<and>
             (\<exists>e. entry_at (rn_state n) (cn_CommitIndex q) = Some e \<and> GlobalTerm e = cn_CommitTerm q \<and>
                RequestID e = cn_CommitRequestId q))
         else rn_state n' = rn_state n
     | Inl e \<Rightarrow> rn_failed n')"
proof -
  obtain n1 ok where adv: "advanceCommitLocked (cn_CommitIndex q) (cn_CommitTerm q) (cn_CommitRequestId q) n = Some (n1, ok)"
    and spec: "wf_state (rn_state n1)"
      "ok \<longleftrightarrow> cn_CommitIndex q \<le> ps_KnownGlobalCommitIndex (rn_state n) \<or>
        (\<exists>e. entry_at (rn_state n) (cn_CommitIndex q) = Some e \<and> GlobalTerm e = cn_CommitTerm q \<and> RequestID e = cn_CommitRequestId q)"
      "if ok \<and> ps_KnownGlobalCommitIndex (rn_state n) < cn_CommitIndex q
       then applied_upto (rn_state n) (cn_CommitIndex q) (rn_state n1) else n1 = n"
    using advance_spec [OF assms] by blast
  have "rpc_Commit q n \<noteq> None" by (auto simp: rpc_Commit_def Let_def adv split: option.splits prod.splits bool.splits)
  then obtain n' r f where c: "rpc_Commit q n = Some (n', r, f)" by auto
  then show ?thesis
  proof (cases rule: Commit_cases)
    case (refused reason)
    then show ?thesis using c by auto
  next
    case (mismatch reason n2)
    then have "n2 = n" using adv spec(3) by simp
    then show ?thesis using c mismatch by auto
  next
    case (failed n2 e)
    then show ?thesis using c by auto
  next
    case (settled n2 a)
    then have ok: "n2 = n1" ok using adv by simp_all
    show ?thesis
    proof (cases "ps_KnownGlobalCommitIndex (rn_state n) < cn_CommitIndex q")
      case True
      then have "applied_upto (rn_state n) (cn_CommitIndex q) (rn_state n1)" "\<not> cn_CommitIndex q \<le> ps_KnownGlobalCommitIndex (rn_state n)"
        using spec(3) ok by auto
      then show ?thesis using c settled ok spec(1,2) by (auto simp: applied_upto_def)
    next
      case False
      then have "n1 = n" using spec(3) by simp
      then show ?thesis using c settled ok False spec(1) by auto
    qed
  qed
qed

end
