(* ===== verification/Rpc_Serve.thy ===== *)
theory Rpc_Serve
  imports Rpc_Commit
begin

text \<open>
  What clients and other leaders can rely on: Fast Returns, reads, the ordering of writes, the leases, and the
  hand-over of the global leadership.
\<close>

section \<open>Fast Return\<close>

lemma keeps_sent_trans: "keeps_sent a b \<Longrightarrow> keeps_sent b c \<Longrightarrow> keeps_sent a c"
  by (simp add: keeps_sent_def)

lemma run_keeps_sent: "rpc_step\<^sup>*\<^sup>* n n' \<Longrightarrow> keeps_sent n n'"
proof (induction rule: rtranclp_induct)
  case base
  show ?case by (simp add: keeps_sent_def)
next
  case (step n1 n2)
  then show ?case using rpc_step_le [OF step(2)] by (auto simp: rpc_le_def intro: keeps_sent_trans)
qed

text \<open>C11: a Domain Leader sends a Fast Return only for an entry that its domain holds by quorum at a committable
  position of a current term, with the data of the certificate, and at most once per request while it runs.\<close>

theorem fast_return_once:
  assumes "deliver_begin p n = (n1, Some c)"
  shows "domainHoldsEntryLocked (pf_GlobalIndex p) (pf_GlobalTerm p) (pf_RequestID p) n \<and>
    pf_GlobalIndex p \<le> ps_KnownGlobalCommitIndex (rn_state n) + 1 \<and> ps_GlobalTerm (rn_state n) \<le> pf_GlobalTerm p \<and>
    cr_RequestID c = pf_RequestID p \<and> cr_GlobalIndex c = pf_GlobalIndex p \<and> cr_GlobalTerm c = pf_GlobalTerm p \<and>
    cr_Source c = FastResponse \<and> cr_Result c = pf_Result p \<and>
    (\<forall>n2 p'. rpc_step\<^sup>*\<^sup>* n1 n2 \<longrightarrow> pf_RequestID p' = pf_RequestID p \<longrightarrow> deliver_begin p' n2 = (n2, None))"
proof -
  have sent: "get_or False (rn_fastSent n1) (pf_RequestID p)"
    using assms by (auto simp: deliver_begin_def split: if_splits)
  have "deliver_begin p' n2 = (n2, None)" if "rpc_step\<^sup>*\<^sup>* n1 n2" "pf_RequestID p' = pf_RequestID p" for n2 p'
    using run_keeps_sent [OF that(1)] sent that(2) by (auto simp: keeps_sent_def deliver_begin_def)
  then show ?thesis using assms by (auto simp: deliver_begin_def not_less split: if_splits)
qed

section \<open>Reads\<close>

text \<open>C12: a node answers a read only as the serving Global Leader with a fresh lease and after it has applied
  everything that its own domain holds by quorum; the answer is the applied value and no persistent state
  changes.\<close>

theorem read_behind_barrier:
  assumes "rpc_Read env origin key n = (n', ReadValue v)"
  shows "rn_stage n = Serving \<and> \<not> rn_failed n \<and> is_global n \<and>
    (rn_globalLeaseEnabled n \<longrightarrow> env_now env 0 < rn_globalLeaseDeadline n) \<and>
    getz (ps_DomainQuorumIndex (rn_state n)) (local_domain n) \<le> ps_AppliedIndex (rn_state n) \<and>
    v = get_or [] (ps_StateMachine (rn_state n)) key \<and> rn_state n' = rn_state n"
  using assms
  by (auto simp: rpc_Read_def servesAsGlobalLeaderLocked_def is_global_def Let_def not_less
      split: if_splits)

section \<open>Ordering of writes\<close>

definition recorded :: "string \<Rightarrow> PersistentState \<Rightarrow> bool" where
  "recorded r s \<longleftrightarrow> fmlookup (ps_Results s) r \<noteq> None \<or> findEntryByRequest (ps_Log s) r \<noteq> None"

lemma findEntryByRequest_None: "findEntryByRequest log r = None \<longleftrightarrow> r \<notin> RequestID ` set log"
  by (auto simp: findEntryByRequest_def find_None_iff)

lemma findEntryByRequest_Some: "findEntryByRequest log r = Some e \<Longrightarrow> e \<in> set log \<and> RequestID e = r"
  by (auto simp: findEntryByRequest_def find_Some_iff)

lemma findEntryByRequest_snoc:
  "findEntryByRequest (log @ [e]) r = None \<longleftrightarrow> findEntryByRequest log r = None \<and> RequestID e \<noteq> r"
  by (auto simp: findEntryByRequest_None)

text \<open>The entry a write is given when nothing is recorded for it.\<close>

definition new_entry :: "ClientWriteRequest \<Rightarrow> RPCNode \<Rightarrow> LogEntry" where
  "new_entry q n = \<lparr>GlobalTerm = gli_GlobalTerm (rn_globalLeader n),
     GlobalIndex = LastGlobalIndex (Summary (rn_state n)) + 1, RequestID = cwr_RequestID q,
     OriginDomain = cwr_OriginDomain q, Cmd = cwr_Command q, Result = commandResult (cwr_Command q)\<rparr>"

lemma join_commit_state: "join_commit r e n = (n', w) \<Longrightarrow> rn_state n' = rn_state n \<and> (\<exists>ch. w = Waiting ch None \<or> w = Waiting ch (Some e))"
  by (auto simp: join_commit_def Let_def split: option.splits)

lemma write_begin_state:
  assumes "write_begin env q n = (n', w)"
  shows "rn_state n' = rn_state n \<and> (\<forall>ch e. w = Waiting ch (Some e) \<longrightarrow> e \<in> set (ps_Log (rn_state n))) \<or>
    \<not> recorded (cwr_RequestID q) (rn_state n) \<and> \<not> rn_draining n \<and> rn_stage n = Serving \<and>
    servesAsGlobalLeaderLocked (env_now env 0) n \<and>
    rn_state n' = (rn_state n)\<lparr>ps_Log := ps_Log (rn_state n) @ [new_entry q n]\<rparr> \<and>
    (\<exists>ch. w = Waiting ch None \<or> w = Waiting ch (Some (new_entry q n)))"
proof -
  have f: "rn_state (if b then m\<lparr>rn_stats := x\<rparr> else m) = rn_state m" for b m x by simp
  show ?thesis
    using assms unfolding write_begin_def Let_def
    by (auto simp: recorded_def new_entry_def Let_def split: if_splits option.splits
        dest: join_commit_state findEntryByRequest_Some)
qed

text \<open>C13: a request is ordered once.  \<open>Write\<close> keeps the log well-formed and free of duplicate requests; a request that
  is recorded changes nothing; a write that waits is recorded and a retry of it never appends again; a settled
  answer is the recorded result; every other outcome leaves the state alone.\<close>

theorem writes_ordered_once:
  assumes "wf_state (rn_state n)" "LastLogIndex (rn_state n) + 1 \<noteq> max_u64"
    and "distinct (map RequestID (ps_Log (rn_state n)))" "write_begin env q n = (n1, w)"
  shows "wf_state (rn_state n1) \<and> distinct (map RequestID (ps_Log (rn_state n1))) \<and>
    (recorded (cwr_RequestID q) (rn_state n) \<longrightarrow> rn_state n1 = rn_state n) \<and>
    (case w of
       Waiting ch _ \<Rightarrow> recorded (cwr_RequestID q) (rn_state n1) \<and>
         (\<forall>env' n2 w'. write_begin env' q n1 = (n2, w') \<longrightarrow> rn_state n2 = rn_state n1)
     | Settled r \<Rightarrow> fmlookup (ps_Results (rn_state n)) (cwr_RequestID q) = Some r
     | _ \<Rightarrow> rn_state n1 = rn_state n)"
proof -
  let ?r = "cwr_RequestID q"
  have same: "rn_state m1 = rn_state m" if "recorded ?r (rn_state m)" "write_begin e q m = (m1, w')" for e m m1 w'
    using write_begin_state [OF that(2)] that(1) by auto
  have wait: "recorded ?r (rn_state n1)" if "w = Waiting ch x" for ch x
    using assms(4) that
    by (auto simp: write_begin_def recorded_def Let_def findEntryByRequest_snoc
        split: if_splits option.splits dest!: join_commit_state)
  have rest: "case w of Waiting _ _ \<Rightarrow> True | Settled r \<Rightarrow> fmlookup (ps_Results (rn_state n)) ?r = Some r
      | _ \<Rightarrow> rn_state n1 = rn_state n"
    using assms(4)
    by (auto simp: write_begin_def Let_def split: if_splits option.splits write_step.splits dest!: join_commit_state)
  consider "rn_state n1 = rn_state n"
    | "\<not> recorded ?r (rn_state n)" "rn_state n1 = (rn_state n)\<lparr>ps_Log := ps_Log (rn_state n) @ [new_entry q n]\<rparr>"
    using write_begin_state [OF assms(4)] by blast
  then have "wf_state (rn_state n1) \<and> distinct (map RequestID (ps_Log (rn_state n1)))"
  proof cases
    case 1
    then show ?thesis using assms(1,3) by simp
  next
    case 2
    have "wf_state (rn_state n1)"
      unfolding 2 using assms(1,2) by (intro new_entry_wf) (simp_all add: new_entry_def Summary_index)
    moreover have "?r \<notin> RequestID ` set (ps_Log (rn_state n))"
      using 2(1) by (simp add: recorded_def findEntryByRequest_None)
    ultimately show ?thesis using 2(2) assms(3) by (simp add: new_entry_def)
  qed
  then show ?thesis using same [OF _ assms(4)] same wait rest by (auto split: write_step.splits)
qed

section \<open>Leases\<close>

text \<open>C14: leases exclude a rival of a leader that has been heard.  If a Domain Leader that knows a Global Leader and
  heard from it after the heartbeat round that renewed the lease grants its vote to another candidate (not
  a leadership transfer), then with validated timings the lease of the incumbent has run out.\<close>

theorem sticky_vote_after_lease:
  assumes "RequestVoteGlobalInternal env q n = (n', p)" "gvp_Granted p" "\<not> pgv_LeadershipTransfer q"
    and "gli_Valid (rn_globalLeader n)" "gli_DomainLeader (rn_globalLeader n) \<noteq> fromPBDomainIdentity (pgv_Candidate q)"
    and "validateLeaseTiming (rn_globalLeaseDuration leader) d = None"
    and "rn_globalLeaseDeadline leader \<le> sentAt + rn_globalLeaseDuration leader"
    and "rn_globalLeaseEnabled leader" "sentAt \<le> rn_lastGlobalContact n" "env_now env 1 \<le> now"
  shows "\<not> servesAsGlobalLeaderLocked now leader"
proof -
  have "globalStickyWindow \<le> env_now env 1 - rn_lastGlobalContact n"
    using assms(1-5) by (auto simp: RequestVoteGlobalInternal_def Let_def split: if_splits)
  moreover have "rn_globalLeaseDuration leader < globalStickyWindow"
    using assms(6) by (auto simp: validateLeaseTiming_def globalStickyWindow_def split: if_splits)
  ultimately have "rn_globalLeaseDeadline leader \<le> now" using assms(7,9,10) by linarith
  then show ?thesis using assms(8) by (simp add: servesAsGlobalLeaderLocked_def)
qed

section \<open>Handing over the global leadership\<close>

lemma serves_is_global: "servesAsGlobalLeaderLocked now n \<Longrightarrow> is_global n"
  by (auto simp: servesAsGlobalLeaderLocked_def is_global_def split: if_splits)

lemma persist_roles:
  "rn_globalRole (fst (rpc_persistLocked n)) = rn_globalRole n" "rn_globalLeader (fst (rpc_persistLocked n)) = rn_globalLeader n"
  "rn_local (fst (rpc_persistLocked n)) = rn_local n" "rn_state (fst (rpc_persistLocked n)) = rn_state n"
  by (auto simp: rpc_persistLocked_def split: prod.splits option.splits)

lemma handoff_steps_down: "\<not> is_global (revokeGlobalLeadershipForHandoffLocked env n)"
  by (auto simp: revokeGlobalLeadershipForHandoffLocked_def is_global_def persist_roles plain_defs revoke_global_def
      transitionRevokeGlobalLeadership_def)

lemma handoff_role: "rn_globalRole n = Leader \<and> is_global n \<Longrightarrow> rn_globalRole (revokeGlobalLeadershipForHandoffLocked env n) = Follower"
  by (auto simp: revokeGlobalLeadershipForHandoffLocked_def persist_roles plain_defs revoke_global_def
      transitionRevokeGlobalLeadership_def)

lemma handoff_term: "ps_GlobalTerm (rn_state (revokeGlobalLeadershipForHandoffLocked env n)) = ps_GlobalTerm (rn_state n)"
  by (auto simp: revokeGlobalLeadershipForHandoffLocked_def persist_roles plain_defs revoke_global_def
      transitionRevokeGlobalLeadership_def)

lemma migration_spec:
  assumes "initiateMigration envs (\<lambda>_ m. m) caughtUp reply d n = (n', out)" "\<not> rn_migrating n" "is_global n"
  shows "\<not> rn_migrating n' \<and> (case mo_note out of
      Migrated t \<Rightarrow> mo_success out \<and> \<not> rn_draining n' \<and> (\<forall>now. \<not> servesAsGlobalLeaderLocked now n') \<and>
        (ps_GlobalTerm (rn_state n) \<le> t \<longrightarrow>
          rn_globalLeader n' = \<lparr>gli_DomainLeader = get_or no_dli (rn_domainLeaders n) d, gli_GlobalTerm = t\<rparr>)
    | ElectionFailed \<Rightarrow> \<not> mo_success out \<and> \<not> rn_draining n' \<and> (\<forall>now. \<not> servesAsGlobalLeaderLocked now n')
    | _ \<Rightarrow> \<not> mo_success out \<and> rn_state n' = rn_state n \<and>
        (\<forall>now. servesAsGlobalLeaderLocked now n' = servesAsGlobalLeaderLocked now n))"
proof -
  let ?n1 = "n\<lparr>rn_migrating := True, rn_draining := True, rn_migrationBarrier := LastGlobalIndex (Summary (rn_state n))\<rparr>"
  let ?r = "revokeGlobalLeadershipForHandoffLocked (envs 0) ?n1"
  have lead: "rn_globalRole ?n1 = Leader \<and> is_global ?n1" using assms(3) by (simp add: is_global_def)
  have follower: "rn_globalRole ?r = Follower" and g: "ps_GlobalTerm (rn_state ?r) = ps_GlobalTerm (rn_state n)"
    using handoff_role [OF lead] handoff_term [of "envs 0" ?n1] by simp_all
  have not: "\<not> servesAsGlobalLeaderLocked now m" if "rn_globalRole m = Follower" for now m
    using that by (auto simp: servesAsGlobalLeaderLocked_def)
  have adopt: "rn_globalRole (adoptHandedOffLeaderLocked e i t m) = rn_globalRole m"
    "ps_GlobalTerm (rn_state m) \<le> t \<Longrightarrow> rn_globalLeader (adoptHandedOffLeaderLocked e i t m) = \<lparr>gli_DomainLeader = i, gli_GlobalTerm = t\<rparr>"
    for e i t m by (auto simp: adoptHandedOffLeaderLocked_def plain_defs)
  show ?thesis
  proof (cases "fmlookup (rn_domainLeaders n) d = None \<or> \<not> dli_Valid (get_or no_dli (rn_domainLeaders n) d) \<or>
      NodeID (get_or no_dli (rn_domainLeaders n) d) = local_id n")
    case True
    then show ?thesis using assms(1,2) by (auto simp: initiateMigration_def migration_begin_def Let_def)
  next
    case False
    then have eq: "migration_begin d n = (?n1, Inr (get_or no_dli (rn_domainLeaders n) d,
        LastGlobalIndex (Summary (rn_state n)), ps_GlobalTerm (rn_state n)))"
      using assms(2) by (simp add: migration_begin_def Let_def)
    show ?thesis
      using assms(1) follower g
      by (auto simp: initiateMigration_def eq Let_def migration_finish_def persist_roles adopt not
          servesAsGlobalLeaderLocked_def split: if_splits option.splits bool.splits prod.splits)
  qed
qed

text \<open>The outcomes of a handoff.  A handoff that no other handler interferes with ends with the migration flag
  cleared.  If it succeeds, the old leader no longer serves and follows the target; if the election failed,
  it no longer serves either; if it was given up before, its state is unchanged and it serves as before.\<close>

theorem migration_outcomes:
  assumes "initiateMigration envs (\<lambda>_ m. m) caughtUp reply d n = (n', out)" "\<not> rn_migrating n" "is_global n"
  shows "\<not> rn_migrating n' \<and> (case mo_note out of
      Migrated t \<Rightarrow> mo_success out \<and> \<not> rn_draining n' \<and> (\<forall>now. \<not> servesAsGlobalLeaderLocked now n') \<and>
        (ps_GlobalTerm (rn_state n) \<le> t \<longrightarrow>
          rn_globalLeader n' = \<lparr>gli_DomainLeader = get_or no_dli (rn_domainLeaders n) d, gli_GlobalTerm = t\<rparr>)
    | ElectionFailed \<Rightarrow> \<not> mo_success out \<and> \<not> rn_draining n' \<and> (\<forall>now. \<not> servesAsGlobalLeaderLocked now n')
    | _ \<Rightarrow> \<not> mo_success out \<and> rn_state n' = rn_state n \<and>
        (\<forall>now. servesAsGlobalLeaderLocked now n' = servesAsGlobalLeaderLocked now n))"
  using migration_spec [OF assms] .

end
