(* ===== verification/Rpc_Heal.thy ===== *)
theory Rpc_Heal
  imports Rpc_Serve
begin

text \<open>
  How a lagging domain catches up.  The tail that a leader collects is exactly the entries it holds above an
  index; streaming it into a Domain Leader makes the two logs agree and moves the quorum mark of the domain to
  the last entry.  A Global Leader recovers only commits that two domains hold.
\<close>

section \<open>The tail of a log\<close>

text \<open>The entries above \<open>after\<close> up to \<open>barrier\<close> that are still in the log.\<close>

definition between :: "PersistentState \<Rightarrow> u64 \<Rightarrow> u64 \<Rightarrow> LogEntry list" where
  "between s after barrier =
     (if after < ps_SnapshotLastIndex s then []
      else take (unat barrier - unat after) (drop (unat after - unat (ps_SnapshotLastIndex s)) (ps_Log s)))"

definition tail_request :: "PersistentState \<Rightarrow> LogEntry \<Rightarrow> PBReplicateEntry" where
  "tail_request s e = entry_request e [] False [] (GlobalIndex e - 1) (prev_term s (GlobalIndex e))"

lemma tail_loop_wf:
  assumes "wf_state s" "ps_SnapshotLastIndex s < idx"
  shows "tail_loop s idx barrier = map (tail_request s)
     (take (Suc (unat barrier) - unat idx) (drop (unat idx - unat (ps_SnapshotLastIndex s) - 1) (ps_Log s)))"
  using assms
proof (induction s idx barrier rule: tail_loop.induct)
  case (1 s idx barrier)
  note wf = \<open>wf_state s\<close> and snap = \<open>ps_SnapshotLastIndex s < idx\<close>
  consider "\<not> idx \<le> barrier" | "idx \<le> barrier" "\<not> idx \<le> LastLogIndex s" | "idx \<le> barrier" "idx \<le> LastLogIndex s" by blast
  then show ?case
  proof cases
    case 1
    then show ?thesis by (simp add: tail_loop.simps [of _ idx] word_le_nat_alt)
  next
    case 2
    then have "length (ps_Log s) \<le> unat idx - unat (ps_SnapshotLastIndex s) - 1"
      using unat_LastLogIndex [OF wf] by (simp add: word_le_nat_alt)
    then show ?thesis using 2 by (simp add: tail_loop.simps [of _ idx] wf_find [OF wf])
  next
    case 3
    obtain x where x: "findEntryByIndex (ps_Log s) idx = Some x" "GlobalIndex x = idx" "unat (idx + 1) = unat idx + 1"
      "ps_SnapshotLastIndex s < idx + 1"
      "drop (unat idx - unat (ps_SnapshotLastIndex s) - 1) (ps_Log s) =
         x # drop (unat (idx + 1) - unat (ps_SnapshotLastIndex s) - 1) (ps_Log s)"
      using log_next [OF wf snap 3(2)] .
    have "Suc (unat barrier) - unat idx = Suc (Suc (unat barrier) - unat (idx + 1))"
      using 3(1) x(3) by (simp add: word_le_nat_alt)
    then show ?thesis
      using 1(1) [OF 3(1) x(1) wf x(4)] 3 x(1,2,5) by (simp add: tail_loop.simps [of _ idx] tail_request_def)
  qed
qed

lemma tail_spec:
  assumes "wf_state (rn_state n)" "after \<le> barrier" "unat barrier < unat after + 2 ^ 63"
  shows "collectTailEntries after barrier n =
     Some (map (tail_request (rn_state n)) (between (rn_state n) after barrier))"
proof -
  let ?s = "rn_state n"
  have "unat (barrier - after) < 2 ^ 63" using assms(2,3) by (simp add: unat_sub word_le_nat_alt)
  moreover have "int m < 2 ^ 63 \<longleftrightarrow> m < 2 ^ 63" for m by simp
  ultimately have "int (unat (barrier - after)) < 2 ^ 63" by blast
  then have ok: "make_ok (barrier - after)" by (simp add: make_ok_def)
  show ?thesis
  proof (cases "after = max_u64")
    case True
    have last: "\<not> after < ps_SnapshotLastIndex ?s" using True unat_u64_lt [of "ps_SnapshotLastIndex ?s"]
      by (simp add: word_less_nat_alt unat_max_u64_const)
    have "barrier = after" using assms(2) True unat_u64_lt [of barrier]
      by (simp add: word_le_nat_alt unat_max_u64_const word_unat_eq_iff)
    moreover have "after + 1 = 0" using True by (simp add: max_u64_def)
    ultimately show ?thesis using ok last
      by (simp add: collectTailEntries_def between_def tail_loop.simps [of _ 0] findEntryByIndex_def)
  next
    case False
    note a1 = unat_u64_plus1 [OF False]
    show ?thesis
    proof (cases "after < ps_SnapshotLastIndex ?s")
      case True
      then have "\<not> ps_SnapshotLastIndex ?s < after + 1" using a1 by (simp add: word_less_nat_alt)
      then have "findEntryByIndex (ps_Log ?s) (after + 1) = None" by (simp add: wf_find [OF assms(1)])
      then show ?thesis using ok True by (simp add: collectTailEntries_def between_def tail_loop.simps [of _ "after + 1"])
    next
      case False
      then have "ps_SnapshotLastIndex ?s < after + 1" using a1 by (simp add: word_less_nat_alt)
      then show ?thesis using ok False a1 tail_loop_wf [OF assms(1)]
        by (simp add: collectTailEntries_def between_def)
    qed
  qed
qed

text \<open>Collecting the tail of a log terminates with exactly the entries above an index up to the barrier that are
  still in the log, in order, each with the index and term of its predecessor.\<close>

theorem tail_is_exact:
  assumes "wf_state (rn_state n)" "after \<le> barrier" "unat barrier < unat after + 2 ^ 63"
  shows "collectTailEntries after barrier n =
     Some (map (tail_request (rn_state n)) (between (rn_state n) after barrier))"
  using tail_spec [OF assms] .

text \<open>C28: the backfill of a lagging domain can crash the leader.  If the target reports a log that is longer than the
  entry to be replicated but a quorum mark below it, the capacity computed for the tail wraps around and
  \<open>make\<close> panics.\<close>

theorem backfill_panics:
  assumes "cup_DomainQuorumIndex p < GlobalIndex e" "GlobalIndex e < cup_LastIndex p"
    and "ps_SnapshotLastIndex (rn_state n1) \<le> cup_LastIndex p" "unat (cup_LastIndex p) \<le> unat (GlobalIndex e) + 2 ^ 63"
  shows "replicateDomainQuorum e False (Some p) snap backfill n1 n2 = None"
proof -
  have "unat (GlobalIndex e - cup_LastIndex p) = 2 ^ 64 + unat (GlobalIndex e) - unat (cup_LastIndex p)"
    using assms(2) unat_u64_lt [of "cup_LastIndex p"] by (simp add: unat_sub_if_size word_size word_less_nat_alt)
  then have "2 ^ 63 \<le> unat (GlobalIndex e - cup_LastIndex p)" using assms(4) by simp
  moreover have "(2 ^ 63 \<le> int m) \<longleftrightarrow> 2 ^ 63 \<le> m" for m by simp
  ultimately have "2 ^ 63 \<le> int (unat (GlobalIndex e - cup_LastIndex p))" by blast
  then have "\<not> make_ok (GlobalIndex e - cup_LastIndex p)" by (simp add: make_ok_def)
  then show ?thesis using assms(1,3)
    by (simp add: replicateDomainQuorum_def Let_def collectTailEntries_def leD not_le)
qed

section \<open>Streaming a tail into a domain\<close>

text \<open>A Domain Leader whose saves succeed and whose members confirm.\<close>

definition healthy :: "(string \<Rightarrow> bool) \<Rightarrow> RPCNode \<Rightarrow> bool" where
  "healthy acked n \<longleftrightarrow> is_domain n \<and> dli_Valid (ps_DomainLeader (rn_state n)) \<and> local_id n \<noteq> [] \<and>
     (case rn_store n of MemoryStore _ \<Rightarrow> True | FileStore _ \<Rightarrow> False) \<and> rn_pendingFast n = fmempty \<and>
     majority (length (DomainMembers (rn_config n) (local_domain n))) \<le> acks_from n acked"

text \<open>What the receiver has in common with the sender when it has reached an index: it vouches for the same
  term there, where the sender can, and what it has committed is what the sender holds.\<close>

definition reached :: "PersistentState \<Rightarrow> u64 \<Rightarrow> PersistentState \<Rightarrow> bool" where
  "reached l i s \<longleftrightarrow> wf_state s \<and> log_matching s l \<and> i \<le> LastLogIndex s \<and>
     (i \<noteq> 0 \<longrightarrow> ps_SnapshotLastIndex s \<le> i \<longrightarrow> term_at s i \<noteq> None \<and> term_at s i = term_at l i) \<and>
     (ps_SnapshotLastIndex s \<noteq> 0 \<longrightarrow>
        term_at l (ps_SnapshotLastIndex s) = None \<or> term_at l (ps_SnapshotLastIndex s) = Some (ps_SnapshotLastTerm s)) \<and>
     agree_upto (ps_KnownGlobalCommitIndex s) s l"

lemma prev_term_at:
  assumes "wf_state l" "entry_at l (i + 1) = Some e" "i \<noteq> 0"
  shows "term_at l i = Some (prev_term l (i + 1))"
proof -
  have nm: "i \<noteq> max_u64" using find_Some_index [OF assms(2)] by (auto simp: max_u64_def)
  have "1 < i + 1" using assms(3) unat_u64_plus1 [OF nm] by (simp add: word_less_nat_alt unat_gt_0)
  moreover have rng: "ps_SnapshotLastIndex l < i + 1" "i + 1 \<le> LastLogIndex l"
    using assms(1,2) by (auto simp: wf_find split: if_splits)
  have "ps_SnapshotLastIndex l \<le> i" using rng(1) unat_u64_plus1 [OF nm] by (simp add: word_le_nat_alt word_less_nat_alt)
  moreover have "i \<le> LastLogIndex l" using rng(2) unat_u64_plus1 [OF nm] by (simp add: word_le_nat_alt)
  ultimately show ?thesis
    using assms(1,3) wf_find [OF assms(1), of i] by (auto simp: term_at_def prev_term_def order_less_le)
qed

lemma append_accepts:
  assumes r: "reached l i s" and wl: "wf_state l" and e: "entry_at l (i + 1) = Some e"
  obtains s' where "appendEntryChecked s e i (prev_term l (i + 1)) = Some (s', appendAccepted)" "reached l (i + 1) s'"
proof -
  let ?p = "prev_term l (i + 1)"
  have wf: "wf_state s" and m: "log_matching s l" and last: "i \<le> LastLogIndex s"
    and known: "agree_upto (ps_KnownGlobalCommitIndex s) s l" using r by (auto simp: reached_def)
  have gi: "GlobalIndex e = i + 1" "i + 1 \<noteq> 0" using find_Some_index [OF e] by auto
  have nm: "i \<noteq> max_u64" using gi(2) by (auto simp: max_u64_def)
  note i1 = unat_u64_plus1 [OF nm]
  have room: "GlobalIndex e \<noteq> max_u64" using e gi by auto
  have tl: "term_at l (i + 1) = Some (GlobalTerm e)" using term_at_entry [OF e wl] .
  have prev: "term_at s i = Some ?p" if "i \<noteq> 0" "ps_SnapshotLastIndex s \<le> i"
    using r that prev_term_at [OF wl e that(1)] by (auto simp: reached_def)
  have le_snap: "ps_SnapshotLastIndex s \<le> i" if "\<not> GlobalIndex e \<le> ps_SnapshotLastIndex s"
    using that gi(1) i1 by (simp add: word_le_nat_alt)
  have step: "reached l (i + 1) s'"
    if a: "appendEntryChecked s e i ?p = Some (s', appendAccepted)" and snap: "ps_SnapshotLastIndex s' = ps_SnapshotLastIndex s"
      "ps_SnapshotLastTerm s' = ps_SnapshotLastTerm s" and held: "i + 1 \<le> LastLogIndex s'"
      "ps_SnapshotLastIndex s < i + 1 \<longrightarrow> (\<exists>x. entry_at s' (i + 1) = Some x \<and> GlobalTerm x = GlobalTerm e)" for s'
  proof -
    have gm: "GlobalIndex e - 1 = i" using gi by simp
    have pt: "GlobalIndex e = 1 \<or> term_at l (GlobalIndex e - 1) = Some ?p"
      using prev_term_at [OF wl e] gi by (cases "i = 0") auto
    have lm: "log_matching s' l"
      using append_matching [OF wf m _ wl room pt, unfolded gm] e gi(1) a by simp
    obtain s2 out where s2: "appendEntryChecked s e i ?p = Some (s2, out)" "wf_state s2"
      "\<forall>j. j \<le> ps_KnownGlobalCommitIndex s \<longrightarrow> entry_at s2 j = entry_at s j"
      "ps_KnownGlobalCommitIndex s2 = ps_KnownGlobalCommitIndex s"
      using appendEntryChecked_spec [OF wf room, of i ?p] by blast
    have "s2 = s'" using a s2(1) by simp
    then have wf': "wf_state s'" and k: "agree_upto (ps_KnownGlobalCommitIndex s') s' l"
      using s2 known by (auto simp: agree_upto_def)
    have tf: "term_at s' (i + 1) \<noteq> None \<and> term_at s' (i + 1) = term_at l (i + 1)" if "ps_SnapshotLastIndex s' \<le> i + 1"
    proof (cases "ps_SnapshotLastIndex s = i + 1")
      case True
      then show ?thesis using r tl gi(2) snap by (auto simp: reached_def term_at_def)
    next
      case False
      then have "ps_SnapshotLastIndex s < i + 1" using that snap(1) by simp
      then show ?thesis using held(2) term_at_entry [OF _ wf'] tl by auto
    qed
    show ?thesis
      unfolding reached_def using tf tl r wf' lm k held(1) by (simp add: snap reached_def)
  qed
  have grown: "entry_at (replace_tail e s) (i + 1) = Some e" "i + 1 \<le> LastLogIndex (replace_tail e s)" if "fits s e"
    using replace_tail_entry_at [OF wf that] wf_find [OF replace_tail_wf [OF wf that], of "i + 1"] gi
    by (auto split: if_splits)
  show thesis
  proof (cases rule: appendEntryChecked_cases [OF wf room, of i ?p, case_names held mismatch conflict overwrite extend])
    case held
    then have h: "GlobalIndex e \<le> ps_SnapshotLastIndex s \<or> (\<exists>x. entry_at s (i + 1) = Some x \<and> GlobalTerm x = GlobalTerm e)"
      using gi by auto
    have "ps_SnapshotLastIndex s \<le> LastLogIndex s" using wf by (simp add: word_le_nat_alt unat_LastLogIndex)
    then have "i + 1 \<le> LastLogIndex s" using h gi(1) wf by (auto simp: wf_find split: if_splits)
    moreover have "ps_SnapshotLastIndex s < i + 1 \<longrightarrow> (\<exists>x. entry_at s (i + 1) = Some x \<and> GlobalTerm x = GlobalTerm e)"
      using h gi(1) by (auto dest: leD)
    ultimately show thesis using that [OF held(1)] step [OF held(1)] by simp
  next
    case mismatch
    then have "\<not> GlobalIndex e \<le> ps_SnapshotLastIndex s" by (auto simp: appendEntryChecked_def)
    note sn = this le_snap [OF this]
    have pre: "\<not> (i > 0 \<and> (if i = ps_SnapshotLastIndex s then ?p \<noteq> ps_SnapshotLastTerm s
        else case entry_at s i of None \<Rightarrow> True | Some y \<Rightarrow> GlobalTerm y \<noteq> ?p))"
      using prev sn(2) by (cases "i = 0") (auto simp: term_at_def)
    have "entry_at s (i + 1) = None" "i \<noteq> LastLogIndex s"
      using mismatch sn(1) gi(1)
      by (auto simp: appendEntryChecked_def if_not_P [OF pre] Let_def split: if_splits option.splits)
    moreover have "ps_SnapshotLastIndex s < i + 1" using sn(1) gi(1) by (simp add: not_le)
    moreover have "i + 1 \<le> LastLogIndex s" if "i \<noteq> LastLogIndex s"
      using that last i1 by (simp add: word_le_nat_alt word_unat_eq_iff)
    ultimately show thesis using wf_find [OF wf, of "i + 1"] by auto
  next
    case (conflict x)
    then have "x = e" using known e gi by (auto simp: agree_upto_def)
    then show thesis using conflict(4) by simp
  next
    case (overwrite x)
    note h = grown [OF overwrite(1)]
    show thesis
      by (rule that [OF overwrite(2)], rule step [OF overwrite(2)]) (use h in \<open>auto simp: frame_simps LastLogIndex_def\<close>)
  next
    case extend
    note h = grown [OF extend(1)]
    show thesis
      by (rule that [OF extend(2)], rule step [OF extend(2)]) (use h in \<open>auto simp: frame_simps\<close>)
  qed
qed

lemma log_ops_frame:
  assumes "appendEntryChecked s e p t = Some (s', out)"
  shows "ps_DomainLeader s' = ps_DomainLeader s" "ps_GlobalTerm s' = ps_GlobalTerm s"
  using assms by (auto simp: appendEntryChecked_def rollbackQuorumAbove_def Let_def split: if_splits option.splits)

lemma replicate_healthy:
  assumes h: "healthy acked n"
    and q: "pre_SenderNodeId q = local_id n" "pre_FanoutToDomain q" "pre_GlobalTerm q \<le> ps_GlobalTerm (rn_state n)"
    and app: "appendEntryChecked (rn_state n) (entry_of q) (pre_PrevLogIndex q) (pre_PrevLogTerm q) = Some (s, appendAccepted)"
  obtains n' a where "Replicate (\<lambda>m. m) acked q n = Some (n', Inr a, None)" "healthy acked n'" "rn_local n' = rn_local n"
    "rn_state n' = s\<lparr>ps_DomainQuorumIndex := fmupd (local_domain n)
       (max (getz (ps_DomainQuorumIndex s) (local_domain n)) (GlobalIndex (entry_of q))) (ps_DomainQuorumIndex s)\<rparr>"
proof -
  let ?n1 = "n\<lparr>rn_state := s\<rparr>"
  have lead: "NodeID (ps_DomainLeader (rn_state n)) = local_id n" using h by (simp add: healthy_def is_domain_def)
  have g: "replicate_guard q n"
    using h q lead by (simp add: replicate_guard_def Let_def healthy_def replicationSenderTrustedLocked_def)
  have "replicate_begin q n \<noteq> None"
    by (auto simp: replicate_begin_def Let_def app split: prod.splits option.splits)
  then obtain n0 r where b: "replicate_begin q n = Some (n0, r)" by auto
  have n0: "n0 = ?n1 \<and> r = FanOut"
    using b
  proof (cases rule: replicate_begin_cases)
    case refused
    then show ?thesis using g by simp
  next
    case (deferred s' pf)
    then show ?thesis using app h by (auto simp: healthy_def)
  qed (use app q in auto)
  let ?n2 = "raise_mark (local_domain n) (GlobalIndex (entry_of q)) ?n1"
  obtain m where m: "rn_store n = MemoryStore m" using h by (auto simp: healthy_def split: Store.splits)
  have st: "rn_store ?n2 = MemoryStore m" using m by (simp add: raise_mark_def Let_def)
  define n3 where "n3 = ?n2\<lparr>rn_store := MemoryStore (Clone (rn_state ?n2))\<rparr>"
  have per: "rpc_persistLocked ?n2 = (n3, None)"
    by (simp add: rpc_persistLocked_def st MemoryStore_Save_def n3_def)
  have pend: "rn_pendingFast ?n2 = fmempty" using h by (simp add: raise_mark_def Let_def healthy_def)
  have "acks_from ?n1 acked = acks_from n acked" by (simp add: acks_from_def)
  then have fin: "replicate_finish (entry_of q) (acks_from ?n1 acked) ?n1 = Some (n3, Inr (mk_ack n3 (entry_of q) True), None)"
    using h pend per by (simp add: replicate_finish_def Let_def healthy_def)
  have frame: "rn_config n3 = rn_config n" "rn_local n3 = rn_local n" "rn_pendingFast n3 = fmempty"
    "rn_domainRole n3 = rn_domainRole n" "ps_DomainLeader (rn_state n3) = ps_DomainLeader (rn_state n)"
    using pend log_ops_frame(1) [OF app] by (simp_all add: n3_def raise_mark_def Let_def)
  have "healthy acked n3"
    using h by (simp add: healthy_def is_domain_def frame acks_from_def) (simp add: n3_def)
  moreover have "Replicate (\<lambda>m. m) acked q n = Some (n3, Inr (mk_ack n3 (entry_of q) True), None)"
    using b n0 fin by (simp add: Replicate_def)
  ultimately show thesis
    using that frame(2) by (simp add: n3_def raise_mark_def Let_def)
qed

text \<open>Entries that follow one another in the sender's log.\<close>

fun chain :: "PersistentState \<Rightarrow> u64 \<Rightarrow> LogEntry list \<Rightarrow> bool" where
  "chain l i [] \<longleftrightarrow> True"
| "chain l i (e # es) \<longleftrightarrow> entry_at l (i + 1) = Some e \<and> chain l (i + 1) es"

lemma chain_drop:
  assumes "wf_state l" "ps_SnapshotLastIndex l \<le> i" "i \<le> LastLogIndex l"
  shows "chain l i (take k (drop (unat i - unat (ps_SnapshotLastIndex l)) (ps_Log l)))"
  using assms(2,3)
proof (induction k arbitrary: i)
  case (Suc k)
  show ?case
  proof (cases "i = LastLogIndex l")
    case True
    then show ?thesis using unat_LastLogIndex [OF assms(1)] by simp
  next
    case False
    then have lt: "i < LastLogIndex l" using Suc.prems by simp
    then have nm: "i \<noteq> max_u64" using unat_u64_lt [of "LastLogIndex l"]
      by (auto simp: word_less_nat_alt unat_max_u64_const)
    note i1 = unat_u64_plus1 [OF nm]
    have r: "ps_SnapshotLastIndex l < i + 1" "i + 1 \<le> LastLogIndex l"
      using Suc.prems lt i1 by (simp_all add: word_less_nat_alt word_le_nat_alt)
    obtain x where x: "entry_at l (i + 1) = Some x"
      "drop (unat (i + 1) - unat (ps_SnapshotLastIndex l) - 1) (ps_Log l) =
         x # drop (unat (i + 1 + 1) - unat (ps_SnapshotLastIndex l) - 1) (ps_Log l)" "unat (i + 1 + 1) = unat (i + 1) + 1"
      using log_next [OF assms(1) r] by metis
    then show ?thesis using Suc.IH [of "i + 1"] r i1 by (simp add: order_less_imp_le)
  qed
qed simp

lemma reached_mark [simp]: "reached l i (s\<lparr>ps_DomainQuorumIndex := q\<rparr>) = reached l i s"
  by (simp add: reached_def wf_state_def log_matching_def term_at_def agree_upto_def LastLogIndex_def)

lemma entry_of_tail:
  assumes "Result e = commandResult (Cmd e)"
  shows "entry_of ((tail_request l e)\<lparr>pre_ReplyRoute := r, pre_SenderNodeId := i, pre_FanoutToDomain := b\<rparr>) = e"
proof -
  have "commandResult \<lparr>Key = Key (Cmd e), Val = Val (Cmd e)\<rparr> = commandResult (Cmd e)" by (rule arg_cong) simp
  then show ?thesis using assms
    by (intro LogEntry.equality) (simp_all add: tail_request_def entry_request_def entry_of_def)
qed

lemma catch_up_chain:
  assumes "wf_state l" "\<forall>e \<in> set es. Result e = commandResult (Cmd e) \<and> GlobalTerm e \<le> ps_GlobalTerm (rn_state n)"
    and "reached l i (rn_state n)" "chain l i es" "healthy acked n"
  shows "\<exists>n'. catch_up_loop (\<lambda>m. m) acked (map (tail_request l) es) n = Some n' \<and> reached l (i + of_nat (length es)) (rn_state n') \<and>
     local_domain n' = local_domain n \<and>
     (es \<noteq> [] \<longrightarrow> i + of_nat (length es) \<le> getz (ps_DomainQuorumIndex (rn_state n')) (local_domain n))"
  using assms(2-5)
proof (induction es arbitrary: i n)
  case (Cons e es)
  have e: "entry_at l (i + 1) = Some e" and ch: "chain l (i + 1) es" using Cons.prems(3) by auto
  have gi: "GlobalIndex e = i + 1" using find_Some_index [OF e] by auto
  obtain s' where s': "appendEntryChecked (rn_state n) e i (prev_term l (i + 1)) = Some (s', appendAccepted)" "reached l (i + 1) s'"
    using append_accepts [OF Cons.prems(2) assms(1) e] .
  let ?q = "(tail_request l e)\<lparr>pre_ReplyRoute := [], pre_SenderNodeId := local_id n, pre_FanoutToDomain := True\<rparr>"
  have q: "entry_of ?q = e" "pre_PrevLogIndex ?q = i" "pre_PrevLogTerm ?q = prev_term l (i + 1)"
    "pre_GlobalTerm ?q = GlobalTerm e" "pre_SenderNodeId ?q = local_id n" "pre_FanoutToDomain ?q"
    using Cons.prems(1) gi by (simp_all add: entry_of_tail) (simp_all add: tail_request_def entry_request_def)
  obtain n1 a where n1: "Replicate (\<lambda>m. m) acked ?q n = Some (n1, Inr a, None)" "healthy acked n1" "rn_local n1 = rn_local n"
    "rn_state n1 = s'\<lparr>ps_DomainQuorumIndex := fmupd (local_domain n)
       (max (getz (ps_DomainQuorumIndex s') (local_domain n)) (GlobalIndex e)) (ps_DomainQuorumIndex s')\<rparr>"
    using replicate_healthy [OF Cons.prems(4), of ?q s'] q s'(1) Cons.prems(1) by auto
  have "reached l (i + 1) (rn_state n1)" "ps_GlobalTerm (rn_state n1) = ps_GlobalTerm (rn_state n)"
    using n1(4) s'(2) log_ops_frame(2) [OF s'(1)] by simp_all
  then obtain n' where n': "catch_up_loop (\<lambda>m. m) acked (map (tail_request l) es) n1 = Some n'"
      "reached l (i + 1 + of_nat (length es)) (rn_state n')" "local_domain n' = local_domain n1"
      "es \<noteq> [] \<longrightarrow> i + 1 + of_nat (length es) \<le> getz (ps_DomainQuorumIndex (rn_state n')) (local_domain n1)"
    using Cons.IH [of n1 "i + 1"] Cons.prems(1) ch n1(2) by auto
  show ?case
    using n1(1,3,4) n' gi by (cases "es = []") (auto simp: getz_def ac_simps)
qed simp

lemma reached_same:
  assumes "reached l b s" "wf_state l" "b \<le> LastLogIndex l" "i \<le> b" "ps_SnapshotLastIndex s < i" "ps_SnapshotLastIndex l < i"
  shows "entry_at s i = entry_at l i"
proof -
  have wf: "wf_state s" and m: "log_matching s l" and b: "b \<le> LastLogIndex s" using assms(1) by (auto simp: reached_def)
  have "b \<noteq> 0" "ps_SnapshotLastIndex s \<le> b" using assms(4,5) by auto
  then obtain t where "term_at s b = Some t" "term_at l b = Some t" using assms(1) by (auto simp: reached_def)
  then have "agree_upto b s l" using m by (auto simp: log_matching_def)
  moreover have "i \<le> LastLogIndex s" "i \<le> LastLogIndex l" using assms(3,4) b by auto
  then have "entry_at s i \<noteq> None" "entry_at l i \<noteq> None"
    using wf_find [OF wf, of i] wf_find [OF assms(2), of i] assms(5,6) by auto
  ultimately show ?thesis using assms(4) by (auto simp: agree_upto_def)
qed

text \<open>Streaming the tail to a healthy Domain Leader brings its quorum mark to the last entry and makes the two
  logs equal up to it.\<close>

lemma backfill_reaches_barrier:
  assumes g: "wf_state (rn_state g)" "ps_SnapshotLastIndex (rn_state g) \<le> after" "barrier \<le> LastLogIndex (rn_state g)"
    "after < barrier" "unat barrier < unat after + 2 ^ 63"
    and entries: "\<forall>e \<in> set (ps_Log (rn_state g)).
       Result e = commandResult (Cmd e) \<and> GlobalTerm e \<le> ps_GlobalTerm (rn_state n)"
    and n: "healthy acked n" "gli_Valid (rn_globalLeader n)" "reached (rn_state g) after (rn_state n)"
  shows "\<exists>tail n' r. collectTailEntries after barrier g = Some tail \<and> catchUp (\<lambda>m. m) acked tail n = Some (n', Inr r) \<and>
     barrier \<le> cup_DomainQuorumIndex r \<and> barrier \<le> cup_LastIndex r \<and>
     (\<forall>i. i \<le> barrier \<longrightarrow> ps_SnapshotLastIndex (rn_state n') < i \<longrightarrow> ps_SnapshotLastIndex (rn_state g) < i \<longrightarrow>
        entry_at (rn_state n') i = entry_at (rn_state g) i)"
proof -
  let ?l = "rn_state g" and ?es = "between (rn_state g) after barrier"
  have "length ?es = unat barrier - unat after"
    using g(2-4) unat_LastLogIndex [OF g(1)] by (simp add: between_def word_le_nat_alt word_less_nat_alt)
  then have len: "after + of_nat (length ?es) = barrier" "?es \<noteq> []"
    using g(4) by (auto simp: word_less_nat_alt of_nat_diff)
  have "after \<le> LastLogIndex ?l" using g(3,4) by simp
  then have ch: "chain ?l after ?es" using chain_drop [OF g(1,2)] g(2) by (simp add: between_def leD)
  have sub: "set ?es \<subseteq> set (ps_Log ?l)" by (auto simp: between_def dest: in_set_takeD in_set_dropD)
  then have es: "\<forall>e \<in> set ?es. Result e = commandResult (Cmd e) \<and> GlobalTerm e \<le> ps_GlobalTerm (rn_state n)"
    using entries by auto
  obtain n' where n': "catch_up_loop (\<lambda>m. m) acked (map (tail_request ?l) ?es) n = Some n'" "reached ?l barrier (rn_state n')"
    "local_domain n' = local_domain n" "barrier \<le> getz (ps_DomainQuorumIndex (rn_state n')) (local_domain n)"
    using catch_up_chain [OF g(1) es n(3) ch n(1)] len by auto
  have "List.find (\<lambda>q. pre_GlobalTerm q > ps_GlobalTerm (rn_state n)) (map (tail_request ?l) ?es) = None"
    using es by (auto simp: find_None_iff tail_request_def entry_request_def leD)
  then have "catch_up_begin (map (tail_request ?l) ?es) n = None"
    using n by (simp add: catch_up_begin_def healthy_def)
  moreover have "collectTailEntries after barrier g = Some (map (tail_request ?l) ?es)"
    using tail_spec [OF g(1) _ g(5)] g(4) by simp
  moreover have "barrier \<le> LastGlobalIndex (Summary (rn_state n'))"
    using n'(2) Summary_index [of "rn_state n'"] by (simp add: reached_def)
  ultimately show ?thesis
    using n'(1,3,4) reached_same [OF n'(2) g(1,3)] by (simp add: catchUp_def)
qed

end
