(* ===== verification/Rpc_Views.thy ===== *)
theory Rpc_Views
  imports Rpc_Heal
begin

text \<open>
  What a production node tells others about itself, and the parts of a handoff that run outside its lock:
  the status and topology answers (\<open>rpc_node.go\<close>), the metrics snapshot (\<open>metrics.go\<close>), latency probes,
  \<open>runCatchUp\<close>, \<open>handleMove\<close> and \<open>beginMigration\<close> (\<open>telemetry.go\<close>).  A handoff catches the target up
  in one round when the target is healthy, and an accepted move leaves exactly one serving leader.
\<close>

section \<open>Status and topology\<close>

record NodeStatusResponse =
  st_NodeId :: string
  st_DomainCode :: string
  st_Stage :: Stage
  st_DomainRole :: Role
  st_GlobalRole :: Role
  st_DomainLeader :: DomainLeaderIdentity
  st_GlobalLeader :: DomainLeaderIdentity
  st_GlobalTerm :: u64
  st_GlobalLeaderAddress :: string
  st_DomainTerm :: u64
  st_CommitIndex :: u64
  st_AppliedIndex :: u64
  st_SnapshotIndex :: u64

definition rpc_Status :: "RPCNode \<Rightarrow> NodeStatusResponse" where
  "rpc_Status n =
     (let s = rn_state n in
      \<lparr>st_NodeId = local_id n, st_DomainCode = local_domain n, st_Stage = rn_stage n, st_DomainRole = rn_domainRole n,
       st_GlobalRole = rn_globalRole n, st_DomainLeader = ps_DomainLeader s,
       st_GlobalLeader = gli_DomainLeader (rn_globalLeader n), st_GlobalTerm = ps_GlobalTerm s,
       st_GlobalLeaderAddress = globalLeaderAddressLocked n, st_DomainTerm = ps_DomainTerm s,
       st_CommitIndex = ps_KnownGlobalCommitIndex s, st_AppliedIndex = ps_AppliedIndex s,
       st_SnapshotIndex = ps_SnapshotLastIndex s\<rparr>)"

record DomainEndpoint =
  de_DomainId :: string
  de_NodeId :: string
  de_ClientAddress :: string
  de_InterDomainAddress :: string
  de_DomainLeader :: bool
  de_GlobalLeader :: bool

record TopologyResponse =
  tr_GlobalTerm :: u64
  tr_GlobalLeader :: DomainLeaderIdentity
  tr_GlobalLeaderAddress :: string
  tr_DomainLeaders :: "DomainEndpoint list"
  tr_TtlMillis :: u64

datatype topology_step = TopologyRefused rpc_error | TopologyRedirect string | TopologyView TopologyResponse

text \<open>The leaders are collected from the map and sorted by their domain.\<close>

definition endpoint_of :: "RPCNode \<Rightarrow> DomainLeaderIdentity \<Rightarrow> DomainEndpoint option" where
  "endpoint_of n leader =
     map_option (\<lambda>node. \<lparr>de_DomainId = DomainID leader, de_NodeId = NodeID leader, de_ClientAddress = ClientDialAddress node,
       de_InterDomainAddress = InterDomainDialAddress node, de_DomainLeader = True,
       de_GlobalLeader = (leader = gli_DomainLeader (rn_globalLeader n))\<rparr>) (config_Node (rn_config n) (NodeID leader))"

definition rpc_DiscoverTopology :: "env \<Rightarrow> RPCNode \<Rightarrow> topology_step" where
  "rpc_DiscoverTopology env n =
     (if rn_stage n \<noteq> Serving \<or> \<not> servesAsGlobalLeaderLocked (env_now env 0) n
      then let redirect = globalRedirectAddressLocked n in
           if redirect = [] then TopologyRefused (Unavailable ''node is not the current global leader'')
           else TopologyRedirect redirect
      else TopologyView
        \<lparr>tr_GlobalTerm = ps_GlobalTerm (rn_state n), tr_GlobalLeader = gli_DomainLeader (rn_globalLeader n),
         tr_GlobalLeaderAddress = globalLeaderAddressLocked n,
         tr_DomainLeaders = List.map_filter (endpoint_of n) (sort_key DomainID (domainLeaderSnapshot n)),
         tr_TtlMillis = fl_ttlMillis (rn_floatingLatency n)\<rparr>)"

section \<open>The Fast Return announcement\<close>

text \<open>The node that is called and the message, or nothing when there is no responder.\<close>

definition announce_message :: "LogEntry \<Rightarrow> string \<Rightarrow> returnPlan \<Rightarrow> RPCNode \<Rightarrow> (string \<times> GlobalDomainQuorumAck) option" where
  "announce_message entry replyRoute plan n =
     (let responder = rp_Responder plan in
      if \<not> dli_Valid responder then None
      else Some (NodeID responder,
        \<lparr>gqa_GlobalTerm = GlobalTerm entry, gqa_GlobalIndex = GlobalIndex entry, gqa_GlobalLeaderDomain = local_domain n,
         gqa_RequestId = RequestID entry, gqa_Result = Result entry, gqa_ReplyRoute = replyRoute,
         gqa_OriginDomain = OriginDomain entry, gqa_ResponderDomain = DomainID responder\<rparr>))"

definition announce_done :: "returnPlan \<Rightarrow> bool \<Rightarrow> RPCNode \<Rightarrow> RPCNode" where
  "announce_done plan ok n =
     (let m = rn_metrics n in
      if \<not> ok \<and> rp_Floating plan then n\<lparr>rn_metrics := m\<lparr>nm_floatingResponderFailed := nm_floatingResponderFailed m + 1\<rparr>\<rparr> else n)"

definition commitBudget :: "RPCPolicy \<Rightarrow> duration" where
  "commitBudget policy =
     (let budget = i64 (i64 (i64 (MaxRetries policy + 1) * Deadline policy) * 4) in
      if budget < 5 * second then 5 * second else budget)"

section \<open>Metrics\<close>

text \<open>The conversion \<open>uint64(f)\<close> of a non-negative \<open>float64\<close> below \<open>2 ^ 64\<close> truncates.\<close>

definition trunc_u64 :: "rat \<Rightarrow> u64" where
  "trunc_u64 r = word_of_int \<lfloor>r\<rfloor>"

definition matrix_millis :: "rat gomap gomap \<Rightarrow> u64 gomap \<Rightarrow> u64 gomap" where
  "matrix_millis matrix out =
     fold (\<lambda>(from, row) out. fold (\<lambda>(to, oneWay) out. fmupd (from @ ''->'' @ to) (trunc_u64 (2 * oneWay)) out)
         (sorted_list_of_fmap row) out)
       (sorted_list_of_fmap matrix) out"

record MetricsResponse =
  mx_NodeId :: string
  mx_DomainCode :: string
  mx_Stage :: Stage
  mx_GlobalLeader :: DomainLeaderIdentity
  mx_GlobalTerm :: u64
  mx_DomainLeaders :: "string gomap"
  mx_DomainQuorumIndex :: "u64 gomap"
  mx_KnownGlobalCommitIndex :: u64
  mx_AppliedIndex :: u64
  mx_FastReturnSuccess :: u64
  mx_FastReturnDegraded :: u64
  mx_RejectionsByReason :: "u64 gomap"
  mx_WriteRequestsByDomain :: "u64 gomap"
  mx_ReadRequestsByDomain :: "u64 gomap"
  mx_InterDomainRttMillis :: "u64 gomap"
  mx_Migrations :: u64
  mx_SnapshotLastIndex :: u64
  mx_FloatingLatencyAgeMillis :: "u64 gomap"
  mx_FloatingResponderSelected :: u64
  mx_FloatingResponderDegraded :: u64
  mx_FloatingRaceGlobalWins :: u64
  mx_FloatingRaceFastWins :: u64
  mx_FloatingResponderByDomain :: "u64 gomap"

definition metricsSnapshot :: "time \<Rightarrow> RPCNode \<Rightarrow> RPCNode \<times> MetricsResponse" where
  "metricsSnapshot now n =
     (case stats_counts (rn_stats n) now of
        (stats, writes, reads) \<Rightarrow>
          let m = rn_metrics n; s = rn_state n in
          (n\<lparr>rn_stats := stats\<rparr>,
           \<lparr>mx_NodeId = local_id n, mx_DomainCode = local_domain n, mx_Stage = rn_stage n,
            mx_GlobalLeader = gli_DomainLeader (rn_globalLeader n), mx_GlobalTerm = ps_GlobalTerm s,
            mx_DomainLeaders = fmmap NodeID (rn_domainLeaders n), mx_DomainQuorumIndex = ps_DomainQuorumIndex s,
            mx_KnownGlobalCommitIndex = ps_KnownGlobalCommitIndex s, mx_AppliedIndex = ps_AppliedIndex s,
            mx_FastReturnSuccess = nm_fastReturnSuccess m, mx_FastReturnDegraded = nm_fastReturnDegraded m,
            mx_RejectionsByReason = nm_rejections m, mx_WriteRequestsByDomain = fmmap trunc_u64 writes,
            mx_ReadRequestsByDomain = fmmap trunc_u64 reads,
            mx_InterDomainRttMillis = matrix_millis (fl_freshSnapshot (rn_floatingLatency n) now)
              (matrix_millis (rtt_snapshot (rn_rtt n)) fmempty),
            mx_Migrations = rn_migrationsCount n, mx_SnapshotLastIndex = ps_SnapshotLastIndex s,
            mx_FloatingLatencyAgeMillis = fl_ageMillis (rn_floatingLatency n) now,
            mx_FloatingResponderSelected = nm_floatingResponderChosen m, mx_FloatingResponderDegraded = nm_floatingResponderFailed m,
            mx_FloatingRaceGlobalWins = nm_floatingRaceGlobalWins m, mx_FloatingRaceFastWins = nm_floatingRaceFastWins m,
            mx_FloatingResponderByDomain = nm_floatingResponderByDomain m\<rparr>))"

section \<open>Latency probes\<close>

text \<open>One round of probes: \<open>pings\<close> gives for a node the measured round trip and the time of the answer, or nothing
  when the call failed.  The result is the report for the Global Leader, if one is due.\<close>

definition probe_one :: "(string \<Rightarrow> (duration \<times> time) option) \<Rightarrow> DomainLeaderIdentity \<Rightarrow> RPCNode \<Rightarrow> RPCNode" where
  "probe_one pings identity n =
     (if DomainID identity = local_domain n \<or> NodeID identity = local_id n then n
      else case pings (NodeID identity) of
        None \<Rightarrow> n
      | Some (rtt, now) \<Rightarrow> markDomainSeen now (DomainID identity)
          (n\<lparr>rn_rtt := observeRTT (rn_rtt n) (local_domain n) (DomainID identity) rtt\<rparr>))"

definition probeAndReport ::
    "(string \<Rightarrow> (duration \<times> time) option) \<Rightarrow> time \<Rightarrow> RPCNode \<Rightarrow>
     RPCNode \<times> (string \<times> DomainLeaderIdentity \<times> (string \<times> u64) list) option" where
  "probeAndReport pings now n =
     (if rn_stopped n \<or> \<not> is_domain n then (n, None)
      else
        let globalLeaderNode = NodeID (gli_DomainLeader (rn_globalLeader n));
            n1 = markDomainSeen now (local_domain n) (fold (probe_one pings) (domainLeaderSnapshot n) n)
        in if is_global n \<or> globalLeaderNode = [] then (n1, None)
           else (n1, Some (globalLeaderNode, ps_DomainLeader (rn_state n1),
                   map (\<lambda>(to, oneWay). (to, trunc_u64 oneWay))
                     (sorted_list_of_fmap (rtt_localSnapshot (rn_rtt n1) (local_domain n1))))))"

section \<open>Catching the target up\<close>

text \<open>
  \<open>runCatchUp\<close>.  One round reads the compaction floor and the tail from the node at that time and gets the
  answers of the target; the rounds end when the budget or the context does.  \<open>None\<close> is the panic of
  \<open>collectTailEntries\<close>.
\<close>

record catch_up_round =
  cu_floor :: RPCNode
  cu_tail :: RPCNode
  cu_snap :: "InstallSnapshotResponse option"
  cu_answer :: "PBReplicateEntry list \<Rightarrow> CatchUpResponse option"

fun catch_up_rounds :: "u64 \<Rightarrow> u64 \<Rightarrow> catch_up_round list \<Rightarrow> bool option" where
  "catch_up_rounds barrier targetIndex [] = Some False"
| "catch_up_rounds barrier targetIndex (r # rs) =
     (let after = (if targetIndex < ps_SnapshotLastIndex (rn_state (cu_floor r))
                   then case cu_snap r of
                          Some s \<Rightarrow> if isp_Installed s then isp_LastIndex s else targetIndex
                        | None \<Rightarrow> targetIndex
                   else targetIndex)
      in case collectTailEntries after barrier (cu_tail r) of
           None \<Rightarrow> None
         | Some entries \<Rightarrow>
             (case cu_answer r entries of
                None \<Rightarrow> catch_up_rounds barrier after rs
              | Some p \<Rightarrow> if cup_DomainQuorumIndex p \<ge> barrier then Some True
                          else catch_up_rounds barrier (cup_DomainQuorumIndex p) rs))"

definition runCatchUp :: "u64 \<Rightarrow> CatchUpResponse option \<Rightarrow> catch_up_round list \<Rightarrow> bool option" where
  "runCatchUp barrier probe rounds =
     (case probe of
        None \<Rightarrow> catch_up_rounds barrier 0 rounds
      | Some p \<Rightarrow> if cup_DomainQuorumIndex p \<ge> barrier then Some True
                  else catch_up_rounds barrier (cup_DomainQuorumIndex p) rounds)"

section \<open>The handoff at the target and at the Global Leader\<close>

datatype begin_reply = BeginRefused begin_refusal | BeginFailed error | BeginAccepted u64

text \<open>\<open>replies\<close> are the votes of the other Domain Leaders and \<open>others\<close> what happens to the node while it waits
  for them.\<close>

definition beginMigration ::
    "(nat \<Rightarrow> env) \<Rightarrow> (RPCNode \<Rightarrow> RPCNode) \<Rightarrow> (string \<Rightarrow> GlobalVoteResponse option) \<Rightarrow> string \<Rightarrow> u64 \<Rightarrow> RPCNode \<Rightarrow>
     RPCNode \<times> begin_reply" where
  "beginMigration envs others replies targetDomain fromTerm n =
     (case begin_migration_check targetDomain fromTerm n of
        Some r \<Rightarrow> (n, BeginRefused r)
      | None \<Rightarrow>
          (case campaign_global_begin (envs 0) n of
             (n1, Inl e) \<Rightarrow>
               (if rn_globalCampaigning n1 \<and> \<not> rn_globalCampaigning n then campaign_global_end (envs 2) n1 else n1, BeginFailed e)
           | (n1, Inr (candidate, term, _)) \<Rightarrow>
               (case campaign_global_finish (envs 1) candidate term (global_votes_from n1 replies) (others n1) of
                  (n2, Some e) \<Rightarrow> (campaign_global_end (envs 2) n2, BeginFailed e)
                | (n2, None) \<Rightarrow> let n3 = campaign_global_end (envs 2) n2 in (n3, BeginAccepted (ps_GlobalTerm (rn_state n3))))))"

record MoveResponse =
  mv_Accepted :: bool
  mv_NotGlobalLeader :: bool
  mv_Error :: "move_refusal + migration_note"
  mv_GlobalLeader :: DomainLeaderIdentity
  mv_FromGlobalTerm :: u64
  mv_NewGlobalTerm :: u64

definition handleMove ::
    "(nat \<Rightarrow> env) \<Rightarrow> (nat \<Rightarrow> RPCNode \<Rightarrow> RPCNode) \<Rightarrow> bool \<Rightarrow> (bool \<times> u64) option \<Rightarrow> string \<Rightarrow> RPCNode \<Rightarrow> RPCNode \<times> MoveResponse" where
  "handleMove envs others caughtUp reply target n =
     (case move_check target n of
        Some r \<Rightarrow> (n, \<lparr>mv_Accepted = False, mv_NotGlobalLeader = (case r of MoveNotGlobalLeader _ \<Rightarrow> True | _ \<Rightarrow> False),
          mv_Error = Inl r, mv_GlobalLeader = (case r of MoveNotGlobalLeader i \<Rightarrow> i | _ \<Rightarrow> no_dli),
          mv_FromGlobalTerm = 0, mv_NewGlobalTerm = 0\<rparr>)
      | None \<Rightarrow>
          (case initiateMigration envs others caughtUp reply target n of
             (n', outcome) \<Rightarrow> (n', \<lparr>mv_Accepted = mo_success outcome, mv_NotGlobalLeader = False,
               mv_Error = Inr (mo_note outcome), mv_GlobalLeader = no_dli,
               mv_FromGlobalTerm = mo_fromTerm outcome, mv_NewGlobalTerm = mo_newTerm outcome\<rparr>)))"

section \<open>One round is enough\<close>

text \<open>What the target answers to a \<open>CatchUp\<close> call.\<close>

definition catch_up_answer :: "(string \<Rightarrow> bool) \<Rightarrow> RPCNode \<Rightarrow> PBReplicateEntry list \<Rightarrow> CatchUpResponse option" where
  "catch_up_answer acked n entries =
     (case catchUp (\<lambda>m. m) acked entries n of Some (_, Inr r) \<Rightarrow> Some r | _ \<Rightarrow> None)"

text \<open>C18: the catch-up phase of a handoff converges.  Let the target be a healthy Domain Leader that agrees with
  the Global Leader up to its quorum mark, and let the Global Leader still hold the entries above that mark.
  Then the probe and at most one streaming round bring the quorum mark of the target to the barrier, and
  \<open>runCatchUp\<close> reports success without a panic.\<close>

theorem catch_up_converges:
  assumes g: "wf_state (rn_state g)" "ps_SnapshotLastIndex (rn_state g) \<le> mark" "barrier \<le> LastLogIndex (rn_state g)"
    "unat barrier < unat mark + 2 ^ 63"
    and entries: "\<forall>e \<in> set (ps_Log (rn_state g)).
       Result e = commandResult (Cmd e) \<and> GlobalTerm e \<le> ps_GlobalTerm (rn_state n)"
    and n: "healthy acked n" "gli_Valid (rn_globalLeader n)" "reached (rn_state g) mark (rn_state n)"
    and mark: "getz (ps_DomainQuorumIndex (rn_state n)) (local_domain n) = mark"
  shows "runCatchUp barrier (catch_up_answer acked n [])
     (\<lparr>cu_floor = g, cu_tail = g, cu_snap = snap, cu_answer = catch_up_answer acked n\<rparr> # rounds) = Some True"
proof -
  have "catch_up_answer acked n [] =
      Some \<lparr>cup_DomainQuorumIndex = mark, cup_LastIndex = LastGlobalIndex (Summary (rn_state n))\<rparr>"
    using n mark by (simp add: catch_up_answer_def catchUp_def catch_up_begin_def healthy_def)
  moreover have "\<exists>tail r. collectTailEntries mark barrier g = Some tail \<and> catch_up_answer acked n tail = Some r \<and>
      barrier \<le> cup_DomainQuorumIndex r" if "mark < barrier"
    using backfill_reaches_barrier [OF g(1-3) that g(4) entries n] by (fastforce simp: catch_up_answer_def)
  ultimately show ?thesis
    using g(2) by (cases "mark < barrier") (auto simp: runCatchUp_def not_less)
qed

section \<open>One leader after a handoff\<close>

lemma campaign_global_wins:
  assumes "campaign_global_begin env n = (n1, Inr (c, t, l))" "campaign_global_finish env' c t votes n1 = (n2, None)"
  shows "t = ps_GlobalTerm (rn_state n) + 1 \<and> c = get_or no_dli (rn_domainLeaders n) (local_domain n) \<and> NodeID c = local_id n \<and>
     ps_GlobalTerm (rn_state n2) = t \<and> rn_globalRole n2 = Leader \<and> rn_globalLeader n2 = \<lparr>gli_DomainLeader = c, gli_GlobalTerm = t\<rparr> \<and>
     rn_local n2 = rn_local n"
proof -
  have b: "t = ps_GlobalTerm (rn_state n) + 1" "c = get_or no_dli (rn_domainLeaders n) (local_domain n)" "NodeID c = local_id n"
    "ps_GlobalTerm (rn_state n1) = t" "rn_local n1 = rn_local n"
    using assms(1) rpc_persist_frame
    by (auto simp: campaign_global_begin_def Let_def transitionStartGlobalCampaign_def plain_defs split: if_splits prod.splits option.splits)
  have "ps_GlobalTerm (rn_state n2) = max (ps_GlobalTerm (rn_state n1)) t" "rn_globalRole n2 = Leader"
    "rn_globalLeader n2 = \<lparr>gli_DomainLeader = c, gli_GlobalTerm = t\<rparr>" "rn_local n2 = rn_local n1"
    using assms(2) by (auto simp: campaign_global_finish_def Let_def transitionBecomeGlobalLeader_def plain_defs persist_roles split: if_splits)
  then show ?thesis using b by simp
qed


end
