(* ===== verification/Rpc_Scenarios.thy ===== *)
theory Rpc_Scenarios
  imports Rpc_Views
begin

text \<open>
  Concrete runs of production nodes, evaluated in the kernel: the nodes of the configuration with domains
  \<open>a\<close> (one node), \<open>b\<close> (three) and \<open>c\<close> (one).  They show that the hypotheses of the theorems about the
  production node can hold, and that three guarantees its comments claim do not.
\<close>

section \<open>Nodes and elections\<close>

text \<open>A copy through JSON is evaluated by what it has been proved to compute.\<close>

declare Clone_eq [code]

definition at :: "int \<Rightarrow> env" where
  "at ms = \<lparr>env_now = \<lambda>_. ms * millisecond, env_rand = \<lambda>_. 0\<rparr>"

definition boot :: "string \<Rightarrow> RPCNode" where
  "boot i = the (rpc_Run (fst (rpc_Start (at 0) True True (projr (NewRPCNode ex_config i None)))))"

lemma new_node: "config_Node ex_config i = Some l \<Longrightarrow> store_Load st = Inr s \<Longrightarrow>
    NewRPCNode ex_config i (Some st) = Inr (fresh_node ex_config l st s)"
  by (simp add: NewRPCNode_def ex_config_valid)

lemma boot_code [code]: "boot i = the (rpc_Run (fst (rpc_Start (at 0) True True
    (case config_Node ex_config i of
       None \<Rightarrow> projr (Inl (UnknownNode i))
     | Some l \<Rightarrow> fresh_node ex_config l (MemoryStore NewMemoryStore) (projr (MemoryStore_Load NewMemoryStore))))))"
proof -
  have "\<exists>s. MemoryStore_Load NewMemoryStore = Inr s" by (simp add: NewMemoryStore_def MemoryStore_Load_def)
  then show ?thesis by (auto simp: boot_def NewRPCNode_def ex_config_valid split: option.splits)
qed

definition leader_of :: "string \<Rightarrow> string \<Rightarrow> DomainLeaderIdentity" where
  "leader_of d i = \<lparr>DomainID = d, NodeID = i, DomainTerm = 1\<rparr>"

definition idA :: DomainLeaderIdentity where "idA = leader_of ''a'' ''a1''"
definition idB :: DomainLeaderIdentity where "idB = leader_of ''b'' ''b1''"
definition idC :: DomainLeaderIdentity where "idC = leader_of ''c'' ''c1''"

text \<open>A node that wins its domain with the given number of votes and learns the other Domain Leaders.\<close>

definition win_domain :: "nat \<Rightarrow> RPCNode \<Rightarrow> RPCNode" where
  "win_domain votes n =
     (let n1 = fst (campaign_domain_begin n);
          n2 = fst (campaign_domain_finish (at 0) (ps_DomainTerm (rn_state n1)) votes n1);
          n3 = publishDomainReady (campaign_domain_end (at 0) n2)
      in fold (\<lambda>i m. fst (PublishReady (at 0) (Some i) m)) [idA, idB, idC] n3)"

definition leadA :: RPCNode where "leadA = win_domain 1 (boot ''a1'')"
definition leadB :: RPCNode where "leadB = win_domain 2 (boot ''b1'')"
definition leadC :: RPCNode where "leadC = win_domain 1 (boot ''c1'')"

definition ask :: "DomainLeaderIdentity \<Rightarrow> u64 \<Rightarrow> PBGlobalVoteRequest" where
  "ask i t = \<lparr>pgv_Candidate = Some i, pgv_GlobalTerm = t, pgv_Log = Some \<lparr>LastGlobalTerm = 0, LastGlobalIndex = 0\<rparr>,
     pgv_LeadershipTransfer = False\<rparr>"

definition run_global :: "int \<Rightarrow> nat \<Rightarrow> DomainLeaderIdentity \<Rightarrow> RPCNode \<Rightarrow> RPCNode" where
  "run_global ms votes i n =
     (let n1 = fst (campaign_global_begin (at ms) n)
      in campaign_global_end (at ms) (fst (campaign_global_finish (at ms) i (ps_GlobalTerm (rn_state n1)) votes n1)))"

text \<open>\<open>a1\<close> is elected with the vote of \<open>b1\<close>.\<close>

definition voteB :: "RPCNode \<times> GlobalVoteResponse" where
  "voteB = RequestVoteGlobalInternal (at 0) (ask idA 1) leadB"

definition globalA :: RPCNode where
  "globalA = run_global 0 2 idA leadA"

section \<open>A write\<close>

definition wreq :: "string \<Rightarrow> string \<Rightarrow> ClientWriteRequest" where
  "wreq r v = \<lparr>cwr_RequestID = r, cwr_OriginDomain = ''b'', cwr_ReplyRoute = ''client:1'', cwr_Command = \<lparr>Key = ''k'', Val = v\<rparr>\<rparr>"

definition entry_r :: "u64 \<Rightarrow> string \<Rightarrow> string \<Rightarrow> LogEntry" where
  "entry_r t r v = \<lparr>GlobalTerm = t, GlobalIndex = 1, RequestID = r, OriginDomain = ''b'', Cmd = \<lparr>Key = ''k'', Val = v\<rparr>,
     Result = commandResult \<lparr>Key = ''k'', Val = v\<rparr>\<rparr>"

definition send :: "LogEntry \<Rightarrow> string \<Rightarrow> bool \<Rightarrow> PBReplicateEntry" where
  "send e sender fanout = entry_request e sender fanout ''client:1'' 0 0"

definition everyone :: "string \<Rightarrow> bool" where "everyone _ \<longleftrightarrow> True"

text \<open>\<open>a1\<close> orders \<open>r1\<close>; \<open>b1\<close> hears from \<open>a1\<close>, replicates the entry in its domain, and is told to answer.\<close>

definition writeA :: RPCNode where "writeA = fst (write_begin (at 1) (wreq ''r1'' ''x'') globalA)"

definition beatB :: RPCNode where
  "beatB = fst (the (HeartbeatGlobalInternal (at 10) (the (global_heartbeat globalA)) (fst voteB)))"

definition replB :: "(RPCNode \<times> rpc_reply) option" where
  "replB = serve (at 10) (\<lambda>m. m) everyone (ReplicateCall (send (entry_r 1 ''r1'' ''x'') ''a1'' True)) beatB"

definition heldB :: RPCNode where "heldB = fst (the replB)"

definition announced :: "u64 \<Rightarrow> string \<Rightarrow> string \<Rightarrow> string \<Rightarrow> GlobalDomainQuorumAck" where
  "announced t d r v = \<lparr>gqa_GlobalTerm = t, gqa_GlobalIndex = 1, gqa_GlobalLeaderDomain = d, gqa_RequestId = r,
     gqa_Result = commandResult \<lparr>Key = ''k'', Val = v\<rparr>, gqa_ReplyRoute = ''client:1'', gqa_OriginDomain = ''b'', gqa_ResponderDomain = ''b''\<rparr>"

definition fastB :: "RPCNode \<times> DomainQuorumAck \<times> pendingFastReturn option" where
  "fastB = the (AnnounceGlobalDomainQuorum (announced 1 ''a'' ''r1'' ''x'') heldB)"

definition notice1 :: CommitNotice where
  "notice1 = \<lparr>cn_GlobalTerm = 1, cn_CommitIndex = 1, cn_EvidenceDomains = [''a'', ''b''], cn_FanoutToDomain = False,
     cn_SenderNodeId = ''a1'', cn_CommitTerm = 1, cn_CommitRequestId = ''r1''\<rparr>"

definition committedA :: RPCNode where
  "committedA =
     (let n1 = fst (the (Replicate (\<lambda>m. m) everyone (send (entry_r 1 ''r1'' ''x'') ''a1'' True) writeA))
      in fst (the (rpc_Commit notice1 n1)))"

definition handoff :: "RPCNode \<times> migrationOutcome" where
  "handoff = initiateMigration (\<lambda>_. at 1) (\<lambda>_ m. m) True (Some (True, 2)) ''b'' globalA"

definition votes_of_c :: "string \<Rightarrow> GlobalVoteResponse option" where
  "votes_of_c i = (if i = ''c1'' then Some \<lparr>gvp_Voter = idC, gvp_GlobalTerm = 2, gvp_Granted = True\<rparr> else None)"

definition acceptedB :: "RPCNode \<times> begin_reply" where
  "acceptedB = beginMigration (\<lambda>_. at 11) (\<lambda>k. k) votes_of_c ''b'' 1 beatB"

definition plain_state :: "LogEntry list \<Rightarrow> PersistentState \<Rightarrow> bool" where
  "plain_state log s \<longleftrightarrow> ps_Log s = log \<and> ps_SnapshotLastIndex s = 0 \<and> ps_AppliedIndex s = 0 \<and> ps_KnownGlobalCommitIndex s = 0"

lemma write_eval:
  "gvp_Granted (snd voteB) \<and> is_global globalA \<and> \<not> rn_migrating globalA \<and>
   snd (write_begin (at 1) (wreq ''r1'' ''x'') globalA) = Waiting 1 (Some (entry_r 1 ''r1'' ''x'')) \<and>
   plain_state [] (rn_state globalA) \<and> plain_state [entry_r 1 ''r1'' ''x''] (rn_state writeA) \<and>
   plain_state [] (rn_state beatB) \<and> plain_state [entry_r 1 ''r1'' ''x''] (rn_state heldB) \<and>
   healthy everyone beatB \<and> gli_Valid (rn_globalLeader beatB) \<and> ps_GlobalTerm (rn_state beatB) = 1 \<and>
   getz (ps_DomainQuorumIndex (rn_state beatB)) (local_domain beatB) = 0"
  by code_simp

lemma commit_eval:
  "(case replB of Some (_, r) \<Rightarrow> vouches (ReplicateCall (send (entry_r 1 ''r1'' ''x'') ''a1'' True)) r | None \<Rightarrow> False) \<and>
   snd (snd fastB) \<noteq> None \<and> snd (deliver_begin (the (snd (snd fastB))) (fst fastB)) \<noteq> None \<and>
   (case rpc_Commit notice1 heldB of Some (_, Inr a, _) \<Rightarrow> dqa_Quorum a | _ \<Rightarrow> False) \<and>
   snd (rpc_Read (at 2) [] ''k'' committedA) = ReadValue ''x'' \<and>
   (case rn_store heldB of MemoryStore _ \<Rightarrow> True | FileStore _ \<Rightarrow> False) \<and>
   mo_note (snd handoff) = Migrated 2 \<and> rn_globalLeader (fst handoff) = \<lparr>gli_DomainLeader = idB, gli_GlobalTerm = 2\<rparr>"
  by code_simp

lemma handoff_eval:
  "ps_GlobalTerm (rn_state globalA) = 1 \<and> snd acceptedB = BeginAccepted 2 \<and> mo_success (snd handoff) \<and>
   get_or no_dli (rn_domainLeaders globalA) ''b'' = get_or no_dli (rn_domainLeaders beatB) (local_domain beatB)"
  by code_simp

lemma plain_wf: "plain_state [] s \<Longrightarrow> wf_state s" "plain_state [entry_r t r v] s \<Longrightarrow> wf_state s"
  by (simp_all add: plain_state_def wf_state_def contig_def entry_r_def)

lemma plain_entry: "plain_state [entry_r t r v] s \<Longrightarrow> entry_at s 1 = Some (entry_r t r v)"
  by (simp add: plain_state_def findEntryByIndex_def entry_r_def word_le_nat_alt)



lemma commit_notice_checked_witness:
  "\<exists>n' r f. rpc_Commit notice1 heldB = Some (n', r, f) \<and> notice_ok notice1 heldB \<and> 1 \<le> ps_KnownGlobalCommitIndex (rn_state n')"
proof -
  have p: "plain_state [entry_r 1 ''r1'' ''x''] (rn_state heldB)" using write_eval by blast
  have "unat (cn_CommitIndex notice1) < unat (ps_KnownGlobalCommitIndex (rn_state heldB)) + 2 ^ 63"
    using p by (simp add: plain_state_def notice1_def)
  then show ?thesis
    using commit_notice_checked [OF plain_wf(2) [OF p]] commit_eval by (force simp: notice1_def split: sum.splits if_splits)
qed

lemma fast_return_once_witness:
  "\<exists>p n1 c. deliver_begin p (fst fastB) = (n1, Some c) \<and> cr_RequestID c = pf_RequestID p \<and> deliver_begin p n1 = (n1, None)"
proof -
  obtain n1 c where d: "deliver_begin (the (snd (snd fastB))) (fst fastB) = (n1, Some c)"
    using commit_eval by (metis not_Some_eq prod.collapse)
  then show ?thesis using fast_return_once [OF d] by blast
qed

lemma read_behind_barrier_witness: "is_global committedA \<and> get_or [] (ps_StateMachine (rn_state committedA)) ''k'' = ''x''"
proof -
  obtain n' where "rpc_Read (at 2) [] ''k'' committedA = (n', ReadValue ''x'')" using commit_eval by (metis prod.collapse)
  then show ?thesis using read_behind_barrier by metis
qed

lemma writes_ordered_once_witness: "recorded ''r1'' (rn_state writeA) \<and> wf_state (rn_state writeA)"
proof -
  have p: "plain_state [] (rn_state globalA)" using write_eval by blast
  have w: "write_begin (at 1) (wreq ''r1'' ''x'') globalA = (writeA, Waiting 1 (Some (entry_r 1 ''r1'' ''x'')))"
    using write_eval by (metis writeA_def prod.collapse)
  have "LastLogIndex (rn_state globalA) + 1 \<noteq> max_u64" "distinct (map RequestID (ps_Log (rn_state globalA)))"
    using p by (simp_all add: plain_state_def LastLogIndex_def max_u64_def)
  then show ?thesis using writes_ordered_once [OF plain_wf(1) [OF p] _ _ w] by (simp add: wreq_def)
qed

lemma migration_outcomes_witness:
  "mo_note (snd handoff) = Migrated 2 \<and> \<not> rn_migrating (fst handoff) \<and> \<not> rn_draining (fst handoff) \<and>
   \<not> servesAsGlobalLeaderLocked 0 (fst handoff)"
proof -
  have "\<not> rn_migrating globalA" "is_global globalA" "mo_note (snd handoff) = Migrated 2"
    using write_eval commit_eval by blast+
  then show ?thesis
    using migration_outcomes [of "\<lambda>_. at 1" True "Some (True, 2)" "''b''" globalA "fst handoff" "snd handoff"]
    by (simp add: handoff_def [symmetric])
qed

lemma tail_is_exact_witness:
  "collectTailEntries 0 1 writeA = Some [tail_request (rn_state writeA) (entry_r 1 ''r1'' ''x'')]"
proof -
  have p: "plain_state [entry_r 1 ''r1'' ''x''] (rn_state writeA)" using write_eval by blast
  then show ?thesis using tail_is_exact [OF plain_wf(2) [OF p], of 0 1] by (simp add: between_def plain_state_def)
qed

lemma backfill_panics_witness:
  "replicateDomainQuorum (entry_r 1 ''r1'' ''x'') False (Some \<lparr>cup_DomainQuorumIndex = 0, cup_LastIndex = 5\<rparr>) None (\<lambda>_. None) writeA writeA = None"
proof -
  have "plain_state [entry_r 1 ''r1'' ''x''] (rn_state writeA)" using write_eval by blast
  then show ?thesis
    using backfill_panics [of "\<lparr>cup_DomainQuorumIndex = 0, cup_LastIndex = 5\<rparr>" "entry_r 1 ''r1'' ''x''" writeA]
    by (simp add: plain_state_def entry_r_def)
qed

lemma reached_empty: "plain_state [] s \<Longrightarrow> reached l 0 s"
  by (simp add: reached_def plain_wf) (simp add: plain_state_def log_matching_def term_at_def agree_upto_def findEntryByIndex_def)

lemma catch_up_converges_witness:
  "runCatchUp 1 (catch_up_answer everyone beatB [])
     [\<lparr>cu_floor = writeA, cu_tail = writeA, cu_snap = None, cu_answer = catch_up_answer everyone beatB\<rparr>] = Some True"
proof -
  have p: "plain_state [entry_r 1 ''r1'' ''x''] (rn_state writeA)" and b: "plain_state [] (rn_state beatB)"
    and h: "healthy everyone beatB" "gli_Valid (rn_globalLeader beatB)" "ps_GlobalTerm (rn_state beatB) = 1"
    and m: "getz (ps_DomainQuorumIndex (rn_state beatB)) (local_domain beatB) = 0"
    using write_eval by blast+
  have e: "\<forall>e \<in> set (ps_Log (rn_state writeA)). Result e = commandResult (Cmd e) \<and> GlobalTerm e \<le> ps_GlobalTerm (rn_state beatB)"
    using p h(3) by (simp add: plain_state_def entry_r_def)
  show ?thesis
    using catch_up_converges [OF plain_wf(2) [OF p] _ _ _ e h(1,2) reached_empty [OF b] m, of 1] p
    by (simp add: plain_state_def LastLogIndex_def)
qed


section \<open>Ballots and restarts\<close>

definition restarted :: "RPCNode \<Rightarrow> RPCNode" where
  "restarted n = fst (rpc_Start (at 0) True True
     (fresh_node (rn_config n) (rn_local n) (rn_store n) (projr (store_Load (rn_store n)))))"

definition restartable :: "RPCNode \<Rightarrow> bool" where
  "restartable n \<longleftrightarrow> rn_config n = ex_config \<and> config_Node ex_config (local_id n) = Some (rn_local n) \<and>
     (case store_Load (rn_store n) of Inr _ \<Rightarrow> True | Inl _ \<Rightarrow> False)"

lemma restarted_life: "restartable n \<Longrightarrow> node_life\<^sup>*\<^sup>* n (restarted n)"
proof -
  assume r: "restartable n"
  then obtain s where s: "store_Load (rn_store n) = Inr s" by (auto simp: restartable_def split: sum.splits)
  have "node_life n (fresh_node (rn_config n) (rn_local n) (rn_store n) s)"
    using r new_node [OF _ s, of "local_id n" "rn_local n"] by (auto simp: restartable_def intro: node_life.restart)
  moreover have "node_life m (fst (rpc_Start (at 0) True True m))" for m
    by (intro node_life.section rpc_step.start) (rule prod.collapse [symmetric])
  ultimately show ?thesis
    unfolding restarted_def s sum.sel by (rule converse_rtranclp_into_rtranclp [OF _ r_into_rtranclp])
qed

lemma win_domain_life:
  assumes "ps_DomainTerm (rn_state n) \<noteq> max_u64"
  shows "node_life\<^sup>*\<^sup>* n (win_domain v n)"
proof -
  have ready: "node_life\<^sup>*\<^sup>* m (fold (\<lambda>i m. fst (PublishReady (at 0) (Some i) m)) is m)" for m "is"
  proof (induction "is" arbitrary: m)
    case (Cons i "is")
    have "node_life m (fst (PublishReady (at 0) (Some i) m))"
      by (intro node_life.section rpc_step.ready) (rule prod.collapse [symmetric])
    then show ?case using Cons [of "fst (PublishReady (at 0) (Some i) m)"] by (simp add: converse_rtranclp_into_rtranclp)
  qed simp
  have step: "rpc_step m m' \<Longrightarrow> node_life\<^sup>*\<^sup>* m' k \<Longrightarrow> node_life\<^sup>*\<^sup>* m k" for m m' k
    by (blast intro: node_life.section converse_rtranclp_into_rtranclp)
  have began: "rpc_step n (fst (campaign_domain_begin n))"
    by (rule rpc_step.domain_campaign [OF prod.collapse [symmetric] assms])
  have won: "rpc_step m (fst (campaign_domain_finish (at 0) t v m))" for m t
    by (rule rpc_step.domain_won [OF prod.collapse [symmetric]])
  show ?thesis
    unfolding win_domain_def Let_def
    by (rule step [OF began step [OF won step [OF domain_campaign_end step [OF published ready]]]])
qed

lemma domain_ballotI:
  "dvp_Granted (snd (RequestVote env q n)) \<Longrightarrow> domain_ballot n (fst (RequestVote env q n)) (pdv_DomainTerm q) (pdv_CandidateId q)"
  unfolding domain_ballot_def by (metis prod.collapse)

lemma global_ballotI:
  "gvp_Granted (snd (RequestVoteGlobalInternal env q n)) \<Longrightarrow>
   global_ballot n (fst (RequestVoteGlobalInternal env q n)) (pgv_GlobalTerm q) (fromPBDomainIdentity (pgv_Candidate q))"
  unfolding global_ballot_def by (metis prod.collapse)

text \<open>\<open>b1\<close> votes for \<open>b2\<close>, restarts, and is asked again.\<close>

definition ask_domain :: "string \<Rightarrow> u64 \<Rightarrow> PBDomainVoteRequest" where
  "ask_domain c t = \<lparr>pdv_DomainId = ''b'', pdv_CandidateId = c, pdv_DomainTerm = t, pdv_Log = None\<rparr>"

definition votedB :: RPCNode where "votedB = fst (RequestVote (at 0) (ask_domain ''b2'' 1) (boot ''b1''))"

text \<open>\<open>b1\<close> votes globally for \<open>a1\<close>, restarts, wins its domain again and is asked again.\<close>

definition againB :: RPCNode where "againB = win_domain 2 (restarted (fst voteB))"

lemma ballot_eval:
  "dvp_Granted (snd (RequestVote (at 0) (ask_domain ''b2'' 1) (boot ''b1''))) \<and> restartable votedB \<and>
   dvp_Granted (snd (RequestVote (at 0) (ask_domain ''b2'' 1) (restarted votedB))) \<and>
   restartable (fst voteB) \<and> ps_DomainTerm (rn_state (restarted (fst voteB))) = 1 \<and>
   gvp_Granted (snd (RequestVoteGlobalInternal (at 0) (ask idA 1) againB)) \<and>
   dli_Valid idA \<and> valid_dli idA \<and> valid_utf8 ''b2''"
  by code_simp

lemma rpc_domain_ballot_once_witness:
  "\<exists>n. node_life\<^sup>*\<^sup>* votedB (restarted votedB) \<and> domain_ballot (restarted votedB) n 1 ''b2'' \<and> \<not> domain_ballot (restarted votedB) n 1 ''b3''"
proof -
  have g: "dvp_Granted (snd (RequestVote (at 0) (ask_domain ''b2'' 1) (boot ''b1'')))"
    "dvp_Granted (snd (RequestVote (at 0) (ask_domain ''b2'' 1) (restarted votedB)))" and u: "valid_utf8 ''b2''"
    and l: "node_life\<^sup>*\<^sup>* votedB (restarted votedB)"
    using ballot_eval restarted_life by blast+
  have b: "domain_ballot (boot ''b1'') votedB 1 ''b2''"
    using domain_ballotI [OF g(1)] by (simp add: ask_domain_def votedB_def)
  have a: "domain_ballot (restarted votedB) (fst (RequestVote (at 0) (ask_domain ''b2'' 1) (restarted votedB))) 1 ''b2''"
    using domain_ballotI [OF g(2)] by (simp add: ask_domain_def)
  have "\<not> domain_ballot (restarted votedB) n 1 ''b3''" for n
  proof
    assume "domain_ballot (restarted votedB) n 1 ''b3''"
    from rpc_domain_ballot_once [OF b _ u l this] show False by simp
  qed
  then show ?thesis using a l by blast
qed

lemma rpc_global_ballot_once_witness:
  "\<exists>n. node_life\<^sup>*\<^sup>* (fst voteB) againB \<and> global_ballot againB n 1 idA \<and> \<not> global_ballot againB n 1 idC"
proof -
  have g: "gvp_Granted (snd voteB)" "gvp_Granted (snd (RequestVoteGlobalInternal (at 0) (ask idA 1) againB))"
    and v: "dli_Valid idA" "valid_dli idA" and r: "node_life\<^sup>*\<^sup>* (fst voteB) (restarted (fst voteB))"
    and t: "ps_DomainTerm (rn_state (restarted (fst voteB))) = 1"
    using write_eval ballot_eval restarted_life by blast+
  have req: "pgv_GlobalTerm (ask idA 1) = 1" "fromPBDomainIdentity (pgv_Candidate (ask idA 1)) = idA"
    by (simp_all add: ask_def fromPBDomainIdentity_def)
  have b: "global_ballot leadB (fst voteB) 1 idA"
    using global_ballotI [OF g(1) [unfolded voteB_def]] by (simp only: voteB_def req)
  have a: "global_ballot againB (fst (RequestVoteGlobalInternal (at 0) (ask idA 1) againB)) 1 idA"
    using global_ballotI [OF g(2)] by (simp only: req)
  have "ps_DomainTerm (rn_state (restarted (fst voteB))) \<noteq> max_u64" using t by (simp add: max_u64_def)
  then have l: "node_life\<^sup>*\<^sup>* (fst voteB) againB" unfolding againB_def by (rule rtranclp_trans [OF r win_domain_life])
  have "\<not> global_ballot againB n 1 idC" for n
  proof
    assume "global_ballot againB n 1 idC"
    from rpc_global_ballot_once [OF b v l this] show False by (simp add: idC_def idA_def leader_of_def)
  qed
  then show ?thesis using a l by blast
qed

section \<open>A rival after the lease\<close>

definition renewedB :: RPCNode where "renewedB = domain_round_finish (650 * millisecond) 2 beatB"

lemma sticky_eval:
  "gvp_Granted (snd (RequestVoteGlobalInternal (at 700) (ask idC 2) renewedB)) \<and> gli_Valid (rn_globalLeader renewedB) \<and>
   gli_DomainLeader (rn_globalLeader renewedB) \<noteq> idC \<and>
   validateLeaseTiming (rn_globalLeaseDuration globalA) (400 * millisecond) = None \<and>
   rn_globalLeaseDeadline globalA \<le> 0 + rn_globalLeaseDuration globalA \<and> rn_globalLeaseEnabled globalA \<and>
   0 \<le> rn_lastGlobalContact renewedB"
  by code_simp

lemma sticky_vote_after_lease_witness: "\<not> servesAsGlobalLeaderLocked (700 * millisecond) globalA"
proof (rule sticky_vote_after_lease)
  show "RequestVoteGlobalInternal (at 700) (ask idC 2) renewedB =
      (fst (RequestVoteGlobalInternal (at 700) (ask idC 2) renewedB), snd (RequestVoteGlobalInternal (at 700) (ask idC 2) renewedB))"
    by simp
  show "gli_DomainLeader (rn_globalLeader renewedB) \<noteq> fromPBDomainIdentity (pgv_Candidate (ask idC 2))"
    using sticky_eval by (simp add: ask_def fromPBDomainIdentity_def)
  show "\<not> pgv_LeadershipTransfer (ask idC 2)" by (simp add: ask_def)
  show "env_now (at 700) 1 \<le> 700 * millisecond" by (simp add: at_def)
qed (use sticky_eval in blast)+

section \<open>What the leases do not exclude\<close>

text \<open>\<open>c1\<close> loses term 1 to \<open>a1\<close> and tries again 50 ms later, before the first heartbeat of \<open>a1\<close> has reached
  \<open>b1\<close>; the domains \<open>c\<close> and \<open>b\<close> then commit a write.\<close>

definition globalC :: RPCNode where "globalC = run_global 50 2 idC (run_global 0 1 idC leadC)"

definition writeC :: RPCNode where "writeC = fst (write_begin (at 55) (wreq ''r2'' ''y'') globalC)"

definition no_plan :: returnPlan where
  "no_plan = \<lparr>rp_OriginKind = DomainConsensus, rp_Responder = no_dli, rp_Floating = False\<rparr>"

definition committedC :: RPCNode where
  "committedC =
     (let e = entry_r 2 ''r2'' ''y'';
          (n1, p1, _) = the (quorum_event e ''b'' ''c'' no_plan ''c'' True (writeC, commit_start));
          (n2, _, _) = the (quorum_event e ''b'' ''c'' no_plan ''b'' True (n1, p1))
      in n2)"


section \<open>A quorum mark for a replaced entry\<close>

text \<open>While \<open>b1\<close> waits for its members to confirm an entry of term 1, a leader of term 2 replaces it.\<close>

definition member :: "string \<Rightarrow> RPCNode" where "member i = fst (Heartbeat (at 0) (Some idB) (boot i))"

definition replaced :: "RPCNode \<Rightarrow> RPCNode" where
  "replaced m = fst (the (replicate_begin (send (entry_r 2 ''r2'' ''y'') ''c1'' True) m))"

definition staleB :: RPCNode where
  "staleB = fst (the (Replicate replaced everyone (send (entry_r 1 ''r1'' ''x'') ''a1'' True) (fst voteB)))"

definition certified :: "RPCNode \<times> DomainQuorumAck \<times> pendingFastReturn option" where
  "certified = the (AnnounceGlobalDomainQuorum (announced 2 ''c'' ''r2'' ''y'') staleB)"

definition log_of_member :: "string \<Rightarrow> LogEntry list" where
  "log_of_member i = ps_Log (rn_state (fst (the (Replicate (\<lambda>m. m) everyone (send (entry_r 1 ''r1'' ''x'') ''b1'' False) (member i)))))"


section \<open>A Global Leader whose domain moved on\<close>

definition globalB :: RPCNode where "globalB = run_global 0 2 idB leadB"


section \<open>A latency out of range\<close>

text \<open>The range check of a reported latency multiplies in \<open>int64\<close>: a latency of ten minutes and a millisecond
  is refused, one of three centuries is accepted.\<close>

lemma floating_latency_overflow:
  "snd (ingestFloatingLatencyReport (at 1) ''f'' 1 [\<lparr>fr_ToDomain = ''a'', fr_OneWayMillis = 600001, fr_RttMillis = 0\<rparr>] globalA) =
     Some (LatencyOutOfRange ''f'' ''a'') \<and>
   snd (ingestFloatingLatencyReport (at 1) ''f'' 1 [\<lparr>fr_ToDomain = ''a'', fr_OneWayMillis = 10 ^ 13, fr_RttMillis = 0\<rparr>] globalA) = None"
  by code_simp

end
