(* ===== verification/Rpc_Cluster.thy ===== *)
theory Rpc_Cluster
  imports Rpc_Scenarios
begin

text \<open>
  A cluster of production nodes.  Every node lives its own life (\<open>node_life\<close>: critical sections in any order, disk
  faults, restarts); the ballots that leave a node stay on the network for ever, so they may be delayed, repeated
  or reach nobody.  A candidate wins with a count of grants that voters have sent.  Two winners of one domain and
  term are the same node; two winners of one global term are the same identity if no domain voted through two nodes.
\<close>

section \<open>Runs\<close>

text \<open>\<open>rc_ballots\<close> and \<open>rc_globals\<close> hold who voted in which term for whom, \<open>rc_wins\<close> (domain, node, term) and
  \<open>rc_leads\<close> (identity, term) the successful ends of campaigns.\<close>

record rpc_cluster =
  rc_nodes :: "string \<Rightarrow> RPCNode"
  rc_ballots :: "(string \<times> u64 \<times> string) set"
  rc_globals :: "(string \<times> u64 \<times> DomainLeaderIdentity) set"
  rc_wins :: "(string \<times> string \<times> u64) set"
  rc_leads :: "(DomainLeaderIdentity \<times> u64) set"

definition runs :: "Config \<Rightarrow> string \<Rightarrow> RPCNode \<Rightarrow> bool" where
  "runs config i n \<longleftrightarrow> rn_config n = config \<and> config_Node config i = Some (rn_local n)"

text \<open>The Domain Leaders that a node knows are nodes of their domains, and it is the one of its own.\<close>

definition knows_leaders :: "Config \<Rightarrow> DomainLeaderIdentity \<Rightarrow> RPCNode \<Rightarrow> bool" where
  "knows_leaders config self n \<longleftrightarrow> fmlookup (rn_domainLeaders n) (local_domain n) = Some self \<and> NodeID self = local_id n \<and>
     (\<forall>d x. fmlookup (rn_domainLeaders n) d = Some x \<longrightarrow> dli_Valid x \<longrightarrow>
        map_option nd_DomainCode (config_Node config (NodeID x)) = Some d)"

text \<open>A campaign counts the grants that came back for its own candidate and term.\<close>

inductive rpc_cluster_step :: "Config \<Rightarrow> rpc_cluster \<Rightarrow> rpc_cluster \<Rightarrow> bool" for config where
  live: "node_life (rc_nodes c i) n' \<Longrightarrow> rpc_cluster_step config c (c\<lparr>rc_nodes := (rc_nodes c)(i := n')\<rparr>)"
| ballot: "domain_ballot (rc_nodes c i) n' t x \<Longrightarrow>
    rpc_cluster_step config c (c\<lparr>rc_nodes := (rc_nodes c)(i := n'), rc_ballots := insert (i, t, x) (rc_ballots c)\<rparr>)"
| globally: "global_ballot (rc_nodes c i) n' t x \<Longrightarrow>
    rpc_cluster_step config c (c\<lparr>rc_nodes := (rc_nodes c)(i := n'), rc_globals := insert (i, t, x) (rc_globals c)\<rparr>)"
| win: "runs config i (rc_nodes c i) \<Longrightarrow> (i, t, i) \<in> rc_ballots c \<Longrightarrow>
    (\<And>m r. replies m = Some r \<Longrightarrow> dvp_Granted r \<Longrightarrow> (m, t, i) \<in> rc_ballots c) \<Longrightarrow>
    campaign_domain_finish env t (votes_from (rc_nodes c i) replies) (rc_nodes c i) = (n', Inr identity) \<Longrightarrow>
    rpc_cluster_step config c (c\<lparr>rc_nodes := (rc_nodes c)(i := n'),
      rc_wins := insert (local_domain (rc_nodes c i), i, t) (rc_wins c)\<rparr>)"
| lead: "runs config i (rc_nodes c i) \<Longrightarrow> knows_leaders config x (rc_nodes c i) \<Longrightarrow> (i, t, x) \<in> rc_globals c \<Longrightarrow>
    (\<And>m r. answers m = Some r \<Longrightarrow> gvp_Granted r \<Longrightarrow> (m, t, x) \<in> rc_globals c) \<Longrightarrow>
    campaign_global_finish env x t (global_votes_from (rc_nodes c i) answers) (rc_nodes c i) = (n', None) \<Longrightarrow>
    rpc_cluster_step config c (c\<lparr>rc_nodes := (rc_nodes c)(i := n'), rc_leads := insert (x, t) (rc_leads c)\<rparr>)"

definition rpc_initial :: "rpc_cluster \<Rightarrow> bool" where
  "rpc_initial c \<longleftrightarrow> rc_ballots c = {} \<and> rc_globals c = {} \<and> rc_wins c = {} \<and> rc_leads c = {}"

section \<open>Ballots are remembered\<close>

text \<open>The contract of a ballot: it is a step of the node's life, the node remembers it, and a node that remembers one
  casts no other in that term.\<close>

definition kept :: "(u64 \<Rightarrow> 'x \<Rightarrow> PersistentState \<Rightarrow> bool) \<Rightarrow> ('x \<Rightarrow> bool) \<Rightarrow> (string \<Rightarrow> RPCNode) \<Rightarrow> (string \<times> u64 \<times> 'x) set \<Rightarrow> bool" where
  "kept voted good nodes B \<longleftrightarrow>
     (\<forall>m t x. (m, t, x) \<in> B \<longrightarrow> remembers (voted t x) (nodes m)) \<and>
     (\<forall>m t x y. (m, t, x) \<in> B \<longrightarrow> (m, t, y) \<in> B \<longrightarrow> good x \<longrightarrow> good y \<longrightarrow> x = y)"

locale balloting =
  fixes voted :: "u64 \<Rightarrow> 'x \<Rightarrow> PersistentState \<Rightarrow> bool" and good :: "'x \<Rightarrow> bool"
    and cast :: "RPCNode \<Rightarrow> RPCNode \<Rightarrow> u64 \<Rightarrow> 'x \<Rightarrow> bool"
  assumes cast_life: "cast n n' t x \<Longrightarrow> node_life n n'"
    and cast_remembered: "cast n n' t x \<Longrightarrow> remembers (voted t x) n'"
    and cast_same: "cast n n' t y \<Longrightarrow> remembers (voted t x) n \<Longrightarrow> good x \<Longrightarrow> y = x"
    and life_keeps: "node_life n n' \<Longrightarrow> remembers (voted t x) n \<Longrightarrow> remembers (voted t x) n'"
begin

lemma kept_life: "kept voted good nodes B \<Longrightarrow> node_life (nodes i) n' \<Longrightarrow> kept voted good (nodes(i := n')) B"
  using life_keeps [of "nodes i" n'] by (auto simp: kept_def)

lemma kept_cast:
  assumes "kept voted good nodes B" "cast (nodes i) n' t x"
  shows "kept voted good (nodes(i := n')) (insert (i, t, x) B)"
proof -
  have "x = y" if "(i, t, y) \<in> B" "good y" for y
    using cast_same [OF assms(2) _ that(2)] assms(1) that(1) by (auto simp: kept_def)
  then show ?thesis
    using kept_life [OF assms(1) cast_life [OF assms(2)]] cast_remembered [OF assms(2)] by (auto simp: kept_def)
qed

end

definition good_id :: "string \<Rightarrow> bool" where
  "good_id x \<longleftrightarrow> x \<noteq> [] \<and> valid_utf8 x"

definition good_identity :: "DomainLeaderIdentity \<Rightarrow> bool" where
  "good_identity x \<longleftrightarrow> dli_Valid x \<and> valid_dli x"

interpretation domain_balloting: balloting domain_voted good_id domain_ballot
proof
  fix n n' t x
  assume b: "domain_ballot n n' t x"
  show "node_life n n'"
    using b unfolding domain_ballot_def by (blast intro: node_life.section rpc_step.vote rpc_step.domain_campaign)
  show "remembers (domain_voted t x) n'"
    using domain_ballot_cast [OF b] by (intro domain_memory.durable_remembers) (auto simp: domain_voted_def)
  show "x = y" if "remembers (domain_voted t y) n" "good_id y" for y
    using that domain_ballot_cast(4,5) [OF b] by (auto simp: remembers_def domain_voted_def good_id_def)
qed (rule domain_memory.life_remembers)

interpretation global_balloting: balloting global_voted good_identity global_ballot
proof
  fix n n' t x
  assume b: "global_ballot n n' t x"
  show "node_life n n'"
    using b unfolding global_ballot_def by (blast intro: node_life.section rpc_step.vote_global rpc_step.global_campaign)
  show "remembers (global_voted t x) n'"
    using global_ballot_cast [OF b] by (intro global_memory.durable_remembers) (auto simp: global_voted_def)
  show "x = y" if "remembers (global_voted t y) n" "good_identity y" for y
    using that global_ballot_cast(4,5) [OF b] by (auto simp: remembers_def global_voted_def good_identity_def)
qed (rule global_memory.life_remembers)

definition ballots_kept :: "rpc_cluster \<Rightarrow> bool" where
  "ballots_kept c \<longleftrightarrow> kept domain_voted good_id (rc_nodes c) (rc_ballots c) \<and>
     kept global_voted good_identity (rc_nodes c) (rc_globals c)"

lemma ballots_kept_step:
  assumes "rpc_cluster_step config c c'" "ballots_kept c"
  shows "ballots_kept c'"
proof -
  have life: "\<exists>i n'. rc_nodes c' = (rc_nodes c)(i := n') \<and> node_life (rc_nodes c i) n'" using assms(1)
    by cases (auto intro: domain_balloting.cast_life global_balloting.cast_life node_life.section
        rpc_step.domain_won rpc_step.global_won)
  show ?thesis
    using assms(1)
  proof cases
    case (ballot i n' t x)
    then show ?thesis
      using assms(2) domain_balloting.kept_cast [of "rc_nodes c" "rc_ballots c" i n' t x]
        global_balloting.kept_life [of "rc_nodes c" "rc_globals c" i n'] domain_balloting.cast_life [OF ballot(2)]
      by (simp add: ballots_kept_def)
  next
    case (globally i n' t x)
    then show ?thesis
      using assms(2) global_balloting.kept_cast [of "rc_nodes c" "rc_globals c" i n' t x]
        domain_balloting.kept_life [of "rc_nodes c" "rc_ballots c" i n'] global_balloting.cast_life [OF globally(2)]
      by (simp add: ballots_kept_def)
  qed (use life assms(2) domain_balloting.kept_life global_balloting.kept_life in \<open>fastforce simp: ballots_kept_def\<close>)+
qed

section \<open>Winners have a quorum\<close>

definition carried :: "Config \<Rightarrow> (string \<times> u64 \<times> string) set \<Rightarrow> string \<Rightarrow> string \<Rightarrow> u64 \<Rightarrow> bool" where
  "carried config B d i t \<longleftrightarrow> (\<exists>A. A \<subseteq> nd_ID ` set (DomainMembers config d) \<and> i \<in> A \<and>
     majority (length (DomainMembers config d)) \<le> card A \<and> (\<forall>m \<in> A. (m, t, i) \<in> B))"

definition domain_of :: "Config \<Rightarrow> string \<Rightarrow> string option" where
  "domain_of config m = map_option nd_DomainCode (config_Node config m)"

definition led :: "Config \<Rightarrow> (string \<times> u64 \<times> DomainLeaderIdentity) set \<Rightarrow> DomainLeaderIdentity \<Rightarrow> u64 \<Rightarrow> bool" where
  "led config B x t \<longleftrightarrow> (\<exists>A. A \<subseteq> set (Domains config) \<and> globalElectionThreshold (length (Domains config)) \<le> card A \<and>
     (\<forall>d \<in> A. \<exists>m. domain_of config m = Some d \<and> (m, t, x) \<in> B))"

lemma carried_mono: "carried config B d i t \<Longrightarrow> B \<subseteq> B' \<Longrightarrow> carried config B' d i t"
  unfolding carried_def by blast

lemma led_mono: "led config B x t \<Longrightarrow> B \<subseteq> B' \<Longrightarrow> led config B' x t"
  unfolding led_def by (meson subsetD)

lemma runsD:
  assumes "runs config i n" "distinct (map nd_ID (cfg_Nodes config))"
  shows "rn_config n = config" "local_id n = i" "rn_local n \<in> set (cfg_Nodes config)" "domain_of config i = Some (local_domain n)"
    "rn_local n \<in> set (DomainMembers config (local_domain n))"
  using assms(1) config_Node_Some [OF assms(2), of i "rn_local n"] by (simp_all add: runs_def domain_of_def DomainMembers_def)

lemma domain_of_Domains:
  assumes "domain_of config m = Some d" "distinct (map nd_ID (cfg_Nodes config))"
  shows "d \<in> set (Domains config)"
proof -
  obtain k where k: "config_Node config m = Some k" "nd_DomainCode k = d" using assms(1) by (auto simp: domain_of_def)
  then have "k \<in> set (cfg_Nodes config)" using config_Node_Some [OF assms(2), of m k] by simp
  then show ?thesis using k(2) by (auto simp: Domains_def ConsensusDomains_def)
qed

lemma votes_carried:
  assumes "distinct (map nd_ID (cfg_Nodes config))" "runs config i n" "(i, t, i) \<in> B"
    and granted: "\<And>m r. replies m = Some r \<Longrightarrow> dvp_Granted r \<Longrightarrow> (m, t, i) \<in> B"
    and "majority (length (DomainMembers config (local_domain n))) \<le> votes_from n replies"
  shows "carried config B (local_domain n) i t"
proof -
  let ?ms = "DomainMembers config (local_domain n)"
  let ?g = "\<lambda>m. nd_ID m \<noteq> local_id n \<and> (case replies (nd_ID m) of None \<Rightarrow> False | Some r \<Rightarrow> dvp_Granted r)"
  let ?A = "nd_ID ` set (filter ?g ?ms)"
  note r = runsD [OF assms(2,1)]
  have "distinct (map nd_ID (filter ?g ?ms))" using distinct_DomainMembers [OF assms(1)] by (rule distinct_map_filter)
  then have "card ?A = length (filter ?g ?ms)"
    using distinct_card [of "map nd_ID (filter ?g ?ms)"] by simp
  moreover have "i \<notin> ?A" using r(2) by auto
  ultimately have card: "card (insert i ?A) = votes_from n replies" by (simp add: votes_from_def r(1))
  have sub: "insert i ?A \<subseteq> nd_ID ` set ?ms" using r(2,5) by auto
  have "(nd_ID m, t, i) \<in> B" if "?g m" for m using that granted by (auto split: option.splits)
  then have "\<forall>m \<in> insert i ?A. (m, t, i) \<in> B" using assms(3) by auto
  then show ?thesis
    unfolding carried_def using assms(5) card sub by (intro exI [of _ "insert i ?A"]) simp
qed

text \<open>The voters of a global campaign sit in different domains.\<close>

lemma votes_led:
  assumes "distinct (map nd_ID (cfg_Nodes config))" "runs config i n" "knows_leaders config x n" "(i, t, x) \<in> B"
    and granted: "\<And>m r. answers m = Some r \<Longrightarrow> gvp_Granted r \<Longrightarrow> (m, t, x) \<in> B"
    and "globalElectionThreshold (length (Domains config)) \<le> global_votes_from n answers"
  shows "led config B x t"
proof -
  let ?g = "\<lambda>y. NodeID y \<noteq> local_id n \<and> (case answers (NodeID y) of None \<Rightarrow> False | Some r \<Rightarrow> gvp_Granted r)"
  let ?L = "filter (\<lambda>(_, y). dli_Valid y \<and> ?g y) (sorted_list_of_fmap (rn_domainLeaders n))"
  let ?A = "fst ` set ?L" and ?ok = "\<lambda>d. \<exists>m. domain_of config m = Some d \<and> (m, t, x) \<in> B"
  note r = runsD [OF assms(2,1)]
  have "length (filter ?g (domainLeaderSnapshot n)) = length ?L"
    by (simp add: domainLeaderSnapshot_def filter_map comp_def case_prod_unfold conj_commute conj_left_commute)
  moreover have "distinct (map fst ?L)" by (rule distinct_map_filter) simp
  then have "card ?A = length ?L" using distinct_card [of "map fst ?L"] by simp
  moreover have voter: "?ok d \<and> d \<noteq> local_domain n" if "d \<in> ?A" for d
  proof -
    obtain y where y: "fmlookup (rn_domainLeaders n) d = Some y" "dli_Valid y" "?g y"
      using \<open>d \<in> ?A\<close> by (auto simp: in_sorted_list_of_fmap)
    then have "domain_of config (NodeID y) = Some d" "(NodeID y, t, x) \<in> B"
      using assms(3) granted by (auto simp: knows_leaders_def domain_of_def split: option.splits)
    moreover have "d \<noteq> local_domain n" using y(1,3) assms(3) by (auto simp: knows_leaders_def)
    ultimately show ?thesis by blast
  qed
  then have "local_domain n \<notin> ?A" by blast
  ultimately have card: "card (insert (local_domain n) ?A) = global_votes_from n answers"
    by (simp add: global_votes_from_def)
  have all: "\<forall>d \<in> insert (local_domain n) ?A. ?ok d"
    using voter assms(4) r(4) by blast
  then have "insert (local_domain n) ?A \<subseteq> set (Domains config)"
    using domain_of_Domains [OF _ assms(1)] by blast
  then show ?thesis
    unfolding led_def using assms(6) card all by (intro exI [of _ "insert (local_domain n) ?A"]) simp
qed

definition quorums_kept :: "Config \<Rightarrow> rpc_cluster \<Rightarrow> bool" where
  "quorums_kept config c \<longleftrightarrow> (\<forall>d i t. (d, i, t) \<in> rc_wins c \<longrightarrow> carried config (rc_ballots c) d i t) \<and>
     (\<forall>x t. (x, t) \<in> rc_leads c \<longrightarrow> led config (rc_globals c) x t)"

lemma quorums_kept_step:
  assumes "rpc_cluster_step config c c'" "distinct (map nd_ID (cfg_Nodes config))" "quorums_kept config c"
  shows "quorums_kept config c'"
  using assms(1)
proof cases
  case (live i n')
  then show ?thesis using assms(3) by (simp add: quorums_kept_def)
next
  case (ballot i n' t x)
  then show ?thesis using assms(3) carried_mono [OF _ subset_insertI] by (auto simp: quorums_kept_def)
next
  case (globally i n' t x)
  then show ?thesis using assms(3) led_mono [OF _ subset_insertI] by (auto simp: quorums_kept_def)
next
  case (win i t replies env n' identity)
  then have "carried config (rc_ballots c) (local_domain (rc_nodes c i)) i t"
    by (intro votes_carried [OF assms(2), where replies = replies])
      (auto simp: campaign_domain_finish_def runs_def split: if_splits)
  then show ?thesis using win(1) assms(3) by (auto simp: quorums_kept_def)
next
  case (lead i x t answers env n')
  then have "led config (rc_globals c) x t"
    by (intro votes_led [OF assms(2), where answers = answers])
      (auto simp: campaign_global_finish_def runs_def split: if_splits)
  then show ?thesis using lead(1) assms(3) by (auto simp: quorums_kept_def)
qed

lemma rpc_run_invariant:
  assumes "(rpc_cluster_step config)\<^sup>*\<^sup>* c0 c" "rpc_initial c0" "distinct (map nd_ID (cfg_Nodes config))"
  shows "ballots_kept c" "quorums_kept config c"
proof -
  show "ballots_kept c" using assms(1)
  proof induction
    case base
    then show ?case using assms(2) by (simp add: rpc_initial_def ballots_kept_def kept_def)
  qed (rule ballots_kept_step)
  show "quorums_kept config c" using assms(1)
  proof induction
    case base
    then show ?case using assms(2) by (simp add: rpc_initial_def quorums_kept_def)
  qed (rule quorums_kept_step [OF _ assms(3)])
qed

lemma kept_unique: "kept voted good nodes B \<Longrightarrow> (m, t, x) \<in> B \<Longrightarrow> (m, t, y) \<in> B \<Longrightarrow> good x \<Longrightarrow> good y \<Longrightarrow> x = y"
  unfolding kept_def by blast

lemma DomainMembers_good:
  assumes "valid_config config" "\<forall>m \<in> set (cfg_Nodes config). valid_utf8 (nd_ID m)" "i \<in> nd_ID ` set (DomainMembers config d)"
  shows "good_id i"
  using assms by (auto simp: good_id_def valid_config_def list_all_iff node_ok_def DomainMembers_def)

section \<open>Election safety\<close>

text \<open>C3: in every run of a cluster of production nodes two winners of one domain and term are the same node.  The
  nodes run the same validated configuration with identifiers in valid UTF-8; their critical sections interleave in
  any way, disks fail, nodes restart from their stores, and votes are delayed, repeated or lost.\<close>

theorem rpc_domain_election_safety:
  assumes "config_Validate config = None" "\<forall>m \<in> set (cfg_Nodes config). valid_utf8 (nd_ID m)"
    and "rpc_initial c0" "(rpc_cluster_step config)\<^sup>*\<^sup>* c0 c"
    and "(d, i, t) \<in> rc_wins c" "(d, j, t) \<in> rc_wins c"
  shows "i = j"
proof -
  have v: "valid_config config" using assms(1) Validate_None by simp
  then have dist: "distinct (map nd_ID (cfg_Nodes config))" by (simp add: valid_config_def)
  let ?V = "map nd_ID (DomainMembers config d)"
  obtain A B where A: "A \<subseteq> set ?V" "i \<in> A" "majority (length ?V) \<le> card A" "\<forall>m \<in> A. (m, t, i) \<in> rc_ballots c"
    and B: "B \<subseteq> set ?V" "j \<in> B" "majority (length ?V) \<le> card B" "\<forall>m \<in> B. (m, t, j) \<in> rc_ballots c"
    using rpc_run_invariant(2) [OF assms(4,3) dist] assms(5,6) unfolding quorums_kept_def carried_def length_map set_map by meson
  have "card (set ?V) = length ?V" by (rule distinct_card [OF distinct_DomainMembers [OF dist]])
  then obtain m where "m \<in> A" "m \<in> B"
    using member_majority.quorums_intersect [of A ?V B] A(1,3) B(1,3) by auto
  then have "(m, t, i) \<in> rc_ballots c" "(m, t, j) \<in> rc_ballots c" using A(4) B(4) by simp_all
  moreover have "good_id i" by (rule DomainMembers_good [OF v assms(2) subsetD [OF A(1,2), unfolded set_map]])
  moreover have "good_id j" by (rule DomainMembers_good [OF v assms(2) subsetD [OF B(1,2), unfolded set_map]])
  moreover have "kept domain_voted good_id (rc_nodes c) (rc_ballots c)"
    using rpc_run_invariant(1) [OF assms(4,3) dist] by (simp add: ballots_kept_def)
  ultimately show ?thesis using kept_unique [of domain_voted good_id] by simp
qed


section \<open>Example runs\<close>

definition start_cluster :: "(string \<Rightarrow> RPCNode) \<Rightarrow> rpc_cluster" where
  "start_cluster nodes = \<lparr>rc_nodes = nodes, rc_ballots = {}, rc_globals = {}, rc_wins = {}, rc_leads = {}\<rparr>"

text \<open>\<open>b1\<close> campaigns in its domain and wins with the vote of \<open>b2\<close>; \<open>a1\<close> campaigns for the cluster and wins with the
  vote of \<open>b1\<close>.\<close>

definition candB :: RPCNode where "candB = fst (campaign_domain_begin (boot ''b1''))"

definition grantsB :: "string \<Rightarrow> DomainVoteResponse option" where
  "grantsB m = (if m = ''b2'' then Some (snd (RequestVote (at 0) (ask_domain ''b1'' 1) (boot ''b2''))) else None)"

definition candA :: RPCNode where "candA = fst (campaign_global_begin (at 0) leadA)"

definition grantsA :: "string \<Rightarrow> GlobalVoteResponse option" where
  "grantsA m = (if m = ''b1'' then Some (snd voteB) else None)"

definition good_leaders :: "RPCNode \<Rightarrow> bool" where
  "good_leaders n \<longleftrightarrow> list_all (\<lambda>(d, x). dli_Valid x \<longrightarrow> map_option nd_DomainCode (config_Node ex_config (NodeID x)) = Some d)
     (sorted_list_of_fmap (rn_domainLeaders n))"

lemma cluster_eval:
  "(case snd (campaign_domain_begin (boot ''b1'')) of Inr (t, _) \<Rightarrow> t = 1 | Inl _ \<Rightarrow> False) \<and>
   ps_DomainTerm (rn_state (boot ''b1'')) \<noteq> max_u64 \<and> local_id (boot ''b1'') = ''b1'' \<and>
   dvp_Granted (snd (RequestVote (at 0) (ask_domain ''b1'' 1) (boot ''b2''))) \<and>
   rn_config candB = ex_config \<and> config_Node ex_config ''b1'' = Some (rn_local candB) \<and> local_domain candB = ''b'' \<and>
   (case snd (campaign_domain_finish (at 0) 1 (votes_from candB grantsB) candB) of Inr _ \<Rightarrow> True | Inl _ \<Rightarrow> False)"
  by code_simp

lemma global_cluster_eval:
  "(case snd (campaign_global_begin (at 0) leadA) of Inr (x, t, _) \<Rightarrow> x = idA \<and> t = 1 | Inl _ \<Rightarrow> False) \<and>
   ps_GlobalTerm (rn_state leadA) \<noteq> max_u64 \<and> rn_config candA = ex_config \<and>
   config_Node ex_config ''a1'' = Some (rn_local candA) \<and> good_leaders candA \<and>
   fmlookup (rn_domainLeaders candA) (local_domain candA) = Some idA \<and> local_id candA = ''a1'' \<and>
   snd (campaign_global_finish (at 0) idA 1 (global_votes_from candA grantsA) candA) = None \<and>
   domain_of ex_config ''a1'' \<noteq> domain_of ex_config ''b1'' \<and> list_all (\<lambda>m. valid_utf8 (nd_ID m)) (cfg_Nodes ex_config)"
  by code_simp

definition domain_started :: rpc_cluster where
  "domain_started = (start_cluster boot)\<lparr>rc_nodes := boot(''b1'' := candB), rc_ballots := {(''b1'', 1, ''b1'')}\<rparr>"

definition domain_voted_run :: rpc_cluster where
  "domain_voted_run = domain_started\<lparr>
     rc_nodes := (rc_nodes domain_started)(''b2'' := fst (RequestVote (at 0) (ask_domain ''b1'' 1) (boot ''b2''))),
     rc_ballots := insert (''b2'', 1, ''b1'') (rc_ballots domain_started)\<rparr>"

definition domain_run :: rpc_cluster where
  "domain_run = domain_voted_run\<lparr>
     rc_nodes := (rc_nodes domain_voted_run)(''b1'' := fst (campaign_domain_finish (at 0) 1 (votes_from candB grantsB) candB)),
     rc_wins := insert (''b'', ''b1'', 1) (rc_wins domain_voted_run)\<rparr>"

lemma domain_run_reached: "(rpc_cluster_step ex_config)\<^sup>*\<^sup>* (start_cluster boot) domain_run"
proof -
  obtain l where "campaign_domain_begin (boot ''b1'') = (candB, Inr (1, l))"
    using cluster_eval by (auto simp: candB_def prod_eq_iff split: sum.splits)
  then have "domain_ballot (boot ''b1'') candB 1 ''b1''" using cluster_eval unfolding domain_ballot_def by blast
  then have 1: "rpc_cluster_step ex_config (start_cluster boot) domain_started"
    using rpc_cluster_step.ballot [of "start_cluster boot" "''b1''" candB 1 "''b1''" ex_config]
    by (simp add: domain_started_def start_cluster_def)
  have "dvp_Granted (snd (RequestVote (at 0) (ask_domain ''b1'' 1) (boot ''b2'')))" using cluster_eval by blast
  from domain_ballotI [OF this]
  have "domain_ballot (boot ''b2'') (fst (RequestVote (at 0) (ask_domain ''b1'' 1) (boot ''b2''))) 1 ''b1''"
    by (simp add: ask_domain_def)
  then have 2: "rpc_cluster_step ex_config domain_started domain_voted_run"
    using rpc_cluster_step.ballot [of domain_started "''b2''" _ 1 "''b1''" ex_config]
    by (simp add: domain_voted_run_def) (simp add: domain_started_def)
  have n: "rc_nodes domain_voted_run ''b1'' = candB" "rc_ballots domain_voted_run = {(''b2'', 1, ''b1''), (''b1'', 1, ''b1'')}"
    by (simp_all add: domain_voted_run_def domain_started_def)
  have "local_domain candB = ''b''" using cluster_eval by blast
  moreover obtain x where "campaign_domain_finish (at 0) 1 (votes_from candB grantsB) candB =
      (fst (campaign_domain_finish (at 0) 1 (votes_from candB grantsB) candB), Inr x)"
    using cluster_eval by (auto simp: prod_eq_iff split: sum.splits)
  moreover have "runs ex_config ''b1'' candB" using cluster_eval by (simp add: runs_def)
  moreover have "(m, 1, ''b1'') \<in> rc_ballots domain_voted_run" if "grantsB m = Some r" for m r
    using that n(2) by (simp add: grantsB_def split: if_splits)
  ultimately have 3: "rpc_cluster_step ex_config domain_voted_run domain_run"
    using rpc_cluster_step.win [of ex_config "''b1''" domain_voted_run 1 grantsB "at 0"] n
    by (simp add: domain_run_def)
  show ?thesis using 1 2 3 by (meson r_into_rtranclp rtranclp.rtrancl_into_rtrancl)
qed

lemma ex_config_ids: "\<forall>m \<in> set (cfg_Nodes ex_config). valid_utf8 (nd_ID m)"
  using global_cluster_eval by (simp add: list_all_iff)

lemma rpc_domain_election_safety_witness: "{j. (''b'', j, 1) \<in> rc_wins domain_run} = {''b1''}"
proof -
  have w: "(''b'', ''b1'', 1) \<in> rc_wins domain_run" by (simp add: domain_run_def)
  have "rpc_initial (start_cluster boot)" by (simp add: rpc_initial_def start_cluster_def)
  from rpc_domain_election_safety [OF ex_config_valid ex_config_ids this domain_run_reached _ w] w show ?thesis by blast
qed

definition leaders_at :: "string \<Rightarrow> RPCNode" where
  "leaders_at i = (if i = ''a1'' then leadA else if i = ''b1'' then leadB else boot i)"

definition global_voted_run :: rpc_cluster where
  "global_voted_run = (start_cluster leaders_at)\<lparr>rc_nodes := leaders_at(''a1'' := candA, ''b1'' := fst voteB),
     rc_globals := {(''b1'', 1, idA), (''a1'', 1, idA)}\<rparr>"

definition global_run :: rpc_cluster where
  "global_run = global_voted_run\<lparr>
     rc_nodes := (rc_nodes global_voted_run)
       (''a1'' := fst (campaign_global_finish (at 0) idA 1 (global_votes_from candA grantsA) candA)),
     rc_leads := insert (idA, 1) (rc_leads global_voted_run)\<rparr>"

lemma global_voted_reached: "(rpc_cluster_step ex_config)\<^sup>*\<^sup>* (start_cluster leaders_at) global_voted_run"
proof -
  let ?c = "(start_cluster leaders_at)\<lparr>rc_nodes := leaders_at(''a1'' := candA), rc_globals := {(''a1'', 1, idA)}\<rparr>"
  obtain l where "campaign_global_begin (at 0) leadA = (candA, Inr (idA, 1, l))"
    using global_cluster_eval by (auto simp: candA_def prod_eq_iff split: sum.splits)
  then have "global_ballot leadA candA 1 idA" using global_cluster_eval unfolding global_ballot_def by blast
  then have 1: "rpc_cluster_step ex_config (start_cluster leaders_at) ?c"
    using rpc_cluster_step.globally [of "start_cluster leaders_at" "''a1''" candA 1 idA ex_config]
    by (simp add: leaders_at_def start_cluster_def)
  have "gvp_Granted (snd voteB)" using write_eval by blast
  from global_ballotI [OF this [unfolded voteB_def]] have "global_ballot leadB (fst voteB) 1 idA"
    unfolding voteB_def [symmetric] by (simp add: ask_def fromPBDomainIdentity_def)
  then have "rpc_cluster_step ex_config ?c global_voted_run"
    using rpc_cluster_step.globally [of ?c "''b1''" "fst voteB" 1 idA ex_config]
    by (simp add: global_voted_run_def leaders_at_def)
  then show ?thesis using 1 by (meson r_into_rtranclp rtranclp.rtrancl_into_rtrancl)
qed

lemma candA_knows: "knows_leaders ex_config idA candA"
proof -
  have "NodeID idA = local_id candA" using global_cluster_eval by (simp add: idA_def leader_of_def)
  then show ?thesis
    using global_cluster_eval by (auto simp: knows_leaders_def good_leaders_def list_all_iff in_sorted_list_of_fmap [symmetric])
qed

lemma global_run_reached: "(rpc_cluster_step ex_config)\<^sup>*\<^sup>* (start_cluster leaders_at) global_run"
proof -
  have n: "rc_nodes global_voted_run ''a1'' = candA" "rc_globals global_voted_run = {(''b1'', 1, idA), (''a1'', 1, idA)}"
    by (simp_all add: global_voted_run_def)
  have "campaign_global_finish (at 0) idA 1 (global_votes_from candA grantsA) candA =
      (fst (campaign_global_finish (at 0) idA 1 (global_votes_from candA grantsA) candA), None)"
    using global_cluster_eval by (simp add: prod_eq_iff)
  moreover have "runs ex_config ''a1'' candA" using global_cluster_eval by (simp add: runs_def)
  moreover have "(m, 1, idA) \<in> rc_globals global_voted_run" if "grantsA m = Some r" for m r
    using that n(2) by (simp add: grantsA_def split: if_splits)
  ultimately have "rpc_cluster_step ex_config global_voted_run global_run"
    using rpc_cluster_step.lead [of ex_config "''a1''" global_voted_run idA 1 grantsA "at 0"] candA_knows n
    by (simp add: global_run_def)
  then show ?thesis by (rule rtranclp.rtrancl_into_rtrancl [OF global_voted_reached])
qed


end
