(* ===== verification/Rpc_Net.thy ===== *)
theory Rpc_Net
  imports Rpc_Views Write_Trace
begin

text \<open>
  The outgoing side of a production node (\<open>rpc_node.go\<close>): the retry policy, the simulated latency, injected
  partitions and losses, and \<open>callNode\<close>, through which every call to another node goes.  The fields of the node
  that only this side uses are a record of their own.  A call is a parameter: the outcome and the duration
  of each attempt, the random draws, and the moments at which the caller's context ends.
\<close>

section \<open>State\<close>

text \<open>A trace recorder is shared by reference; here it is a number.\<close>

record node_net =
  net_rpcPolicy :: RPCPolicy
  net_networkSimulation :: NetworkSimulation
  net_conns :: "string list"
  net_blockedPeers :: "bool gomap"
  net_dropRate :: rat
  net_writeTrace :: "nat option"
  net_normalDelay :: duration
  net_fastDelay :: duration

definition fresh_net :: "Config \<Rightarrow> node_net" where
  "fresh_net config =
     \<lparr>net_rpcPolicy = DefaultRPCPolicy, net_networkSimulation = cfg_NetworkSimulation config, net_conns = [],
      net_blockedPeers = fmempty, net_dropRate = 0, net_writeTrace = None, net_normalDelay = 0, net_fastDelay = 0\<rparr>"

definition SetResponseDelays :: "duration \<Rightarrow> duration \<Rightarrow> node_net \<Rightarrow> node_net" where
  "SetResponseDelays normal fast n = n\<lparr>net_normalDelay := normal, net_fastDelay := fast\<rparr>"

definition SetRPCPolicy :: "RPCPolicy \<Rightarrow> node_net \<Rightarrow> node_net" where
  "SetRPCPolicy policy n = n\<lparr>net_rpcPolicy := policy\<rparr>"

definition SetNetworkSimulation :: "NetworkSimulation \<Rightarrow> node_net \<Rightarrow> node_net" where
  "SetNetworkSimulation simulation n = n\<lparr>net_networkSimulation := simulation\<rparr>"

definition SetWriteTraceRecorder :: "nat option \<Rightarrow> node_net \<Rightarrow> node_net" where
  "SetWriteTraceRecorder recorder n = n\<lparr>net_writeTrace := recorder\<rparr>"

definition SetPartitionedFrom :: "string list \<Rightarrow> node_net \<Rightarrow> node_net" where
  "SetPartitionedFrom peerIDs n = n\<lparr>net_blockedPeers := fold (\<lambda>i. fmupd i True) peerIDs fmempty\<rparr>"

definition HealPartition :: "node_net \<Rightarrow> node_net" where
  "HealPartition n = n\<lparr>net_blockedPeers := fmempty\<rparr>"

definition SetDropRate :: "rat \<Rightarrow> node_net \<Rightarrow> node_net" where
  "SetDropRate rate n = n\<lparr>net_dropRate := rate\<rparr>"

definition linkBlocked :: "string \<Rightarrow> node_net \<Rightarrow> bool" where
  "linkBlocked peerID n = get_or False (net_blockedPeers n) peerID"

text \<open>\<open>draw\<close> is the result of \<open>rand.Float64()\<close>, a number in \<open>[0, 1)\<close>.\<close>

definition dropAttempt :: "rat \<Rightarrow> node_net \<Rightarrow> bool" where
  "dropAttempt draw n = (if net_dropRate n \<le> 0 then False else draw < net_dropRate n)"

section \<open>Links\<close>

text \<open>The rest of the configuration does not matter to \<open>OneWayDelay\<close>.\<close>

definition oneWayDelay :: "RPCNode \<Rightarrow> node_net \<Rightarrow> string \<Rightarrow> string \<Rightarrow> duration" where
  "oneWayDelay n net fromDomain toDomain =
     OneWayDelay ((rn_config n)\<lparr>cfg_NetworkSimulation := net_networkSimulation net\<rparr>) fromDomain toDomain"

datatype grpc_code = CodeUnavailable | CodeDeadlineExceeded | CodeOther

datatype call_error = UnknownPeer string | DialError string | ContextDone | StatusError grpc_code string

text \<open>A wait on a link; \<open>stop = Some d\<close> means that the context ends \<open>d\<close> after its beginning.  The result is the time
  that has passed and the error of the context.\<close>

definition sleepLink :: "duration option \<Rightarrow> duration \<Rightarrow> duration \<times> call_error option" where
  "sleepLink stop delay =
     (if delay \<le> 0 then (0, None)
      else case stop of Some d \<Rightarrow> (d, Some ContextDone) | None \<Rightarrow> (delay, None))"

definition peerAddress :: "RPCNode \<Rightarrow> string \<Rightarrow> call_error + string" where
  "peerAddress n nodeID =
     (case config_Node (rn_config n) nodeID of
        None \<Rightarrow> Inl (UnknownPeer nodeID)
      | Some peer \<Rightarrow> if nd_DomainCode peer = local_domain n then Inr (nd_ListenAddress peer)
                      else Inr (InterDomainDialAddress peer))"

text \<open>\<open>dial\<close> says why no client can be created for an address.\<close>

definition peer_connection :: "(string \<Rightarrow> string option) \<Rightarrow> string \<Rightarrow> node_net \<Rightarrow> node_net \<times> call_error option" where
  "peer_connection dial address n =
     (if address \<in> set (net_conns n) then (n, None)
      else case dial address of
             Some e \<Rightarrow> (n, Some (DialError e))
           | None \<Rightarrow> (n\<lparr>net_conns := address # net_conns n\<rparr>, None))"

section \<open>Calls\<close>

text \<open>What a call meets: attempt \<open>k\<close> is answered by \<open>ce_call k\<close> (an error or nothing, and the time it took), its
  losses are decided by \<open>ce_draw k\<close>, its two waits are cut by \<open>ce_out k\<close> and \<open>ce_back k\<close>.\<close>

record call_env =
  ce_call :: "nat \<Rightarrow> (grpc_code \<times> string) option \<times> duration"
  ce_draw :: "nat \<Rightarrow> rat"
  ce_out :: "nat \<Rightarrow> duration option"
  ce_back :: "nat \<Rightarrow> duration option"

text \<open>The result of a run: its error, the attempts whose call was made, and the time it took.\<close>

type_synonym call_run = "call_error option \<times> nat list \<times> duration"

definition after :: "nat list \<Rightarrow> duration \<Rightarrow> call_run \<Rightarrow> call_run" where
  "after made d run = (case run of (e, made', d') \<Rightarrow> (e, made @ made', d + d'))"

lemma snd_after [simp]: "snd (snd (after made d run)) = d + snd (snd run)"
  by (simp add: after_def case_prod_beta)

definition retryable :: "grpc_code \<Rightarrow> bool" where
  "retryable c \<longleftrightarrow> c = CodeUnavailable \<or> c = CodeDeadlineExceeded"

fun call_attempts :: "call_env \<Rightarrow> node_net \<Rightarrow> duration \<Rightarrow> duration \<Rightarrow> nat \<Rightarrow> nat \<Rightarrow> call_error option \<Rightarrow> call_run" where
  "call_attempts env net there back 0 k lastErr = (lastErr, [], 0)"
| "call_attempts env net there back (Suc left) k lastErr =
     (case sleepLink (ce_out env k) there of
        (d, Some e) \<Rightarrow> (Some e, [], d)
      | (d, None) \<Rightarrow>
          if dropAttempt (ce_draw env k) net
          then after [] d (call_attempts env net there back left (Suc k)
                 (Some (StatusError CodeUnavailable ''injected packet loss'')))
          else (case (ce_call env k, sleepLink (ce_back env k) back) of
                  ((r, took), (b, Some e)) \<Rightarrow> (Some e, [k], d + took + b)
                | ((None, took), (b, None)) \<Rightarrow> (None, [k], d + took + b)
                | ((Some (code, msg), took), (b, None)) \<Rightarrow>
                    if \<not> retryable code then (Some (StatusError code msg), [k], d + took + b)
                    else after [k] (d + took + b)
                           (call_attempts env net there back left (Suc k) (Some (StatusError code msg)))))"

definition callNode :: "(string \<Rightarrow> string option) \<Rightarrow> call_env \<Rightarrow> RPCNode \<Rightarrow> string \<Rightarrow> node_net \<Rightarrow> node_net \<times> call_run" where
  "callNode dial env n nodeID net =
     (case config_Node (rn_config n) nodeID of
        None \<Rightarrow> (net, Some (UnknownPeer nodeID), [], 0)
      | Some peer \<Rightarrow>
          (case peerAddress n nodeID of
             Inl e \<Rightarrow> (net, Some e, [], 0)
           | Inr address \<Rightarrow>
               let there = oneWayDelay n net (local_domain n) (nd_DomainCode peer);
                   back = oneWayDelay n net (nd_DomainCode peer) (local_domain n) in
               if linkBlocked nodeID net
               then (net, Some (StatusError CodeUnavailable ''injected network partition''), [], fst (sleepLink (ce_out env 0) there))
               else (case peer_connection dial address net of
                       (net1, Some e) \<Rightarrow> (net1, Some e, [], 0)
                     | (net1, None) \<Rightarrow>
                         (net1, call_attempts env net1 there back (nat (MaxRetries (net_rpcPolicy net1))) 0 None))))"

section \<open>A call takes effect once\<close>

text \<open>The attempts that reached the peer: in order, and all but the last one failed in a way that is retried.\<close>

definition tried_in_turn :: "call_env \<Rightarrow> nat \<Rightarrow> nat \<Rightarrow> nat list \<Rightarrow> bool" where
  "tried_in_turn env lo hi made \<longleftrightarrow> sorted_wrt (<) made \<and> set made \<subseteq> {lo..<hi} \<and>
     (\<forall>i \<in> set (butlast made). \<exists>c m. fst (ce_call env i) = Some (c, m) \<and> retryable c)"

lemma tried_Nil [simp]: "tried_in_turn env lo hi []"
  by (simp add: tried_in_turn_def)

lemma tried_single [simp]: "tried_in_turn env lo hi [k] \<longleftrightarrow> lo \<le> k \<and> k < hi"
  by (simp add: tried_in_turn_def)

lemma tried_later: "tried_in_turn env (Suc k) hi made \<Longrightarrow> tried_in_turn env k hi made"
  by (force simp: tried_in_turn_def)

lemma tried_Cons:
  assumes "tried_in_turn env (Suc k) hi made" "k < hi" "fst (ce_call env k) = Some (c, m)" "retryable c"
  shows "tried_in_turn env k hi (k # made)"
  using assms by (force simp: tried_in_turn_def)

lemma call_attempts_spec:
  assumes "call_attempts env net there back left k lastErr = (e, made, el)"
  shows "tried_in_turn env k (k + left) made \<and>
    (e = None \<longrightarrow> (left = 0 \<and> lastErr = None) \<or> (made \<noteq> [] \<and> fst (ce_call env (last made)) = None))"
  using assms
proof (induction left arbitrary: k lastErr e made el)
  case (Suc left)
  show ?case
  proof (cases "sleepLink (ce_out env k) there")
    case d: (Pair d w)
    obtain r took where c: "ce_call env k = (r, took)" by (cases "ce_call env k")
    obtain b w' where b: "sleepLink (ce_back env k) back = (b, w')" by (cases "sleepLink (ce_back env k) back")
    show ?thesis
    proof (cases "w = None \<and> (dropAttempt (ce_draw env k) net \<or> w' = None \<and> (\<exists>x y. r = Some (x, y) \<and> retryable x))")
      case False
      then show ?thesis using Suc.prems d c b by (auto split: if_splits option.splits prod.splits)
    next
      case go: True
      then obtain E e' made' el' where rec: "call_attempts env net there back left (Suc k) (Some E) = (e', made', el')"
        and eq: "e = e'" "made = (if dropAttempt (ce_draw env k) net then made' else k # made')"
        using Suc.prems d c b by (cases "dropAttempt (ce_draw env k) net") (auto simp: after_def split: prod.splits)
      from Suc.IH [OF rec] go eq c show ?thesis by (auto intro: tried_later tried_Cons)
    qed
  qed
qed auto

text \<open>Every wait ends by itself or earlier, and every call by its deadline.\<close>

definition timely :: "call_env \<Rightarrow> duration \<Rightarrow> duration \<Rightarrow> duration \<Rightarrow> bool" where
  "timely env there deadline back \<longleftrightarrow> (\<forall>k. 0 \<le> snd (ce_call env k) \<and> snd (ce_call env k) \<le> deadline \<and>
     (\<forall>d. ce_out env k = Some d \<longrightarrow> 0 \<le> d \<and> d \<le> there) \<and> (\<forall>d. ce_back env k = Some d \<longrightarrow> 0 \<le> d \<and> d \<le> back))"

lemma sleepLink_bounds:
  "sleepLink w delay = (d, e) \<Longrightarrow> (\<And>x. w = Some x \<Longrightarrow> 0 \<le> x \<and> x \<le> delay) \<Longrightarrow> 0 \<le> d \<and> d \<le> max 0 delay"
  by (auto simp: sleepLink_def split: if_splits option.splits)

lemma call_attempts_elapsed:
  assumes "timely env there deadline back"
  shows "0 \<le> snd (snd (call_attempts env net there back left k lastErr)) \<and>
    snd (snd (call_attempts env net there back left k lastErr)) \<le> int left * (max 0 there + deadline + max 0 back)"
proof (induction left arbitrary: k lastErr)
  case (Suc left)
  obtain d w where d: "sleepLink (ce_out env k) there = (d, w)" by (cases "sleepLink (ce_out env k) there")
  obtain b w' where b: "sleepLink (ce_back env k) back = (b, w')" by (cases "sleepLink (ce_back env k) back")
  obtain r took where c: "ce_call env k = (r, took)" by (cases "ce_call env k")
  have bounds: "0 \<le> d" "d \<le> max 0 there" "0 \<le> b" "b \<le> max 0 back" "0 \<le> took" "took \<le> deadline"
    using sleepLink_bounds [OF d] sleepLink_bounds [OF b] assms [unfolded timely_def, rule_format, of k] c by auto
  let ?S = "max 0 there + deadline + max 0 back"
  have S: "int (Suc left) * ?S = ?S + int left * ?S" "0 \<le> int left * ?S" using bounds by (simp_all add: algebra_simps)
  have rest: "0 \<le> snd (snd (call_attempts env net there back left (Suc k) E))"
    "snd (snd (call_attempts env net there back left (Suc k) E)) \<le> int left * ?S" for E
    using Suc.IH by auto
  have sums: "0 \<le> d" "d \<le> ?S" "0 \<le> d + took + b" "d + took + b \<le> ?S" using bounds by auto
  let ?run = "call_attempts env net there back (Suc left) k lastErr"
  have "\<exists>p \<in> {d, d + took + b}. snd (snd ?run) = p \<or>
      (\<exists>E. snd (snd ?run) = p + snd (snd (call_attempts env net there back left (Suc k) E)))"
    using d b c by (cases w; cases "dropAttempt (ce_draw env k) net"; cases w'; cases r) (auto, blast)
  then obtain p q where "snd (snd ?run) = p + q" "0 \<le> p" "p \<le> ?S" "0 \<le> q" "q \<le> int left * ?S"
    using sums rest S(2) by (metis add_0_right empty_iff insertE order_refl)
  then show ?case unfolding S(1) by simp
qed simp

lemma oneWayDelay_conns [simp]: "oneWayDelay n (net\<lparr>net_conns := c\<rparr>) = oneWayDelay n net"
  by (simp add: oneWayDelay_def fun_eq_iff)

lemma callNode_cases:
  assumes "callNode dial env n i net = (net', e, made, el)" "made \<noteq> [] \<or> e = None"
  obtains peer where "config_Node (rn_config n) i = Some peer" "\<not> linkBlocked i net"
    "call_attempts env net' (oneWayDelay n net (local_domain n) (nd_DomainCode peer))
       (oneWayDelay n net (nd_DomainCode peer) (local_domain n)) (nat (MaxRetries (net_rpcPolicy net))) 0 None = (e, made, el)"
  using assms
  by (auto simp: callNode_def peerAddress_def peer_connection_def Let_def split: option.splits sum.splits if_splits)



text \<open>An unreliable link is only slow.  A peer that answers every call and is not cut off is reached as soon as
  one of the attempts that the policy allows is not lost.\<close>

theorem lossy_link_gets_through:
  assumes "config_Node (rn_config n) i = Some peer" "\<forall>a. dial a = None" "\<not> linkBlocked i net"
    and "\<forall>k. ce_out env k = None \<and> ce_back env k = None \<and> fst (ce_call env k) = None"
    and "j < nat (MaxRetries (net_rpcPolicy net))" "\<not> dropAttempt (ce_draw env j) net"
  shows "\<exists>net' k el. callNode dial env n i net = (net', None, [k], el) \<and> k \<le> j \<and> \<not> dropAttempt (ce_draw env k) net"
proof -
  have wait: "snd (sleepLink None d) = None" for d by (simp add: sleepLink_def)
  have attempts: "\<exists>k el. call_attempts env m there home left a lastErr = (None, [k], el) \<and> k \<le> j \<and> \<not> dropAttempt (ce_draw env k) net"
    if "a \<le> j" "j < a + left" "net_dropRate m = net_dropRate net" for m there home left a lastErr
    using that
  proof (induction left arbitrary: a lastErr)
    case (Suc left)
    have same: "dropAttempt x m = dropAttempt x net" for x using Suc.prems(3) by (simp add: dropAttempt_def)
    obtain d b where w: "sleepLink None there = (d, None)" "sleepLink None home = (b, None)" using wait by (metis prod.collapse)
    obtain took where c: "ce_call env a = (None, took)" using assms(4) by (metis prod.collapse)
    show ?case
    proof (cases "dropAttempt (ce_draw env a) net")
      case True
      then have "a \<noteq> j" using assms(6) by auto
      then obtain k el where "call_attempts env m there home left (Suc a)
          (Some (StatusError CodeUnavailable ''injected packet loss'')) = (None, [k], el)" "k \<le> j" "\<not> dropAttempt (ce_draw env k) net"
        using Suc.IH [of "Suc a"] Suc.prems by force
      then show ?thesis using True w assms(4) by (simp add: same after_def)
    next
      case False
      then show ?thesis using w c assms(4) Suc.prems(1) by (simp add: same)
    qed
  qed simp
  show ?thesis
    using assms(1-3) attempts [of 0] assms(5)
    by (simp add: callNode_def peerAddress_def peer_connection_def Let_def)
qed

text \<open>C36: a policy that allows no attempt makes every call to a reachable peer report success although nothing was
  sent.\<close>

theorem no_retries_reports_success:
  assumes "config_Node (rn_config n) i = Some peer" "\<forall>a. dial a = None" "\<not> linkBlocked i net"
    and "MaxRetries (net_rpcPolicy net) \<le> 0"
  shows "\<exists>net'. callNode dial env n i net = (net', None, [], 0)"
  using assms by (simp add: callNode_def peerAddress_def peer_connection_def Let_def)

section \<open>Messages\<close>

text \<open>The client result on the wire: the source is sent as its text, and the redirect travels beside the result.\<close>

record PBClientResult =
  pcr_RequestId :: string
  pcr_GlobalTerm :: u64
  pcr_GlobalIndex :: u64
  pcr_Result :: string
  pcr_Source :: string
  pcr_Committed :: bool
  pcr_RedirectAddress :: string
  pcr_ResponderDomain :: string

definition toPBDomainIdentity :: "DomainLeaderIdentity \<Rightarrow> DomainLeaderIdentity option" where
  "toPBDomainIdentity identity =
     Some \<lparr>DomainID = DomainID identity, NodeID = NodeID identity, DomainTerm = DomainTerm identity\<rparr>"

definition toPBLogSummary :: "LogSummary \<Rightarrow> LogSummary option" where
  "toPBLogSummary summary = Some \<lparr>LastGlobalTerm = LastGlobalTerm summary, LastGlobalIndex = LastGlobalIndex summary\<rparr>"

definition toPBClientResult :: "ClientResult \<Rightarrow> string \<Rightarrow> PBClientResult option" where
  "toPBClientResult result redirect =
     Some \<lparr>pcr_RequestId = cr_RequestID result, pcr_GlobalTerm = cr_GlobalTerm result, pcr_GlobalIndex = cr_GlobalIndex result,
       pcr_Result = cr_Result result, pcr_Source = cr_Source result, pcr_Committed = cr_Committed result,
       pcr_RedirectAddress = redirect, pcr_ResponderDomain = cr_ResponderDomain result\<rparr>"

definition fromPBClientResult :: "PBClientResult option \<Rightarrow> ClientResult" where
  "fromPBClientResult result =
     (case result of
        None \<Rightarrow> \<lparr>cr_RequestID = [], cr_GlobalTerm = 0, cr_GlobalIndex = 0, cr_Result = [], cr_Source = [], cr_Committed = False,
                   cr_ResponderDomain = []\<rparr>
      | Some r \<Rightarrow> \<lparr>cr_RequestID = pcr_RequestId r, cr_GlobalTerm = pcr_GlobalTerm r, cr_GlobalIndex = pcr_GlobalIndex r,
                     cr_Result = pcr_Result r, cr_Source = pcr_Source r, cr_Committed = pcr_Committed r,
                     cr_ResponderDomain = pcr_ResponderDomain r\<rparr>)"

text \<open>What one node encodes another decodes.\<close>

lemma messages_roundtrip:
  "fromPBDomainIdentity (toPBDomainIdentity i) = i" "fromPBLogSummary (toPBLogSummary s) = s"
  "fromPBClientResult (toPBClientResult r redirect) = r"
  by (simp_all add: fromPBDomainIdentity_def toPBDomainIdentity_def fromPBLogSummary_def toPBLogSummary_def
      fromPBClientResult_def toPBClientResult_def)

section \<open>An example\<close>

text \<open>\<open>a1\<close> calls \<open>b1\<close> over a link of 20 ms that loses the first attempt; the second is refused, the third answered.\<close>

definition ex_caller :: RPCNode where
  "ex_caller = fresh_node ex_config (ex_node ''a1'' ''a'') (MemoryStore NewMemoryStore) (projr (MemoryStore_Load NewMemoryStore))"

definition ex_net :: node_net where
  "ex_net = SetDropRate (1 / 2) (fresh_net ex_config)"

definition ex_calls :: call_env where
  "ex_calls = \<lparr>ce_call = (\<lambda>k. (if k < 2 then Some (CodeUnavailable, ''refused'') else None, 5 * millisecond)),
     ce_draw = (\<lambda>k. if k = 0 then 1 / 4 else 3 / 4), ce_out = (\<lambda>_. None), ce_back = (\<lambda>_. None)\<rparr>"

definition ex_answers :: call_env where
  "ex_answers = ex_calls\<lparr>ce_call := \<lambda>_. (None, 5 * millisecond)\<rparr>"

lemma call_eval:
  "snd (callNode (\<lambda>_. None) ex_calls ex_caller ''b1'' ex_net) = (None, [1, 2], 110 * millisecond)"
  "config_Node (rn_config ex_caller) ''b1'' = Some (ex_node ''b1'' ''b'')" "\<not> linkBlocked ''b1'' ex_net"
  "oneWayDelay ex_caller ex_net ''a'' ''b'' = 20 * millisecond" "oneWayDelay ex_caller ex_net ''b'' ''a'' = 20 * millisecond"
  "net_rpcPolicy ex_net = \<lparr>Deadline = 500 * millisecond, MaxRetries = 3\<rparr>" "local_domain ex_caller = ''a''"
  "nd_DomainCode (ex_node ''b1'' ''b'') = ''b''" "dropAttempt (ce_draw ex_answers 0) ex_net" "\<not> dropAttempt (ce_draw ex_answers 1) ex_net"
  by code_simp+



lemma lossy_link_gets_through_witness:
  "\<exists>net' el. callNode (\<lambda>_. None) ex_answers ex_caller ''b1'' ex_net = (net', None, [1], el)"
proof -
  have "\<forall>k. ce_out ex_answers k = None \<and> ce_back ex_answers k = None \<and> fst (ce_call ex_answers k) = None"
    by (simp add: ex_answers_def ex_calls_def)
  from lossy_link_gets_through [OF call_eval(2) _ call_eval(3) this, of "\<lambda>_. None" 1] call_eval(6,9,10)
  obtain net' k el where k: "callNode (\<lambda>_. None) ex_answers ex_caller ''b1'' ex_net = (net', None, [k], el)" "k \<le> 1"
    "\<not> dropAttempt (ce_draw ex_answers k) ex_net" by auto
  then have "k = 1" using call_eval(9) by (cases k) auto
  then show ?thesis using k(1) by blast
qed

lemma no_retries_reports_success_witness:
  "\<exists>net'. callNode (\<lambda>_. None) ex_calls ex_caller ''b1'' (SetRPCPolicy \<lparr>Deadline = 0, MaxRetries = 0\<rparr> (fresh_net ex_config)) = (net', None, [], 0)"
proof (rule no_retries_reports_success [OF call_eval(2)])
  show "\<not> linkBlocked ''b1'' (SetRPCPolicy \<lparr>Deadline = 0, MaxRetries = 0\<rparr> (fresh_net ex_config))"
    by (simp add: linkBlocked_def SetRPCPolicy_def fresh_net_def)
qed (simp_all add: SetRPCPolicy_def)

end
