(* ===== verification/Client.thy ===== *)
theory Client
  imports Rpc_Views Race
begin

text \<open>
  The production client, \<open>internal/cdraft/rpc_client.go\<close>: the cached leader address, the loops that follow
  redirects, the router that hands Fast Returns to the waiting writes, and a write as the race of the two paths.
  A connection attempt and a call are parameters; a loop that the context ends after \<open>left\<close> iterations
  is recursion on \<open>left\<close>.  The client finds a stable leader within three calls, whatever it had cached, and a
  Fast Return reaches exactly the write it belongs to.
\<close>

section \<open>Fast Return callbacks\<close>

text \<open>\<open>cb_waiters\<close> maps a request to the number of its channel, a buffer for one response.\<close>

record callbackRouter =
  cb_waiters :: "nat gomap"
  cb_chans :: "Response option list"

definition register :: "string \<Rightarrow> callbackRouter \<Rightarrow> callbackRouter \<times> nat" where
  "register requestID r =
     (let ch = length (cb_chans r) in
      (r\<lparr>cb_waiters := fmupd requestID ch (cb_waiters r), cb_chans := cb_chans r @ [None]\<rparr>, ch))"

definition unregister :: "string \<Rightarrow> callbackRouter \<Rightarrow> callbackRouter" where
  "unregister requestID r = r\<lparr>cb_waiters := fmdrop requestID (cb_waiters r)\<rparr>"

text \<open>The send does not block: a full channel drops the response.\<close>

definition FastReturn :: "ClientResult \<Rightarrow> callbackRouter \<Rightarrow> callbackRouter" where
  "FastReturn result r =
     (case fmlookup (cb_waiters r) (cr_RequestID result) of
        None \<Rightarrow> r
      | Some ch \<Rightarrow> if cb_chans r ! ch = None
                   then r\<lparr>cb_chans := (cb_chans r)[ch := Some \<lparr>rsp_Result = result, rsp_Err = None\<rparr>]\<rparr> else r)"

section \<open>The client\<close>

datatype client_error = DialFailed string | CallError string | ServerError string | NoGlobalLeader | ListenFailed

record RPCClient =
  cl_conns :: "string list"
  cl_callbackListen :: string
  cl_replyRoute :: string
  cl_cbServer :: bool
  cl_cbRouter :: callbackRouter
  cl_cbAddr :: string
  cl_cbErr :: "client_error option"
  cl_lastLeader :: string

definition NewRPCClientWithCallback :: "string \<Rightarrow> string \<Rightarrow> RPCClient" where
  "NewRPCClientWithCallback callbackListen replyRoute =
     \<lparr>cl_conns = [], cl_callbackListen = callbackListen, cl_replyRoute = replyRoute, cl_cbServer = False,
      cl_cbRouter = \<lparr>cb_waiters = fmempty, cb_chans = []\<rparr>, cl_cbAddr = [], cl_cbErr = None, cl_lastLeader = []\<rparr>"

definition NewRPCClient :: RPCClient where
  "NewRPCClient = NewRPCClientWithCallback ''127.0.0.1:0'' []"

definition rememberLeader :: "string \<Rightarrow> RPCClient \<Rightarrow> RPCClient" where
  "rememberLeader address c = c\<lparr>cl_lastLeader := address\<rparr>"

definition forgetLeader :: "RPCClient \<Rightarrow> RPCClient" where
  "forgetLeader c = c\<lparr>cl_lastLeader := []\<rparr>"

definition leaderOr :: "string \<Rightarrow> RPCClient \<Rightarrow> string" where
  "leaderOr target c = (if cl_lastLeader c \<noteq> [] then cl_lastLeader c else target)"

definition client_Close :: "RPCClient \<Rightarrow> RPCClient" where
  "client_Close c = c\<lparr>cl_conns := []\<rparr>"

text \<open>\<open>dial\<close> says why a client for an address cannot be created.\<close>

definition connection :: "(string \<Rightarrow> string option) \<Rightarrow> string \<Rightarrow> RPCClient \<Rightarrow> RPCClient \<times> client_error option" where
  "connection dial address c =
     (if address \<in> set (cl_conns c) then (c, None)
      else case dial address of
             Some e \<Rightarrow> (c, Some (DialFailed e))
           | None \<Rightarrow> (c\<lparr>cl_conns := address # cl_conns c\<rparr>, None))"

text \<open>\<open>listen\<close> is the address that the callback server got, or nothing when it cannot listen.\<close>

definition ensureCallback :: "string option \<Rightarrow> RPCClient \<Rightarrow> RPCClient \<times> (client_error + string)" where
  "ensureCallback listen c =
     (if cl_cbServer c \<or> cl_cbErr c \<noteq> None
      then (c, case cl_cbErr c of Some e \<Rightarrow> Inl e | None \<Rightarrow> Inr (cl_cbAddr c))
      else case listen of
        None \<Rightarrow> (c\<lparr>cl_cbErr := Some ListenFailed\<rparr>, Inl ListenFailed)
      | Some addr \<Rightarrow> (c\<lparr>cl_cbRouter := \<lparr>cb_waiters = fmempty, cb_chans = []\<rparr>, cl_cbServer := True, cl_cbAddr := addr\<rparr>, Inr addr))"

section \<open>Following redirects\<close>

text \<open>\<open>Failed e over\<close> is a failed call, \<open>over\<close> says whether the context has ended by then.\<close>

datatype 'r attempt = Failed string bool | Answer 'r

text \<open>
  The loop that \<open>writeFollowingRedirects\<close>, \<open>ReadFrom\<close> and \<open>DiscoverTopology\<close> share.  \<open>redirect\<close> and \<open>err\<close>
  read the fields of the response, \<open>leaderOf\<close> the address that is remembered; \<open>call k a\<close> is the outcome of
  the \<open>k\<close>-th call when it goes to \<open>a\<close>.
\<close>

fun follow ::
    "('r \<Rightarrow> string) \<Rightarrow> ('r \<Rightarrow> string) \<Rightarrow> (string \<Rightarrow> 'r \<Rightarrow> string) \<Rightarrow> (string \<Rightarrow> string option) \<Rightarrow>
     (nat \<Rightarrow> string \<Rightarrow> 'r attempt) \<Rightarrow> string \<Rightarrow> nat \<Rightarrow> nat \<Rightarrow> string \<Rightarrow> RPCClient \<Rightarrow> RPCClient \<times> (client_error + 'r)" where
  "follow redirect err leaderOf dial call target 0 k current c = (c, Inl NoGlobalLeader)"
| "follow redirect err leaderOf dial call target (Suc left) k current c =
     (case connection dial current c of
        (c1, Some e) \<Rightarrow> (c1, Inl e)
      | (c1, None) \<Rightarrow>
          (case call k current of
             Failed e over \<Rightarrow>
               if over then (c1, Inl (CallError e))
               else follow redirect err leaderOf dial call target left (Suc k) target (forgetLeader c1)
           | Answer r \<Rightarrow>
               if redirect r \<noteq> []
               then follow redirect err leaderOf dial call target left (Suc k) (redirect r) (rememberLeader (redirect r) c1)
               else if err r \<noteq> [] then (c1, Inl (ServerError (err r)))
               else (rememberLeader (leaderOf current r) c1, Inr r)))"

record WriteReply =
  wr_Result :: ClientResult
  wr_Redirect :: string
  wr_Error :: string

record ReadReply =
  rr_Value :: string
  rr_Redirect :: string
  rr_Error :: string

definition writeFollowingRedirects ::
    "(string \<Rightarrow> string option) \<Rightarrow> (nat \<Rightarrow> string \<Rightarrow> WriteReply attempt) \<Rightarrow> string \<Rightarrow> nat \<Rightarrow> RPCClient \<Rightarrow>
     RPCClient \<times> (client_error + ClientResult)" where
  "writeFollowingRedirects dial call target left c =
     (case follow wr_Redirect wr_Error (\<lambda>current _. current) dial call target left 0 (leaderOr target c) c of
        (c', Inl e) \<Rightarrow> (c', Inl e)
      | (c', Inr r) \<Rightarrow> (c', Inr (wr_Result r)))"

definition ReadFrom ::
    "(string \<Rightarrow> string option) \<Rightarrow> (nat \<Rightarrow> string \<Rightarrow> ReadReply attempt) \<Rightarrow> string \<Rightarrow> nat \<Rightarrow> RPCClient \<Rightarrow>
     RPCClient \<times> (client_error + string)" where
  "ReadFrom dial call target left c =
     (case follow rr_Redirect rr_Error (\<lambda>current _. current) dial call target left 0 (leaderOr target c) c of
        (c', Inl e) \<Rightarrow> (c', Inl e)
      | (c', Inr r) \<Rightarrow> (c', Inr (rr_Value r)))"

text \<open>A node answers \<open>DiscoverTopology\<close> with an error only together with a redirect.\<close>

datatype topology_reply = RedirectTo string | View TopologyResponse

fun topology_redirect :: "topology_reply \<Rightarrow> string" where
  "topology_redirect (RedirectTo a) = a"
| "topology_redirect (View _) = []"

fun topology_leader :: "string \<Rightarrow> topology_reply \<Rightarrow> string" where
  "topology_leader current (View v) = (if tr_GlobalLeaderAddress v \<noteq> [] then tr_GlobalLeaderAddress v else current)"
| "topology_leader current (RedirectTo _) = current"

definition client_DiscoverTopology ::
    "(string \<Rightarrow> string option) \<Rightarrow> (nat \<Rightarrow> string \<Rightarrow> topology_reply attempt) \<Rightarrow> string \<Rightarrow> nat \<Rightarrow> RPCClient \<Rightarrow>
     RPCClient \<times> (client_error + topology_reply)" where
  "client_DiscoverTopology dial call target left c =
     follow topology_redirect (\<lambda>_. []) topology_leader dial call target left 0 (leaderOr target c) c"

section \<open>A write\<close>

definition no_result :: ClientResult where
  "no_result = \<lparr>cr_RequestID = [], cr_GlobalTerm = 0, cr_GlobalIndex = 0, cr_Result = [], cr_Source = [], cr_Committed = False,
     cr_ResponderDomain = []\<rparr>"

text \<open>
  \<open>Write\<close>: the callback server, the registration, the call and the race.  \<open>es\<close> is the order in which the two
  paths and the contexts are seen; \<open>None\<close> in the result means that the caller is still waiting.  Only the fact
  that the call failed matters to the race.  The waiter is removed at once after an error and otherwise when
  the late check has ended.
\<close>

definition client_Write ::
    "(string \<Rightarrow> string option) \<Rightarrow> string option \<Rightarrow> (string \<Rightarrow> nat \<Rightarrow> string \<Rightarrow> WriteReply attempt) \<Rightarrow> string \<Rightarrow> nat \<Rightarrow>
     ClientWriteRequest \<Rightarrow> race_event list \<Rightarrow> RPCClient \<Rightarrow> RPCClient \<times> ((client_error + error) + RaceDecision) option" where
  "client_Write dial listen call target left request es c =
     (case ensureCallback listen c of
        (c1, Inl e) \<Rightarrow> (c1, Some (Inl (Inl e)))
      | (c1, Inr addr) \<Rightarrow>
          let replyRoute = (if cl_replyRoute c1 = [] then addr else cl_replyRoute c1);
              (router, ch) = register (cwr_RequestID request) (cl_cbRouter c1);
              (c3, outcome) = writeFollowingRedirects dial (call replyRoute) target left (c1\<lparr>cl_cbRouter := router\<rparr>);
              global = (case outcome of Inr result \<Rightarrow> (result, None) | Inl _ \<Rightarrow> (no_result, Some ErrNotGlobalLeader));
              done1 = c3\<lparr>cl_cbRouter := unregister (cwr_RequestID request) (cl_cbRouter c3)\<rparr>
          in (case RaceUnaryWrite (cwr_RequestID request) global es of
                None \<Rightarrow> (c3, None)
              | Some (Inl e) \<Rightarrow> (done1, Some (Inl (Inr e)))
              | Some (Inr decision) \<Rightarrow> (done1, Some (Inr decision))))"

section \<open>Latencies of a floating client\<close>

text \<open>\<open>ping\<close> is the measured round trip to an address, or nothing when the call failed.\<close>

fun MeasureFloatingLatencies ::
    "(string \<Rightarrow> string option) \<Rightarrow> (string \<Rightarrow> duration option) \<Rightarrow> DomainEndpoint list \<Rightarrow> rat gomap \<Rightarrow> RPCClient \<Rightarrow>
     RPCClient \<times> (client_error + rat gomap)" where
  "MeasureFloatingLatencies dial ping [] latencies c = (c, Inr latencies)"
| "MeasureFloatingLatencies dial ping (e # es) latencies c =
     (if de_DomainId e = [] \<or> de_ClientAddress e = [] then MeasureFloatingLatencies dial ping es latencies c
      else case connection dial (de_ClientAddress e) c of
        (c1, Some err) \<Rightarrow> (c1, Inl err)
      | (c1, None) \<Rightarrow>
          (case ping (de_ClientAddress e) of
             None \<Rightarrow> (c1, Inl (CallError ''ping''))
           | Some rtt \<Rightarrow> MeasureFloatingLatencies dial ping es
               (fmupd (de_DomainId e) (of_int (Milliseconds rtt) / 2) latencies) c1))"

definition floating_report :: "rat gomap \<Rightarrow> FloatingRtt list" where
  "floating_report oneWayMillis =
     map (\<lambda>(domain, oneWay). \<lparr>fr_ToDomain = domain, fr_OneWayMillis = trunc_u64 oneWay, fr_RttMillis = 0\<rparr>)
       (filter (\<lambda>(_, oneWay). \<not> oneWay < 0) (sorted_list_of_fmap oneWayMillis))"

section \<open>Every Fast Return reaches its write\<close>

text \<open>Different requests wait on different channels.\<close>

definition router_wf :: "callbackRouter \<Rightarrow> bool" where
  "router_wf r \<longleftrightarrow> (\<forall>i ch. fmlookup (cb_waiters r) i = Some ch \<longrightarrow> ch < length (cb_chans r)) \<and>
     (\<forall>i j ch. fmlookup (cb_waiters r) i = Some ch \<longrightarrow> fmlookup (cb_waiters r) j = Some ch \<longrightarrow> i = j)"

lemma register_wf: "router_wf r \<Longrightarrow> router_wf (fst (register i r))"
  by (fastforce simp: router_wf_def register_def Let_def)

lemma unregister_wf: "router_wf r \<Longrightarrow> router_wf (unregister i r)"
  by (auto simp: router_wf_def unregister_def)

lemma FastReturn_frame:
  "cb_waiters (FastReturn x r) = cb_waiters r" "length (cb_chans (FastReturn x r)) = length (cb_chans r)"
  by (auto simp: FastReturn_def split: option.splits)

lemma FastReturn_wf: "router_wf r \<Longrightarrow> router_wf (FastReturn x r)"
  by (simp add: router_wf_def FastReturn_frame)

lemma FastReturn_chan:
  assumes "router_wf r" "fmlookup (cb_waiters r) i = Some ch"
  shows "cb_chans (FastReturn x r) ! ch =
    (if cr_RequestID x = i \<and> cb_chans r ! ch = None then Some \<lparr>rsp_Result = x, rsp_Err = None\<rparr> else cb_chans r ! ch)"
  using assms by (auto simp: FastReturn_def router_wf_def nth_list_update split: option.splits)

lemma fold_FastReturn:
  assumes "router_wf r" "fmlookup (cb_waiters r) i = Some ch"
  shows "router_wf (fold FastReturn xs r) \<and>
    cb_chans (fold FastReturn xs r) ! ch =
      (case cb_chans r ! ch of
         Some m \<Rightarrow> Some m
       | None \<Rightarrow> map_option (\<lambda>x. \<lparr>rsp_Result = x, rsp_Err = None\<rparr>) (List.find (\<lambda>x. cr_RequestID x = i) xs))"
  using assms
proof (induction xs arbitrary: r)
  case (Cons x xs)
  then show ?case
    using Cons.IH [of "FastReturn x r"] FastReturn_chan [OF Cons.prems, of x]
    by (auto simp: FastReturn_wf FastReturn_frame split: option.splits)
qed (simp split: option.splits)

text \<open>Fast Returns are routed by request.  After a write has registered, whatever Fast Returns arrive in
  whatever order, its channel holds the first one of its own request and nothing else, and so does the channel
  of every other waiting write whose buffer was empty; a response of a request that nobody waits for is
  dropped.\<close>

theorem fast_returns_routed:
  assumes "router_wf r" "register i r = (r1, ch)" "fmlookup (cb_waiters r1) j = Some ch'" "cb_chans r1 ! ch' = None"
  shows "router_wf (fold FastReturn xs r1) \<and> fmlookup (cb_waiters r1) i = Some ch \<and> cb_chans r1 ! ch = None \<and>
    cb_chans (fold FastReturn xs r1) ! ch' =
      map_option (\<lambda>x. \<lparr>rsp_Result = x, rsp_Err = None\<rparr>) (List.find (\<lambda>x. cr_RequestID x = j) xs) \<and>
    ((\<forall>x \<in> set xs. fmlookup (cb_waiters r1) (cr_RequestID x) = None) \<longrightarrow> fold FastReturn xs r1 = r1)"
proof -
  have wf: "router_wf r1" using register_wf [OF assms(1), of i] assms(2) by simp
  have "fold FastReturn xs r1 = r1" if "\<forall>x \<in> set xs. fmlookup (cb_waiters r1) (cr_RequestID x) = None"
    using that by (induction xs) (auto simp: FastReturn_def)
  then show ?thesis
    using fold_FastReturn [OF wf assms(3), of xs] assms(2,4) by (auto simp: register_def Let_def)
qed

section \<open>A stable leader is found\<close>

lemma connection_ok: "dial a = None \<Longrightarrow> \<exists>c1. connection dial a c = (c1, None)"
  by (simp add: connection_def)

lemma follow_answered:
  assumes "\<forall>a. dial a = None" "call k L = Answer r" "redirect r = []" "err r = []" "0 < left"
  shows "\<exists>c'. follow redirect err leaderOf dial call target left k L c = (c', Inr r) \<and> cl_lastLeader c' = leaderOf L r"
  using assms connection_ok [of dial L c] by (cases left) (auto simp: rememberLeader_def)

lemma follow_redirected:
  assumes "\<forall>a. dial a = None" "call k a = Answer q" "redirect q = L" "L \<noteq> []" "1 < left"
    and "call (Suc k) L = Answer r" "redirect r = []" "err r = []"
  shows "\<exists>c'. follow redirect err leaderOf dial call target left k a c = (c', Inr r) \<and> cl_lastLeader c' = leaderOf L r"
proof -
  obtain c1 where c1: "connection dial a c = (c1, None)" using connection_ok [of dial a c] assms(1) by auto
  obtain m where m: "left = Suc m" "0 < m" using assms(5) by (cases left) auto
  have eq: "follow redirect err leaderOf dial call target left k a c =
      follow redirect err leaderOf dial call target m (Suc k) L (rememberLeader L c1)"
    using assms(2-4) c1 m(1) by simp
  show ?thesis
    unfolding eq by (rule follow_answered [of dial call "Suc k" L r redirect err m, OF assms(1,6-8) m(2)])
qed

lemma follow_finds_leader:
  assumes dial: "\<forall>a. dial a = None" and L: "L \<noteq> []" "\<And>k. call k L = Answer (answer k)" "\<And>k. redirect (answer k) = []" "\<And>k. err (answer k) = []"
    and others: "\<And>k a. a \<noteq> L \<Longrightarrow> (\<exists>e. call k a = Failed e False) \<or> (\<exists>r. call k a = Answer r \<and> redirect r = L)"
    and target: "\<And>k. target \<noteq> L \<Longrightarrow> \<exists>r. call k target = Answer r \<and> redirect r = L" and left: "2 < left"
  shows "\<exists>c' k. k < 3 \<and> follow redirect err leaderOf dial call target left 0 a c = (c', Inr (answer k)) \<and>
    cl_lastLeader c' = leaderOf L (answer k)"
proof -
  have found: "\<exists>c' k. k < 3 \<and> follow redirect err leaderOf dial call target m j b c0 = (c', Inr (answer k)) \<and>
      cl_lastLeader c' = leaderOf L (answer k)"
    if b: "b = L \<or> (\<exists>r. call j b = Answer r \<and> redirect r = L)" and "1 < m" "j < 2" for b m j c0
  proof (cases "b = L")
    case True
    have "0 < m" "j < 3" using that by auto
    then show ?thesis
      using True follow_answered [of dial call j L "answer j" redirect err m leaderOf target c0] dial L by blast
  next
    case False
    then obtain q where q: "call j b = Answer q" "redirect q = L" using b by blast
    have "Suc j < 3" using that(3) by simp
    then show ?thesis
      using follow_redirected [of dial call j b q redirect L m "answer (Suc j)" err leaderOf target c0] dial q L that(2) by blast
  qed
  consider "a = L \<or> (\<exists>r. call 0 a = Answer r \<and> redirect r = L)" | e where "call 0 a = Failed e False" using others by blast
  then show ?thesis
  proof cases
    case 1
    then show ?thesis using found [of a 0 left c] left by simp
  next
    case 2
    obtain c1 where c1: "connection dial a c = (c1, None)" using connection_ok [of dial a c] dial by auto
    obtain m where m: "left = Suc m" "1 < m" using left by (cases left) auto
    have "follow redirect err leaderOf dial call target left 0 a c =
        follow redirect err leaderOf dial call target m 1 target (forgetLeader c1)"
      using 2 c1 m(1) by simp
    then show ?thesis using found [of target 1 m "forgetLeader c1"] target [of 1] m(2) by auto
  qed
qed

text \<open>C29: a client finds a stable Global Leader.  Suppose one address answers writes, every other node redirects
  there or is down, and the node the caller named is up.  Then a write returns the answer of the leader within
  three calls, whatever address was cached, and the leader is the cached address afterwards.\<close>

theorem stable_leader_found:
  assumes "\<forall>a. dial a = None" "L \<noteq> []" "\<forall>k. call k L = Answer (answer k) \<and> wr_Redirect (answer k) = [] \<and> wr_Error (answer k) = []"
    and "\<forall>k a. a \<noteq> L \<longrightarrow> (\<exists>e. call k a = Failed e False) \<or> (\<exists>r. call k a = Answer r \<and> wr_Redirect r = L)"
    and "\<forall>k. target \<noteq> L \<longrightarrow> (\<exists>r. call k target = Answer r \<and> wr_Redirect r = L)" "2 < left"
  shows "\<exists>c' k. k < 3 \<and> writeFollowingRedirects dial call target left c = (c', Inr (wr_Result (answer k))) \<and> cl_lastLeader c' = L"
  using follow_finds_leader [where redirect = wr_Redirect and err = wr_Error and leaderOf = "\<lambda>x _. x" and answer = answer
      and call = call and L = L and target = target and left = left and dial = dial and a = "leaderOr target c" and c = c] assms
  by (fastforce simp: writeFollowingRedirects_def)

section \<open>Examples\<close>

definition ex_answer :: WriteReply where
  "ex_answer = \<lparr>wr_Result = no_result, wr_Redirect = [], wr_Error = []\<rparr>"

text \<open>\<open>b1:1\<close> leads, \<open>c1:1\<close> is down, the others redirect.\<close>

definition ex_call :: "nat \<Rightarrow> string \<Rightarrow> WriteReply attempt" where
  "ex_call k a = (if a = ''b1:1'' then Answer ex_answer
     else if a = ''c1:1'' then Failed ''down'' False else Answer (ex_answer\<lparr>wr_Redirect := ''b1:1''\<rparr>))"

lemma ex_call_leader: "\<forall>k. ex_call k ''b1:1'' = Answer ex_answer \<and> wr_Redirect ex_answer = [] \<and> wr_Error ex_answer = []"
  by (simp add: ex_call_def ex_answer_def)

lemma ex_call_others:
  "\<forall>k a. a \<noteq> ''b1:1'' \<longrightarrow> (\<exists>e. ex_call k a = Failed e False) \<or> (\<exists>r. ex_call k a = Answer r \<and> wr_Redirect r = ''b1:1'')"
  "\<forall>k. ''a1:1'' \<noteq> ''b1:1'' \<longrightarrow> (\<exists>r. ex_call k ''a1:1'' = Answer r \<and> wr_Redirect r = ''b1:1'')"
  by (simp_all add: ex_call_def)

lemma stable_leader_found_witness:
  "\<exists>c'. writeFollowingRedirects (\<lambda>_. None) ex_call ''a1:1'' 3 (rememberLeader ''c1:1'' NewRPCClient) = (c', Inr no_result) \<and>
     cl_lastLeader c' = ''b1:1''"
  using stable_leader_found [OF _ _ ex_call_leader ex_call_others, of "\<lambda>_. None" 3 "rememberLeader ''c1:1'' NewRPCClient"]
  by (simp add: ex_answer_def)

definition ex_router :: callbackRouter where
  "ex_router = \<lparr>cb_waiters = fmempty, cb_chans = []\<rparr>"

lemma fast_returns_routed_witness:
  "cb_chans (fold FastReturn [no_result\<lparr>cr_RequestID := ''y''\<rparr>, no_result\<lparr>cr_RequestID := ''x''\<rparr>] (fst (register ''x'' ex_router))) ! 0 =
     Some \<lparr>rsp_Result = no_result\<lparr>cr_RequestID := ''x''\<rparr>, rsp_Err = None\<rparr>"
proof -
  have "router_wf ex_router" by (simp add: router_wf_def ex_router_def)
  moreover have "register ''x'' ex_router = (fst (register ''x'' ex_router), 0)"
    "fmlookup (cb_waiters (fst (register ''x'' ex_router))) ''x'' = Some 0" "cb_chans (fst (register ''x'' ex_router)) ! 0 = None"
    by (simp_all add: register_def ex_router_def)
  ultimately show ?thesis
    using fast_returns_routed [of ex_router "''x''" "fst (register ''x'' ex_router)" 0 "''x''" 0
        "[no_result\<lparr>cr_RequestID := ''y''\<rparr>, no_result\<lparr>cr_RequestID := ''x''\<rparr>]"] by simp
qed

end
