(* ===== verification/Harness.thy ===== *)
theory Harness
  imports Rpc_Net Client
begin

text \<open>
  The harness that owns a set of production nodes and drives them through a client,
  \<open>internal/harness/harness.go\<close>: construction, start and stop, restarts, fault injection, and the loops that wait
  for a serving cluster, a committed write or a value.  The nodes live on between its operations; what they answer
  is a parameter of each operation, as are the file system, free ports and the clock.
\<close>

section \<open>State\<close>

text \<open>A node with its outgoing side; \<open>hn_running\<close> says whether its runtime has been started.  The store of a node
  is the one in its record: \<open>Stores\<close> of the code holds the same objects.\<close>

record harness_node =
  hn_node :: RPCNode
  hn_net :: node_net
  hn_running :: bool

record Options =
  opt_ConfigPath :: string
  opt_Config :: Config
  opt_FastReturnEnabled :: bool
  opt_RPCPolicy :: "RPCPolicy option"
  opt_NetworkSimulation :: "NetworkSimulation option"
  opt_StatsWindow :: duration
  opt_CatchUpTimeout :: duration
  opt_StoreProfile :: string
  opt_DataDir :: string

text \<open>\<open>hs_runCtx\<close>: the run context exists.  \<open>hs_storeClosers\<close> are the databases that were opened, \<open>hs_closedStores\<close> those
  that were closed; \<open>hs_dirRemoved\<close> says that the data directory was deleted.\<close>

record Harness =
  hs_Config :: Config
  hs_Nodes :: "harness_node gomap"
  hs_Client :: RPCClient
  hs_started :: bool
  hs_closed :: bool
  hs_runCtx :: bool
  hs_rpcPolicy :: "RPCPolicy option"
  hs_networkSimulation :: "NetworkSimulation option"
  hs_statsWindow :: duration
  hs_catchUpTimeout :: duration
  hs_fastReturnConfigured :: bool
  hs_storeProfile :: string
  hs_dataDir :: string
  hs_removeDataDir :: bool
  hs_storeClosers :: "string list"
  hs_closedStores :: "string list"
  hs_dirRemoved :: bool

record LeaderInfo =
  li_NodeID :: string
  li_DomainID :: string
  li_GlobalTerm :: u64
  li_Address :: string

definition no_leader :: LeaderInfo where
  "no_leader = \<lparr>li_NodeID = [], li_DomainID = [], li_GlobalTerm = 0, li_Address = []\<rparr>"

datatype harness_error =
    FileError string | BadTopology config_error | NoFreeAddress | UnknownProfile string | OpenFailed string
  | NodeFailed node_error | ListenError listen_error | HarnessClosed | UnknownHarnessNode string | HasNoNodes
  | UnknownTarget string | ClientFailed client_error | RaceFailed error | WaitServingFailed harness_error | ContextEnded
  | NoServingLeader | RequestIDRequired | NotCommitted string | ReadMismatch string "harness_error option"
  | BadDropRate rat

definition pollInterval :: duration where "pollInterval = 50 * millisecond"

definition StoreProfileMemory :: string where "StoreProfileMemory = ''memory''"
definition StoreProfileLevelDBSync :: string where "StoreProfileLevelDBSync = ''leveldb-sync''"
definition StoreProfileLevelDBNoSync :: string where "StoreProfileLevelDBNoSync = ''leveldb-nosync''"

definition nonEmpty :: "string \<Rightarrow> string \<Rightarrow> string" where
  "nonEmpty value1 fallback = (if value1 \<noteq> [] then value1 else fallback)"

section \<open>Configuration\<close>

text \<open>\<open>topology.Load\<close>: \<open>decoded\<close> is what reading and decoding the file gave.\<close>

definition config_Load :: "(string \<Rightarrow> string + Config) \<Rightarrow> string \<Rightarrow> harness_error + Config" where
  "config_Load decoded path =
     (case decoded path of
        Inl e \<Rightarrow> Inl (FileError e)
      | Inr cfg \<Rightarrow> (case config_Validate cfg of Some e \<Rightarrow> Inl (BadTopology e) | None \<Rightarrow> Inr cfg))"

definition zero_features :: Features where
  "zero_features = \<lparr>ft_FastReturnEnabled = False, ft_FloatingDomains = [], ft_FloatingTelemetryTTLMillis = 0,
     ft_AllowUnknownFloatingDomains = False, ft_LogCompactionThreshold = 0, ft_LogCompactionRetain = 0\<rparr>"

text \<open>\<open>free k\<close> is the result of the \<open>k\<close>-th call of \<open>FreeAddress\<close>.\<close>

fun default_nodes :: "(nat \<Rightarrow> string option) \<Rightarrow> nat \<Rightarrow> (string \<times> string) list \<Rightarrow> harness_error + Node list" where
  "default_nodes free k [] = Inr []"
| "default_nodes free k ((domain, i) # rest) =
     (case (free k, free (Suc k)) of
        (Some listen, Some interAddr) \<Rightarrow>
          (case default_nodes free (Suc (Suc k)) rest of
             Inl e \<Rightarrow> Inl e
           | Inr nodes \<Rightarrow> Inr (\<lparr>nd_ID = domain @ i, nd_DomainCode = domain, nd_ListenAddress = listen, nd_InterDomainAddress = interAddr,
               nd_BindListenAddress = [], nd_BindInterDomainAddress = [], nd_PublicInterDomainAddress = [],
               nd_PublicListenAddress = []\<rparr> # nodes))
      | _ \<Rightarrow> Inl NoFreeAddress)"

definition DefaultConfig :: "(nat \<Rightarrow> string option) \<Rightarrow> bool \<Rightarrow> harness_error + Config" where
  "DefaultConfig free fastReturn =
     (case default_nodes free 0 (List.product [''a'', ''b'', ''c''] [''1'', ''2'', ''3'']) of
        Inl e \<Rightarrow> Inl e
      | Inr nodes \<Rightarrow>
          let cfg = \<lparr>cfg_ApplicationGroup = ApplicationGroup, cfg_Nodes = nodes,
                     cfg_Features = zero_features\<lparr>ft_FastReturnEnabled := fastReturn\<rparr>,
                     cfg_NetworkSimulation = \<lparr>ns_Enabled = False, ns_LocalOneWayDelayMillis = 0, ns_InterDomainOneWayMillis = fmempty\<rparr>,
                     cfg_Unsupported = \<lparr>us_ApplicationGroups = 0, us_Shards = 0, us_CrossGroupTransactions = False,
                       us_RuntimeMembershipChanges = False\<rparr>\<rparr>
          in (case config_Validate cfg of Some e \<Rightarrow> Inl (BadTopology e) | None \<Rightarrow> Inr cfg))"

definition configFromOptions ::
    "(string \<Rightarrow> string + Config) \<Rightarrow> (nat \<Rightarrow> string option) \<Rightarrow> Options \<Rightarrow> harness_error + Config" where
  "configFromOptions decoded free options =
     (if opt_ConfigPath options \<noteq> [] then config_Load decoded (opt_ConfigPath options)
      else if cfg_Nodes (opt_Config options) \<noteq> [] then Inr (opt_Config options)
      else DefaultConfig free (opt_FastReturnEnabled options))"

definition DefaultLatencyProfile :: NetworkSimulation where
  "DefaultLatencyProfile =
     \<lparr>ns_Enabled = True, ns_LocalOneWayDelayMillis = 1,
      ns_InterDomainOneWayMillis = fmap_of_list
        [(''a->b'', 50), (''b->a'', 50), (''a->c'', 80), (''c->a'', 80), (''b->c'', 60), (''c->b'', 60)]\<rparr>"

section \<open>Construction\<close>

definition applyNodeSettings :: "Harness \<Rightarrow> harness_node \<Rightarrow> harness_node" where
  "applyNodeSettings h node =
     (let net1 = (case hs_rpcPolicy h of Some p \<Rightarrow> SetRPCPolicy p (hn_net node) | None \<Rightarrow> hn_net node);
          net2 = (case hs_networkSimulation h of Some s \<Rightarrow> SetNetworkSimulation s net1 | None \<Rightarrow> net1);
          n1 = (if hs_statsWindow h > 0 then SetStatsWindow (hs_statsWindow h) (hn_node node) else hn_node node);
          n2 = (if hs_catchUpTimeout h > 0 then SetCatchUpTimeout (hs_catchUpTimeout h) n1 else n1)
      in node\<lparr>hn_net := net2, hn_node := rpc_SetFastReturnEnabled (hs_fastReturnConfigured h) n2\<rparr>)"

definition new_harness_node :: "Config \<Rightarrow> RPCNode \<Rightarrow> harness_node" where
  "new_harness_node config n = \<lparr>hn_node = n, hn_net = fresh_net config, hn_running = False\<rparr>"

text \<open>\<open>openDB dir sync\<close> is the database that is opened, as a store, or the reason why it cannot be.\<close>

definition newStore :: "(string \<Rightarrow> bool \<Rightarrow> string + Store) \<Rightarrow> string \<Rightarrow> Harness \<Rightarrow> Harness \<times> (harness_error + Store)" where
  "newStore openDB nodeID h =
     (let dir = hs_dataDir h @ ''/'' @ nodeID;
          opened = (\<lambda>sync. case openDB dir sync of
             Inl e \<Rightarrow> (h, Inl (OpenFailed e))
           | Inr st \<Rightarrow> (h\<lparr>hs_storeClosers := hs_storeClosers h @ [nodeID]\<rparr>, Inr st))
      in if hs_storeProfile h = StoreProfileMemory then (h, Inr (MemoryStore NewMemoryStore))
         else if hs_storeProfile h = StoreProfileLevelDBSync then opened True
         else if hs_storeProfile h = StoreProfileLevelDBNoSync then opened False
         else (h, Inl (UnknownProfile (hs_storeProfile h))))"

definition stop_node :: "harness_node \<Rightarrow> harness_node" where
  "stop_node node = node\<lparr>hn_node := rpc_Stop (hn_node node), hn_running := False\<rparr>"

definition harness_Close :: "Harness \<Rightarrow> Harness" where
  "harness_Close h =
     (if hs_closed h then h
      else h\<lparr>hs_closed := True, hs_Client := client_Close (hs_Client h), hs_Nodes := fmmap stop_node (hs_Nodes h),
             hs_closedStores := hs_storeClosers h,
             hs_dirRemoved := (hs_removeDataDir h \<and> hs_dataDir h \<noteq> [])\<rparr>)"

fun new_nodes :: "(string \<Rightarrow> bool \<Rightarrow> string + Store) \<Rightarrow> Node list \<Rightarrow> Harness \<Rightarrow> Harness \<times> harness_error option" where
  "new_nodes openDB [] h = (h, None)"
| "new_nodes openDB (configured # rest) h =
     (case newStore openDB (nd_ID configured) h of
        (h1, Inl e) \<Rightarrow> (harness_Close h1, Some e)
      | (h1, Inr st) \<Rightarrow>
          (case NewRPCNode (hs_Config h1) (nd_ID configured) (Some st) of
             Inl e \<Rightarrow> (harness_Close h1, Some (NodeFailed e))
           | Inr n \<Rightarrow> new_nodes openDB rest
               (h1\<lparr>hs_Nodes := fmupd (nd_ID configured) (applyNodeSettings h1 (new_harness_node (hs_Config h1) n)) (hs_Nodes h1)\<rparr>)))"

definition empty_harness :: "Options \<Rightarrow> Config \<Rightarrow> string \<Rightarrow> string \<Rightarrow> bool \<Rightarrow> Harness" where
  "empty_harness options cfg profile dir temporary =
     \<lparr>hs_Config = cfg, hs_Nodes = fmempty, hs_Client = NewRPCClient, hs_started = False, hs_closed = False,
      hs_runCtx = False, hs_rpcPolicy = opt_RPCPolicy options, hs_networkSimulation = opt_NetworkSimulation options,
      hs_statsWindow = opt_StatsWindow options, hs_catchUpTimeout = opt_CatchUpTimeout options,
      hs_fastReturnConfigured = opt_FastReturnEnabled options, hs_storeProfile = profile, hs_dataDir = dir,
      hs_removeDataDir = temporary, hs_storeClosers = [], hs_closedStores = [], hs_dirRemoved = False\<rparr>"

definition build_harness ::
    "(string \<Rightarrow> bool \<Rightarrow> string + Store) \<Rightarrow> Options \<Rightarrow> Config \<Rightarrow> string \<Rightarrow> string \<Rightarrow> bool \<Rightarrow> Harness option \<times> harness_error option" where
  "build_harness openDB options cfg profile dir temporary =
     (case new_nodes openDB (cfg_Nodes cfg) (empty_harness options cfg profile dir temporary) of (h, e) \<Rightarrow> (Some h, e))"

text \<open>\<open>New\<close>; after an error the harness is the closed remains, if there was one, which the caller does not get.\<close>

definition harness_New ::
    "(string \<Rightarrow> string + Config) \<Rightarrow> (nat \<Rightarrow> string option) \<Rightarrow> string option \<Rightarrow> (string \<Rightarrow> bool \<Rightarrow> string + Store) \<Rightarrow> Options \<Rightarrow>
     Harness option \<times> harness_error option" where
  "harness_New decoded free tempDir openDB options =
     (case configFromOptions decoded free options of
        Inl e \<Rightarrow> (None, Some e)
      | Inr cfg0 \<Rightarrow>
          let cfg1 = cfg0\<lparr>cfg_Features := (cfg_Features cfg0)\<lparr>ft_FastReturnEnabled := opt_FastReturnEnabled options\<rparr>\<rparr>;
              cfg = (case opt_NetworkSimulation options of Some s \<Rightarrow> cfg1\<lparr>cfg_NetworkSimulation := s\<rparr> | None \<Rightarrow> cfg1) in
          (case config_Validate cfg of
             Some e \<Rightarrow> (None, Some (BadTopology e))
           | None \<Rightarrow>
               let profile = nonEmpty (opt_StoreProfile options) StoreProfileMemory;
                   leveldb = (profile = StoreProfileLevelDBSync \<or> profile = StoreProfileLevelDBNoSync)
               in if profile \<noteq> StoreProfileMemory \<and> \<not> leveldb then (None, Some (UnknownProfile profile))
                  else if leveldb \<and> opt_DataDir options = []
                  then (case tempDir of
                          None \<Rightarrow> (None, Some (FileError ''MkdirTemp''))
                        | Some dir \<Rightarrow> build_harness openDB options cfg profile dir True)
                  else build_harness openDB options cfg profile (if leveldb then opt_DataDir options else []) False))"

section \<open>Start, run, restart\<close>

definition nodeIDsLocked :: "Harness \<Rightarrow> string list" where
  "nodeIDsLocked h = map fst (sorted_list_of_fmap (hs_Nodes h))"

text \<open>\<open>up i\<close> says whether the two addresses of node \<open>i\<close> can be listened on.\<close>

fun start_nodes :: "env \<Rightarrow> (string \<Rightarrow> bool \<times> bool) \<Rightarrow> string list \<Rightarrow> Harness \<Rightarrow> Harness \<times> harness_error option" where
  "start_nodes env up [] h = (h, None)"
| "start_nodes env up (i # is) h =
     (case fmlookup (hs_Nodes h) i of
        None \<Rightarrow> start_nodes env up is h
      | Some node \<Rightarrow>
          (case rpc_Start env (fst (up i)) (snd (up i)) (hn_node node) of
             (n, e) \<Rightarrow>
               let h1 = h\<lparr>hs_Nodes := fmupd i (node\<lparr>hn_node := n\<rparr>) (hs_Nodes h)\<rparr> in
               case e of Some err \<Rightarrow> (h1, Some (ListenError err)) | None \<Rightarrow> start_nodes env up is h1))"

definition harness_Start :: "env \<Rightarrow> (string \<Rightarrow> bool \<times> bool) \<Rightarrow> Harness \<Rightarrow> Harness \<times> harness_error option" where
  "harness_Start env up h =
     (if hs_closed h then (h, Some HarnessClosed)
      else if hs_started h then (h, None)
      else case start_nodes env up (nodeIDsLocked h) h of
        (h1, Some e) \<Rightarrow> (h1, Some e)
      | (h1, None) \<Rightarrow> (h1\<lparr>hs_started := True\<rparr>, None))"

text \<open>Starting the runtime of a node; a node with an unsafe timing would panic and is left as it is.\<close>

definition run_node :: "harness_node \<Rightarrow> harness_node" where
  "run_node node = (case rpc_Run (hn_node node) of Some n \<Rightarrow> node\<lparr>hn_node := n, hn_running := True\<rparr> | None \<Rightarrow> node)"

definition harness_Run :: "env \<Rightarrow> (string \<Rightarrow> bool \<times> bool) \<Rightarrow> Harness \<Rightarrow> Harness \<times> harness_error option" where
  "harness_Run env up h =
     (case harness_Start env up h of
        (h1, Some e) \<Rightarrow> (h1, Some e)
      | (h1, None) \<Rightarrow>
          if hs_closed h1 then (h1, Some HarnessClosed)
          else if hs_runCtx h1 then (h1, None)
          else (h1\<lparr>hs_runCtx := True, hs_Nodes := fmmap run_node (hs_Nodes h1)\<rparr>, None))"

text \<open>A restart keeps the store.  After an error the old node stays in place, stopped.\<close>

definition harness_Restart :: "env \<Rightarrow> bool \<Rightarrow> bool \<Rightarrow> string \<Rightarrow> Harness \<Rightarrow> Harness \<times> harness_error option" where
  "harness_Restart env clientUp interUp i h =
     (case fmlookup (hs_Nodes h) i of
        None \<Rightarrow> (h, Some (UnknownHarnessNode i))
      | Some old \<Rightarrow>
          let h1 = h\<lparr>hs_Nodes := fmupd i (stop_node old) (hs_Nodes h)\<rparr> in
          (case NewRPCNode (hs_Config h) i (Some (rn_store (hn_node old))) of
             Inl e \<Rightarrow> (h1, Some (NodeFailed e))
           | Inr n \<Rightarrow>
               let node = applyNodeSettings h (new_harness_node (hs_Config h) n) in
               (case rpc_Start env clientUp interUp (hn_node node) of
                  (n1, Some e) \<Rightarrow> (h1, Some (ListenError e))
                | (n1, None) \<Rightarrow>
                    let started = node\<lparr>hn_node := n1\<rparr> in
                    (h1\<lparr>hs_Nodes := fmupd i (if hs_runCtx h then run_node started else started) (hs_Nodes h1)\<rparr>, None))))"

section \<open>Addresses\<close>

definition harness_DomainNodeIDs :: "string \<Rightarrow> Harness \<Rightarrow> string list" where
  "harness_DomainNodeIDs domain h = sort (map nd_ID (filter (\<lambda>n. nd_DomainCode n = domain) (cfg_Nodes (hs_Config h))))"

definition harness_Address :: "string \<Rightarrow> Harness \<Rightarrow> harness_error + string" where
  "harness_Address nodeID h =
     (case config_Node (hs_Config h) nodeID of None \<Rightarrow> Inl (UnknownHarnessNode nodeID) | Some node \<Rightarrow> Inr (ClientDialAddress node))"

definition EntryAddress :: "Harness \<Rightarrow> harness_error + string" where
  "EntryAddress h = (case nodeIDsLocked h of [] \<Rightarrow> Inl HasNoNodes | i # _ \<Rightarrow> harness_Address i h)"

definition resolveTarget :: "string \<Rightarrow> Harness \<Rightarrow> harness_error + string" where
  "resolveTarget target h =
     (if target = [] then EntryAddress h
      else case config_Node (hs_Config h) target of
        Some node \<Rightarrow> Inr (ClientDialAddress node)
      | None \<Rightarrow> if CHR '':'' \<in> set target then Inr target else Inl (UnknownTarget target))"

section \<open>Plain client calls\<close>

text \<open>\<open>Status\<close>, \<open>Metrics\<close> and \<open>Move\<close> of the client (\<open>rpc_client.go\<close>): one call to one address, whose outcome is \<open>answer\<close>.\<close>

definition plain_call ::
    "(string \<Rightarrow> string option) \<Rightarrow> (string \<Rightarrow> string + 'r) \<Rightarrow> string \<Rightarrow> RPCClient \<Rightarrow> RPCClient \<times> (client_error + 'r)" where
  "plain_call dial answer target c =
     (case connection dial target c of
        (c1, Some e) \<Rightarrow> (c1, Inl e)
      | (c1, None) \<Rightarrow> (c1, case answer target of Inl e \<Rightarrow> Inl (CallError e) | Inr r \<Rightarrow> Inr r))"

type_synonym statuses = "string \<Rightarrow> string + NodeStatusResponse"

definition client_Status ::
    "(string \<Rightarrow> string option) \<Rightarrow> statuses \<Rightarrow> string \<Rightarrow> RPCClient \<Rightarrow> RPCClient \<times> (client_error + NodeStatusResponse)" where
  "client_Status dial answer target c = plain_call dial answer target c"

definition client_Metrics ::
    "(string \<Rightarrow> string option) \<Rightarrow> (string \<Rightarrow> string + MetricsResponse) \<Rightarrow> string \<Rightarrow> RPCClient \<Rightarrow>
     RPCClient \<times> (client_error + MetricsResponse)" where
  "client_Metrics dial answer target c = plain_call dial answer target c"

text \<open>The answer to a move: accepted with the new term, or the text of the refusal.\<close>

record MoveResponse =
  mr_Accepted :: bool
  mr_NotGlobalLeader :: bool
  mr_Error :: string
  mr_FromGlobalTerm :: u64
  mr_NewGlobalTerm :: u64
  mr_GlobalLeader :: DomainLeaderIdentity

definition client_Move ::
    "(string \<Rightarrow> string option) \<Rightarrow> (string \<Rightarrow> string \<Rightarrow> string \<Rightarrow> string + MoveResponse) \<Rightarrow> string \<Rightarrow> string \<Rightarrow> string \<Rightarrow> RPCClient \<Rightarrow>
     RPCClient \<times> (client_error + MoveResponse)" where
  "client_Move dial answer target targetDomain reason c = plain_call dial (\<lambda>a. answer a targetDomain reason) target c"

text \<open>A call of the harness through its client.\<close>

definition through_client ::
    "(RPCClient \<Rightarrow> RPCClient \<times> (client_error + 'r)) \<Rightarrow> Harness \<Rightarrow> Harness \<times> (harness_error + 'r)" where
  "through_client call h =
     (case call (hs_Client h) of
        (c, Inl e) \<Rightarrow> (h\<lparr>hs_Client := c\<rparr>, Inl (ClientFailed e))
      | (c, Inr r) \<Rightarrow> (h\<lparr>hs_Client := c\<rparr>, Inr r))"

definition harness_Status ::
    "(string \<Rightarrow> string option) \<Rightarrow> statuses \<Rightarrow> string \<Rightarrow> Harness \<Rightarrow> Harness \<times> (harness_error + NodeStatusResponse)" where
  "harness_Status dial answer nodeIDOrAddress h =
     (case resolveTarget nodeIDOrAddress h of
        Inl e \<Rightarrow> (h, Inl e)
      | Inr target \<Rightarrow> through_client (client_Status dial answer target) h)"

definition harness_Metrics ::
    "(string \<Rightarrow> string option) \<Rightarrow> (string \<Rightarrow> string + MetricsResponse) \<Rightarrow> string \<Rightarrow> Harness \<Rightarrow>
     Harness \<times> (harness_error + MetricsResponse)" where
  "harness_Metrics dial answer nodeIDOrAddress h =
     (case resolveTarget nodeIDOrAddress h of
        Inl e \<Rightarrow> (h, Inl e)
      | Inr target \<Rightarrow> through_client (client_Metrics dial answer target) h)"

definition harness_Move ::
    "(string \<Rightarrow> string option) \<Rightarrow> (string \<Rightarrow> string \<Rightarrow> string \<Rightarrow> string + MoveResponse) \<Rightarrow> string \<Rightarrow> string \<Rightarrow> string \<Rightarrow> Harness \<Rightarrow>
     Harness \<times> (harness_error + MoveResponse)" where
  "harness_Move dial answer target targetDomain reason h =
     (case resolveTarget target h of
        Inl e \<Rightarrow> (h, Inl e)
      | Inr addr \<Rightarrow> through_client (client_Move dial answer addr targetDomain reason) h)"

section \<open>Waiting for a leader\<close>

definition leaderFromStatus :: "NodeStatusResponse \<Rightarrow> LeaderInfo" where
  "leaderFromStatus status =
     \<lparr>li_NodeID = NodeID (st_GlobalLeader status), li_DomainID = DomainID (st_GlobalLeader status),
      li_GlobalTerm = st_GlobalTerm status, li_Address = st_GlobalLeaderAddress status\<rparr>"

fun serving_scan ::
    "(string \<Rightarrow> string option) \<Rightarrow> statuses \<Rightarrow> string list \<Rightarrow> LeaderInfo \<Rightarrow> Harness \<Rightarrow> Harness \<times> LeaderInfo \<times> bool \<times> harness_error option" where
  "serving_scan dial answer [] leader h = (h, leader, li_NodeID leader \<noteq> [], None)"
| "serving_scan dial answer (i # is) leader h =
     (case harness_Address i h of
        Inl e \<Rightarrow> (h, leader, False, Some e)
      | Inr addr \<Rightarrow>
          (case through_client (client_Status dial answer addr) h of
             (h1, Inl e) \<Rightarrow> (h1, leader, False, Some e)
           | (h1, Inr status) \<Rightarrow>
               if st_Stage status \<noteq> Serving \<or> NodeID (st_GlobalLeader status) = [] then (h1, leader, False, None)
               else let current = leaderFromStatus status in
                 if li_NodeID leader = [] then serving_scan dial answer is current h1
                 else if li_NodeID leader \<noteq> li_NodeID current \<or> li_GlobalTerm leader \<noteq> li_GlobalTerm current
                 then (h1, leader, False, None)
                 else serving_scan dial answer is leader h1))"

definition servingSnapshot ::
    "(string \<Rightarrow> string option) \<Rightarrow> statuses \<Rightarrow> Harness \<Rightarrow> Harness \<times> LeaderInfo \<times> bool \<times> harness_error option" where
  "servingSnapshot dial answer h = serving_scan dial answer (nodeIDsLocked h) no_leader h"

text \<open>One element of the list is one poll; the context ends after the last one.\<close>

fun WaitServing ::
    "(string \<Rightarrow> string option) \<Rightarrow> statuses list \<Rightarrow> harness_error option \<Rightarrow> LeaderInfo \<Rightarrow> Harness \<Rightarrow>
     Harness \<times> LeaderInfo \<times> harness_error option" where
  "WaitServing dial [] lastErr lastLeader h =
     (h, lastLeader, Some (case lastErr of Some e \<Rightarrow> WaitServingFailed e | None \<Rightarrow> ContextEnded))"
| "WaitServing dial (answer # polls) lastErr lastLeader h =
     (case servingSnapshot dial answer h of
        (h1, leader, ok, err) \<Rightarrow>
          if err = None \<and> ok then (h1, leader, None)
          else WaitServing dial polls (if err \<noteq> None then err else lastErr)
                 (if li_NodeID leader \<noteq> [] then leader else lastLeader) h1)"

fun leader_scan :: "(string \<Rightarrow> string option) \<Rightarrow> statuses \<Rightarrow> string list \<Rightarrow> Harness \<Rightarrow> Harness \<times> (harness_error + LeaderInfo)" where
  "leader_scan dial answer [] h = (h, Inl NoServingLeader)"
| "leader_scan dial answer (i # is) h =
     (case harness_Status dial answer i h of
        (h1, Inl e) \<Rightarrow> leader_scan dial answer is h1
      | (h1, Inr status) \<Rightarrow>
          if st_Stage status = Serving \<and> NodeID (st_GlobalLeader status) \<noteq> [] then (h1, Inr (leaderFromStatus status))
          else leader_scan dial answer is h1)"

definition CurrentGlobalLeader :: "(string \<Rightarrow> string option) \<Rightarrow> statuses \<Rightarrow> Harness \<Rightarrow> Harness \<times> (harness_error + LeaderInfo)" where
  "CurrentGlobalLeader dial answer h = leader_scan dial answer (nodeIDsLocked h) h"

section \<open>Retrying until a deadline\<close>

text \<open>
  One round of the loops of \<open>WriteUntilCommitted\<close> and \<open>ReadUntil\<close>: \<open>rd_test\<close> is the clock at the loop condition,
  \<open>rd_ctx\<close> whether the context has ended when it is tested, \<open>rd_at\<close> the clock when the budget of the attempt is
  computed, \<open>rd_over\<close> whether the context has ended after the loop if it stops here, and \<open>rd_env\<close> what the
  attempt meets.
\<close>

record 'a round =
  rd_test :: time
  rd_ctx :: bool
  rd_at :: time
  rd_over :: bool
  rd_env :: 'a

definition attemptBudget :: "time \<Rightarrow> time \<Rightarrow> duration" where
  "attemptBudget deadline now = (if deadline - now > 2 * second then 2 * second else deadline - now)"

text \<open>\<open>attempt\<close> returns nothing when the call does not return; \<open>judge\<close> ends the loop with a result or remembers
  something of the attempt; \<open>finish\<close> is the code after the loop.  No result means that the rounds ended first.\<close>

fun retry_until ::
    "(duration \<Rightarrow> 'a \<Rightarrow> Harness \<Rightarrow> Harness \<times> 'v option) \<Rightarrow> ('v \<Rightarrow> 's \<Rightarrow> 'r + 's) \<Rightarrow> (bool \<Rightarrow> 's \<Rightarrow> 'r) \<Rightarrow> time \<Rightarrow> 'a round list \<Rightarrow> 's \<Rightarrow> Harness \<Rightarrow>
     Harness \<times> 'r option" where
  "retry_until attempt judge finish deadline [] s h = (h, None)"
| "retry_until attempt judge finish deadline (r # rs) s h =
     (if \<not> rd_test r < deadline then (h, Some (finish (rd_over r) s))
      else if rd_ctx r then (h, Some (finish True s))
      else if attemptBudget deadline (rd_at r) \<le> 0 then (h, Some (finish (rd_over r) s))
      else case attempt (attemptBudget deadline (rd_at r)) (rd_env r) h of
        (h1, None) \<Rightarrow> (h1, None)
      | (h1, Some v) \<Rightarrow>
          (case judge v s of Inl result \<Rightarrow> (h1, Some result) | Inr s' \<Rightarrow> retry_until attempt judge finish deadline rs s' h1))"

text \<open>What a write of the client meets within a budget.\<close>

record write_env =
  wv_dial :: "string \<Rightarrow> string option"
  wv_listen :: "string option"
  wv_calls :: "duration \<Rightarrow> string \<Rightarrow> nat \<Rightarrow> string \<Rightarrow> WriteReply attempt"
  wv_tries :: "duration \<Rightarrow> nat"
  wv_events :: "duration \<Rightarrow> race_event list"

definition write_attempt ::
    "string \<Rightarrow> ClientWriteRequest \<Rightarrow> duration \<Rightarrow> write_env \<Rightarrow> Harness \<Rightarrow> Harness \<times> ((client_error + error) + RaceDecision) option" where
  "write_attempt addr req budget e h =
     (case client_Write (wv_dial e) (wv_listen e) (wv_calls e budget) addr (wv_tries e budget) req (wv_events e budget) (hs_Client h) of
        (c, r) \<Rightarrow> (h\<lparr>hs_Client := c\<rparr>, r))"

definition write_error :: "client_error + error \<Rightarrow> harness_error" where
  "write_error e = (case e of Inl c \<Rightarrow> ClientFailed c | Inr r \<Rightarrow> RaceFailed r)"

definition judge_write ::
    "(client_error + error) + RaceDecision \<Rightarrow> harness_error option \<Rightarrow> (harness_error + RaceDecision) + harness_error option" where
  "judge_write outcome lastErr =
     (case outcome of
        Inl e \<Rightarrow> Inr (Some (write_error e))
      | Inr decision \<Rightarrow> if cr_Committed (rd_Result decision) then Inl (Inr decision) else Inr lastErr)"

definition finish_write :: "string \<Rightarrow> bool \<Rightarrow> harness_error option \<Rightarrow> harness_error + RaceDecision" where
  "finish_write requestID over lastErr =
     (if over then Inl ContextEnded else case lastErr of Some e \<Rightarrow> Inl e | None \<Rightarrow> Inl (NotCommitted requestID))"

definition WriteUntilCommitted ::
    "write_env round list \<Rightarrow> string \<Rightarrow> ClientWriteRequest \<Rightarrow> time \<Rightarrow> duration \<Rightarrow> Harness \<Rightarrow> Harness \<times> (harness_error + RaceDecision) option" where
  "WriteUntilCommitted rounds target req now budget h =
     (if cwr_RequestID req = [] then (h, Some (Inl RequestIDRequired))
      else case resolveTarget target h of
        Inl e \<Rightarrow> (h, Some (Inl e))
      | Inr addr \<Rightarrow> retry_until (write_attempt addr req) judge_write (finish_write (cwr_RequestID req)) (now + budget) rounds None h)"

record read_env =
  rv_dial :: "string \<Rightarrow> string option"
  rv_calls :: "duration \<Rightarrow> nat \<Rightarrow> string \<Rightarrow> ReadReply attempt"
  rv_tries :: "duration \<Rightarrow> nat"

definition read_attempt ::
    "string \<Rightarrow> duration \<Rightarrow> read_env \<Rightarrow> Harness \<Rightarrow> Harness \<times> (client_error + string) option" where
  "read_attempt addr budget e h =
     (case ReadFrom (rv_dial e) (rv_calls e budget) addr (rv_tries e budget) (hs_Client h) of
        (c, r) \<Rightarrow> (h\<lparr>hs_Client := c\<rparr>, Some r))"

text \<open>The result of a read is a value and perhaps an error.\<close>

definition judge_read ::
    "string \<Rightarrow> client_error + string \<Rightarrow> string \<times> harness_error option \<Rightarrow> (string \<times> harness_error option) + (string \<times> harness_error option)" where
  "judge_read want outcome s =
     (case outcome of
        Inr v \<Rightarrow> if v = want then Inl (v, None) else Inr (v, snd s)
      | Inl e \<Rightarrow> Inr (fst s, Some (ClientFailed e)))"

definition finish_read :: "string \<Rightarrow> bool \<Rightarrow> string \<times> harness_error option \<Rightarrow> string \<times> harness_error option" where
  "finish_read key over s = (if over then (fst s, Some ContextEnded) else (fst s, Some (ReadMismatch key (snd s))))"

definition ReadUntil ::
    "read_env round list \<Rightarrow> string \<Rightarrow> string \<Rightarrow> string \<Rightarrow> time \<Rightarrow> duration \<Rightarrow> Harness \<Rightarrow> Harness \<times> (string \<times> harness_error option) option" where
  "ReadUntil rounds target key want now budget h =
     (case resolveTarget target h of
        Inl e \<Rightarrow> (h, Some ([], Some e))
      | Inr addr \<Rightarrow> retry_until (read_attempt addr) (judge_read want) (finish_read key) (now + budget) rounds ([], None) h)"

section \<open>Faults and settings\<close>

definition on_net :: "(node_net \<Rightarrow> node_net) \<Rightarrow> harness_node \<Rightarrow> harness_node" where
  "on_net f node = node\<lparr>hn_net := f (hn_net node)\<rparr>"

definition update_node :: "string \<Rightarrow> (harness_node \<Rightarrow> harness_node) \<Rightarrow> Harness \<Rightarrow> Harness" where
  "update_node i f h =
     (case fmlookup (hs_Nodes h) i of None \<Rightarrow> h | Some node \<Rightarrow> h\<lparr>hs_Nodes := fmupd i (f node) (hs_Nodes h)\<rparr>)"

definition validateNodeIDs :: "string list \<Rightarrow> Harness \<Rightarrow> harness_error option" where
  "validateNodeIDs ids h = map_option UnknownHarnessNode (List.find (\<lambda>i. fmlookup (hs_Nodes h) i = None) ids)"

definition harness_Partition :: "string list \<Rightarrow> string list \<Rightarrow> Harness \<Rightarrow> Harness \<times> harness_error option" where
  "harness_Partition groupA groupB h =
     (case validateNodeIDs groupA h of
        Some e \<Rightarrow> (h, Some e)
      | None \<Rightarrow>
          (case validateNodeIDs groupB h of
             Some e \<Rightarrow> (h, Some e)
           | None \<Rightarrow>
               (fold (\<lambda>i. update_node i (on_net (SetPartitionedFrom groupA))) groupB
                  (fold (\<lambda>i. update_node i (on_net (SetPartitionedFrom groupB))) groupA h), None)))"

definition harness_Heal :: "Harness \<Rightarrow> Harness" where
  "harness_Heal h = h\<lparr>hs_Nodes := fmmap (on_net HealPartition) (hs_Nodes h)\<rparr>"

definition harness_SetDropRate :: "rat \<Rightarrow> Harness \<Rightarrow> Harness \<times> harness_error option" where
  "harness_SetDropRate rate h =
     (if rate < 0 \<or> rate > 1 then (h, Some (BadDropRate rate))
      else (h\<lparr>hs_Nodes := fmmap (on_net (SetDropRate rate)) (hs_Nodes h)\<rparr>, None))"

definition harness_SetNetworkSimulation :: "NetworkSimulation \<Rightarrow> Harness \<Rightarrow> Harness" where
  "harness_SetNetworkSimulation simulation h =
     h\<lparr>hs_networkSimulation := Some simulation, hs_Nodes := fmmap (on_net (SetNetworkSimulation simulation)) (hs_Nodes h)\<rparr>"

definition harness_SetRPCPolicy :: "RPCPolicy \<Rightarrow> Harness \<Rightarrow> Harness" where
  "harness_SetRPCPolicy policy h =
     h\<lparr>hs_rpcPolicy := Some policy, hs_Nodes := fmmap (on_net (SetRPCPolicy policy)) (hs_Nodes h)\<rparr>"

definition harness_SetCatchUpTimeout :: "duration \<Rightarrow> Harness \<Rightarrow> Harness" where
  "harness_SetCatchUpTimeout timeout h =
     h\<lparr>hs_catchUpTimeout := timeout,
       hs_Nodes := fmmap (\<lambda>node. node\<lparr>hn_node := SetCatchUpTimeout timeout (hn_node node)\<rparr>) (hs_Nodes h)\<rparr>"

end
