(* ===== verification/Harness_Facts.thy ===== *)
theory Harness_Facts
  imports Harness
begin

text \<open>
  What the operations of the harness guarantee: a leader that it reports is agreed on by all nodes, its retry loops
  end and return what was asked for, a partition cuts both directions, a restart keeps the store and the recorded
  settings but not the injected faults, and a construction that fails leaves nothing open.
\<close>

section \<open>An agreed leader\<close>

lemma through_client_frame:
  "through_client f h = (h', r) \<Longrightarrow> hs_Nodes h' = hs_Nodes h \<and> hs_Config h' = hs_Config h \<and> hs_closed h' = hs_closed h \<and>
     hs_dirRemoved h' = hs_dirRemoved h"
  by (auto simp: through_client_def split: prod.splits sum.splits)

lemma through_client_Status:
  "through_client (client_Status dial answer addr) h = (h', Inr st) \<Longrightarrow> answer addr = Inr st"
  by (auto simp: through_client_def client_Status_def plain_call_def split: prod.splits sum.splits option.splits)

definition reports :: "statuses \<Rightarrow> Harness \<Rightarrow> LeaderInfo \<Rightarrow> string \<Rightarrow> bool" where
  "reports answer h leader i \<longleftrightarrow> (\<exists>addr st. harness_Address i h = Inr addr \<and> answer addr = Inr st \<and> st_Stage st = Serving \<and>
     NodeID (st_GlobalLeader st) = li_NodeID leader \<and> st_GlobalTerm st = li_GlobalTerm leader)"

lemma reports_frame:
  "hs_Config h' = hs_Config h \<Longrightarrow> reports answer h' leader i = reports answer h leader i"
  by (simp add: reports_def harness_Address_def)

lemma serving_scan_agreed:
  assumes "serving_scan dial answer is leader0 h = (h', leader, True, None)"
  shows "li_NodeID leader \<noteq> [] \<and> (\<forall>i \<in> set is. reports answer h leader i) \<and>
    (li_NodeID leader0 \<noteq> [] \<longrightarrow> leader = leader0)"
  using assms
proof (induction "is" arbitrary: leader0 h)
  case (Cons i "is")
  obtain addr where a: "harness_Address i h = Inr addr" using Cons.prems by (auto split: sum.splits)
  obtain h1 st where s: "through_client (client_Status dial answer addr) h = (h1, Inr st)"
    using Cons.prems a by (auto split: sum.splits prod.splits)
  have st: "st_Stage st = Serving" "NodeID (st_GlobalLeader st) \<noteq> []" using Cons.prems a s by (auto split: if_splits)
  let ?l = "if li_NodeID leader0 = [] then leaderFromStatus st else leader0"
  have rec: "serving_scan dial answer is ?l h1 = (h', leader, True, None)"
    and same: "li_NodeID leader0 \<noteq> [] \<Longrightarrow> li_NodeID leader0 = NodeID (st_GlobalLeader st) \<and> li_GlobalTerm leader0 = st_GlobalTerm st"
    using Cons.prems a s st by (auto simp: Let_def leaderFromStatus_def split: if_splits)
  have cfg: "hs_Config h1 = hs_Config h" using through_client_frame [OF s] by simp
  have l: "leader = ?l" using Cons.IH [OF rec] st(2) by (auto simp: leaderFromStatus_def)
  then have "reports answer h leader i"
    using a st same through_client_Status [OF s] by (auto simp: reports_def leaderFromStatus_def)
  then show ?case using Cons.IH [OF rec] l by (auto simp: reports_frame [OF cfg])
qed auto

lemma serving_scan_frame:
  "serving_scan dial answer is l h = (h', r) \<Longrightarrow> hs_Nodes h' = hs_Nodes h \<and> hs_Config h' = hs_Config h \<and> hs_closed h' = hs_closed h \<and>
     hs_dirRemoved h' = hs_dirRemoved h"
proof (induction "is" arbitrary: l h)
  case (Cons i "is")
  show ?case
  proof (cases "harness_Address i h")
    case (Inr addr)
    obtain h1 x where t: "through_client (client_Status dial answer addr) h = (h1, x)"
      by (cases "through_client (client_Status dial answer addr) h")
    show ?thesis
      using Cons.prems Cons.IH [of _ h1] through_client_frame [OF t] Inr t by (auto simp: Let_def split: sum.splits if_splits)
  qed (use Cons.prems in auto)
qed auto

text \<open>When the wait for a serving cluster ends without an error, there was one poll in which every configured
  node answered that it is serving, under the Global Leader and the global term that are returned.\<close>

theorem wait_serving_agreed:
  assumes "WaitServing dial polls lastErr lastLeader h = (h', leader, None)"
  shows "li_NodeID leader \<noteq> [] \<and> (\<exists>answer \<in> set polls. \<forall>i \<in> set (nodeIDsLocked h). reports answer h leader i)"
  using assms
proof (induction polls arbitrary: lastErr lastLeader h)
  case (Cons answer polls)
  obtain h1 l ok err where s: "servingSnapshot dial answer h = (h1, l, ok, err)" by (metis prod_cases4)
  have f: "hs_Nodes h1 = hs_Nodes h" "hs_Config h1 = hs_Config h"
    using serving_scan_frame s unfolding servingSnapshot_def by blast+
  show ?case
  proof (cases "err = None \<and> ok")
    case True
    then have "leader = l" using Cons.prems s by simp
    then show ?thesis
      using True serving_scan_agreed [of dial answer "nodeIDsLocked h" no_leader h h1 l] s by (auto simp: servingSnapshot_def)
  next
    case False
    then have "WaitServing dial polls (if err \<noteq> None then err else lastErr) (if li_NodeID l \<noteq> [] then l else lastLeader) h1 = (h', leader, None)"
      using Cons.prems s by auto
    from Cons.IH [OF this] show ?thesis using f by (auto simp: nodeIDsLocked_def reports_frame [OF f(2)])
  qed
qed simp

section \<open>Retry loops end\<close>

text \<open>Every attempt returns, and a round takes at least the poll interval.\<close>

definition ticking :: "time \<Rightarrow> 'a round list \<Rightarrow> bool" where
  "ticking now rs \<longleftrightarrow> (\<forall>k < length rs. now + int k * pollInterval \<le> rd_test (rs ! k))"

lemma ticking_tl: "ticking now (r # rs) \<Longrightarrow> ticking (now + pollInterval) rs"
  by (force simp: ticking_def algebra_simps)

lemma retry_until_ends:
  assumes "\<forall>r \<in> set rs. \<forall>b h. snd (attempt b (rd_env r) h) \<noteq> None" "ticking now rs"
    "deadline - now \<le> int (length rs - 1) * pollInterval" "rs \<noteq> []"
  shows "snd (retry_until attempt judge finish deadline rs s h) \<noteq> None"
  using assms
proof (induction rs arbitrary: now s h)
  case (Cons r rs)
  show ?case
  proof (cases "rd_test r < deadline \<and> \<not> rd_ctx r \<and> 0 < attemptBudget deadline (rd_at r)")
    case True
    obtain h1 v where v: "attempt (attemptBudget deadline (rd_at r)) (rd_env r) h = (h1, Some v)"
      using Cons.prems(1) by (metis list.set_intros(1) not_None_eq prod.collapse)
    have "now \<le> rd_test r" using Cons.prems(2) by (force simp: ticking_def)
    then have "rs \<noteq> []" using True Cons.prems(3) by auto
    moreover have "deadline - (now + pollInterval) \<le> int (length rs - 1) * pollInterval"
      using Cons.prems(3) \<open>rs \<noteq> []\<close> by (cases rs) (auto simp: algebra_simps)
    ultimately have "snd (retry_until attempt judge finish deadline rs s' h1) \<noteq> None" for s'
      using Cons.IH [OF _ ticking_tl [OF Cons.prems(2)]] Cons.prems(1) by simp
    then show ?thesis using True v by (auto split: sum.splits)
  qed auto
qed simp

lemma retry_until_result:
  assumes "retry_until attempt judge finish deadline rs s h = (h', Some r)"
    and "\<And>b e h h1 v s' r. attempt b e h = (h1, Some v) \<Longrightarrow> judge v s' = Inl r \<Longrightarrow> P r" "\<And>over s'. P (finish over s')"
  shows "P r"
  using assms(1)
proof (induction rs arbitrary: s h)
  case (Cons x rs)
  show ?case
  proof (cases "rd_test x < deadline \<and> \<not> rd_ctx x \<and> 0 < attemptBudget deadline (rd_at x)")
    case True
    obtain h1 v where v: "attempt (attemptBudget deadline (rd_at x)) (rd_env x) h = (h1, Some v)"
      using Cons.prems True by (auto split: prod.splits option.splits)
    show ?thesis
    proof (cases "judge v s")
      case (Inl r')
      then show ?thesis using Cons.prems True v assms(2) [OF v] by auto
    next
      case (Inr s')
      then have "retry_until attempt judge finish deadline rs s' h1 = (h', Some r)" using Cons.prems True v by auto
      then show ?thesis by (rule Cons.IH)
    qed
  qed (use Cons.prems assms(3) in \<open>auto split: if_splits\<close>)
qed simp

text \<open>A race whose context ends returns, and so does a write whose attempt is bounded by a context.\<close>

lemma RaceResponses_returns: "CtxDone \<in> set es \<Longrightarrow> RaceResponses q g f es \<noteq> None"
  by (induction es arbitrary: g f) (auto split: race_event.splits option.splits)

lemma write_attempt_returns:
  assumes "CtxDone \<in> set (wv_events e b)"
  shows "snd (write_attempt addr req b e h) \<noteq> None"
proof -
  have "CtxDone \<in> (\<lambda>x. case x of OnGlobal _ \<Rightarrow> OnGlobal (Some \<lparr>rsp_Result = fst g, rsp_Err = snd g\<rparr>) | x \<Rightarrow> x) ` set (wv_events e b)" for g
    using assms by force
  then have race: "RaceUnaryWrite q g (wv_events e b) = None \<longleftrightarrow> False" for q g
    using RaceResponses_returns unfolding RaceUnaryWrite_def by (metis list.set_map)
  show ?thesis
    by (auto simp: race write_attempt_def client_Write_def Let_def split: prod.splits sum.splits option.splits)
qed


lemma RaceResponses_valid: "RaceResponses q g f es = Some (Inr d) \<Longrightarrow> Validate (rd_Result d) q = None"
  by (induction es arbitrary: g f) (auto split: if_splits race_event.splits option.splits dest!: validResponse_Some)

lemma client_Write_valid:
  assumes "client_Write dial listen call target left req es c = (c', Some (Inr d))"
  shows "Validate (rd_Result d) (cwr_RequestID req) = None"
proof -
  obtain g where "RaceUnaryWrite (cwr_RequestID req) g es = Some (Inr d)"
    using assms by (auto simp: client_Write_def Let_def split: prod.splits sum.splits option.splits)
  then show ?thesis
    using RaceResponses_valid by (auto simp: RaceUnaryWrite_def)
qed

text \<open>What the retry loops return is what was asked for: a write returns a committed result of its own request
  with a term and an index, and a read that returns without an error returns the value that was waited for.\<close>

theorem retries_return_what_was_asked:
  "(WriteUntilCommitted rounds target req now budget h = (h', Some (Inr d)) \<longrightarrow>
     cr_Committed (rd_Result d) \<and> cr_RequestID (rd_Result d) = cwr_RequestID req \<and>
     cr_GlobalTerm (rd_Result d) \<noteq> 0 \<and> cr_GlobalIndex (rd_Result d) \<noteq> 0) \<and>
   (ReadUntil rrounds target key want now budget h = (h'', Some (v, None)) \<longrightarrow> v = want)"
proof (intro conjI impI)
  assume w: "WriteUntilCommitted rounds target req now budget h = (h', Some (Inr d))"
  then obtain addr where r: "retry_until (write_attempt addr req) judge_write (finish_write (cwr_RequestID req)) (now + budget) rounds None h = (h', Some (Inr d))"
    by (auto simp: WriteUntilCommitted_def split: if_splits sum.splits)
  have "case Inr d of Inl (_ :: harness_error) \<Rightarrow> True | Inr d' \<Rightarrow> Validate (rd_Result d') (cwr_RequestID req) = None"
    by (rule retry_until_result [OF r, where P = "\<lambda>r. case r of Inl _ \<Rightarrow> True | Inr d' \<Rightarrow> Validate (rd_Result d') (cwr_RequestID req) = None"])
      (auto simp: write_attempt_def judge_write_def finish_write_def dest!: client_Write_valid
        split: sum.splits if_splits prod.splits option.splits)
  then show "cr_Committed (rd_Result d)" "cr_RequestID (rd_Result d) = cwr_RequestID req"
    "cr_GlobalTerm (rd_Result d) \<noteq> 0" "cr_GlobalIndex (rd_Result d) \<noteq> 0"
    by (simp_all add: Validate_None_iff)
next
  assume "ReadUntil rrounds target key want now budget h = (h'', Some (v, None))"
  then obtain addr where r: "retry_until (read_attempt addr) (judge_read want) (finish_read key) (now + budget) rrounds ([], None) h = (h'', Some (v, None))"
    by (auto simp: ReadUntil_def split: sum.splits)
  have "snd (v, None :: harness_error option) = None \<longrightarrow> fst (v, None :: harness_error option) = want"
    by (rule retry_until_result [OF r, where P = "\<lambda>r. snd r = None \<longrightarrow> fst r = want"]) (auto simp: judge_read_def finish_read_def split: sum.splits if_splits)
  then show "v = want" by simp
qed

section \<open>Partitions\<close>

lemma blocked_fold: "get_or False (fold (\<lambda>i. fmupd i True) ids m) j \<longleftrightarrow> j \<in> set ids \<or> get_or False m j"
  by (induction ids arbitrary: m) auto

lemma linkBlocked_SetPartitionedFrom [simp]: "linkBlocked j (SetPartitionedFrom ids net) \<longleftrightarrow> j \<in> set ids"
  by (simp add: linkBlocked_def SetPartitionedFrom_def blocked_fold)

lemma update_node_lookup:
  "fmlookup (hs_Nodes (update_node i f h)) j = (if j = i then map_option f (fmlookup (hs_Nodes h) j) else fmlookup (hs_Nodes h) j)"
  by (auto simp: update_node_def split: option.splits)

lemma fold_update_node:
  "fmlookup (hs_Nodes (fold (\<lambda>i. update_node i (on_net (SetPartitionedFrom g))) ids h)) j =
     (if j \<in> set ids then map_option (on_net (SetPartitionedFrom g)) (fmlookup (hs_Nodes h) j) else fmlookup (hs_Nodes h) j)"
proof (induction ids arbitrary: h)
  case (Cons i ids)
  have "on_net (SetPartitionedFrom g) (on_net (SetPartitionedFrom g) n) = on_net (SetPartitionedFrom g) n" for n
    by (simp add: on_net_def SetPartitionedFrom_def)
  then show ?case using Cons [of "update_node i (on_net (SetPartitionedFrom g)) h"]
    by (auto simp: update_node_lookup option.map_comp comp_def)
qed simp

lemma Partition_lookup:
  assumes "harness_Partition groupA groupB h = (h', None)"
  shows "fmlookup (hs_Nodes h') j =
    (if j \<in> set groupB then map_option (on_net (SetPartitionedFrom groupA)) (fmlookup (hs_Nodes h) j)
     else if j \<in> set groupA then map_option (on_net (SetPartitionedFrom groupB)) (fmlookup (hs_Nodes h) j)
     else fmlookup (hs_Nodes h) j)"
proof -
  have h': "h' = fold (\<lambda>i. update_node i (on_net (SetPartitionedFrom groupA))) groupB
      (fold (\<lambda>i. update_node i (on_net (SetPartitionedFrom groupB))) groupA h)"
    using assms by (auto simp: harness_Partition_def split: option.splits)
  have "on_net (SetPartitionedFrom g) (on_net (SetPartitionedFrom g') n) = on_net (SetPartitionedFrom g) n" for g g' n
    by (simp add: on_net_def SetPartitionedFrom_def)
  then show ?thesis unfolding h' by (auto simp: fold_update_node option.map_comp comp_def)
qed

lemma callNode_blocked:
  "linkBlocked j net \<Longrightarrow> \<exists>net' e el. callNode dial env n j net = (net', Some e, [], el)"
  by (auto simp: callNode_def Let_def split: option.splits sum.splits)

text \<open>A partition of two disjoint groups cuts every link between them in both directions: whatever a node of one
  group calls at a node of the other, nothing is sent and the caller gets an error.  Nodes outside the groups keep
  their links, and healing opens every link again.\<close>

theorem partition_cuts:
  assumes "harness_Partition groupA groupB h = (h', None)" "set groupA \<inter> set groupB = {}"
    and "i \<in> set groupA" "j \<in> set groupB" "fmlookup (hs_Nodes h') i = Some ni" "fmlookup (hs_Nodes h') j = Some nj"
  shows "(\<exists>net' e el. callNode dial env (hn_node ni) j (hn_net ni) = (net', Some e, [], el)) \<and>
    (\<exists>net' e el. callNode dial env (hn_node nj) i (hn_net nj) = (net', Some e, [], el)) \<and>
    (k \<notin> set groupA \<union> set groupB \<longrightarrow> fmlookup (hs_Nodes h') k = fmlookup (hs_Nodes h) k) \<and>
    (\<forall>n. fmlookup (hs_Nodes (harness_Heal h')) k = Some n \<longrightarrow> \<not> linkBlocked l (hn_net n))"
proof -
  have "i \<notin> set groupB" using assms(2,3) by blast
  then have "linkBlocked j (hn_net ni)" "linkBlocked i (hn_net nj)"
    using assms(3-6) by (auto simp: Partition_lookup [OF assms(1)] on_net_def)
  then show ?thesis
    by (auto simp: Partition_lookup [OF assms(1)] harness_Heal_def on_net_def HealPartition_def linkBlocked_def
        intro!: callNode_blocked [unfolded linkBlocked_def])
qed

section \<open>Restarts\<close>

lemma run_node_fields [simp]:
  "hn_net (run_node x) = hn_net x" "rn_state (hn_node (run_node x)) = rn_state (hn_node x)"
  "rn_store (hn_node (run_node x)) = rn_store (hn_node x)" "rn_local (hn_node (run_node x)) = rn_local (hn_node x)"
  "rn_config (hn_node (run_node x)) = rn_config (hn_node x)" "rn_fastReturnEnabled (hn_node (run_node x)) = rn_fastReturnEnabled (hn_node x)"
  by (auto simp: run_node_def rpc_Run_def Let_def SetDomainLeaseEnabled_def SetGlobalLeaseEnabled_def split: option.splits)

lemma applyNodeSettings_fields [simp]:
  "rn_state (hn_node (applyNodeSettings h x)) = rn_state (hn_node x)" "rn_store (hn_node (applyNodeSettings h x)) = rn_store (hn_node x)"
  "rn_local (hn_node (applyNodeSettings h x)) = rn_local (hn_node x)" "rn_config (hn_node (applyNodeSettings h x)) = rn_config (hn_node x)"
  "rn_fastReturnEnabled (hn_node (applyNodeSettings h x)) = hs_fastReturnConfigured h"
  "net_rpcPolicy (hn_net (applyNodeSettings h x)) = (case hs_rpcPolicy h of Some p \<Rightarrow> p | None \<Rightarrow> net_rpcPolicy (hn_net x))"
  "net_networkSimulation (hn_net (applyNodeSettings h x)) = (case hs_networkSimulation h of Some s \<Rightarrow> s | None \<Rightarrow> net_networkSimulation (hn_net x))"
  "net_blockedPeers (hn_net (applyNodeSettings h x)) = net_blockedPeers (hn_net x)" "net_dropRate (hn_net (applyNodeSettings h x)) = net_dropRate (hn_net x)"
  by (auto simp: applyNodeSettings_def Let_def SetRPCPolicy_def SetNetworkSimulation_def SetStatsWindow_def SetCatchUpTimeout_def
      rpc_SetFastReturnEnabled_def split: option.splits)

lemma rpc_Start_fields:
  "rpc_Start env a b n = (n', e) \<Longrightarrow> rn_state n' = rn_state n \<and> rn_store n' = rn_store n \<and> rn_local n' = rn_local n \<and>
     rn_config n' = rn_config n \<and> rn_fastReturnEnabled n' = rn_fastReturnEnabled n"
  by (auto simp: rpc_Start_def resetGlobalDeadlineLocked_def resetDomainDeadlineLocked_def split: if_splits)

lemma NewRPCNode_Inr:
  "NewRPCNode config i (Some st) = Inr n \<longleftrightarrow>
     config_Validate config = None \<and> (\<exists>l s. config_Node config i = Some l \<and> store_Load st = Inr s \<and> n = fresh_node config l st s)"
  by (auto simp: NewRPCNode_def Let_def split: option.splits sum.splits)

lemma Restart_ok:
  assumes "harness_Restart env up1 up2 i h = (h', None)" "fmlookup (hs_Nodes h) i = Some old"
  obtains s l x where "store_Load (rn_store (hn_node old)) = Inr s" "config_Node (hs_Config h) i = Some l"
    "hs_Nodes h' = fmupd i x (hs_Nodes h)" "rn_state (hn_node x) = s" "rn_store (hn_node x) = rn_store (hn_node old)"
    "rn_local (hn_node x) = l" "rn_config (hn_node x) = hs_Config h" "rn_fastReturnEnabled (hn_node x) = hs_fastReturnConfigured h"
    "hn_net x = hn_net (applyNodeSettings h \<lparr>hn_node = hn_node old, hn_net = fresh_net (hs_Config h), hn_running = False\<rparr>)"
proof -
  obtain n where n: "NewRPCNode (hs_Config h) i (Some (rn_store (hn_node old))) = Inr n"
    using assms by (auto simp: harness_Restart_def Let_def split: sum.splits)
  let ?x = "applyNodeSettings h (new_harness_node (hs_Config h) n)"
  obtain n1 where s: "rpc_Start env up1 up2 (hn_node ?x) = (n1, None)"
    using assms n by (auto simp: harness_Restart_def Let_def split: prod.splits option.splits)
  let ?y = "?x\<lparr>hn_node := n1\<rparr>"
  obtain y where y: "hs_Nodes h' = fmupd i y (hs_Nodes h)" "y = ?y \<or> y = run_node ?y"
    using assms n s by (auto simp: harness_Restart_def Let_def split: if_splits)
  obtain l st where "config_Node (hs_Config h) i = Some l" "store_Load (rn_store (hn_node old)) = Inr st" "n = fresh_node (hs_Config h) l (rn_store (hn_node old)) st"
    using n by (auto simp: NewRPCNode_Inr)
  moreover have "hn_net ?x = hn_net (applyNodeSettings h \<lparr>hn_node = hn_node old, hn_net = fresh_net (hs_Config h), hn_running = False\<rparr>)"
    by (simp add: applyNodeSettings_def new_harness_node_def Let_def split: option.splits)
  ultimately show thesis
    using that [of st l y] y rpc_Start_fields [OF s] by (auto simp: new_harness_node_def fresh_node_def)
qed

text \<open>A restart that succeeds replaces one node and no other.  The new node has the store of the old one and
  the state that was saved in it, runs the configuration of the harness, and has the retry policy, latency and Fast
  Return setting that the harness recorded.\<close>

theorem restart_keeps_store_and_settings:
  assumes "harness_Restart env up1 up2 i h = (h', None)" "fmlookup (hs_Nodes h) i = Some old"
  shows "\<exists>x. hs_Nodes h' = fmupd i x (hs_Nodes h) \<and> rn_store (hn_node x) = rn_store (hn_node old) \<and>
    store_Load (rn_store (hn_node old)) = Inr (rn_state (hn_node x)) \<and>
    rn_config (hn_node x) = hs_Config h \<and> config_Node (hs_Config h) i = Some (rn_local (hn_node x)) \<and>
    net_rpcPolicy (hn_net x) = (case hs_rpcPolicy h of Some p \<Rightarrow> p | None \<Rightarrow> DefaultRPCPolicy) \<and>
    net_networkSimulation (hn_net x) = (case hs_networkSimulation h of Some s \<Rightarrow> s | None \<Rightarrow> cfg_NetworkSimulation (hs_Config h)) \<and>
    rn_fastReturnEnabled (hn_node x) = hs_fastReturnConfigured h"
  by (rule Restart_ok [OF assms]) (auto simp: fresh_net_def split: option.splits)

text \<open>C35: a restart opens one direction of a partition.  After two disjoint groups are partitioned and a node of one is
  restarted, that node reaches the other group again while the other group still cannot reach it.\<close>

theorem restart_forgets_partition:
  assumes "harness_Partition groupA groupB h = (h1, None)" "set groupA \<inter> set groupB = {}" "i \<in> set groupA" "j \<in> set groupB"
    and "harness_Restart env up1 up2 i h1 = (h2, None)"
    and "fmlookup (hs_Nodes h2) i = Some ni" "fmlookup (hs_Nodes h2) j = Some nj"
  shows "\<not> linkBlocked j (hn_net ni) \<and> linkBlocked i (hn_net nj)"
proof -
  obtain old where old: "fmlookup (hs_Nodes h1) i = Some old"
    using assms(5) by (auto simp: harness_Restart_def split: option.splits)
  have ij: "i \<noteq> j" using assms(2-4) by blast
  show ?thesis
    by (rule Restart_ok [OF assms(5) old])
      (use assms(3,4,6,7) ij in \<open>auto simp: Partition_lookup [OF assms(1)] on_net_def linkBlocked_def [of j] fresh_net_def\<close>)
qed

section \<open>Inventory\<close>

text \<open>The harness has exactly the nodes of its configuration, and each is the node it is filed under.\<close>

definition harness_wf :: "Harness \<Rightarrow> bool" where
  "harness_wf h \<longleftrightarrow> config_Validate (hs_Config h) = None \<and>
     fset (fmdom (hs_Nodes h)) = nd_ID ` set (cfg_Nodes (hs_Config h)) \<and>
     (\<forall>i x. fmlookup (hs_Nodes h) i = Some x \<longrightarrow> config_Node (hs_Config h) i = Some (rn_local (hn_node x)))"

lemma harness_wf_map:
  assumes "harness_wf h" "hs_Config h' = hs_Config h" "\<And>i. fmlookup (hs_Nodes h') i = map_option (f i) (fmlookup (hs_Nodes h) i)"
    and "\<And>i x. rn_local (hn_node (f i x)) = rn_local (hn_node x)"
  shows "harness_wf h'"
proof -
  have "fset (fmdom (hs_Nodes h')) = fset (fmdom (hs_Nodes h))" using assms(3) by (simp add: fmdom'_alt_def [symmetric] fmlookup_dom'_iff set_eq_iff)
  then show ?thesis using assms by (auto simp: harness_wf_def)
qed

lemma harness_wf_upd:
  assumes "harness_wf h" "fmlookup (hs_Nodes h) i = Some old" "hs_Config h' = hs_Config h" "hs_Nodes h' = fmupd i x (hs_Nodes h)"
    and "config_Node (hs_Config h) i = Some (rn_local (hn_node x))"
  shows "harness_wf h'"
proof -
  have "i \<in> fset (fmdom (hs_Nodes h))" using assms(2) by (simp add: fmdomI)
  then show ?thesis using assms by (auto simp: harness_wf_def insert_absorb)
qed

lemma on_net_node [simp]: "hn_node (on_net f x) = hn_node x"
  by (simp add: on_net_def)

lemma stop_node_fields [simp]: "rn_local (hn_node (stop_node x)) = rn_local (hn_node x)" "rn_stopped (hn_node (stop_node x))"
  by (simp_all add: stop_node_def rpc_Stop_def)

lemma newStore_frame:
  assumes "newStore openDB i h = (h1, r)"
  shows "\<exists>closers. h1 = h\<lparr>hs_storeClosers := closers\<rparr>"
proof -
  have "h1 = h\<lparr>hs_storeClosers := hs_storeClosers h\<rparr> \<or> h1 = h\<lparr>hs_storeClosers := hs_storeClosers h @ [i]\<rparr>"
    using assms by (auto simp: newStore_def Let_def split: if_splits sum.splits)
  then show ?thesis by blast
qed

text \<open>The loop that builds the nodes: when it ends well, it has added one node for each configured one; when it does
  not, the harness is closed.\<close>

definition cleaned_up :: "Harness \<Rightarrow> bool" where
  "cleaned_up h \<longleftrightarrow> hs_closed h \<and> hs_closedStores h = hs_storeClosers h \<and> cl_conns (hs_Client h) = [] \<and>
     hs_dirRemoved h = (hs_removeDataDir h \<and> hs_dataDir h \<noteq> []) \<and>
     (\<forall>i x. fmlookup (hs_Nodes h) i = Some x \<longrightarrow> rn_stopped (hn_node x))"

lemma Close_cleans_up: "\<not> hs_closed h \<Longrightarrow> cleaned_up (harness_Close h)"
  by (auto simp: cleaned_up_def harness_Close_def client_Close_def)

lemma new_nodes_spec:
  assumes "new_nodes openDB ns h = (h', e)" "\<not> hs_closed h"
  shows "(case e of
      Some _ \<Rightarrow> cleaned_up h'
    | None \<Rightarrow> \<not> hs_closed h' \<and> hs_Config h' = hs_Config h \<and>
        fset (fmdom (hs_Nodes h')) = fset (fmdom (hs_Nodes h)) \<union> nd_ID ` set ns \<and>
        (\<forall>i x. fmlookup (hs_Nodes h') i = Some x \<longrightarrow>
           fmlookup (hs_Nodes h) i = Some x \<or> config_Node (hs_Config h) i = Some (rn_local (hn_node x))))"
  using assms
proof (induction ns arbitrary: h)
  case (Cons n ns)
  obtain h1 r where s: "newStore openDB (nd_ID n) h = (h1, r)" by (cases "newStore openDB (nd_ID n) h")
  obtain cs where h1: "h1 = h\<lparr>hs_storeClosers := cs\<rparr>" using newStore_frame [OF s] by blast
  show ?case
  proof (cases r)
    case (Inl err)
    then show ?thesis using Cons.prems s h1 Close_cleans_up [of h1] by auto
  next
    case (Inr st)
    show ?thesis
    proof (cases "NewRPCNode (hs_Config h1) (nd_ID n) (Some st)")
      case (Inl err)
      then show ?thesis using Cons.prems s h1 \<open>r = Inr st\<close> Close_cleans_up [of h1] by auto
    next
      case N: (Inr m)
      let ?x = "applyNodeSettings h1 (new_harness_node (hs_Config h1) m)"
      let ?h2 = "h1\<lparr>hs_Nodes := fmupd (nd_ID n) ?x (hs_Nodes h1)\<rparr>"
      have rec: "new_nodes openDB ns ?h2 = (h', e)" using Cons.prems(1) s Inr N by simp
      have "config_Node (hs_Config h) (nd_ID n) = Some (rn_local (hn_node ?x))"
        using N h1 by (auto simp: NewRPCNode_Inr new_harness_node_def fresh_node_def)
      then have new: "\<forall>i x. fmlookup (hs_Nodes ?h2) i = Some x \<longrightarrow>
          fmlookup (hs_Nodes h) i = Some x \<or> config_Node (hs_Config h) i = Some (rn_local (hn_node x))"
        using h1 by auto
      have c: "\<not> hs_closed ?h2" "hs_Config ?h2 = hs_Config h"
        "fset (fmdom (hs_Nodes ?h2)) = insert (nd_ID n) (fset (fmdom (hs_Nodes h)))"
        using Cons.prems(2) h1 by simp_all
      show ?thesis
      proof (cases e)
        case None
        from Cons.IH [OF rec c(1)] have "\<not> hs_closed h'" "hs_Config h' = hs_Config h"
          "fset (fmdom (hs_Nodes h')) = insert (nd_ID n) (fset (fmdom (hs_Nodes h))) \<union> nd_ID ` set ns"
          "\<forall>i x. fmlookup (hs_Nodes h') i = Some x \<longrightarrow>
            fmlookup (hs_Nodes ?h2) i = Some x \<or> config_Node (hs_Config h) i = Some (rn_local (hn_node x))"
          unfolding None c(2,3) option.case by blast+
        then show ?thesis using new None by simp blast
      qed (use Cons.IH [OF rec c(1)] in simp)
    qed
  qed
qed auto

section \<open>Every operation keeps the inventory\<close>

inductive harness_step :: "Harness \<Rightarrow> Harness \<Rightarrow> bool" where
  live: "fmlookup (hs_Nodes h) i = Some x \<Longrightarrow> rpc_step (hn_node x) n \<Longrightarrow>
    harness_step h (h\<lparr>hs_Nodes := fmupd i (x\<lparr>hn_node := n\<rparr>) (hs_Nodes h)\<rparr>)"
| client: "harness_step h (h\<lparr>hs_Client := c\<rparr>)"
| starting: "harness_Start env up h = (h', e) \<Longrightarrow> harness_step h h'"
| running: "harness_Run env up h = (h', e) \<Longrightarrow> harness_step h h'"
| closing: "harness_step h (harness_Close h)"
| restart: "harness_Restart env up1 up2 i h = (h', e) \<Longrightarrow> harness_step h h'"
| partition: "harness_Partition groupA groupB h = (h', e) \<Longrightarrow> harness_step h h'"
| heal: "harness_step h (harness_Heal h)"
| drop_rate: "harness_SetDropRate rate h = (h', e) \<Longrightarrow> harness_step h h'"
| simulation: "harness_step h (harness_SetNetworkSimulation sim h)"
| policy: "harness_step h (harness_SetRPCPolicy p h)"
| catch_up: "harness_step h (harness_SetCatchUpTimeout d h)"

lemma start_nodes_wf:
  "start_nodes env up is h = (h', e) \<Longrightarrow> harness_wf h \<Longrightarrow> harness_wf h'"
proof (induction "is" arbitrary: h)
  case (Cons i "is")
  show ?case
  proof (cases "fmlookup (hs_Nodes h) i")
    case (Some x)
    obtain n r where s: "rpc_Start env (fst (up i)) (snd (up i)) (hn_node x) = (n, r)"
      by (cases "rpc_Start env (fst (up i)) (snd (up i)) (hn_node x)")
    let ?h = "h\<lparr>hs_Nodes := fmupd i (x\<lparr>hn_node := n\<rparr>) (hs_Nodes h)\<rparr>"
    have "config_Node (hs_Config h) i = Some (rn_local n)"
      using Cons.prems(2) Some rpc_Start_fields [OF s] by (simp add: harness_wf_def)
    then have "harness_wf ?h" by (intro harness_wf_upd [OF Cons.prems(2) Some, where x = "x\<lparr>hn_node := n\<rparr>"]) simp_all
    then show ?thesis using Cons.prems Cons.IH [of ?h] Some s by (auto simp: Let_def split: option.splits)
  qed (use Cons in simp)
qed auto

lemma harness_wf_cong: "hs_Config h' = hs_Config h \<Longrightarrow> hs_Nodes h' = hs_Nodes h \<Longrightarrow> harness_wf h' = harness_wf h"
  by (simp add: harness_wf_def)

lemma Start_wf: "harness_Start env up h = (h', e) \<Longrightarrow> harness_wf h \<Longrightarrow> harness_wf h'"
  using start_nodes_wf [of env up "nodeIDsLocked h" h]
  by (auto simp: harness_Start_def split: if_splits prod.splits option.splits intro: harness_wf_cong [THEN iffD2])

lemma Restart_wf:
  assumes "harness_Restart env up1 up2 i h = (h', e)" "harness_wf h"
  shows "harness_wf h'"
proof (cases "fmlookup (hs_Nodes h) i")
  case (Some old)
  have c: "hs_Config h' = hs_Config h" using assms(1) Some
    by (auto simp: harness_Restart_def Let_def split: sum.splits prod.splits option.splits)
  show ?thesis
  proof (cases e)
    case None
    show ?thesis
      by (rule Restart_ok [OF assms(1) [unfolded None] Some], rule harness_wf_upd [OF assms(2) Some c]) auto
  next
    case (Some err)
    then have "hs_Nodes h' = fmupd i (stop_node old) (hs_Nodes h)"
      using assms(1) \<open>fmlookup (hs_Nodes h) i = Some old\<close> by (auto simp: harness_Restart_def Let_def split: sum.splits prod.splits option.splits)
    then show ?thesis
      using assms(2) \<open>fmlookup (hs_Nodes h) i = Some old\<close> by (intro harness_wf_upd [OF assms(2) _ c]) (auto simp: harness_wf_def)
  qed
qed (use assms in \<open>auto simp: harness_Restart_def\<close>)

lemma Partition_wf:
  assumes "harness_Partition groupA groupB h = (h', e)" "harness_wf h"
  shows "harness_wf h'"
proof (cases e)
  case None
  have "hs_Config (fold (\<lambda>i. update_node i f) ids h0) = hs_Config h0" for ids f h0
    by (induction ids arbitrary: h0) (auto simp: update_node_def split: option.splits)
  then have c: "hs_Config h' = hs_Config h"
    using assms(1) by (auto simp: harness_Partition_def split: option.splits)
  let ?f = "\<lambda>j x. if j \<in> set groupB then on_net (SetPartitionedFrom groupA) x
      else if j \<in> set groupA then on_net (SetPartitionedFrom groupB) x else x"
  show ?thesis
    by (rule harness_wf_map [OF assms(2) c, of ?f])
      (simp_all add: Partition_lookup [OF assms(1) [unfolded None]] option.map_ident)
qed (use assms in \<open>auto simp: harness_Partition_def split: option.splits\<close>)

lemma harness_step_wf: "harness_step h h' \<Longrightarrow> harness_wf h \<Longrightarrow> harness_wf h'"
proof (induction rule: harness_step.induct)
  case (live h i x n)
  have "rn_local n = rn_local (hn_node x)" using rpc_step_le [OF live(2)] by (simp add: rpc_le_def)
  then show ?case
    using live(1,3) by (intro harness_wf_upd [OF live(3) live(1), where x = "x\<lparr>hn_node := n\<rparr>"]) (auto simp: harness_wf_def)
next
  case (running env up h h' e)
  obtain h1 e1 where s: "harness_Start env up h = (h1, e1)" by (cases "harness_Start env up h")
  have w: "harness_wf h1" by (rule Start_wf [OF s running(2)])
  have "harness_wf (h1\<lparr>hs_runCtx := True, hs_Nodes := fmmap run_node (hs_Nodes h1)\<rparr>)"
    by (rule harness_wf_map [OF w, of _ "\<lambda>_. run_node"]) simp_all
  then show ?case using running(1) s w by (auto simp: harness_Run_def split: option.splits if_splits)
next
  case (closing h)
  then show ?case
    by (cases "hs_closed h") (auto simp: harness_Close_def intro!: harness_wf_map [of h _ "\<lambda>_. stop_node"])
next
  case (drop_rate rate h h' e)
  then show ?case
    by (cases "rate < 0 \<or> rate > 1")
      (auto simp: harness_SetDropRate_def intro!: harness_wf_map [of h _ "\<lambda>_. on_net (SetDropRate rate)"])
next
  case (heal h)
  then show ?case by (rule harness_wf_map [of _ _ "\<lambda>_. on_net HealPartition"]) (simp_all add: harness_Heal_def)
next
  case (simulation h sim)
  then show ?case
    by (rule harness_wf_map [of _ _ "\<lambda>_. on_net (SetNetworkSimulation sim)"]) (simp_all add: harness_SetNetworkSimulation_def)
next
  case (policy h p)
  then show ?case by (rule harness_wf_map [of _ _ "\<lambda>_. on_net (SetRPCPolicy p)"]) (simp_all add: harness_SetRPCPolicy_def)
next
  case (catch_up h d)
  then show ?case
    by (rule harness_wf_map [of _ _ "\<lambda>_ x. x\<lparr>hn_node := SetCatchUpTimeout d (hn_node x)\<rparr>"])
      (simp_all add: harness_SetCatchUpTimeout_def SetCatchUpTimeout_def)
next
  case (client h c)
  then show ?case by (simp add: harness_wf_def)
qed (rule Start_wf Restart_wf Partition_wf, assumption+)+

lemma New_ok:
  assumes "harness_New decoded free tempDir openDB options = (Some h, e)"
  shows "case e of None \<Rightarrow> harness_wf h | Some _ \<Rightarrow> cleaned_up h"
proof -
  obtain cfg profile dir temporary where v: "config_Validate cfg = None"
    and b: "build_harness openDB options cfg profile dir temporary = (Some h, e)"
    using assms unfolding harness_New_def Let_def by (auto split: sum.splits option.splits if_splits)
  let ?h0 = "empty_harness options cfg profile dir temporary"
  have n: "new_nodes openDB (cfg_Nodes cfg) ?h0 = (h, e)" using b by (auto simp: build_harness_def split: prod.splits)
  have h0: "\<not> hs_closed ?h0" "hs_Config ?h0 = cfg" "hs_Nodes ?h0 = fmempty" by (simp_all add: empty_harness_def)
  show ?thesis using new_nodes_spec [OF n h0(1)] v h0 by (auto simp: harness_wf_def split: option.splits)
qed

text \<open>C30: a harness that is built has exactly the nodes of a valid configuration, each under its own name, and keeps
  them so through every sequence of its operations (also failing ones) and of sections of its running nodes; a
  construction that fails after it began to open stores has stopped its nodes and closed every store it opened.\<close>

theorem harness_inventory:
  assumes "harness_New decoded free tempDir openDB options = (Some h, e)"
  shows "(e = None \<longrightarrow> harness_step\<^sup>*\<^sup>* h h' \<longrightarrow> harness_wf h') \<and> (e \<noteq> None \<longrightarrow> cleaned_up h)"
proof -
  have "harness_wf h'" if "harness_step\<^sup>*\<^sup>* h h'" "harness_wf h" for h'
    using that by (induction rule: rtranclp_induct) (auto intro: harness_step_wf)
  then show ?thesis using New_ok [OF assms] by (auto split: option.splits)
qed

end
