(* ===== verification/Scenario.thy ===== *)
theory Scenario
  imports Harness_Facts Write_Cost
begin

text \<open>
  Scenarios of the harness, \<open>internal/harness/scenario.go\<close> and the parts of \<open>write_overhead.go\<close> and \<open>report.go\<close> that
  only compute: the data types, the built-in scenarios and their validation, latency profiles, the names of requests,
  and the statistics of measured latencies.  Text that is only printed is kept as data (\<open>detail\<close>).
\<close>

section \<open>Decimal numbers\<close>

definition digit :: "nat \<Rightarrow> char" where
  "digit d = char_of (48 + d)"

text \<open>\<open>%d\<close> of a non-negative number, and \<open>%03d\<close>.\<close>

fun dec :: "nat \<Rightarrow> string" where
  "dec n = (if n < 10 then [digit n] else dec (n div 10) @ [digit (n mod 10)])"

declare dec.simps [simp del]

definition dec3 :: "nat \<Rightarrow> string" where
  "dec3 n = (let s = dec n in replicate (3 - length s) (CHR ''0'') @ s)"

definition undec :: "string \<Rightarrow> nat" where
  "undec s = foldl (\<lambda>a c. 10 * a + (of_char c - 48)) 0 s"

lemma of_char_digit: "d < 10 \<Longrightarrow> (of_char (digit d) :: nat) = 48 + d"
  by (simp add: digit_def of_char_of)

lemma undec_dec: "undec (dec n) = n"
proof (induction n rule: dec.induct)
  case (1 n)
  show ?case
  proof (cases "n < 10")
    case True
    then show ?thesis by (simp add: dec.simps [of n] undec_def of_char_digit)
  next
    case False
    then have "undec (dec (n div 10)) = n div 10" using 1 by blast
    then show ?thesis using False by (simp add: dec.simps [of n] undec_def of_char_digit)
  qed
qed

lemma dec_inj: "dec m = dec n \<longleftrightarrow> m = n"
  by (metis undec_dec)

lemma dec3_inj: "dec3 m = dec3 n \<longleftrightarrow> m = n"
proof -
  have "undec (replicate k (CHR ''0'') @ s) = undec s" for k s by (induction k) (simp_all add: undec_def)
  then have "undec (dec3 n) = n" for n by (simp add: dec3_def Let_def undec_dec)
  then show ?thesis by metis
qed

section \<open>Steps and scenarios\<close>

definition StepStart :: string where "StepStart = ''start''"
definition StepWaitServing :: string where "StepWaitServing = ''wait_serving''"
definition StepWriteRead :: string where "StepWriteRead = ''write_read''"
definition StepMove :: string where "StepMove = ''move''"
definition StepPartition :: string where "StepPartition = ''partition''"
definition StepHeal :: string where "StepHeal = ''heal''"
definition StepRestart :: string where "StepRestart = ''restart''"
definition StepSetDropRate :: string where "StepSetDropRate = ''set_drop_rate''"
definition StepSetLatency :: string where "StepSetLatency = ''set_latency''"
definition StepMetrics :: string where "StepMetrics = ''metrics''"
definition StepSleep :: string where "StepSleep = ''sleep''"
definition StepStartLoad :: string where "StepStartLoad = ''start_load''"
definition StepStopLoad :: string where "StepStopLoad = ''stop_load''"
definition StepWriteOverhead :: string where "StepWriteOverhead = ''write_overhead''"

lemmas step_types = StepStart_def StepWaitServing_def StepWriteRead_def StepMove_def StepPartition_def StepHeal_def
  StepRestart_def StepSetDropRate_def StepSetLatency_def StepMetrics_def StepSleep_def StepStartLoad_def StepStopLoad_def
  StepWriteOverhead_def

record Step =
  sp_Name :: string
  sp_Type :: string
  sp_Target :: string
  sp_TargetDomain :: string
  sp_Origin :: string
  sp_RequestID :: string
  sp_Key :: string
  sp_Value :: string
  sp_Reason :: string
  sp_GroupA :: "string list"
  sp_GroupB :: "string list"
  sp_Nodes :: "string list"
  sp_DropRate :: rat
  sp_LatencyProfile :: string
  sp_DurationMillis :: int
  sp_BudgetMillis :: int
  sp_IntervalMillis :: int
  sp_ExpectWinner :: string
  sp_Origins :: "string list"
  sp_Count :: int
  sp_Warmup :: int
  sp_Trace :: bool

record Scenario =
  sc_Name :: string
  sc_FastReturn :: bool
  sc_FloatingDomains :: "string list"
  sc_FloatingLatencies :: "rat gomap gomap"
  sc_Steps :: "Step list"

definition mk_step :: "string \<Rightarrow> string \<Rightarrow> Step" where
  "mk_step name type1 =
     \<lparr>sp_Name = name, sp_Type = type1, sp_Target = [], sp_TargetDomain = [], sp_Origin = [], sp_RequestID = [], sp_Key = [],
      sp_Value = [], sp_Reason = [], sp_GroupA = [], sp_GroupB = [], sp_Nodes = [], sp_DropRate = 0, sp_LatencyProfile = [],
      sp_DurationMillis = 0, sp_BudgetMillis = 0, sp_IntervalMillis = 0, sp_ExpectWinner = [], sp_Origins = [], sp_Count = 0,
      sp_Warmup = 0, sp_Trace = False\<rparr>"

definition edge_latencies :: "rat gomap gomap" where
  "edge_latencies = fmupd ''edge'' (fmap_of_list [(''a'', 100), (''b'', 5), (''c'', 80)]) fmempty"

definition mk_scenario :: "string \<Rightarrow> bool \<Rightarrow> Step list \<Rightarrow> Scenario" where
  "mk_scenario name fastReturn steps =
     \<lparr>sc_Name = name, sc_FastReturn = fastReturn, sc_FloatingDomains = [''edge''], sc_FloatingLatencies = edge_latencies, sc_Steps = steps\<rparr>"

definition first_steps :: "Step list" where
  "first_steps = [mk_step ''start cluster'' StepStart, (mk_step ''wait for serving'' StepWaitServing)\<lparr>sp_BudgetMillis := 12000\<rparr>]"

definition write_read_step :: "string \<Rightarrow> string \<Rightarrow> string \<Rightarrow> Step" where
  "write_read_step name origin r =
     (mk_step name StepWriteRead)\<lparr>sp_Origin := origin, sp_RequestID := r, sp_Key := r, sp_Value := ''ok'', sp_BudgetMillis := 8000\<rparr>"

definition overhead_step :: "string \<Rightarrow> int \<Rightarrow> Step" where
  "overhead_step name budget =
     (mk_step name StepWriteOverhead)\<lparr>sp_Count := 8, sp_Warmup := 3, sp_Trace := True, sp_BudgetMillis := budget\<rparr>"

definition BuiltinScenario :: "string \<Rightarrow> Scenario option" where
  "BuiltinScenario name =
     (let sample = mk_step ''sample metrics'' StepMetrics in
      if name = [] \<or> name = ''smoke''
      then Some \<lparr>sc_Name = ''smoke'', sc_FastReturn = False, sc_FloatingDomains = [], sc_FloatingLatencies = fmempty,
                 sc_Steps = first_steps @ [write_read_step ''write and read'' ''b'' ''harness-smoke'', sample]\<rparr>
      else if name = ''floating-smoke''
      then Some (mk_scenario ''floating-smoke'' True
             (first_steps @ [write_read_step ''floating write and read'' ''edge'' ''harness-floating'', sample]))
      else if name = ''floating-fallback''
      then Some (mk_scenario ''floating-fallback'' False
             (first_steps @ [(write_read_step ''floating write and read fallback'' ''edge'' ''harness-floating-fallback'')
                \<lparr>sp_ExpectWinner := GlobalResponse\<rparr>, sample]))
      else if name = ''write-overhead''
      then Some (mk_scenario ''write-overhead'' True
             (first_steps @ [(mk_step ''disable injected latency'' StepSetLatency)\<lparr>sp_LatencyProfile := ''off''\<rparr>,
                overhead_step ''measure write overhead'' 20000, sample]))
      else if name = ''write-overhead-latency''
      then Some (mk_scenario ''write-overhead-latency'' True
             (first_steps @ [(mk_step ''apply default latency'' StepSetLatency)\<lparr>sp_LatencyProfile := ''default''\<rparr>,
                overhead_step ''measure write overhead with latency'' 30000, sample]))
      else None)"

datatype scenario_error =
    HarnessFailed harness_error | NameRequired | NoStepsIn string | StepWithoutType nat | TargetDomainRequired | MoveRejected string
  | RestartNeedsNodes | UnknownLatency string | Interrupted | LoadRunning string | LoadNotRunning string | UnknownStep string
  | WrongWinner ResultSource string | NoOrigins | WriteNotCommitted string | BadScenarioConfig config_error | BadScenarioFile string

text \<open>\<open>decoded\<close> is what reading and decoding the file gave; \<open>base\<close> is \<open>filepath.Base\<close>.\<close>

definition LoadScenario :: "(string \<Rightarrow> string + Scenario) \<Rightarrow> (string \<Rightarrow> string) \<Rightarrow> string \<Rightarrow> scenario_error + Scenario" where
  "LoadScenario decoded base path =
     (case decoded path of
        Inl e \<Rightarrow> Inl (BadScenarioFile e)
      | Inr s \<Rightarrow> Inr (if sc_Name s = [] then s\<lparr>sc_Name := base path\<rparr> else s))"

fun first_untyped :: "nat \<Rightarrow> Step list \<Rightarrow> scenario_error option" where
  "first_untyped i [] = None"
| "first_untyped i (step # steps) = (if sp_Type step = [] then Some (StepWithoutType (i + 1)) else first_untyped (Suc i) steps)"

definition scenario_Validate :: "Scenario \<Rightarrow> scenario_error option" where
  "scenario_Validate s =
     (if sc_Name s = [] then Some NameRequired
      else if sc_Steps s = [] then Some (NoStepsIn (sc_Name s))
      else first_untyped 0 (sc_Steps s))"

definition winnerMatches :: "string \<Rightarrow> ResultSource \<Rightarrow> bool" where
  "winnerMatches expected got =
     (if expected = got then True else if expected = ''fast'' then got = FastResponse
      else if expected = ''global'' then got = GlobalResponse else False)"

definition stepBudget :: "Step \<Rightarrow> duration \<Rightarrow> duration" where
  "stepBudget step fallback = (if sp_BudgetMillis step \<le> 0 then fallback else i64 (sp_BudgetMillis step * millisecond))"

definition stepName :: "Step \<Rightarrow> nat \<Rightarrow> string" where
  "stepName step index =
     (if sp_Name step \<noteq> [] then sp_Name step
      else (let s = dec (index + 1) in replicate (2 - length s) (CHR ''0'') @ s) @ '' '' @ sp_Type step)"

definition minDuration :: "duration \<Rightarrow> duration \<Rightarrow> duration" where
  "minDuration a b = (if a \<le> 0 then b else if b \<le> 0 \<or> a < b then a else b)"

text \<open>\<open>int(f)\<close> truncates towards zero.\<close>

definition trunc_int :: "rat \<Rightarrow> int" where
  "trunc_int r = (if 0 \<le> r then \<lfloor>r\<rfloor> else \<lceil>r\<rceil>)"

definition latencyProfileForScenario :: "Scenario \<Rightarrow> NetworkSimulation" where
  "latencyProfileForScenario scenario =
     DefaultLatencyProfile\<lparr>ns_InterDomainOneWayMillis :=
       fold (\<lambda>(origin, row) m. fold (\<lambda>(domain, oneWay) m.
              fmupd (WriteCostRoute domain origin) (trunc_int oneWay) (fmupd (WriteCostRoute origin domain) (trunc_int oneWay) m))
            (sorted_list_of_fmap row) m)
         (sorted_list_of_fmap (sc_FloatingLatencies scenario)) (ns_InterDomainOneWayMillis DefaultLatencyProfile)\<rparr>"

text \<open>The request of the \<open>i\<close>-th write of a load, and of the \<open>i\<close>-th sample of an origin.\<close>

definition load_key :: "string \<Rightarrow> string \<Rightarrow> nat \<Rightarrow> string" where
  "load_key prefix origin i = prefix @ ''-'' @ origin @ ''-'' @ dec i"

definition sample_id :: "string \<Rightarrow> string \<Rightarrow> nat \<Rightarrow> string" where
  "sample_id name origin i = name @ ''-'' @ origin @ ''-'' @ dec3 (i + 1)"

section \<open>Latency statistics\<close>

record latencyStats =
  ls_Min :: duration
  ls_P50 :: duration
  ls_P95 :: duration
  ls_P99 :: duration
  ls_Max :: duration
  ls_Mean :: duration

definition percentileDuration :: "duration list \<Rightarrow> rat \<Rightarrow> duration" where
  "percentileDuration xs p =
     (if xs = [] then 0
      else let index = trunc_int (of_int (int (length xs) - 1) * p);
               index1 = (if index < 0 then 0 else index);
               index2 = (if index1 \<ge> int (length xs) then int (length xs) - 1 else index1)
           in xs ! nat index2)"

text \<open>Go divides towards zero, and sums wrap.\<close>

definition quot :: "int \<Rightarrow> int \<Rightarrow> int" where
  "quot a b = (if (a < 0) = (b < 0) then \<bar>a\<bar> div \<bar>b\<bar> else - (\<bar>a\<bar> div \<bar>b\<bar>))"

definition durationStats :: "duration list \<Rightarrow> latencyStats" where
  "durationStats values =
     (if values = [] then \<lparr>ls_Min = 0, ls_P50 = 0, ls_P95 = 0, ls_P99 = 0, ls_Max = 0, ls_Mean = 0\<rparr>
      else let xs = sort values; total = foldl (\<lambda>t v. i64 (t + v)) 0 xs in
        \<lparr>ls_Min = xs ! 0, ls_P50 = percentileDuration xs (1 / 2), ls_P95 = percentileDuration xs (95 / 100),
         ls_P99 = percentileDuration xs (99 / 100), ls_Max = xs ! (length xs - 1),
         ls_Mean = i64 (quot total (int (length xs)))\<rparr>)"

text \<open>A cell of a Markdown table: a newline becomes a blank and a bar is escaped.\<close>

definition escapeTable :: "string \<Rightarrow> string" where
  "escapeTable value1 = concat (map (\<lambda>c. if c = CHR 0x0A then '' '' else if c = CHR ''|'' then [CHR 0x5C, CHR ''|''] else [c]) value1)"

section \<open>The statistics are order statistics\<close>

lemma percentile_nth:
  assumes "xs \<noteq> []" "0 \<le> p" "p \<le> 1"
  shows "\<exists>k < length xs. percentileDuration xs p = xs ! k \<and> of_nat k \<le> of_nat (length xs - 1) * p \<and>
    of_nat (length xs - 1) * p < of_nat k + 1"
proof -
  define r where "r = of_nat (length xs - 1) * p"
  have eq: "of_int (int (length xs) - 1) = (of_nat (length xs - 1) :: rat)" using assms(1) by (cases xs) simp_all
  have r: "0 \<le> r" "r \<le> of_nat (length xs - 1)" using assms(2,3) by (simp_all add: r_def mult_left_le)
  have f: "0 \<le> \<lfloor>r\<rfloor>" "\<lfloor>r\<rfloor> < int (length xs)"
  proof -
    have "\<lfloor>r\<rfloor> \<le> int (length xs - 1)" using r(2) floor_mono by fastforce
    then show "0 \<le> \<lfloor>r\<rfloor>" "\<lfloor>r\<rfloor> < int (length xs)" using r(1) assms(1) by (auto simp: of_nat_diff Suc_le_eq)
  qed
  then have "percentileDuration xs p = xs ! nat \<lfloor>r\<rfloor>"
    using assms(1) r(1) unfolding percentileDuration_def Let_def trunc_int_def eq r_def [symmetric] by simp
  moreover have "of_nat (nat \<lfloor>r\<rfloor>) = (of_int \<lfloor>r\<rfloor> :: rat)" "nat \<lfloor>r\<rfloor> < length xs"
    using f by (simp_all add: nat_less_iff)
  moreover have "of_int \<lfloor>r\<rfloor> \<le> r" "r < of_int \<lfloor>r\<rfloor> + 1" by linarith+
  ultimately show ?thesis unfolding r_def [symmetric] by metis
qed

lemma count_upto_nth:
  assumes "k < length xs" "v = sort xs ! k"
  shows "k < length (filter (\<lambda>x. x \<le> v) xs)"
proof -
  have len: "length (sort xs) = length xs" by simp
  have "filter (\<lambda>x. x \<le> v) (take (Suc k) (sort xs)) = take (Suc k) (sort xs)"
  proof (rule filter_True, rule ballI)
    fix x assume "x \<in> set (take (Suc k) (sort xs))"
    then obtain j where "j \<le> k" "x = sort xs ! j" using assms(1) by (auto simp: in_set_conv_nth less_Suc_eq_le)
    then show "x \<le> v" using assms by (simp add: sorted_nth_mono)
  qed
  then have "Suc k \<le> length (filter (\<lambda>x. x \<le> v) (take (Suc k) (sort xs) @ drop (Suc k) (sort xs)))"
    unfolding filter_append length_append using assms(1) by simp
  then show ?thesis
    unfolding append_take_drop_id by (simp add: size_mset [symmetric] mset_filter Suc_le_eq del: size_mset)
qed

lemma foldl_i64_sum:
  assumes "\<forall>v \<in> set xs. 0 \<le> v" "0 \<le> t" "t + sum_list xs < 2 ^ 63"
  shows "foldl (\<lambda>t v. i64 (t + v)) t xs = t + sum_list xs"
  using assms
proof (induction xs arbitrary: t)
  case (Cons x xs)
  have "0 \<le> sum_list xs" using Cons.prems(1) by (intro sum_list_nonneg) simp
  then have "i64 (t + x) = t + x" using Cons.prems by (intro i64_id) simp_all
  then show ?case using Cons by simp
qed simp

lemma sum_list_bounds:
  fixes xs :: "int list"
  assumes "\<forall>v \<in> set xs. a \<le> v \<and> v \<le> b"
  shows "int (length xs) * a \<le> sum_list xs \<and> sum_list xs \<le> int (length xs) * b"
  using assms by (induction xs) (auto simp: algebra_simps)

lemma mean_exact: "0 \<le> t \<Longrightarrow> t < 2 ^ 63 \<Longrightarrow> 0 < n \<Longrightarrow> i64 (quot t n) = t div n"
proof -
  assume t: "0 \<le> t" "t < 2 ^ 63" "0 < n"
  have "t div n \<le> t" using zdiv_mono2 [OF t(1), of 1 n] t(3) by simp
  moreover have "0 \<le> t div n" using t by (simp add: pos_imp_zdiv_nonneg_iff)
  ultimately have "i64 (t div n) = t div n" using t(2) by (intro i64_id) linarith+
  then show ?thesis using t by (simp add: quot_def)
qed

text \<open>C34: the statistics of a measurement are order statistics of the samples.  For samples that are not negative and
  whose sum fits into 64 bits, the percentiles are samples, lie in order between the smallest and the largest one, more
  than the given share of the samples (but the largest) is not above them, and the mean is the truncated average, which lies
  between the extremes.\<close>

theorem duration_stats_ordered:
  assumes "values \<noteq> []" "\<forall>v \<in> set values. 0 \<le> v" "sum_list values < 2 ^ 63" "durationStats values = s"
  shows "{ls_Min s, ls_P50 s, ls_P95 s, ls_P99 s, ls_Max s} \<subseteq> set values \<and>
    ls_Min s \<le> ls_P50 s \<and> ls_P50 s \<le> ls_P95 s \<and> ls_P95 s \<le> ls_P99 s \<and> ls_P99 s \<le> ls_Max s \<and>
    (\<forall>v \<in> set values. ls_Min s \<le> v \<and> v \<le> ls_Max s) \<and>
    of_nat (length values - 1) * (95 / 100 :: rat) < of_nat (length (filter (\<lambda>v. v \<le> ls_P95 s) values)) \<and>
    ls_Mean s = sum_list values div int (length values) \<and> ls_Min s \<le> ls_Mean s \<and> ls_Mean s \<le> ls_Max s"
proof -
  let ?xs = "sort values" and ?n = "length values"
  have ne: "?xs \<noteq> []" "0 < ?n" using assms(1) by (auto dest: arg_cong [of _ _ length])
  have p: "\<exists>k < ?n. percentileDuration ?xs q = ?xs ! k \<and> of_nat k \<le> of_nat (?n - 1) * q \<and> of_nat (?n - 1) * q < of_nat k + 1"
    if "0 \<le> q" "q \<le> 1" for q using percentile_nth [OF ne(1) that] unfolding length_sort .
  have q: "0 \<le> (1 / 2 :: rat)" "1 / 2 \<le> (1 :: rat)" "0 \<le> (95 / 100 :: rat)" "95 / 100 \<le> (1 :: rat)" "0 \<le> (99 / 100 :: rat)"
    "99 / 100 \<le> (1 :: rat)" by simp_all
  obtain i where i: "i < ?n" "percentileDuration ?xs (1 / 2) = ?xs ! i" "of_nat i \<le> of_nat (?n - 1) * (1 / 2 :: rat)"
    using p [OF q(1,2)] by blast
  obtain j where j: "j < ?n" "percentileDuration ?xs (95 / 100) = ?xs ! j" "of_nat j \<le> of_nat (?n - 1) * (95 / 100 :: rat)"
    "of_nat (?n - 1) * (95 / 100 :: rat) < of_nat j + 1" using p [OF q(3,4)] by blast
  obtain k where k: "k < ?n" "percentileDuration ?xs (99 / 100) = ?xs ! k" "of_nat (?n - 1) * (99 / 100 :: rat) < of_nat k + 1"
    using p [OF q(5,6)] by blast
  have ij: "i \<le> j" and jk: "j \<le> k"
  proof -
    have "(of_nat i :: rat) < of_nat (Suc j)" "(of_nat j :: rat) < of_nat (Suc k)" using i(3) j(3,4) k(3) by simp_all
    then show "i \<le> j" "j \<le> k" by (simp_all only: of_nat_less_iff less_Suc_eq_le)
  qed
  have mono: "?xs ! a \<le> ?xs ! b" if "a \<le> b" "b < ?n" for a b using that by (simp add: sorted_nth_mono)
  have mem: "?xs ! a \<in> set values" if "a < ?n" for a using that nth_mem [of a ?xs] by simp
  have ext: "?xs ! 0 \<le> v \<and> v \<le> ?xs ! (?n - 1)" if "v \<in> set values" for v
  proof -
    have "v \<in> set ?xs" using that by simp
    then obtain a where "a < ?n" "v = ?xs ! a" unfolding in_set_conv_nth length_sort by blast
    then show ?thesis using mono [of 0 a] mono [of a "?n - 1"] by simp
  qed
  have "foldl (\<lambda>t v. i64 (t + v)) 0 ?xs = sum_list values"
    using foldl_i64_sum [of ?xs 0] assms(2,3) by (simp add: sum_mset_sum_list [symmetric])
  moreover have bounds: "int ?n * ?xs ! 0 \<le> sum_list values" "sum_list values \<le> int ?n * ?xs ! (?n - 1)"
    using sum_list_bounds [of "values" "?xs ! 0" "?xs ! (?n - 1)"] ext by auto
  have nonneg: "0 \<le> sum_list values" using assms(2) by (intro sum_list_nonneg) simp
  then have "i64 (quot (sum_list values) (int ?n)) = sum_list values div int ?n"
    using mean_exact [of "sum_list values" "int ?n"] assms(3) ne(2) by simp
  ultimately have mean: "ls_Mean s = sum_list values div int ?n" using assms(1,4) by (auto simp: durationStats_def Let_def)
  have "?xs ! 0 \<le> sum_list values div int ?n" "sum_list values div int ?n \<le> ?xs ! (?n - 1)"
    using zdiv_mono1 [OF bounds(1), of "int ?n"] zdiv_mono1 [OF bounds(2), of "int ?n"] ne(2) by simp_all
  moreover have "ls_Min s = ?xs ! 0" "ls_P50 s = ?xs ! i" "ls_P95 s = ?xs ! j" "ls_P99 s = ?xs ! k" "ls_Max s = ?xs ! (?n - 1)"
    using assms(1,4) i(2) j(2) k(2) by (auto simp: durationStats_def Let_def)
  moreover have "of_nat (?n - 1) * (95 / 100 :: rat) < of_nat (length (filter (\<lambda>v. v \<le> ?xs ! j) values))"
    using count_upto_nth [OF j(1) refl] j(4) by (metis (no_types, lifting) Suc_leI of_nat_Suc of_nat_mono add.commute order_less_le_trans)
  ultimately show ?thesis
    using mean ext mem mono i(1) j(1) k(1) ij jk ne(2) by simp
qed

section \<open>Names and built-in scenarios\<close>

text \<open>Different writes of one load or of one measured origin are different requests.\<close>

lemma request_names_distinct: "load_key p d i = load_key p d j \<longleftrightarrow> i = j" "sample_id n d i = sample_id n d j \<longleftrightarrow> i = j"
  by (simp_all add: load_key_def sample_id_def dec_inj dec3_inj)

lemma builtin_scenarios_valid: "BuiltinScenario name = Some s \<Longrightarrow> scenario_Validate s = None"
  by (auto simp: BuiltinScenario_def Let_def scenario_Validate_def mk_scenario_def first_steps_def mk_step_def write_read_step_def
      overhead_step_def step_types split: if_splits)

text \<open>A cell stays one cell: it has no line break, and every bar in it is escaped.\<close>

lemma escapeTable_safe: "CHR 0x0A \<notin> set (escapeTable v)"
  "escapeTable v = us @ [CHR ''|''] @ ws \<Longrightarrow> us \<noteq> [] \<and> last us = CHR 0x5C"
proof -
  show "CHR 0x0A \<notin> set (escapeTable v)" by (auto simp: escapeTable_def split: if_splits)
  show "us \<noteq> [] \<and> last us = CHR 0x5C" if "escapeTable v = us @ [CHR ''|''] @ ws"
    using that
  proof (induction v arbitrary: us)
    case (Cons c v)
    have step: "escapeTable (c # v) = (if c = CHR 0x0A then '' '' else if c = CHR ''|'' then [CHR 0x5C, CHR ''|''] else [c]) @ escapeTable v"
      by (simp add: escapeTable_def)
    show ?case
    proof (cases us)
      case Nil
      then show ?thesis using Cons.prems step by (auto split: if_splits)
    next
      case (Cons a us')
      show ?thesis
      proof (cases "c = CHR ''|''")
        case True
        then show ?thesis using Cons Cons.prems step Cons.IH [of "tl us'"] by (cases us') auto
      next
        case False
        then have "escapeTable v = us' @ [CHR ''|''] @ ws" using Cons Cons.prems step by (auto split: if_splits)
        then show ?thesis using Cons.IH Cons by simp
      qed
    qed
  qed (simp add: escapeTable_def)
qed

end
