(* ===== verification/Scenario_Run.thy ===== *)
theory Scenario_Run
  imports Scenario Write_Trace
begin

text \<open>
  Running a scenario (\<open>scenario.go\<close>) and measuring the overhead of writes (\<open>write_overhead.go\<close>).  The world that a
  step meets is a record: the answers of the nodes, the clock, what the nodes did by themselves before it.
  A step that waits for an answer that never comes has no result.
\<close>

section \<open>What a step reports\<close>

text \<open>The summary of a cost estimate, without its formatting.\<close>

record cost_summary =
  cs_network :: rat
  cs_overhead :: rat
  cs_direct :: rat
  cs_callback :: "(rat \<times> string \<times> ResultSource) option"
  cs_second :: string

definition WritePathCostSummary :: "WritePathCost \<Rightarrow> rat \<Rightarrow> cost_summary" where
  "WritePathCostSummary cost observedMillis =
     (let overhead = observedMillis - wc_LowerBoundMillis cost in
      \<lparr>cs_network = wc_LowerBoundMillis cost, cs_overhead = (if overhead < 0 then 0 else overhead),
       cs_direct = wc_GlobalDirectMillis cost,
       cs_callback = (if wc_CallbackAvailable cost
         then Some (wc_CallbackMillis cost, wc_ResponderDomain cost, wc_TheoreticalWinner cost) else None),
       cs_second = wc_FastestSecondQuorumDomain cost\<rparr>)"

datatype trace_line = TraceEvents nat | PersistPhases nat duration duration | TraceEvent WriteTraceEvent

datatype detail =
    StartedNodes | ServingUnder LeaderInfo | ReportedLatency string nat | Wrote string ResultSource u64 | ReadBack string string
  | MovedTo string u64 | Partitioned "string list" "string list" | HealedAll | Restarted "string list" | DropRateIs rat
  | LatencyOn | LatencyOff | MetricsOf string Stage u64 u64 | Slept duration | LoadStarted string string duration
  | LoadStopped string | Measuring string bool int int | Measured string string duration duration duration cost_summary

record WriteOverheadResult =
  wo_OriginDomain :: string
  wo_OriginKind :: string
  wo_GlobalDomain :: string
  wo_ResponderDomain :: string
  wo_Winner :: string
  wo_TheoreticalWinner :: string
  wo_SecondQuorumDomain :: string
  wo_StoreProfile :: string
  wo_FastReturn :: bool
  wo_Count :: int
  wo_Warmup :: int
  wo_FirstLatency :: duration
  wo_Stats :: latencyStats
  wo_TheoreticalNetwork :: rat
  wo_ObservedOverhead :: rat
  wo_GlobalDirectMillis :: rat
  wo_CallbackMillis :: rat
  wo_CallbackAvailable :: bool
  wo_TraceSummary :: "trace_line list"

section \<open>Trace summaries\<close>

fun contains :: "string \<Rightarrow> string \<Rightarrow> bool" where
  "contains sub [] = (sub = [])"
| "contains sub (c # cs) = (take (length sub) (c # cs) = sub \<or> contains sub cs)"

text \<open>The eight longest events; \<open>sort.Slice\<close> leaves the order of equal durations open, which is fixed here to the order
  of the events.\<close>

definition summarizeWriteTrace :: "WriteTraceEvent list \<Rightarrow> trace_line list" where
  "summarizeWriteTrace events =
     (if events = [] then []
      else let ps = filter (\<lambda>e. contains ''persist'' (we_Phase e)) events in
        TraceEvents (length events) #
        (if length ps > 0
         then [PersistPhases (length ps) (foldl (\<lambda>t e. i64 (t + we_Duration e)) 0 ps)
                 (foldl (\<lambda>m e. if we_Duration e > m then we_Duration e else m) 0 ps)] else []) @
        map TraceEvent (take 8 (sort_key (\<lambda>e. - we_Duration e) events)))"

section \<open>Reports of a floating client\<close>

record FloatingLatencyReport =
  flr_OriginDomain :: string
  flr_GlobalTerm :: u64
  flr_Rtts :: "FloatingRtt list"

definition client_ReportFloatingLatency ::
    "(string \<Rightarrow> string option) \<Rightarrow> (FloatingLatencyReport \<Rightarrow> string \<Rightarrow> string + unit) \<Rightarrow> string \<Rightarrow> string \<Rightarrow> u64 \<Rightarrow> rat gomap \<Rightarrow> RPCClient \<Rightarrow>
     RPCClient \<times> (client_error + unit)" where
  "client_ReportFloatingLatency dial answer target origin globalTerm oneWay c =
     plain_call dial (answer \<lparr>flr_OriginDomain = origin, flr_GlobalTerm = globalTerm, flr_Rtts = floating_report oneWay\<rparr>) target c"

record report_env =
  re_dial :: "string \<Rightarrow> string option"
  re_discover :: "nat \<Rightarrow> string \<Rightarrow> topology_reply attempt"
  re_tries :: nat
  re_report :: "FloatingLatencyReport \<Rightarrow> string \<Rightarrow> string + unit"

fun view_of :: "topology_reply \<Rightarrow> string \<times> u64" where
  "view_of (View v) = (tr_GlobalLeaderAddress v, tr_GlobalTerm v)"
| "view_of (RedirectTo _) = ([], 0)"

text \<open>Discovering the Global Leader from \<open>entry\<close> and sending it the latencies.\<close>

definition report_latency ::
    "report_env \<Rightarrow> string \<Rightarrow> string \<Rightarrow> rat gomap \<Rightarrow> Harness \<Rightarrow> Harness \<times> harness_error option" where
  "report_latency e entry origin report h =
     (case through_client (client_DiscoverTopology (re_dial e) (re_discover e) entry (re_tries e)) h of
        (h1, Inl err) \<Rightarrow> (h1, Some err)
      | (h1, Inr view) \<Rightarrow>
          let (address, globalTerm) = view_of view; target = (if address = [] then entry else address) in
          (case through_client (client_ReportFloatingLatency (re_dial e) (re_report e) target origin globalTerm report) h1 of
             (h2, Inl err) \<Rightarrow> (h2, Some err)
           | (h2, Inr _) \<Rightarrow> (h2, None)))"

definition reportFloatingLatency :: "report_env \<Rightarrow> string \<Rightarrow> rat gomap \<Rightarrow> Harness \<Rightarrow> Harness \<times> harness_error option" where
  "reportFloatingLatency e origin report h =
     (case EntryAddress h of Inl err \<Rightarrow> (h, Some err) | Inr entry \<Rightarrow> report_latency e entry origin report h)"

section \<open>Measuring writes\<close>

definition setWriteTraceRecorder :: "nat option \<Rightarrow> Harness \<Rightarrow> Harness" where
  "setWriteTraceRecorder recorder h = h\<lparr>hs_Nodes := fmmap (on_net (SetWriteTraceRecorder recorder)) (hs_Nodes h)\<rparr>"

definition costConfig :: "Harness \<Rightarrow> Config" where
  "costConfig h =
     (case hs_networkSimulation h of Some s \<Rightarrow> (hs_Config h)\<lparr>cfg_NetworkSimulation := s\<rparr> | None \<Rightarrow> hs_Config h)"

definition writeOverheadOrigins :: "Step \<Rightarrow> LeaderInfo \<Rightarrow> Harness \<Rightarrow> string list" where
  "writeOverheadOrigins step leader h =
     (if sp_Origins step \<noteq> [] then sp_Origins step
      else [li_DomainID leader] @
        (case List.find (\<lambda>d. d \<noteq> li_DomainID leader) (ConsensusDomains (hs_Config h)) of Some d \<Rightarrow> [d] | None \<Rightarrow> []) @
        (case FloatingDomains (hs_Config h) of f # _ \<Rightarrow> [f] | [] \<Rightarrow> []))"

text \<open>One sample: what the write meets, how long it took, and the events if it was traced.\<close>

record sample =
  sm_write :: write_env
  sm_elapsed :: duration
  sm_events :: "WriteTraceEvent list"

record measured =
  me_durations :: "duration list"
  me_winner :: ResultSource
  me_trace :: "trace_line list"

definition sample_request :: "string \<Rightarrow> string \<Rightarrow> nat \<Rightarrow> ClientWriteRequest" where
  "sample_request name origin i =
     \<lparr>cwr_RequestID = sample_id name origin i, cwr_OriginDomain = origin, cwr_ReplyRoute = [],
      cwr_Command = \<lparr>Key = sample_id name origin i, Val = ''v''\<rparr>\<rparr>"

fun measure_loop ::
    "string \<Rightarrow> string \<Rightarrow> string \<Rightarrow> bool \<Rightarrow> int \<Rightarrow> duration \<Rightarrow> nat \<Rightarrow> nat \<Rightarrow> (nat \<Rightarrow> sample) \<Rightarrow> measured \<Rightarrow> Harness \<Rightarrow>
     Harness \<times> (scenario_error + measured) option" where
  "measure_loop name origin addr trace warmup budget i 0 samples m h = (h, Some (Inr m))"
| "measure_loop name origin addr trace warmup budget i (Suc left) samples m h =
     (let traced = (trace \<and> int i = warmup);
          h1 = (if traced then setWriteTraceRecorder (Some 0) h else h) in
      case write_attempt addr (sample_request name origin i) (minDuration budget (3 * second)) (sm_write (samples i)) h1 of
        (h2, outcome) \<Rightarrow>
          let h3 = (if traced then setWriteTraceRecorder None h2 else h2);
              m1 = (if traced then m\<lparr>me_trace := summarizeWriteTrace (sm_events (samples i))\<rparr> else m) in
          (case outcome of
             None \<Rightarrow> (h2, None)
           | Some (Inl e) \<Rightarrow> (h3, Some (Inl (HarnessFailed (write_error e))))
           | Some (Inr decision) \<Rightarrow>
               if \<not> cr_Committed (rd_Result decision) then (h3, Some (Inl (WriteNotCommitted (sample_id name origin i))))
               else measure_loop name origin addr trace warmup budget (Suc i) left samples
                      (m1\<lparr>me_winner := rd_Winner decision, me_durations := me_durations m @ [sm_elapsed (samples i)]\<rparr>) h3))"

text \<open>The number of samples; \<open>warmup + count\<close> may wrap.\<close>

definition sample_total :: "int \<Rightarrow> int \<Rightarrow> nat" where
  "sample_total cnt warmup = (let total = i64 (warmup + cnt) in if total \<le> 0 then 1 else nat total)"

definition overhead_result ::
    "Scenario \<Rightarrow> LeaderInfo \<Rightarrow> string \<Rightarrow> int \<Rightarrow> int \<Rightarrow> measured \<Rightarrow> Harness \<Rightarrow> WriteOverheadResult" where
  "overhead_result scenario leader origin cnt warmup m h =
     (let durations = me_durations m;
          steady = (if warmup < int (length durations) then drop (nat warmup) durations else durations);
          stats = durationStats steady;
          cost = EstimateWritePathCost (costConfig h)
            \<lparr>wi_OriginDomain = origin, wi_GlobalDomain = li_DomainID leader, wi_ResponderDomain = [],
             wi_FastReturn = sc_FastReturn scenario, wi_OneWayMillis = fmempty\<rparr>;
          observed = of_int (ls_P50 stats) / of_int millisecond - wc_LowerBoundMillis cost
      in \<lparr>wo_OriginDomain = origin, wo_OriginKind = wc_OriginKind cost, wo_GlobalDomain = li_DomainID leader,
          wo_ResponderDomain = wc_ResponderDomain cost, wo_Winner = me_winner m, wo_TheoreticalWinner = wc_TheoreticalWinner cost,
          wo_SecondQuorumDomain = wc_FastestSecondQuorumDomain cost, wo_StoreProfile = hs_storeProfile h,
          wo_FastReturn = sc_FastReturn scenario, wo_Count = cnt, wo_Warmup = warmup, wo_FirstLatency = durations ! 0,
          wo_Stats = stats, wo_TheoreticalNetwork = wc_LowerBoundMillis cost, wo_ObservedOverhead = (if observed < 0 then 0 else observed),
          wo_GlobalDirectMillis = wc_GlobalDirectMillis cost, wo_CallbackMillis = wc_CallbackMillis cost,
          wo_CallbackAvailable = wc_CallbackAvailable cost, wo_TraceSummary = me_trace m\<rparr>)"

definition measureWriteOrigin ::
    "(nat \<Rightarrow> sample) \<Rightarrow> Scenario \<Rightarrow> Step \<Rightarrow> LeaderInfo \<Rightarrow> string \<Rightarrow> int \<Rightarrow> int \<Rightarrow> duration \<Rightarrow> Harness \<Rightarrow>
     Harness \<times> (scenario_error + WriteOverheadResult) option" where
  "measureWriteOrigin samples scenario step leader origin cnt warmup budget h =
     (case measure_loop (sc_Name scenario) origin (li_Address leader) (sp_Trace step) warmup budget 0 (sample_total cnt warmup) samples
             \<lparr>me_durations = [], me_winner = [], me_trace = []\<rparr> h of
        (h1, None) \<Rightarrow> (h1, None)
      | (h1, Some (Inl e)) \<Rightarrow> (h1, Some (Inl e))
      | (h1, Some (Inr m)) \<Rightarrow> (h1, Some (Inr (overhead_result scenario leader origin cnt warmup m h1))))"

definition measured_detail :: "WriteOverheadResult \<Rightarrow> detail" where
  "measured_detail r =
     Measured (wo_OriginDomain r) (wo_OriginKind r) (ls_P50 (wo_Stats r)) (ls_P95 (wo_Stats r)) (ls_P99 (wo_Stats r))
       (WritePathCostSummary
          \<lparr>wc_OriginKind = [], wc_FastestSecondQuorumDomain = wo_SecondQuorumDomain r, wc_ResponderDomain = wo_ResponderDomain r,
           wc_GlobalDirectMillis = wo_GlobalDirectMillis r, wc_CallbackMillis = wo_CallbackMillis r,
           wc_CallbackAvailable = wo_CallbackAvailable r, wc_LowerBoundMillis = wo_TheoreticalNetwork r,
           wc_TheoreticalWinner = wo_TheoreticalWinner r\<rparr>
          (of_int (ls_P50 (wo_Stats r)) / of_int millisecond))"

type_synonym outcome = "detail list \<times> WriteOverheadResult list \<times> scenario_error option"

fun measure_origins ::
    "(string \<Rightarrow> nat \<Rightarrow> sample) \<Rightarrow> (string \<Rightarrow> report_env) \<Rightarrow> Scenario \<Rightarrow> Step \<Rightarrow> LeaderInfo \<Rightarrow> int \<Rightarrow> int \<Rightarrow> duration \<Rightarrow> string list \<Rightarrow>
     detail list \<Rightarrow> WriteOverheadResult list \<Rightarrow> Harness \<Rightarrow> Harness \<times> outcome option" where
  "measure_origins samples reporting scenario step leader cnt warmup budget [] details results h = (h, Some (details, results, None))"
| "measure_origins samples reporting scenario step leader cnt warmup budget (origin # origins) details results h =
     (let row = get_or fmempty (sc_FloatingLatencies scenario) origin;
          (h1, e1) = (if sorted_list_of_fmap row \<noteq> [] then reportFloatingLatency (reporting origin) origin row h else (h, None)) in
      case e1 of
        Some e \<Rightarrow> (h1, Some (details, results, Some (HarnessFailed e)))
      | None \<Rightarrow>
          (case measureWriteOrigin (samples origin) scenario step leader origin cnt warmup budget h1 of
             (h2, None) \<Rightarrow> (h2, None)
           | (h2, Some (Inl e)) \<Rightarrow> (h2, Some (details, results, Some e))
           | (h2, Some (Inr r)) \<Rightarrow>
               measure_origins samples reporting scenario step leader cnt warmup budget origins
                 (details @ [measured_detail r]) (results @ [r]) h2))"

section \<open>The world of a step\<close>

record step_world =
  sw_live :: "Harness \<Rightarrow> Harness"
  sw_dial :: "string \<Rightarrow> string option"
  sw_before :: statuses
  sw_within :: statuses
  sw_after :: statuses
  sw_env :: env
  sw_up :: "string \<Rightarrow> bool \<times> bool"
  sw_polls :: "statuses list"
  sw_move :: "string \<Rightarrow> string \<Rightarrow> string \<Rightarrow> string + MoveResponse"
  sw_metrics :: "string \<Rightarrow> string + MetricsResponse"
  sw_report :: "string \<Rightarrow> report_env"
  sw_writeStart :: time
  sw_writes :: "write_env round list"
  sw_readStart :: time
  sw_reads :: "read_env round list"
  sw_samples :: "string \<Rightarrow> nat \<Rightarrow> sample"
  sw_interrupted :: bool
  sw_startedAt :: time
  sw_finishedAt :: time

definition runWriteOverhead :: "step_world \<Rightarrow> Scenario \<Rightarrow> Step \<Rightarrow> duration \<Rightarrow> Harness \<Rightarrow> Harness \<times> outcome option" where
  "runWriteOverhead w scenario step budget h =
     (case CurrentGlobalLeader (sw_dial w) (sw_within w) h of
        (h1, Inl e) \<Rightarrow> (h1, Some ([], [], Some (HarnessFailed e)))
      | (h1, Inr leader) \<Rightarrow>
          let origins = writeOverheadOrigins step leader h1;
              cnt = (if sp_Count step \<le> 0 then 10 else sp_Count step);
              warmup = (if sp_Warmup step < 0 then 0 else sp_Warmup step) in
          if origins = [] then (h1, Some ([], [], Some NoOrigins))
          else measure_origins (sw_samples w) (sw_report w) scenario step leader cnt warmup budget origins
                 [Measuring (hs_storeProfile h1) (sc_FastReturn scenario) cnt warmup] [] h1)"

definition runWriteRead :: "step_world \<Rightarrow> Scenario \<Rightarrow> Step \<Rightarrow> duration \<Rightarrow> Harness \<Rightarrow> Harness \<times> outcome option" where
  "runWriteRead w scenario step budget h =
     (let key = nonEmpty (sp_Key step) ''harness-key''; val = nonEmpty (sp_Value step) ''ok'';
          origin = nonEmpty (sp_Origin step) ''a'';
          requestID = (if sp_RequestID step = [] then sc_Name scenario @ ''-'' @ key else sp_RequestID step);
          row = get_or fmempty (sc_FloatingLatencies scenario) origin;
          failed = (\<lambda>e. Some ([], [], Some (HarnessFailed e)));
          (h1, report) = (if sorted_list_of_fmap row = [] then (h, Inr [])
            else case resolveTarget (sp_Target step) h of
              Inl e \<Rightarrow> (h, Inl e)
            | Inr entry \<Rightarrow>
                (case report_latency (sw_report w origin) entry origin row h of
                   (h1, Some e) \<Rightarrow> (h1, Inl e)
                 | (h1, None) \<Rightarrow> (h1, Inr [ReportedLatency origin (length (sorted_list_of_fmap row))]))) in
      case report of
        Inl e \<Rightarrow> (h1, failed e)
      | Inr details \<Rightarrow>
          (case WriteUntilCommitted (sw_writes w) (sp_Target step)
                  \<lparr>cwr_RequestID = requestID, cwr_OriginDomain = origin, cwr_ReplyRoute = [], cwr_Command = \<lparr>Key = key, Val = val\<rparr>\<rparr>
                  (sw_writeStart w) budget h1 of
             (h2, None) \<Rightarrow> (h2, None)
           | (h2, Some (Inl e)) \<Rightarrow> (h2, failed e)
           | (h2, Some (Inr decision)) \<Rightarrow>
               if sp_ExpectWinner step \<noteq> [] \<and> \<not> winnerMatches (sp_ExpectWinner step) (rd_Winner decision)
               then (h2, Some ([], [], Some (WrongWinner (rd_Winner decision) (sp_ExpectWinner step))))
               else (case ReadUntil (sw_reads w) (sp_Target step) key val (sw_readStart w) budget h2 of
                       (h3, None) \<Rightarrow> (h3, None)
                     | (h3, Some (_, Some e)) \<Rightarrow> (h3, failed e)
                     | (h3, Some (readValue, None)) \<Rightarrow>
                         (h3, Some (details @ [Wrote requestID (rd_Winner decision) (cr_GlobalIndex (rd_Result decision)),
                                ReadBack key readValue], [], None)))))"

section \<open>One step\<close>

text \<open>A running load: target, origin, prefix of the requests, interval.\<close>

type_synonym loads = "(string \<times> string \<times> string \<times> duration) gomap"

text \<open>
  The goroutine behind a load, over the rounds that begin before its context ends; each tells what the write and the read
  meet and whether the context ends in the pause after them.  The outcomes are dropped.  \<open>None\<close> while a write waits.
\<close>

record load_round =
  lr_write :: write_env
  lr_read :: read_env
  lr_over :: bool

fun driveLoad :: "string \<Rightarrow> string \<Rightarrow> string \<Rightarrow> nat \<Rightarrow> load_round list \<Rightarrow> RPCClient \<Rightarrow> RPCClient option" where
  "driveLoad target origin prefix seq [] c = Some c"
| "driveLoad target origin prefix seq (r # rs) c =
     (let i = seq + 1; key = load_key prefix origin i; w = lr_write r; e = lr_read r; budget = 2 * second in
      case client_Write (wv_dial w) (wv_listen w) (wv_calls w budget) target (wv_tries w budget)
             \<lparr>cwr_RequestID = key, cwr_OriginDomain = origin, cwr_ReplyRoute = [], cwr_Command = \<lparr>Key = key, Val = ''v''\<rparr>\<rparr>
             (wv_events w budget) c of
        (c1, None) \<Rightarrow> None
      | (c1, Some _) \<Rightarrow>
          (case ReadFrom (rv_dial e) (rv_calls e budget) target (rv_tries e budget) c1 of
             (c2, _) \<Rightarrow> if lr_over r then Some c2 else driveLoad target origin prefix i rs c2))"

text \<open>The address of the step's target, or that of the leader.\<close>

definition target_or_leader :: "step_world \<Rightarrow> Step \<Rightarrow> Harness \<Rightarrow> Harness \<times> (harness_error + string)" where
  "target_or_leader w step h =
     (if sp_Target step \<noteq> [] then (h, Inr (sp_Target step))
      else case CurrentGlobalLeader (sw_dial w) (sw_within w) h of
        (h1, Inl e) \<Rightarrow> (h1, Inl e)
      | (h1, Inr leader) \<Rightarrow> (h1, Inr (li_Address leader)))"

definition report_details :: "detail list \<Rightarrow> outcome option" where
  "report_details ds = Some (ds, [], None)"

definition report_failed :: "scenario_error \<Rightarrow> outcome option" where
  "report_failed e = Some ([], [], Some e)"

definition run_move :: "step_world \<Rightarrow> Step \<Rightarrow> Harness \<Rightarrow> Harness \<times> outcome option" where
  "run_move w step h =
     (case target_or_leader w step h of
        (h1, Inl e) \<Rightarrow> (h1, report_failed (HarnessFailed e))
      | (h1, Inr target) \<Rightarrow>
          if sp_TargetDomain step = [] then (h1, report_failed TargetDomainRequired)
          else (case harness_Move (sw_dial w) (sw_move w) target (sp_TargetDomain step) (nonEmpty (sp_Reason step) ''harness scenario move'') h1 of
                  (h2, Inl e) \<Rightarrow> (h2, report_failed (HarnessFailed e))
                | (h2, Inr resp) \<Rightarrow>
                    if \<not> mr_Accepted resp then (h2, report_failed (MoveRejected (mr_Error resp)))
                    else (h2, report_details [MovedTo (sp_TargetDomain step) (mr_NewGlobalTerm resp)])))"

fun restart_all :: "step_world \<Rightarrow> string list \<Rightarrow> Harness \<Rightarrow> Harness \<times> harness_error option" where
  "restart_all w [] h = (h, None)"
| "restart_all w (i # is) h =
     (case harness_Restart (sw_env w) (fst (sw_up w i)) (snd (sw_up w i)) i h of
        (h1, Some e) \<Rightarrow> (h1, Some e)
      | (h1, None) \<Rightarrow> restart_all w is h1)"

definition run_restart :: "step_world \<Rightarrow> Step \<Rightarrow> Harness \<Rightarrow> Harness \<times> outcome option" where
  "run_restart w step h =
     (let nodes = (if sp_Nodes step = [] \<and> sp_Target step \<noteq> [] then [sp_Target step] else sp_Nodes step) in
      if nodes = [] then (h, report_failed RestartNeedsNodes)
      else case restart_all w nodes h of
        (h1, Some e) \<Rightarrow> (h1, report_failed (HarnessFailed e))
      | (h1, None) \<Rightarrow> (h1, report_details [Restarted nodes]))"

definition run_latency :: "Scenario \<Rightarrow> Step \<Rightarrow> Harness \<Rightarrow> Harness \<times> outcome option" where
  "run_latency scenario step h =
     (let p = sp_LatencyProfile step in
      if p = [] \<or> p = ''default'' \<or> p = ''latency-cluster''
      then (harness_SetNetworkSimulation (latencyProfileForScenario scenario) h, report_details [LatencyOn])
      else if p = ''off'' \<or> p = ''disabled''
      then (harness_SetNetworkSimulation (DefaultLatencyProfile\<lparr>ns_Enabled := False\<rparr>) h, report_details [LatencyOff])
      else (h, report_failed (UnknownLatency p)))"

definition run_metrics :: "step_world \<Rightarrow> Step \<Rightarrow> Harness \<Rightarrow> Harness \<times> outcome option" where
  "run_metrics w step h =
     (case target_or_leader w step h of
        (h1, Inl e) \<Rightarrow> (h1, report_failed (HarnessFailed e))
      | (h1, Inr target) \<Rightarrow>
          (case harness_Metrics (sw_dial w) (sw_metrics w) target h1 of
             (h2, Inl e) \<Rightarrow> (h2, report_failed (HarnessFailed e))
           | (h2, Inr m) \<Rightarrow> (h2, report_details [MetricsOf (mx_NodeId m) (mx_Stage m) (mx_GlobalTerm m) (mx_Migrations m)])))"

text \<open>The load is filed before its target is resolved.\<close>

definition run_start_load :: "Step \<Rightarrow> loads \<Rightarrow> Harness \<Rightarrow> loads \<times> outcome option" where
  "run_start_load step loads h =
     (let name = nonEmpty (sp_Name step) ''load''; origin = nonEmpty (sp_Origin step) ''a'';
          prefix = nonEmpty (sp_RequestID step) name;
          d = i64 (sp_IntervalMillis step * millisecond); interval = (if d \<le> 0 then 15 * millisecond else d) in
      if fmlookup loads name \<noteq> None then (loads, report_failed (LoadRunning name))
      else case resolveTarget (sp_Target step) h of
        Inl e \<Rightarrow> (fmupd name ([], origin, prefix, interval) loads, report_failed (HarnessFailed e))
      | Inr target \<Rightarrow> (fmupd name (target, origin, prefix, interval) loads, report_details [LoadStarted name origin interval]))"

definition run_stop_load :: "Step \<Rightarrow> loads \<Rightarrow> loads \<times> outcome option" where
  "run_stop_load step loads =
     (let name = nonEmpty (sp_Name step) ''load'' in
      if fmlookup loads name = None then (loads, report_failed (LoadNotRunning name))
      else (fmdrop name loads, report_details [LoadStopped name]))"

definition run_sleep :: "step_world \<Rightarrow> Step \<Rightarrow> outcome option" where
  "run_sleep w step =
     (let d = i64 (sp_DurationMillis step * millisecond); duration = (if d \<le> 0 then second else d) in
      if sw_interrupted w then report_failed Interrupted else report_details [Slept duration])"

definition runStep :: "step_world \<Rightarrow> Scenario \<Rightarrow> Step \<Rightarrow> loads \<Rightarrow> Harness \<Rightarrow> Harness \<times> loads \<times> outcome option" where
  "runStep w scenario step loads h =
     (let budget = stepBudget step (8 * second); t = sp_Type step;
          plain = (\<lambda>(h1, r). (h1, loads, r));
          checked = (\<lambda>d (h1, e). (h1, loads, case e of Some err \<Rightarrow> report_failed (HarnessFailed err) | None \<Rightarrow> report_details [d])) in
      if t = StepStart
      then (case harness_Run (sw_env w) (sw_up w) h of
              (h1, e) \<Rightarrow> (h1, loads, Some ([StartedNodes], [], map_option HarnessFailed e)))
      else if t = StepWaitServing
      then (case WaitServing (sw_dial w) (sw_polls w) None no_leader h of
              (h1, leader, e) \<Rightarrow> checked (ServingUnder leader) (h1, e))
      else if t = StepWriteRead then plain (runWriteRead w scenario step budget h)
      else if t = StepWriteOverhead then plain (runWriteOverhead w scenario step budget h)
      else if t = StepMove then plain (run_move w step h)
      else if t = StepPartition
      then checked (Partitioned (sp_GroupA step) (sp_GroupB step)) (harness_Partition (sp_GroupA step) (sp_GroupB step) h)
      else if t = StepHeal then (harness_Heal h, loads, report_details [HealedAll])
      else if t = StepRestart then plain (run_restart w step h)
      else if t = StepSetDropRate then checked (DropRateIs (sp_DropRate step)) (harness_SetDropRate (sp_DropRate step) h)
      else if t = StepSetLatency then plain (run_latency scenario step h)
      else if t = StepMetrics then plain (run_metrics w step h)
      else if t = StepSleep then (h, loads, run_sleep w step)
      else if t = StepStartLoad then (h, run_start_load step loads h)
      else if t = StepStopLoad then (h, run_stop_load step loads)
      else (h, loads, report_failed (UnknownStep t)))"

section \<open>A scenario\<close>

record StepResult =
  sr_Name :: string
  sr_Type :: string
  sr_StartedAt :: time
  sr_FinishedAt :: time
  sr_Duration :: duration
  sr_OK :: bool
  sr_Error :: "scenario_error option"
  sr_LeaderBefore :: LeaderInfo
  sr_LeaderAfter :: LeaderInfo
  sr_Details :: "detail list"
  sr_WriteOverheads :: "WriteOverheadResult list"

record Report =
  rp_Scenario :: string
  rp_StartedAt :: time
  rp_FinishedAt :: time
  rp_Duration :: duration
  rp_FastReturn :: bool
  rp_Domains :: "string list"
  rp_FloatingDomains :: "string list"
  rp_NodeCount :: nat
  rp_InitialLeader :: LeaderInfo
  rp_FinalLeader :: LeaderInfo
  rp_Steps :: "StepResult list"
  rp_Error :: "(string \<times> scenario_error) option"

definition applyScenarioConfig :: "Scenario \<Rightarrow> Harness \<Rightarrow> Harness \<times> scenario_error option" where
  "applyScenarioConfig scenario h =
     (if sc_FloatingDomains scenario = [] then (h, None)
      else let updated = (hs_Config h)\<lparr>cfg_Features := (cfg_Features (hs_Config h))\<lparr>ft_FloatingDomains := sc_FloatingDomains scenario\<rparr>\<rparr> in
        case config_Validate updated of
          Some e \<Rightarrow> (h, Some (BadScenarioConfig e))
        | None \<Rightarrow> (h\<lparr>hs_Config := updated, hs_Nodes := fmmap (\<lambda>x. x\<lparr>hn_node :=
              SetFloatingDomains (sc_FloatingDomains scenario) False (hn_node x)\<rparr>) (hs_Nodes h)\<rparr>, None))"

text \<open>The leader that is seen around a step, if any.\<close>

definition seen_leader :: "Harness \<times> (harness_error + LeaderInfo) \<Rightarrow> Harness \<times> LeaderInfo option" where
  "seen_leader r = (case r of (h, Inl _) \<Rightarrow> (h, None) | (h, Inr l) \<Rightarrow> (h, Some l))"

definition note_initial :: "LeaderInfo option \<Rightarrow> Report \<Rightarrow> Report" where
  "note_initial l r =
     (case l of Some leader \<Rightarrow> if li_NodeID (rp_InitialLeader r) = [] then r\<lparr>rp_InitialLeader := leader\<rparr> else r | None \<Rightarrow> r)"

definition note_final :: "LeaderInfo option \<Rightarrow> Report \<Rightarrow> Report" where
  "note_final l r = (case l of Some leader \<Rightarrow> note_initial l (r\<lparr>rp_FinalLeader := leader\<rparr>) | None \<Rightarrow> r)"

definition finish_report :: "time \<Rightarrow> Report \<Rightarrow> Report" where
  "finish_report now r = r\<lparr>rp_FinishedAt := now, rp_Duration := now - rp_StartedAt r\<rparr>"

definition step_result :: "step_world \<Rightarrow> Step \<Rightarrow> nat \<Rightarrow> LeaderInfo option \<Rightarrow> LeaderInfo option \<Rightarrow> outcome \<Rightarrow> StepResult" where
  "step_result w step i before later out =
     (case out of (details, overheads, e) \<Rightarrow>
        \<lparr>sr_Name = stepName step i, sr_Type = sp_Type step, sr_StartedAt = sw_startedAt w, sr_FinishedAt = sw_finishedAt w,
         sr_Duration = sw_finishedAt w - sw_startedAt w, sr_OK = (e = None), sr_Error = e,
         sr_LeaderBefore = (case before of Some l \<Rightarrow> l | None \<Rightarrow> no_leader),
         sr_LeaderAfter = (case later of Some l \<Rightarrow> l | None \<Rightarrow> no_leader), sr_Details = details, sr_WriteOverheads = overheads\<rparr>)"

fun run_steps ::
    "(nat \<Rightarrow> step_world) \<Rightarrow> Scenario \<Rightarrow> nat \<Rightarrow> Step list \<Rightarrow> loads \<Rightarrow> Report \<Rightarrow> Harness \<Rightarrow> Harness \<times> (Report \<times> scenario_error option) option" where
  "run_steps world scenario i [] loads report h = (h, Some (finish_report (sw_startedAt (world i)) report, None))"
| "run_steps world scenario i (step # steps) loads report h =
     (let w = world i;
          (h1, before) = seen_leader (CurrentGlobalLeader (sw_dial w) (sw_before w) (sw_live w h));
          report1 = note_initial before report in
      case runStep w scenario step loads h1 of
        (h2, loads2, None) \<Rightarrow> (h2, None)
      | (h2, loads2, Some out) \<Rightarrow>
          let (h3, later) = seen_leader (CurrentGlobalLeader (sw_dial w) (sw_after w) h2);
              result = step_result w step i before later out;
              report2 = note_final later report1;
              report3 = report2\<lparr>rp_Steps := rp_Steps report2 @ [result]\<rparr> in
          (case sr_Error result of
             Some e \<Rightarrow> (h3, Some (finish_report (sw_finishedAt w) (report3\<lparr>rp_Error := Some (sr_Name result, e)\<rparr>), Some e))
           | None \<Rightarrow> run_steps world scenario (Suc i) steps loads2 report3 h3))"

definition empty_report :: Report where
  "empty_report = \<lparr>rp_Scenario = [], rp_StartedAt = 0, rp_FinishedAt = 0, rp_Duration = 0, rp_FastReturn = False, rp_Domains = [],
     rp_FloatingDomains = [], rp_NodeCount = 0, rp_InitialLeader = no_leader, rp_FinalLeader = no_leader, rp_Steps = [], rp_Error = None\<rparr>"

definition RunScenario ::
    "(nat \<Rightarrow> step_world) \<Rightarrow> time \<Rightarrow> Scenario \<Rightarrow> Harness \<Rightarrow> Harness \<times> (Report \<times> scenario_error option) option" where
  "RunScenario world now scenario h =
     (case scenario_Validate scenario of
        Some e \<Rightarrow> (h, Some (empty_report, Some e))
      | None \<Rightarrow>
          (case applyScenarioConfig scenario h of
             (h1, Some e) \<Rightarrow> (h1, Some (empty_report, Some e))
           | (h1, None) \<Rightarrow>
               run_steps world scenario 0 (sc_Steps scenario) fmempty
                 (empty_report\<lparr>rp_Scenario := sc_Name scenario, rp_StartedAt := now, rp_FastReturn := sc_FastReturn scenario,
                    rp_Domains := Domains (hs_Config h1), rp_FloatingDomains := FloatingDomains (hs_Config h1),
                    rp_NodeCount := length (cfg_Nodes (hs_Config h1))\<rparr>) h1))"

definition collectWriteOverheads :: "StepResult list \<Rightarrow> WriteOverheadResult list" where
  "collectWriteOverheads steps = concat (map sr_WriteOverheads steps)"

end
