(* ===== verification/Commands.thy ===== *)
theory Commands
  imports Scenario_Run
begin

text \<open>
  The three commands: the client (\<open>cmd/cdraft-client\<close>), the harness runner (\<open>cmd/cdraft-harness\<close>) and the node
  (\<open>cmd/cdraft\<close>).  The flags are a record, a printed line is a value, \<open>os.Exit\<close> and \<open>log.Fatal\<close> end the command with a
  code.  What the calls meet and how long they take is a record of the world; the files, the databases and the sockets are
  parameters as in the harness.
\<close>

section \<open>The client\<close>

record client_flags =
  fl_target :: string
  fl_origin :: string
  fl_requestID :: string
  fl_key :: string
  fl_value :: string
  fl_count :: int
  fl_callbackListen :: string
  fl_replyRoute :: string
  fl_status :: bool
  fl_metrics :: bool
  fl_move :: string
  fl_moveReason :: string
  fl_discover :: bool
  fl_reportFloatingLatency :: bool

record client_world =
  cw_dial :: "string \<Rightarrow> string option"
  cw_status :: statuses
  cw_metrics :: "string \<Rightarrow> string + MetricsResponse"
  cw_move :: "string \<Rightarrow> string \<Rightarrow> string \<Rightarrow> string + MoveResponse"
  cw_discover :: "nat \<Rightarrow> string \<Rightarrow> topology_reply attempt"
  cw_tries :: nat
  cw_ping :: "string \<Rightarrow> duration option"
  cw_report :: "FloatingLatencyReport \<Rightarrow> string \<Rightarrow> string + unit"
  cw_unixNano :: nat
  cw_writes :: "nat \<Rightarrow> write_env"
  cw_reads :: "nat \<Rightarrow> read_env"
  cw_elapsed :: "nat \<Rightarrow> duration"

datatype op_line = WroteLine ResultSource u64 string | ReadLine string string

datatype line =
    ErrorLine string client_error
  | StatusLine string string Stage Role Role string string string u64 u64 u64 u64
  | MetricsLine string string string string | RttLine string u64 | AgeLine string u64
  | AlreadyIn string | NotTheLeader string string | MoveRefused string | MoveDone string u64 u64
  | LeaderLine string string u64 string u64 | EndpointLine string string string string bool | LatencyLine string string rat
  | OpError nat int duration "client_error + error" | OpDone nat int op_line duration | DashLine
  | AllFailed int nat | SummaryLine int nat nat duration duration duration duration

definition orDash :: "string \<Rightarrow> string" where
  "orDash s = (if s = [] then ''-'' else s)"

text \<open>\<open>time.Duration.Round\<close> to a positive unit: half away from zero, saturating at the ends of the range.\<close>

definition Round :: "duration \<Rightarrow> duration \<Rightarrow> duration" where
  "Round d m =
     (if d < 0
      then let r = \<bar>d\<bar> mod m in if 2 * r < m then d + r else max (- (2 ^ 63)) (d - m + r)
      else let r = d mod m in if 2 * r < m then d - r else min (2 ^ 63 - 1) (d + m - r))"

definition microsecond :: duration where "microsecond = 1000"

text \<open>A response of which no field is set reads as zero values.\<close>

fun reply_view :: "topology_reply \<Rightarrow> TopologyResponse" where
  "reply_view (View v) = v"
| "reply_view (RedirectTo _) =
     \<lparr>tr_GlobalTerm = 0, tr_GlobalLeader = no_dli, tr_GlobalLeaderAddress = [], tr_DomainLeaders = [], tr_TtlMillis = 0\<rparr>"

type_synonym command_result = "line list \<times> nat"

definition status_command :: "client_world \<Rightarrow> client_flags \<Rightarrow> RPCClient \<Rightarrow> RPCClient \<times> command_result" where
  "status_command w f c =
     (case client_Status (cw_dial w) (cw_status w) (fl_target f) c of
        (c1, Inl e) \<Rightarrow> (c1, [ErrorLine ''status error'' e], 1)
      | (c1, Inr r) \<Rightarrow>
          (c1, [StatusLine (st_NodeId r) (st_DomainCode r) (st_Stage r) (st_DomainRole r) (st_GlobalRole r)
                  (orDash (NodeID (st_DomainLeader r))) (orDash (NodeID (st_GlobalLeader r))) (orDash (DomainID (st_GlobalLeader r)))
                  (st_GlobalTerm r) (st_DomainTerm r) (st_CommitIndex r) (st_AppliedIndex r)], 0))"

definition metrics_command :: "client_world \<Rightarrow> client_flags \<Rightarrow> RPCClient \<Rightarrow> RPCClient \<times> command_result" where
  "metrics_command w f c =
     (case client_Metrics (cw_dial w) (cw_metrics w) (fl_target f) c of
        (c1, Inl e) \<Rightarrow> (c1, [ErrorLine ''metrics error'' e], 1)
      | (c1, Inr m) \<Rightarrow>
          (c1, MetricsLine (mx_NodeId m) (mx_DomainCode m) (orDash (NodeID (mx_GlobalLeader m))) (orDash (DomainID (mx_GlobalLeader m))) #
               map (\<lambda>(k, v). RttLine k v) (sorted_list_of_fmap (mx_InterDomainRttMillis m)) @
               map (\<lambda>(k, v). AgeLine k v) (sorted_list_of_fmap (mx_FloatingLatencyAgeMillis m)), 0))"

definition move_command :: "client_world \<Rightarrow> client_flags \<Rightarrow> RPCClient \<Rightarrow> RPCClient \<times> command_result" where
  "move_command w f c =
     (case client_DiscoverTopology (cw_dial w) (cw_discover w) (fl_target f) (cw_tries w) c of
        (c1, Inl e) \<Rightarrow> (c1, [ErrorLine ''discover error'' e], 1)
      | (c1, Inr reply) \<Rightarrow>
          let view = reply_view reply;
              glAddr = (if tr_GlobalLeaderAddress view = [] then fl_target f else tr_GlobalLeaderAddress view) in
          if DomainID (tr_GlobalLeader view) = fl_move f then (c1, [AlreadyIn (fl_move f)], 0)
          else (case client_Move (cw_dial w) (cw_move w) glAddr (fl_move f) (fl_moveReason f) c1 of
                  (c2, Inl e) \<Rightarrow> (c2, [ErrorLine ''move RPC error'' e], 1)
                | (c2, Inr resp) \<Rightarrow>
                    if mr_NotGlobalLeader resp then (c2, [NotTheLeader glAddr (orDash (NodeID (mr_GlobalLeader resp)))], 1)
                    else if \<not> mr_Accepted resp then (c2, [MoveRefused (orDash (mr_Error resp))], 1)
                    else (c2, [MoveDone (fl_move f) (mr_FromGlobalTerm resp) (mr_NewGlobalTerm resp)], 0)))"

text \<open>The latencies are printed in the order of the map, which Go leaves open; here it is that of the keys.\<close>

definition discover_command :: "client_world \<Rightarrow> client_flags \<Rightarrow> RPCClient \<Rightarrow> RPCClient \<times> command_result" where
  "discover_command w f c =
     (case client_DiscoverTopology (cw_dial w) (cw_discover w) (fl_target f) (cw_tries w) c of
        (c1, Inl e) \<Rightarrow> (c1, [ErrorLine ''discover error'' e], 1)
      | (c1, Inr reply) \<Rightarrow>
          let view = reply_view reply;
              ls = LeaderLine (orDash (NodeID (tr_GlobalLeader view))) (orDash (DomainID (tr_GlobalLeader view))) (tr_GlobalTerm view)
                     (orDash (tr_GlobalLeaderAddress view)) (tr_TtlMillis view) #
                   map (\<lambda>e. EndpointLine (de_DomainId e) (de_NodeId e) (de_ClientAddress e) (de_InterDomainAddress e) (de_GlobalLeader e))
                     (tr_DomainLeaders view) in
          if \<not> fl_reportFloatingLatency f then (c1, ls, 0)
          else (case MeasureFloatingLatencies (cw_dial w) (cw_ping w) (tr_DomainLeaders view) fmempty c1 of
                  (c2, Inl e) \<Rightarrow> (c2, ls @ [ErrorLine ''measure error'' e], 1)
                | (c2, Inr latencies) \<Rightarrow>
                    let targetAddr = (if tr_GlobalLeaderAddress view = [] then fl_target f else tr_GlobalLeaderAddress view) in
                    (case client_ReportFloatingLatency (cw_dial w) (cw_report w) targetAddr (fl_origin f) (tr_GlobalTerm view) latencies c2 of
                       (c3, Inl e) \<Rightarrow> (c3, ls @ [ErrorLine ''report error'' e], 1)
                     | (c3, Inr _) \<Rightarrow>
                         (c3, ls @ map (\<lambda>(domain, oneWay). LatencyLine (fl_origin f) domain oneWay) (sorted_list_of_fmap latencies), 0))))"

section \<open>Timed operations\<close>

text \<open>The request of the \<open>i\<close>-th operation; the base of the names is the clock unless the user gives one.\<close>

definition op_base :: "client_world \<Rightarrow> client_flags \<Rightarrow> string" where
  "op_base w f = (if fl_requestID f = [] then ''cli-'' @ dec (cw_unixNano w) else fl_requestID f)"

definition op_request :: "client_world \<Rightarrow> client_flags \<Rightarrow> nat \<Rightarrow> ClientWriteRequest" where
  "op_request w f i =
     \<lparr>cwr_RequestID = op_base w f @ ''-'' @ dec i, cwr_OriginDomain = fl_origin f, cwr_ReplyRoute = [],
      cwr_Command = \<lparr>Key = fl_key f, Val = fl_value f\<rparr>\<rparr>"

text \<open>One operation; \<open>None\<close> while it waits.\<close>

definition run_op :: "client_world \<Rightarrow> client_flags \<Rightarrow> nat \<Rightarrow> RPCClient \<Rightarrow> RPCClient \<times> ((client_error + error) + op_line) option" where
  "run_op w f i c =
     (if fl_value f \<noteq> []
      then let e = cw_writes w i in
        (case client_Write (wv_dial e) (wv_listen e) (wv_calls e 0) (fl_target f) (wv_tries e 0) (op_request w f i) (wv_events e 0) c of
           (c1, None) \<Rightarrow> (c1, None)
         | (c1, Some (Inl err)) \<Rightarrow> (c1, Some (Inl err))
         | (c1, Some (Inr d)) \<Rightarrow> (c1, Some (Inr (WroteLine (rd_Winner d) (cr_GlobalIndex (rd_Result d)) (cr_Result (rd_Result d))))))
      else let e = cw_reads w i in
        (case ReadFrom (rv_dial e) (rv_calls e 0) (fl_target f) (rv_tries e 0) c of
           (c1, Inl err) \<Rightarrow> (c1, Some (Inl (Inl err)))
         | (c1, Inr v) \<Rightarrow> (c1, Some (Inr (ReadLine (fl_key f) v)))))"

record op_totals =
  ot_latencies :: "duration list"
  ot_total :: duration
  ot_failures :: nat
  ot_lines :: "line list"

fun op_loop :: "client_world \<Rightarrow> client_flags \<Rightarrow> int \<Rightarrow> nat \<Rightarrow> nat \<Rightarrow> op_totals \<Rightarrow> RPCClient \<Rightarrow> RPCClient \<times> op_totals option" where
  "op_loop w f cnt i 0 t c = (c, Some t)"
| "op_loop w f cnt i (Suc left) t c =
     (let elapsed = cw_elapsed w i in
      case run_op w f i c of
        (c1, None) \<Rightarrow> (c1, None)
      | (c1, Some (Inl e)) \<Rightarrow>
          op_loop w f cnt (Suc i) left
            (t\<lparr>ot_failures := ot_failures t + 1, ot_lines := ot_lines t @ [OpError i cnt (Round elapsed microsecond) e]\<rparr>) c1
      | (c1, Some (Inr l)) \<Rightarrow>
          op_loop w f cnt (Suc i) left
            (t\<lparr>ot_latencies := ot_latencies t @ [elapsed], ot_total := i64 (ot_total t + elapsed),
               ot_lines := ot_lines t @ [OpDone i cnt l (Round elapsed microsecond)]\<rparr>) c1)"

definition summary :: "int \<Rightarrow> op_totals \<Rightarrow> command_result" where
  "summary cnt t =
     (case ot_latencies t of
        [] \<Rightarrow> (ot_lines t @ [DashLine, AllFailed cnt (ot_failures t)], 1)
      | d # _ \<Rightarrow>
          let lo = foldl (\<lambda>m x. if x < m then x else m) d (ot_latencies t);
              hi = foldl (\<lambda>m x. if x > m then x else m) d (ot_latencies t);
              avg = i64 (quot (ot_total t) (int (length (ot_latencies t)))) in
          (ot_lines t @ [DashLine, SummaryLine cnt (length (ot_latencies t)) (ot_failures t) (Round (ot_total t) microsecond)
             (Round avg microsecond) (Round lo microsecond) (Round hi microsecond)], 0))"

definition operations_command :: "client_world \<Rightarrow> client_flags \<Rightarrow> int \<Rightarrow> RPCClient \<Rightarrow> RPCClient \<times> command_result option" where
  "operations_command w f cnt c =
     (case op_loop w f cnt 1 (nat cnt) \<lparr>ot_latencies = [], ot_total = 0, ot_failures = 0, ot_lines = []\<rparr> c of
        (c1, None) \<Rightarrow> (c1, None)
      | (c1, Some t) \<Rightarrow> (c1, Some (summary cnt t)))"

definition client_main :: "client_world \<Rightarrow> client_flags \<Rightarrow> RPCClient \<times> command_result option" where
  "client_main w f =
     (let cnt = (if fl_count f < 1 then 1 else fl_count f);
          c = NewRPCClientWithCallback (fl_callbackListen f) (fl_replyRoute f);
          once = (\<lambda>(c1, r). (if snd r = 0 then client_Close c1 else c1, Some r)) in
      if fl_status f then once (status_command w f c)
      else if fl_metrics f then once (metrics_command w f c)
      else if fl_move f \<noteq> [] then once (move_command w f c)
      else if fl_discover f \<or> fl_reportFloatingLatency f then once (discover_command w f c)
      else case operations_command w f cnt c of
        (c1, None) \<Rightarrow> (c1, None)
      | (c1, Some r) \<Rightarrow> once (c1, r))"

section \<open>The harness runner\<close>

record harness_flags =
  hf_scenario :: string
  hf_scenarioFile :: string
  hf_out :: string
  hf_fastReturn :: bool
  hf_config :: string
  hf_store :: string
  hf_dataDir :: string

text \<open>The files: scenarios and configurations as decoded, \<open>base\<close> the last element of a path, the failures of making the
  directory and of writing the report, the path of a report in the temporary directory.\<close>

record files =
  fs_scenarios :: "string \<Rightarrow> string + Scenario"
  fs_base :: "string \<Rightarrow> string"
  fs_configs :: "string \<Rightarrow> string + Config"
  fs_mkdir :: "string \<Rightarrow> string option"
  fs_write :: "string \<Rightarrow> Report \<Rightarrow> string option"
  fs_tempReport :: string
  fs_tempDir :: "string option"
  fs_open :: "string \<Rightarrow> bool \<Rightarrow> string + Store"
  fs_free :: "nat \<Rightarrow> string option"

datatype command_error =
  UnknownBuiltin string | ScenarioFailed scenario_error | CommandFailed harness_error | ReportFailed string

definition loadScenario :: "files \<Rightarrow> string \<Rightarrow> string \<Rightarrow> command_error + Scenario" where
  "loadScenario fs name path =
     (if path \<noteq> []
      then case LoadScenario (fs_scenarios fs) (fs_base fs) path of Inl e \<Rightarrow> Inl (ScenarioFailed e) | Inr s \<Rightarrow> Inr s
      else case BuiltinScenario name of None \<Rightarrow> Inl (UnknownBuiltin name) | Some s \<Rightarrow> Inr s)"

definition writeReport :: "files \<Rightarrow> Report \<Rightarrow> string \<Rightarrow> command_error option" where
  "writeReport fs report out0 =
     (let out = (if out0 = [] then fs_tempReport fs else out0) in
      case fs_mkdir fs out of
        Some e \<Rightarrow> Some (ReportFailed e)
      | None \<Rightarrow> (case fs_write fs out report of Some e \<Rightarrow> Some (ReportFailed e) | None \<Rightarrow> None))"

definition zero_config :: Config where
  "zero_config = \<lparr>cfg_ApplicationGroup = [], cfg_Nodes = [], cfg_Features = zero_features,
     cfg_NetworkSimulation = \<lparr>ns_Enabled = False, ns_LocalOneWayDelayMillis = 0, ns_InterDomainOneWayMillis = fmempty\<rparr>,
     cfg_Unsupported = \<lparr>us_ApplicationGroups = 0, us_Shards = 0, us_CrossGroupTransactions = False, us_RuntimeMembershipChanges = False\<rparr>\<rparr>"

text \<open>How the command ends: before a harness was built, or with the harness as the process leaves it, the report and the error,
  which is exit code 1.  \<open>os.Exit\<close> skips the deferred \<open>Close\<close>.\<close>

datatype harness_end = NotBuilt command_error | Ended Harness Report "command_error option"

definition end_of_run :: "files \<Rightarrow> string \<Rightarrow> Harness \<times> (Report \<times> scenario_error option) option \<Rightarrow> harness_end option" where
  "end_of_run fs out run =
     (case run of
        (h, None) \<Rightarrow> None
      | (h, Some (report, runErr)) \<Rightarrow>
          (case (runErr, writeReport fs report out) of
             (Some e, _) \<Rightarrow> Some (Ended h report (Some (ScenarioFailed e)))
           | (None, Some e) \<Rightarrow> Some (Ended h report (Some e))
           | (None, None) \<Rightarrow> Some (Ended (harness_Close h) report None)))"

definition harness_main :: "files \<Rightarrow> (nat \<Rightarrow> step_world) \<Rightarrow> time \<Rightarrow> harness_flags \<Rightarrow> harness_end option" where
  "harness_main fs world now f =
     (case loadScenario fs (hf_scenario f) (hf_scenarioFile f) of
        Inl e \<Rightarrow> Some (NotBuilt e)
      | Inr scenario0 \<Rightarrow>
          let scenario = (if hf_fastReturn f then scenario0\<lparr>sc_FastReturn := True\<rparr> else scenario0);
              options = \<lparr>opt_ConfigPath = hf_config f, opt_Config = zero_config, opt_FastReturnEnabled = sc_FastReturn scenario,
                opt_RPCPolicy = None, opt_NetworkSimulation = None, opt_StatsWindow = 0, opt_CatchUpTimeout = 0,
                opt_StoreProfile = hf_store f, opt_DataDir = hf_dataDir f\<rparr> in
          (case harness_New (fs_configs fs) (fs_free fs) (fs_tempDir fs) (fs_open fs) options of
             (_, Some e) \<Rightarrow> Some (NotBuilt (CommandFailed e))
           | (None, None) \<Rightarrow> None
           | (Some h, None) \<Rightarrow>
               end_of_run fs (hf_out f) (RunScenario world now scenario h)))"

section \<open>The node\<close>

text \<open>\<open>Inl\<close> is \<open>log.Fatal\<close>; \<open>Inr None\<close> the panic of \<open>Run\<close> on an unsafe timing.\<close>

definition node_main ::
    "(string \<Rightarrow> string + Config) \<Rightarrow> (string \<Rightarrow> bool \<Rightarrow> string + Store) \<Rightarrow> env \<Rightarrow> bool \<times> bool \<Rightarrow> string \<Rightarrow> string \<Rightarrow> string \<Rightarrow>
     harness_error + RPCNode option" where
  "node_main decoded openDB env up configPath nodeID dataDir =
     (case config_Load decoded configPath of
        Inl e \<Rightarrow> Inl e
      | Inr cfg \<Rightarrow>
          (case config_Node cfg nodeID of
             None \<Rightarrow> Inl (UnknownHarnessNode nodeID)
           | Some node \<Rightarrow>
               (case openDB (dataDir @ ''/'' @ nodeID) True of
                  Inl e \<Rightarrow> Inl (OpenFailed e)
                | Inr st \<Rightarrow>
                    (case NewRPCNode cfg nodeID (Some st) of
                       Inl e \<Rightarrow> Inl (NodeFailed e)
                     | Inr n \<Rightarrow>
                         (case rpc_Start env (fst up) (snd up) n of
                            (n1, Some e) \<Rightarrow> Inl (ListenError e)
                          | (n1, None) \<Rightarrow> Inr (rpc_Run n1))))))"

end
