(* ===== verification/Scenario_Facts.thy ===== *)
theory Scenario_Facts
  imports Scenario_Run
begin

text \<open>
  What a run of a scenario guarantees: its report is exact, a measurement uses the samples it should, and the harness
  keeps its inventory of nodes.
\<close>

section \<open>The report is exact\<close>

lemma report_fields [simp]:
  "rp_Steps (note_initial l r) = rp_Steps r" "rp_Steps (note_final l r) = rp_Steps r" "rp_Steps (finish_report t r) = rp_Steps r"
  "rp_Error (note_initial l r) = rp_Error r" "rp_Error (note_final l r) = rp_Error r" "rp_Error (finish_report t r) = rp_Error r"
  by (simp_all add: note_initial_def note_final_def finish_report_def split: option.splits)

lemma step_result_fields [simp]:
  "sr_Name (step_result w step i b a out) = stepName step i" "sr_Type (step_result w step i b a out) = sp_Type step"
  "sr_OK (step_result w step i b a out) \<longleftrightarrow> sr_Error (step_result w step i b a out) = None"
  by (simp_all add: step_result_def split: prod.splits)

text \<open>The results of the steps from number \<open>i\<close> on: they come in the order of the steps, all but perhaps the last one
  succeeded, and either all steps ran and succeeded or the last result holds the error.\<close>

definition exact_results :: "nat \<Rightarrow> Step list \<Rightarrow> StepResult list \<Rightarrow> scenario_error option \<Rightarrow> bool" where
  "exact_results i steps rs e \<longleftrightarrow> length rs \<le> length steps \<and>
     (\<forall>k < length rs. sr_Name (rs ! k) = stepName (steps ! k) (i + k) \<and> sr_Type (rs ! k) = sp_Type (steps ! k)) \<and>
     (\<forall>r \<in> set rs. sr_OK r \<longleftrightarrow> sr_Error r = None) \<and> (\<forall>r \<in> set (butlast rs). sr_OK r) \<and>
     (case e of
        None \<Rightarrow> length rs = length steps \<and> (\<forall>r \<in> set rs. sr_OK r)
      | Some err \<Rightarrow> rs \<noteq> [] \<and> sr_Error (last rs) = Some err)"

lemma exact_results_Nil: "exact_results i [] [] None"
  by (simp add: exact_results_def)

lemma exact_results_stop:
  "sr_Name r = stepName step i \<Longrightarrow> sr_Type r = sp_Type step \<Longrightarrow> sr_OK r \<longleftrightarrow> sr_Error r = None \<Longrightarrow> sr_Error r = Some e \<Longrightarrow>
     exact_results i (step # steps) [r] (Some e)"
  by (simp add: exact_results_def)

lemma exact_results_go:
  assumes "exact_results (Suc i) steps rs e" "sr_Name r = stepName step i" "sr_Type r = sp_Type step" "sr_OK r" "sr_Error r = None"
  shows "exact_results i (step # steps) (r # rs) e"
  using assms by (auto simp: exact_results_def nth_Cons less_Suc_eq_0_disj split: option.splits nat.splits)

lemma run_steps_exact:
  assumes "run_steps world scenario i steps loads report h = (h', Some (report', e))"
  shows "\<exists>rs. rp_Steps report' = rp_Steps report @ rs \<and> exact_results i steps rs e"
  using assms
proof (induction steps arbitrary: i loads report h)
  case Nil
  then show ?case using exact_results_Nil by auto
next
  case (Cons step steps)
  let ?w = "world i"
  obtain h1 before where b: "seen_leader (CurrentGlobalLeader (sw_dial ?w) (sw_before ?w) (sw_live ?w h)) = (h1, before)" by fastforce
  obtain h2 loads2 out where r: "runStep ?w scenario step loads h1 = (h2, loads2, Some out)"
    using Cons.prems b by (auto simp: Let_def split: option.splits prod.splits)
  obtain h3 later where a: "seen_leader (CurrentGlobalLeader (sw_dial ?w) (sw_after ?w) h2) = (h3, later)" by fastforce
  let ?r = "step_result ?w step i before later out"
  let ?report = "(note_final later (note_initial before report))\<lparr>rp_Steps := rp_Steps report @ [?r]\<rparr>"
  show ?case
  proof (cases "sr_Error ?r")
    case None
    then have "run_steps world scenario (Suc i) steps loads2 ?report h3 = (h', Some (report', e))"
      using Cons.prems b r a by (simp add: Let_def)
    from Cons.IH [OF this] obtain rs where "rp_Steps report' = rp_Steps report @ ?r # rs" "exact_results (Suc i) steps rs e" by auto
    then show ?thesis using exact_results_go [of i steps rs e ?r step] None by auto
  next
    case (Some err)
    then have "e = Some err" "rp_Steps report' = rp_Steps report @ [?r]" using Cons.prems b r a by (auto simp: Let_def)
    then show ?thesis using exact_results_stop [of ?r step i err steps] Some by auto
  qed
qed

text \<open>C32: a report is exact.  When a valid scenario has run, its report lists the steps in their order under their
  names and types, up to and including the first one that failed; the run returns no error exactly when every step ran
  and succeeded, and otherwise the error of the last result.\<close>

theorem scenario_report_exact:
  assumes "RunScenario world now scenario h = (h', Some (report, e))" "scenario_Validate scenario = None"
    and "snd (applyScenarioConfig scenario h) = None"
  shows "exact_results 0 (sc_Steps scenario) (rp_Steps report) e \<and>
    (e = None \<longleftrightarrow> length (rp_Steps report) = length (sc_Steps scenario) \<and> list_all sr_OK (rp_Steps report))"
proof -
  obtain h1 report0 where "run_steps world scenario 0 (sc_Steps scenario) fmempty report0 h1 = (h', Some (report, e))" "rp_Steps report0 = []"
    using assms by (auto simp: RunScenario_def empty_report_def split: prod.splits option.splits)
  from run_steps_exact [OF this(1)] this(2) have x: "exact_results 0 (sc_Steps scenario) (rp_Steps report) e" by auto
  moreover have "\<not> sr_OK (last (rp_Steps report))" if "e = Some err" for err
    using x that by (auto simp: exact_results_def)
  ultimately show ?thesis
    by (cases e) (auto simp: exact_results_def list_all_iff)
qed

section \<open>A measurement uses its samples\<close>

lemma measure_loop_durations:
  assumes "measure_loop name origin addr trace warmup budget i left samples m h = (h', Some (Inr m'))"
  shows "me_durations m' = me_durations m @ map (\<lambda>k. sm_elapsed (samples k)) [i..<i + left]"
  using assms
proof (induction left arbitrary: i m h)
  case (Suc left)
  obtain h3 m1 where "measure_loop name origin addr trace warmup budget (Suc i) left samples m1 h3 = (h', Some (Inr m'))"
    "me_durations m1 = me_durations m @ [sm_elapsed (samples i)]"
    using Suc.prems by (auto simp: Let_def split: prod.splits option.splits sum.splits if_splits)
  from Suc.IH [OF this(1)] this(2) show ?case by (simp add: upt_conv_Cons del: upt_Suc)
qed simp

lemma sample_total_eq: "1 \<le> cnt \<Longrightarrow> 0 \<le> warmup \<Longrightarrow> warmup + cnt < 2 ^ 63 \<Longrightarrow> sample_total cnt warmup = nat warmup + nat cnt"
  by (simp add: sample_total_def Let_def i64_id nat_add_distrib)


section \<open>A scenario keeps the inventory\<close>

text \<open>Calls of the client and of the trace recorder leave the nodes as they are.\<close>

definition same_nodes :: "Harness \<Rightarrow> Harness \<Rightarrow> bool" where
  "same_nodes h h' \<longleftrightarrow> hs_Config h' = hs_Config h \<and> hs_closed h' = hs_closed h \<and> hs_dirRemoved h' = hs_dirRemoved h \<and>
     (\<forall>i. map_option hn_node (fmlookup (hs_Nodes h') i) = map_option hn_node (fmlookup (hs_Nodes h) i))"

lemma same_nodes_refl [simp]: "same_nodes h h"
  by (simp add: same_nodes_def)

lemma same_nodes_client [simp]: "same_nodes h (h\<lparr>hs_Client := c\<rparr>)"
  by (simp add: same_nodes_def)

lemma same_nodes_trans: "same_nodes h h1 \<Longrightarrow> same_nodes h1 h2 \<Longrightarrow> same_nodes h h2"
  by (simp add: same_nodes_def)

lemma same_nodes_wf:
  assumes "same_nodes h h'" "harness_wf h"
  shows "harness_wf h'"
proof -
  have dom: "(fmlookup (hs_Nodes h') i = None) = (fmlookup (hs_Nodes h) i = None)" for i
    using assms(1) by (metis option.map_disc_iff same_nodes_def)
  then have "fset (fmdom (hs_Nodes h')) = fset (fmdom (hs_Nodes h))"
    by (auto simp: set_eq_iff fmlookup_dom_iff) (metis option.distinct(1) option.exhaust)+
  moreover have "\<exists>y. fmlookup (hs_Nodes h) i = Some y \<and> hn_node y = hn_node x" if "fmlookup (hs_Nodes h') i = Some x" for i x
    using assms(1) that unfolding same_nodes_def by (metis (no_types, lifting) map_option_eq_Some option.simps(9))
  ultimately show ?thesis using assms unfolding harness_wf_def same_nodes_def by metis
qed

lemma through_client_same: "through_client f h = (h', r) \<Longrightarrow> same_nodes h h'"
  using through_client_frame [of f h h' r] by (simp add: same_nodes_def)

lemma WaitServing_same: "WaitServing dial polls e l h = (h', r) \<Longrightarrow> same_nodes h h'"
proof (induction polls arbitrary: e l h)
  case (Cons answer polls)
  obtain h1 x where s: "servingSnapshot dial answer h = (h1, x)" by (cases "servingSnapshot dial answer h")
  have "same_nodes h h1" using serving_scan_frame s by (simp add: servingSnapshot_def same_nodes_def)
  then show ?case using Cons s by (auto split: prod.splits if_splits intro: same_nodes_trans)
qed auto

lemma leader_scan_same: "leader_scan dial answer is h = (h', r) \<Longrightarrow> same_nodes h h'"
proof (induction "is" arbitrary: h)
  case (Cons i "is")
  obtain h1 x where s: "harness_Status dial answer i h = (h1, x)" by fastforce
  have "same_nodes h h1" using s through_client_same by (auto simp: harness_Status_def split: sum.splits)
  then show ?case using Cons s by (auto split: sum.splits if_splits intro: same_nodes_trans)
qed auto

lemma leader_same: "CurrentGlobalLeader dial answer h = (h', r) \<Longrightarrow> same_nodes h h'"
  using leader_scan_same by (simp add: CurrentGlobalLeader_def)

lemma seen_leader_same: "seen_leader (CurrentGlobalLeader dial answer h) = (h', r) \<Longrightarrow> same_nodes h h'"
  using leader_same [of dial answer h] by (cases "CurrentGlobalLeader dial answer h") (auto simp: seen_leader_def split: sum.splits)

lemma retry_until_same:
  assumes "retry_until attempt judge finish deadline rs s h = (h', r)" "\<And>b e h h1 v. attempt b e h = (h1, v) \<Longrightarrow> same_nodes h h1"
  shows "same_nodes h h'"
  using assms(1)
proof (induction rs arbitrary: s h)
  case (Cons x rs)
  obtain h1 v where a: "attempt (attemptBudget deadline (rd_at x)) (rd_env x) h = (h1, v)" by fastforce
  show ?case
    using Cons.prems Cons.IH [of _ h1] assms(2) [OF a] a
    by (auto split: if_splits option.splits sum.splits intro: same_nodes_trans)
qed auto

lemma write_attempt_same: "write_attempt addr req b e h = (h', r) \<Longrightarrow> same_nodes h h'"
  by (auto simp: write_attempt_def split: prod.splits)

lemma WriteUntil_same: "WriteUntilCommitted rs target req now budget h = (h', r) \<Longrightarrow> same_nodes h h'"
  using retry_until_same [OF _ write_attempt_same] by (auto simp: WriteUntilCommitted_def split: if_splits sum.splits)

lemma ReadUntil_same: "ReadUntil rs target key want now budget h = (h', r) \<Longrightarrow> same_nodes h h'"
proof -
  have "read_attempt addr b e h = (h1, v) \<Longrightarrow> same_nodes h h1" for addr b e h h1 v by (auto simp: read_attempt_def split: prod.splits)
  then show "ReadUntil rs target key want now budget h = (h', r) \<Longrightarrow> same_nodes h h'"
    using retry_until_same [of "read_attempt _"] by (auto simp: ReadUntil_def split: sum.splits)
qed

lemma trace_same: "same_nodes h (setWriteTraceRecorder x h)"
  by (simp add: same_nodes_def setWriteTraceRecorder_def option.map_comp comp_def)

lemma report_latency_same: "report_latency e entry origin row h = (h', r) \<Longrightarrow> same_nodes h h'"
  by (auto simp: report_latency_def Let_def split: prod.splits sum.splits dest!: through_client_same intro: same_nodes_trans)

lemma reportFloating_same: "reportFloatingLatency e origin row h = (h', r) \<Longrightarrow> same_nodes h h'"
  using report_latency_same by (auto simp: reportFloatingLatency_def split: sum.splits)

lemma measure_loop_same:
  "measure_loop name origin addr trace warmup budget i left samples m h = (h', r) \<Longrightarrow> same_nodes h h'"
proof (induction left arbitrary: i m h)
  case (Suc left)
  let ?t = "\<lambda>x h. if trace \<and> int i = warmup then setWriteTraceRecorder x h else h"
  obtain h2 out where w: "write_attempt addr (sample_request name origin i) (minDuration budget (3 * second)) (sm_write (samples i)) (?t (Some 0) h) = (h2, out)"
    by fastforce
  have t: "same_nodes a (?t x a)" for a x by (simp add: trace_same)
  have h2: "same_nodes h h2" by (rule same_nodes_trans [OF t write_attempt_same [OF w]])
  then have h3: "same_nodes h (?t None h2)" by (rule same_nodes_trans [OF _ t])
  then show ?case
    using Suc.prems w h2 Suc.IH by (auto simp: Let_def split: option.splits sum.splits if_splits intro: same_nodes_trans)
qed auto

lemma measure_origins_same:
  "measure_origins samples reporting scenario step leader cnt warmup budget origins ds rs h = (h', r) \<Longrightarrow> same_nodes h h'"
proof (induction origins arbitrary: ds rs h)
  case (Cons origin origins)
  let ?row = "get_or fmempty (sc_FloatingLatencies scenario) origin"
  obtain h1 e1 where p: "(if sorted_list_of_fmap ?row \<noteq> [] then reportFloatingLatency (reporting origin) origin ?row h else (h, None)) = (h1, e1)"
    by fastforce
  have h1: "same_nodes h h1" using p reportFloating_same by (auto split: if_splits)
  obtain h2 out where m: "measureWriteOrigin (samples origin) scenario step leader origin cnt warmup budget h1 = (h2, out)" by fastforce
  have "same_nodes h1 h2" using m measure_loop_same
    by (fastforce simp: measureWriteOrigin_def split: prod.splits option.splits sum.splits)
  then have "same_nodes h h2" by (rule same_nodes_trans [OF h1])
  then show ?case
    using Cons p m h1 by (auto simp: Let_def split: option.splits sum.splits prod.splits intro: same_nodes_trans)
qed auto

lemma runWriteOverhead_same: "runWriteOverhead w scenario step budget h = (h', r) \<Longrightarrow> same_nodes h h'"
proof -
  assume a: "runWriteOverhead w scenario step budget h = (h', r)"
  obtain h1 x where l: "CurrentGlobalLeader (sw_dial w) (sw_within w) h = (h1, x)" by (cases "CurrentGlobalLeader (sw_dial w) (sw_within w) h")
  show ?thesis
    using a l leader_same [OF l] measure_origins_same
    by (auto simp: runWriteOverhead_def Let_def split: sum.splits if_splits intro: same_nodes_trans)
qed

lemma runWriteRead_same:
  assumes "runWriteRead w scenario step budget h = (h', r)"
  shows "same_nodes h h'"
proof -
  let ?origin = "nonEmpty (sp_Origin step) ''a''"
  let ?row = "get_or fmempty (sc_FloatingLatencies scenario) ?origin"
  let ?pre = "if sorted_list_of_fmap ?row = [] then (h, Inr [])
            else case resolveTarget (sp_Target step) h of
              Inl e \<Rightarrow> (h, Inl e)
            | Inr entry \<Rightarrow>
                (case report_latency (sw_report w ?origin) entry ?origin ?row h of
                   (h1, Some e) \<Rightarrow> (h1, Inl e)
                 | (h1, None) \<Rightarrow> (h1, Inr [ReportedLatency ?origin (length (sorted_list_of_fmap ?row))]))"
  obtain h1 report where p: "?pre = (h1, report)" by (cases ?pre)
  have h1: "same_nodes h h1"
    using p report_latency_same by (auto split: if_splits sum.splits prod.splits option.splits)
  have w: "same_nodes h h2" if "WriteUntilCommitted rs target req now budget h1 = (h2, x)" for rs target req now budget h2 x
    by (rule same_nodes_trans [OF h1 WriteUntil_same [OF that]])
  have r: "same_nodes h h3" if "ReadUntil rs target key want now budget h2 = (h3, x)" "same_nodes h h2" for rs target key want now budget h2 h3 x
    by (rule same_nodes_trans [OF that(2) ReadUntil_same [OF that(1)]])
  show ?thesis
    using assms h1 unfolding runWriteRead_def Let_def p
    by (auto split: sum.splits prod.splits option.splits if_splits intro: w r)
qed

lemma target_same: "target_or_leader w step h = (h', r) \<Longrightarrow> same_nodes h h'"
  using leader_same by (auto simp: target_or_leader_def split: if_splits prod.splits sum.splits)

lemma harness_call_same:
  "harness_Move dial ans a b c h = (h', r) \<Longrightarrow> same_nodes h h'" "harness_Metrics dial mans a h = (h', s) \<Longrightarrow> same_nodes h h'"
  using through_client_same by (auto simp: harness_Move_def harness_Metrics_def split: sum.splits)

lemma run_move_same: "run_move w step h = (h', r) \<Longrightarrow> same_nodes h h'"
  by (auto simp: run_move_def split: prod.splits sum.splits if_splits dest!: target_same harness_call_same intro: same_nodes_trans)

lemma run_metrics_same: "run_metrics w step h = (h', r) \<Longrightarrow> same_nodes h h'"
  by (auto simp: run_metrics_def split: prod.splits sum.splits dest!: target_same harness_call_same intro: same_nodes_trans)

lemma restart_all_wf: "restart_all w is h = (h', e) \<Longrightarrow> harness_wf h \<Longrightarrow> harness_wf h'"
  by (induction "is" arbitrary: h) (auto split: prod.splits option.splits dest: Restart_wf)

lemma runStep_wf:
  assumes "runStep w scenario step loads h = (h', loads', r)" "harness_wf h"
  shows "harness_wf h'"
proof -
  have same: "harness_wf h1" if "same_nodes h h1" for h1 using same_nodes_wf [OF that assms(2)] .
  have step: "harness_wf h1" if "harness_step h h1" for h1 using harness_step_wf [OF that assms(2)] .
  have "harness_wf (fst (harness_Run env up h))" for env up
    by (rule step [OF harness_step.running [OF prod.collapse [symmetric]]])
  moreover have "harness_wf (fst (harness_Partition a b h))" for a b
    by (rule step [OF harness_step.partition [OF prod.collapse [symmetric]]])
  moreover have "harness_wf (fst (harness_SetDropRate rate h))" for rate
    by (rule step [OF harness_step.drop_rate [OF prod.collapse [symmetric]]])
  moreover have "harness_wf (harness_Heal h)" by (rule step [OF harness_step.heal])
  moreover have sim: "harness_wf (harness_SetNetworkSimulation sim h)" for sim by (rule step [OF harness_step.simulation])
  moreover have "harness_wf (fst (run_restart w step h))"
    using restart_all_wf assms(2) by (auto simp: run_restart_def Let_def split: prod.splits option.splits dest: Restart_wf)
  moreover have "harness_wf (fst (run_latency scenario step h))"
    using assms(2) sim by (simp add: run_latency_def Let_def)
  moreover have "harness_wf (fst (WaitServing a b c d h))" "harness_wf (fst (runWriteRead w scenario step bd h))"
    "harness_wf (fst (runWriteOverhead w scenario step bd h))" "harness_wf (fst (run_move w step h))" "harness_wf (fst (run_metrics w step h))" for a b c d bd
    by (rule same, (rule WaitServing_same runWriteRead_same runWriteOverhead_same run_move_same run_metrics_same), rule prod.collapse [symmetric])+
  ultimately show ?thesis
    using assms unfolding runStep_def Let_def
    by (auto split: if_splits prod.splits) (metis fst_conv)+
qed

lemma applyScenarioConfig_wf:
  assumes "applyScenarioConfig scenario h = (h', e)" "harness_wf h"
  shows "harness_wf h'"
proof -
  have "config_Node (c\<lparr>cfg_Features := f\<rparr>) i = config_Node c i" for c f i by (simp add: config_Node_def)
  then show ?thesis
    using assms by (auto simp: applyScenarioConfig_def Let_def harness_wf_def SetFloatingDomains_def split: if_splits option.splits)
qed

lemma run_steps_wf:
  assumes "\<forall>k h. harness_step\<^sup>*\<^sup>* h (sw_live (world k) h)"
  shows "run_steps world scenario i steps loads report h = (h', r) \<Longrightarrow> harness_wf h \<Longrightarrow> harness_wf h'"
proof (induction steps arbitrary: i loads report h)
  case (Cons step steps)
  let ?w = "world i"
  have "harness_step\<^sup>*\<^sup>* h (sw_live ?w h)" using assms by blast
  then have live: "harness_wf (sw_live ?w h)" using Cons.prems(2)
    by (induction rule: rtranclp_induct) (auto intro: harness_step_wf)
  obtain h1 before where b: "seen_leader (CurrentGlobalLeader (sw_dial ?w) (sw_before ?w) (sw_live ?w h)) = (h1, before)" by fastforce
  have h1: "harness_wf h1" by (rule same_nodes_wf [OF seen_leader_same [OF b] live])
  obtain h2 loads2 out where s: "runStep ?w scenario step loads h1 = (h2, loads2, out)" by (metis prod_cases3)
  have h2: "harness_wf h2" by (rule runStep_wf [OF s h1])
  obtain h3 later where a: "seen_leader (CurrentGlobalLeader (sw_dial ?w) (sw_after ?w) h2) = (h3, later)" by fastforce
  have h3: "harness_wf h3" by (rule same_nodes_wf [OF seen_leader_same [OF a] h2])
  show ?case
    using Cons.prems(1) b s a h2 h3 Cons.IH [of "Suc i" loads2 _ h3] by (auto simp: Let_def split: option.splits)
qed auto

text \<open>A scenario leaves a sound harness, whatever its steps and however they end: if the nodes meanwhile only ran
  sections of their own, there is still exactly one node for each configured one, under its own name, and the
  configuration is valid.\<close>

theorem scenario_keeps_inventory:
  assumes "RunScenario world now scenario h = (h', r)" "harness_wf h" "\<forall>k h. harness_step\<^sup>*\<^sup>* h (sw_live (world k) h)"
  shows "harness_wf h'"
  using assms(1,2) run_steps_wf [OF assms(3)] applyScenarioConfig_wf
  by (auto simp: RunScenario_def split: option.splits prod.splits)

end
