(* ===== verification/Command_Facts.thy ===== *)
theory Command_Facts
  imports Commands Scenario_Facts
begin

text \<open>What the commands guarantee: the summary of the client is that of its operations, the harness runner cleans up after
  a success (and only then), and a node that starts runs under its own name with safe leases.\<close>

section \<open>Rounding\<close>

lemma Round_nonneg:
  assumes "0 \<le> d" "d < 2 ^ 63"
  shows "Round d microsecond = min (2 ^ 63 - 1) (microsecond * ((d + 500) div microsecond))"
proof -
  define q r where qr: "q = d div 1000" "r = d mod 1000"
  have d: "d = 1000 * q + r" "0 \<le> r" "r < 1000" by (simp_all add: qr)
  have "(d + 500) div 1000 = q + (r + 500) div 1000" using d(1) by simp
  moreover have "(r + 500) div 1000 = (if 2 * r < 1000 then 0 else 1)" using d(2,3) by (auto intro: int_div_pos_eq [of _ _ _ "r - 500"])
  ultimately show ?thesis
    using assms d unfolding Round_def microsecond_def Let_def qr(2) [symmetric] by (simp split: if_splits)
qed

lemma Round_mono: "0 \<le> a \<Longrightarrow> a \<le> b \<Longrightarrow> b < 2 ^ 63 \<Longrightarrow> Round a microsecond \<le> Round b microsecond"
proof -
  assume a: "0 \<le> a" "a \<le> b" "b < 2 ^ 63"
  have "microsecond * ((a + 500) div microsecond) \<le> microsecond * ((b + 500) div microsecond)" using a by (simp add: zdiv_mono1 microsecond_def)
  moreover have "Round a microsecond = min (2 ^ 63 - 1) (microsecond * ((a + 500) div microsecond))" by (rule Round_nonneg) (use a in linarith)+
  moreover have "Round b microsecond = min (2 ^ 63 - 1) (microsecond * ((b + 500) div microsecond))" by (rule Round_nonneg) (use a in linarith)+
  ultimately show ?thesis by linarith
qed

lemma foldl_bounds:
  "(foldl (\<lambda>m x. if x < m then x else m) d xs :: int) = Min (insert d (set xs))"
  "(foldl (\<lambda>m x. if x > m then x else m) d xs :: int) = Max (insert d (set xs))"
proof -
  have "(if x < m then x else m) = min m x" "(if x > m then x else m) = max m x" for x m :: int by auto
  then show "(foldl (\<lambda>m x. if x < m then x else m) d xs :: int) = Min (insert d (set xs))"
    "(foldl (\<lambda>m x. if x > m then x else m) d xs :: int) = Max (insert d (set xs))"
    by (simp_all add: Min.set_eq_fold [of d xs, simplified] Max.set_eq_fold [of d xs, simplified] foldl_conv_fold min.commute max.commute)
qed

section \<open>The client\<close>

fun op_number :: "line \<Rightarrow> nat option" where
  "op_number (OpError i _ _ _) = Some i"
| "op_number (OpDone i _ _ _) = Some i"
| "op_number _ = None"

lemma op_loop_spec:
  assumes "op_loop w f cnt i left t c = (c', Some t')" "\<forall>k. 0 \<le> cw_elapsed w k" "ot_total t = sum_list (ot_latencies t)"
    and "\<forall>d \<in> set (ot_latencies t). 0 \<le> d" "sum_list (ot_latencies t) + (\<Sum>k = i..<i + left. cw_elapsed w k) < 2 ^ 63"
  shows "length (ot_latencies t') + ot_failures t' = length (ot_latencies t) + ot_failures t + left \<and>
    ot_total t' = sum_list (ot_latencies t') \<and> (\<forall>d \<in> set (ot_latencies t'). 0 \<le> d) \<and> sum_list (ot_latencies t') < 2 ^ 63 \<and>
    map op_number (ot_lines t') = map op_number (ot_lines t) @ map Some [i..<i + left]"
  using assms
proof (induction left arbitrary: i t c)
  case (Suc left)
  obtain c1 r where o: "run_op w f i c = (c1, Some r)" using Suc.prems(1) by (auto simp: Let_def split: option.splits prod.splits)
  have split: "(\<Sum>k = i..<i + Suc left. cw_elapsed w k) = cw_elapsed w i + (\<Sum>k = Suc i..<Suc i + left. cw_elapsed w k)"
    by (simp add: sum.atLeast_Suc_lessThan)
  have rest: "0 \<le> (\<Sum>k = Suc i..<Suc i + left. cw_elapsed w k)" using Suc.prems(2) by (simp add: sum_nonneg)
  have e: "0 \<le> cw_elapsed w i" using Suc.prems(2) by blast
  have sum: "0 \<le> sum_list (ot_latencies t)" using Suc.prems(4) by (simp add: sum_list_nonneg)
  have lt: "sum_list (ot_latencies t) + (\<Sum>k = Suc i..<Suc i + left. cw_elapsed w k) < 2 ^ 63"
    "sum_list (ot_latencies t) + cw_elapsed w i + (\<Sum>k = Suc i..<Suc i + left. cw_elapsed w k) < 2 ^ 63"
    using Suc.prems(5) split e by linarith+
  have upt: "[i..<i + Suc left] = i # [Suc i..<Suc i + left]" by (simp add: upt_conv_Cons)
  show ?case
  proof (cases r)
    case (Inl err)
    then have l: "op_loop w f cnt (Suc i) left (t\<lparr>ot_failures := ot_failures t + 1,
        ot_lines := ot_lines t @ [OpError i cnt (Round (cw_elapsed w i) microsecond) err]\<rparr>) c1 = (c', Some t')"
      using Suc.prems(1) o by (simp add: Let_def)
    show ?thesis unfolding upt using Suc.IH [OF l] Suc.prems(2-4) lt(1) by (simp del: upt_Suc sum.op_ivl_Suc)
  next
    case (Inr x)
    then have l: "op_loop w f cnt (Suc i) left (t\<lparr>ot_latencies := ot_latencies t @ [cw_elapsed w i], ot_total := i64 (ot_total t + cw_elapsed w i),
        ot_lines := ot_lines t @ [OpDone i cnt x (Round (cw_elapsed w i) microsecond)]\<rparr>) c1 = (c', Some t')"
      using Suc.prems(1) o by (simp add: Let_def)
    have "i64 (ot_total t + cw_elapsed w i) = ot_total t + cw_elapsed w i"
      using Suc.prems(3,5) split rest e sum by (intro i64_id) linarith+
    then show ?thesis unfolding upt using Suc.IH [OF l] Suc.prems(2-4) lt(2) e by (simp add: ball_Un del: upt_Suc sum.op_ivl_Suc)
  qed
qed simp

lemma mean_between:
  assumes "xs \<noteq> []" "\<forall>x \<in> set xs. (0 :: int) \<le> x" "sum_list xs < 2 ^ 63"
  shows "i64 (quot (sum_list xs) (int (length xs))) = sum_list xs div int (length xs) \<and>
    Min (set xs) \<le> sum_list xs div int (length xs) \<and> sum_list xs div int (length xs) \<le> Max (set xs) \<and> Max (set xs) < 2 ^ 63 \<and> 0 \<le> Min (set xs)"
proof -
  let ?n = "int (length xs)" and ?s = "sum_list xs"
  have n: "0 < ?n" using assms(1) by simp
  have s: "0 \<le> ?s" using assms(2) by (simp add: sum_list_nonneg)
  have b: "?n * Min (set xs) \<le> ?s" "?s \<le> ?n * Max (set xs)" using sum_list_bounds [of xs "Min (set xs)" "Max (set xs)"] by simp_all
  have "Min (set xs) \<le> ?s div ?n" "?s div ?n \<le> Max (set xs)" using zdiv_mono1 [OF b(1) n] zdiv_mono1 [OF b(2) n] n by simp_all
  moreover have "Max (set xs) \<le> ?s" using assms by (simp add: member_le_sum_list)
  moreover have "0 \<le> Min (set xs)" using assms by simp
  ultimately show ?thesis using assms(3) mean_exact [OF s assms(3) n] by simp
qed

lemma summary_spec:
  assumes "summary cnt t = (ls, code)" "ot_total t = sum_list (ot_latencies t)" "\<forall>d \<in> set (ot_latencies t). 0 \<le> d"
    and "sum_list (ot_latencies t) < 2 ^ 63"
  shows "\<exists>l. ls = ot_lines t @ [DashLine, l] \<and>
    (if ot_latencies t = [] then l = AllFailed cnt (ot_failures t) \<and> code = 1
     else code = 0 \<and> (\<exists>total avg lo hi. l = SummaryLine cnt (length (ot_latencies t)) (ot_failures t) total avg lo hi \<and> lo \<le> avg \<and> avg \<le> hi))"
proof (cases "ot_latencies t")
  case Nil
  then show ?thesis using assms(1) by (auto simp: summary_def)
next
  case (Cons d ds)
  let ?xs = "ot_latencies t"
  have ne: "?xs \<noteq> []" and set: "insert d (set ?xs) = set ?xs" using Cons by auto
  note m = mean_between [OF ne assms(3,4)]
  let ?avg = "i64 (quot (ot_total t) (int (length ?xs)))"
  have ls: "ls = ot_lines t @ [DashLine, SummaryLine cnt (length ?xs) (ot_failures t) (Round (ot_total t) microsecond) (Round ?avg microsecond)
      (Round (Min (set ?xs)) microsecond) (Round (Max (set ?xs)) microsecond)]" "code = 0"
    using assms(1) Cons set by (simp_all add: summary_def Let_def foldl_bounds)
  have "Round (Min (set ?xs)) microsecond \<le> Round ?avg microsecond" "Round ?avg microsecond \<le> Round (Max (set ?xs)) microsecond"
    using m assms(2) by (simp_all add: Round_mono)
  then show ?thesis using ls ne by auto
qed

lemma operations_spec:
  assumes "operations_command w f cnt c = (c', Some (ls, code))" "\<forall>k. 0 \<le> cw_elapsed w k" "(\<Sum>k = 1..<1 + nat cnt. cw_elapsed w k) < 2 ^ 63"
  shows "\<exists>os l n m. ls = os @ [DashLine, l] \<and> map op_number os = map Some [1..<1 + nat cnt] \<and> n + m = nat cnt \<and>
    (if n = 0 then l = AllFailed cnt m \<and> code = 1
     else code = 0 \<and> (\<exists>total avg lo hi. l = SummaryLine cnt n m total avg lo hi \<and> lo \<le> avg \<and> avg \<le> hi))"
proof -
  let ?t0 = "\<lparr>ot_latencies = [], ot_total = 0, ot_failures = 0, ot_lines = []\<rparr>"
  obtain t where l: "op_loop w f cnt 1 (nat cnt) ?t0 c = (c', Some t)" and s: "summary cnt t = (ls, code)"
    using assms(1) by (auto simp: operations_command_def split: prod.splits option.splits)
  have t: "length (ot_latencies t) + ot_failures t = nat cnt" "ot_total t = sum_list (ot_latencies t)" "\<forall>d \<in> set (ot_latencies t). 0 \<le> d"
    "sum_list (ot_latencies t) < 2 ^ 63" "map op_number (ot_lines t) = map Some [1..<1 + nat cnt]"
    using op_loop_spec [OF l assms(2)] assms(3) by (simp_all del: upt_Suc sum.op_ivl_Suc)
  from summary_spec [OF s t(2-4)] t(1,5) show ?thesis by (metis length_0_conv)
qed

text \<open>The client counts what it did.  Run for its operations (no other mode), the client prints one line per operation
  in their order and a last line; successes and failures add up to the number asked for (at least one); the exit code is
  1 exactly when no operation succeeded; the printed average lies between the printed extremes; and no two operations
  are the same request, so none is answered from the cache of another.\<close>

theorem client_command_counts:
  assumes "client_main w f = (c, Some (ls, code))" "\<not> fl_status f" "\<not> fl_metrics f" "fl_move f = []" "\<not> fl_discover f"
    and "\<not> fl_reportFloatingLatency f" "\<forall>k. 0 \<le> cw_elapsed w k" "(\<Sum>k = 1..<1 + nat (max 1 (fl_count f)). cw_elapsed w k) < 2 ^ 63"
  shows "inj (cwr_RequestID \<circ> op_request w f) \<and>
    (\<exists>os l n m. ls = os @ [DashLine, l] \<and> map op_number os = map Some [1..<1 + nat (max 1 (fl_count f))] \<and>
       n + m = nat (max 1 (fl_count f)) \<and>
       (if n = 0 then l = AllFailed (max 1 (fl_count f)) m \<and> code = 1
        else code = 0 \<and> (\<exists>total avg lo hi. l = SummaryLine (max 1 (fl_count f)) n m total avg lo hi \<and> lo \<le> avg \<and> avg \<le> hi)))"
proof -
  have "(if fl_count f < 1 then 1 else fl_count f) = max 1 (fl_count f)" by simp
  then obtain c0 c1 where o: "operations_command w f (max 1 (fl_count f)) c0 = (c1, Some (ls, code))"
    using assms(1-6) by (auto simp: client_main_def Let_def split: prod.splits option.splits)
  have "inj (cwr_RequestID \<circ> op_request w f)" by (rule injI) (simp add: op_request_def dec_inj)
  then show ?thesis using operations_spec [OF o assms(7,8)] by blast
qed

section \<open>The harness runner\<close>

lemma Restart_open: "harness_Restart e a b i h = (h', r) \<Longrightarrow> hs_closed h' = hs_closed h \<and> hs_dirRemoved h' = hs_dirRemoved h"
  by (auto simp: harness_Restart_def Let_def split: option.splits sum.splits prod.splits if_splits)

lemma restart_all_open: "restart_all w is h = (h', e) \<Longrightarrow> hs_closed h' = hs_closed h \<and> hs_dirRemoved h' = hs_dirRemoved h"
  by (induction "is" arbitrary: h) (auto split: prod.splits option.splits dest: Restart_open)

lemma start_nodes_open: "start_nodes e up is h = (h', r) \<Longrightarrow> hs_closed h' = hs_closed h \<and> hs_dirRemoved h' = hs_dirRemoved h"
  by (induction "is" arbitrary: h) (fastforce simp: Let_def split: prod.splits option.splits)+

lemma Run_open: "harness_Run e up h = (h', r) \<Longrightarrow> hs_closed h' = hs_closed h \<and> hs_dirRemoved h' = hs_dirRemoved h"
  by (auto simp: harness_Run_def harness_Start_def split: prod.splits option.splits if_splits dest: start_nodes_open)

definition same_open :: "Harness \<Rightarrow> Harness \<Rightarrow> bool" where
  "same_open h h' \<longleftrightarrow> hs_closed h' = hs_closed h \<and> hs_dirRemoved h' = hs_dirRemoved h"

lemma same_nodes_open: "same_nodes h h' \<Longrightarrow> same_open h h'"
  by (simp add: same_nodes_def same_open_def)

lemma update_nodes_open: "same_open h (fold (\<lambda>i. update_node i g) is h)"
proof -
  have "same_open h (update_node i g h)" for i h by (simp add: same_open_def update_node_def split: option.splits)
  then show ?thesis by (induction "is" arbitrary: h) (auto simp: same_open_def)
qed

lemma Partition_open: "same_open h (fst (harness_Partition a b h))"
  using update_nodes_open [of h _ a] update_nodes_open [of _ _ b] by (auto simp: harness_Partition_def same_open_def split: option.splits)

lemma New_open:
  assumes "harness_New decoded free tempDir openDB options = (Some h, None)"
  shows "\<not> hs_closed h \<and> \<not> hs_dirRemoved h"
proof -
  obtain cfg profile dir temporary where b: "build_harness openDB options cfg profile dir temporary = (Some h, None)"
    using assms unfolding harness_New_def Let_def by (auto split: sum.splits option.splits if_splits)
  have nodes: "new_nodes openDB ns h1 = (h2, None) \<Longrightarrow> same_open h1 h2" for ns h1 h2
  proof (induction ns arbitrary: h1)
    case (Cons n ns)
    obtain h3 r where s: "newStore openDB (nd_ID n) h1 = (h3, r)" by fastforce
    then have "same_open h1 h3" using newStore_frame [OF s] by (auto simp: same_open_def)
    then show ?case using Cons s by (fastforce simp: same_open_def split: sum.splits)
  qed (simp add: same_open_def)
  show ?thesis using b nodes by (fastforce simp: build_harness_def same_open_def empty_harness_def split: prod.splits)
qed

lemma runStep_open:
  assumes "runStep w scenario step loads h = (h', loads', r)"
  shows "same_open h h'"
proof -
  have "same_open h (fst (harness_Run env up h))" for env up using Run_open [OF prod.collapse [symmetric]] by (simp add: same_open_def)
  moreover have "same_open h (fst (harness_SetDropRate rate h))" "same_open h (harness_Heal h)"
    "same_open h (harness_SetNetworkSimulation sim h)" "same_open h h" for rate sim
    by (auto simp: same_open_def harness_SetDropRate_def harness_Heal_def harness_SetNetworkSimulation_def
        split: option.splits)
  moreover have "same_open h (fst (run_restart w step h))"
    by (auto simp: run_restart_def Let_def same_open_def split: prod.splits option.splits dest: restart_all_open Restart_open)
  moreover have "same_open h (fst (run_latency scenario step h))"
    by (auto simp: run_latency_def Let_def same_open_def harness_SetNetworkSimulation_def)
  moreover have "same_open h (fst (WaitServing a b c d h))" "same_open h (fst (runWriteRead w scenario step bd h))"
    "same_open h (fst (runWriteOverhead w scenario step bd h))" "same_open h (fst (run_move w step h))" "same_open h (fst (run_metrics w step h))"
    for a b c d bd
    by (rule same_nodes_open, (rule WaitServing_same runWriteRead_same runWriteOverhead_same run_move_same run_metrics_same), rule prod.collapse [symmetric])+
  ultimately show ?thesis
    using assms Partition_open unfolding runStep_def Let_def by (auto split: if_splits prod.splits) (metis fst_conv)+
qed

lemma run_steps_open:
  assumes "\<forall>k h. same_open h (sw_live (world k) h)"
  shows "run_steps world scenario i steps loads report h = (h', r) \<Longrightarrow> same_open h h'"
proof (induction steps arbitrary: i loads report h)
  case Nil
  then show ?case by (simp add: same_open_def)
next
  case (Cons step steps)
  let ?w = "world i"
  obtain h1 before where b: "seen_leader (CurrentGlobalLeader (sw_dial ?w) (sw_before ?w) (sw_live ?w h)) = (h1, before)" by fastforce
  obtain h2 loads2 out where s: "runStep ?w scenario step loads h1 = (h2, loads2, out)" by (metis prod_cases3)
  obtain h3 later where a: "seen_leader (CurrentGlobalLeader (sw_dial ?w) (sw_after ?w) h2) = (h3, later)" by fastforce
  have "same_open h (sw_live ?w h)" using assms by blast
  then have h2: "same_open h h2" "same_open h h3"
    using same_nodes_open [OF seen_leader_same [OF b]] runStep_open [OF s] same_nodes_open [OF seen_leader_same [OF a]]
    by (simp_all add: same_open_def)
  have tail: "same_open h h'" if "run_steps world scenario (Suc i) steps loads2 rep h3 = (h', r)" for rep
    using Cons.IH [OF that] h2(2) by (simp add: same_open_def)
  show ?case using Cons.prems b s a h2 tail by (auto simp: Let_def split: option.splits)
qed

text \<open>C37: the harness runner cleans up after a success, and only then.  When its scenario succeeds and the report is
  written, the nodes are stopped, the databases closed and a temporary data directory is deleted.  When the run or the
  report fails, the process exits before the deferred \<open>Close\<close>: nothing was closed and the directory stays.\<close>

theorem harness_command_cleanup:
  assumes "harness_main fs world now f = Some (Ended h report e)" "\<forall>k h. same_open h (sw_live (world k) h)"
  shows "if e = None then cleaned_up h else \<not> hs_closed h \<and> \<not> hs_dirRemoved h"
proof -
  obtain options scenario h0 where new: "harness_New (fs_configs fs) (fs_free fs) (fs_tempDir fs) (fs_open fs) options = (Some h0, None)"
    and main: "end_of_run fs (hf_out f) (RunScenario world now scenario h0) = Some (Ended h report e)"
    using assms(1) by (auto simp: harness_main_def Let_def split: sum.split_asm prod.split_asm option.split_asm)
  obtain h1 runErr where run: "RunScenario world now scenario h0 = (h1, Some (report, runErr))"
    and h: "h = (if e = None then harness_Close h1 else h1)"
    using main by (auto simp: end_of_run_def split: prod.split_asm option.split_asm) (metis option.distinct(1))
  have h0: "\<not> hs_closed h0" "\<not> hs_dirRemoved h0" using New_open [OF new] by simp_all
  have "same_open h0 h1"
    using run run_steps_open [OF assms(2)]
    by (auto simp: RunScenario_def applyScenarioConfig_def Let_def same_open_def split: option.splits prod.splits if_splits)
  then show ?thesis using h h0 Close_cleans_up [of h1] by (auto simp: same_open_def)
qed

section \<open>The node\<close>

text \<open>A node that starts runs safely.  When the command does not end with an error, the configuration it read is valid,
  the node is the configured one of the given name, it carries the state that its database held, listens, and runs with
  both leases on: the check of the timing, which would panic, succeeds.\<close>

theorem node_command_starts:
  assumes "node_main decoded openDB env up configPath nodeID dataDir = Inr r"
  shows "\<exists>cfg st state n. decoded configPath = Inr cfg \<and> config_Validate cfg = None \<and>
    openDB (dataDir @ ''/'' @ nodeID) True = Inr st \<and> store_Load st = Inr state \<and> r = Some n \<and>
    rn_config n = cfg \<and> config_Node cfg nodeID = Some (rn_local n) \<and> rn_state n = state \<and> rn_store n = st \<and> rn_server n \<and>
    rn_globalLeaseEnabled n \<and> rn_domainLeaseEnabled n \<and> fst up \<and> snd up"
  using assms
  by (auto simp: node_main_def config_Load_def NewRPCNode_def rpc_Start_def rpc_Run_def fresh_node_def Let_def validateLeaseTiming_def heartbeatInterval_def
      minDomainElectionTimeout_def minGlobalElectionTimeout_def globalStickyWindow_def domainElectionDelayFactor_def globalElectionDelayFactor_def
      electionDelayFloor_def millisecond_def
      SetDomainLeaseEnabled_def SetGlobalLeaseEnabled_def resetGlobalDeadlineLocked_def resetDomainDeadlineLocked_def
      split: sum.splits option.splits prod.splits if_splits)

end
