(* ===== verification/Harness_Examples.thy ===== *)
theory Harness_Examples
  imports Harness_Facts
begin

text \<open>
  A harness over the example configuration, evaluated in the kernel: it is built, waits for a leader, writes,
  partitions two domains and restarts a node.
\<close>

declare Clone_eq [code]

definition ex_options :: Options where
  "ex_options = \<lparr>opt_ConfigPath = [], opt_Config = ex_config, opt_FastReturnEnabled = True, opt_RPCPolicy = None,
     opt_NetworkSimulation = None, opt_StatsWindow = 0, opt_CatchUpTimeout = 0, opt_StoreProfile = [], opt_DataDir = []\<rparr>"

definition ex_new :: "Harness option \<times> harness_error option" where
  "ex_new = harness_New (\<lambda>_. Inl ''no file'') (\<lambda>_. None) None (\<lambda>_ _. Inl ''no database'') ex_options"

definition ex_harness :: Harness where "ex_harness = the (fst ex_new)"

definition ex_split :: "Harness \<times> harness_error option" where
  "ex_split = harness_Partition [''a1''] [''b1'', ''b2''] ex_harness"

definition ex_env :: env where "ex_env = \<lparr>env_now = \<lambda>_. 0, env_rand = \<lambda>_. 0\<rparr>"

definition ex_restart :: "Harness \<times> harness_error option" where
  "ex_restart = harness_Restart ex_env True True ''a1'' (fst ex_split)"

definition ex_status :: statuses where
  "ex_status _ = Inr \<lparr>st_NodeId = ''x'', st_DomainCode = ''d'', st_Stage = Serving, st_DomainRole = Follower, st_GlobalRole = Follower,
     st_DomainLeader = no_dli, st_GlobalLeader = \<lparr>DomainID = ''a'', NodeID = ''a1'', DomainTerm = 1\<rparr>, st_GlobalTerm = 1,
     st_GlobalLeaderAddress = ''h:1'', st_DomainTerm = 1, st_CommitIndex = 0, st_AppliedIndex = 0, st_SnapshotIndex = 0\<rparr>"

definition ex_wait :: "Harness \<times> LeaderInfo \<times> harness_error option" where
  "ex_wait = WaitServing (\<lambda>_. None) [\<lambda>_. Inl ''down'', ex_status] None no_leader ex_harness"

definition ex_request :: ClientWriteRequest where
  "ex_request = \<lparr>cwr_RequestID = ''r'', cwr_OriginDomain = ''a'', cwr_ReplyRoute = [], cwr_Command = \<lparr>Key = ''k'', Val = ''v''\<rparr>\<rparr>"

definition ex_result :: ClientResult where
  "ex_result = \<lparr>cr_RequestID = ''r'', cr_GlobalTerm = 1, cr_GlobalIndex = 1, cr_Result = ''v'', cr_Source = GlobalResponse,
     cr_Committed = True, cr_ResponderDomain = []\<rparr>"

text \<open>The first attempt runs into its deadline, the second is answered.\<close>

definition ex_meets :: "race_event list \<Rightarrow> write_env" where
  "ex_meets es = \<lparr>wv_dial = \<lambda>_. None, wv_listen = Some ''h:9'',
     wv_calls = \<lambda>_ _ _ _. Answer \<lparr>wr_Result = ex_result, wr_Redirect = [], wr_Error = []\<rparr>, wv_tries = \<lambda>_. 1, wv_events = \<lambda>_. es\<rparr>"

definition ex_rounds :: "write_env round list" where
  "ex_rounds = [\<lparr>rd_test = 0, rd_ctx = False, rd_at = 0, rd_over = False, rd_env = ex_meets [CtxDone]\<rparr>,
     \<lparr>rd_test = pollInterval, rd_ctx = False, rd_at = pollInterval, rd_over = False, rd_env = ex_meets [OnGlobal None, CtxDone]\<rparr>,
     \<lparr>rd_test = 2 * pollInterval, rd_ctx = False, rd_at = 2 * pollInterval, rd_over = False, rd_env = ex_meets [CtxDone]\<rparr>]"

definition ex_write :: "Harness \<times> (harness_error + RaceDecision) option" where
  "ex_write = WriteUntilCommitted ex_rounds ''a1'' ex_request 0 (2 * pollInterval) ex_harness"

lemma harness_eval:
  "fst ex_new \<noteq> None \<and> snd ex_new = None \<and> nodeIDsLocked ex_harness = [''a1'', ''b1'', ''b2'', ''b3'', ''c1''] \<and>
   snd ex_split = None \<and> fmlookup (hs_Nodes (fst ex_split)) ''a1'' \<noteq> None \<and> fmlookup (hs_Nodes (fst ex_split)) ''b1'' \<noteq> None \<and>
   snd ex_restart = None \<and> fmlookup (hs_Nodes (fst ex_restart)) ''a1'' \<noteq> None \<and> fmlookup (hs_Nodes (fst ex_restart)) ''b1'' \<noteq> None \<and>
   snd (snd ex_wait) = None \<and> li_NodeID (fst (snd ex_wait)) = ''a1''"
  by code_simp

lemma harness_write_eval:
  "(case snd ex_write of Some (Inr d) \<Rightarrow> rd_Result d = ex_result | _ \<Rightarrow> False)"
  by code_simp

lemma ex_new_eq: "ex_new = (Some ex_harness, None)"
  using harness_eval by (auto simp: ex_harness_def prod_eq_iff)

lemma ex_split_eq: "harness_Partition [''a1''] [''b1'', ''b2''] ex_harness = (fst ex_split, None)"
  using harness_eval by (auto simp: ex_split_def prod_eq_iff)

lemma ex_restart_eq: "harness_Restart ex_env True True ''a1'' (fst ex_split) = (fst ex_restart, None)"
  using harness_eval by (auto simp: ex_restart_def prod_eq_iff)

lemma wait_serving_agreed_witness:
  "li_NodeID (fst (snd ex_wait)) = ''a1'' \<and> (\<exists>answer. reports answer ex_harness (fst (snd ex_wait)) ''c1'')"
proof -
  have w: "WaitServing (\<lambda>_. None) [\<lambda>_. Inl ''down'', ex_status] None no_leader ex_harness = (fst ex_wait, fst (snd ex_wait), None)"
    using harness_eval by (auto simp: ex_wait_def prod_eq_iff)
  from wait_serving_agreed [OF this] harness_eval show ?thesis by auto
qed


lemma retries_return_what_was_asked_witness:
  "\<exists>h d. WriteUntilCommitted ex_rounds ''a1'' ex_request 0 (2 * pollInterval) ex_harness = (h, Some (Inr d)) \<and>
     cr_RequestID (rd_Result d) = ''r'' \<and> cr_Committed (rd_Result d)"
proof -
  obtain h d where w: "WriteUntilCommitted ex_rounds ''a1'' ex_request 0 (2 * pollInterval) ex_harness = (h, Some (Inr d))"
    using harness_write_eval by (cases ex_write) (auto simp: ex_write_def split: option.splits sum.splits)
  from retries_return_what_was_asked [of ex_rounds "''a1''" ex_request 0 "2 * pollInterval" ex_harness h d "[]" "[]" "[]" h "[]"] w
  show ?thesis by (auto simp: ex_request_def)
qed

lemma partition_cuts_witness:
  "\<exists>n net e el. fmlookup (hs_Nodes (fst ex_split)) ''b1'' = Some n \<and>
     callNode (\<lambda>_. None) ex_calls (hn_node n) ''a1'' (hn_net n) = (net, Some e, [], el)"
proof -
  obtain na nb where "fmlookup (hs_Nodes (fst ex_split)) ''a1'' = Some na" "fmlookup (hs_Nodes (fst ex_split)) ''b1'' = Some nb"
    using harness_eval by auto
  then show ?thesis using partition_cuts [OF ex_split_eq, of "''a1''" "''b1''" na nb "\<lambda>_. None" ex_calls] by auto
qed

lemma restart_keeps_store_and_settings_witness:
  "\<exists>x. fmlookup (hs_Nodes (fst ex_restart)) ''a1'' = Some x \<and> rn_config (hn_node x) = hs_Config (fst ex_split)"
proof -
  obtain old where old: "fmlookup (hs_Nodes (fst ex_split)) ''a1'' = Some old" using harness_eval by auto
  from restart_keeps_store_and_settings [OF ex_restart_eq old] show ?thesis by auto
qed

lemma restart_forgets_partition_witness:
  "\<exists>na nb. fmlookup (hs_Nodes (fst ex_restart)) ''a1'' = Some na \<and> fmlookup (hs_Nodes (fst ex_restart)) ''b1'' = Some nb \<and>
     \<not> linkBlocked ''b1'' (hn_net na) \<and> linkBlocked ''a1'' (hn_net nb)"
proof -
  obtain na nb where n: "fmlookup (hs_Nodes (fst ex_restart)) ''a1'' = Some na" "fmlookup (hs_Nodes (fst ex_restart)) ''b1'' = Some nb"
    using harness_eval by auto
  from restart_forgets_partition [OF ex_split_eq _ _ _ ex_restart_eq n] show ?thesis using n by auto
qed

lemma harness_inventory_witness: "harness_wf (harness_Heal ex_harness)"
proof -
  have "harness_step\<^sup>*\<^sup>* ex_harness (harness_Heal ex_harness)" by (intro r_into_rtranclp harness_step.heal)
  then show ?thesis using harness_inventory [OF ex_new_eq [unfolded ex_new_def]] by blast
qed

end
