(* ===== verification/Scenario_Examples.thy ===== *)
theory Scenario_Examples
  imports Scenario_Facts Harness_Examples
begin

text \<open>
  A scenario on the example harness, evaluated in the kernel: it partitions two nodes, heals them and ends at a step of
  an unknown type.  A measurement of three writes, of which one is a warm-up.
\<close>

section \<open>A scenario\<close>

definition sc_world :: "nat \<Rightarrow> step_world" where
  "sc_world _ =
     \<lparr>sw_live = (\<lambda>h. h), sw_dial = (\<lambda>_. None), sw_before = (\<lambda>_. Inl ''down''), sw_within = (\<lambda>_. Inl ''down''), sw_after = (\<lambda>_. Inl ''down''),
      sw_env = ex_env, sw_up = (\<lambda>_. (True, True)), sw_polls = [], sw_move = (\<lambda>_ _ _. Inl ''down''), sw_metrics = (\<lambda>_. Inl ''down''),
      sw_report = (\<lambda>_. \<lparr>re_dial = \<lambda>_. None, re_discover = \<lambda>_ _. Failed ''down'' False, re_tries = 0, re_report = \<lambda>_ _. Inl ''down''\<rparr>),
      sw_writeStart = 0, sw_writes = [], sw_readStart = 0, sw_reads = [],
      sw_samples = (\<lambda>_ _. \<lparr>sm_write = ex_meets [], sm_elapsed = 0, sm_events = []\<rparr>),
      sw_interrupted = False, sw_startedAt = 10, sw_finishedAt = 20\<rparr>"

definition sc_example :: Scenario where
  "sc_example = \<lparr>sc_Name = ''demo'', sc_FastReturn = True, sc_FloatingDomains = [], sc_FloatingLatencies = fmempty,
     sc_Steps = [(mk_step [] StepPartition)\<lparr>sp_GroupA := [''a1''], sp_GroupB := [''b1'']\<rparr>, mk_step ''heal'' StepHeal,
       mk_step [] ''explode'', mk_step [] StepSleep]\<rparr>"

definition sc_run :: "Harness \<times> (Report \<times> scenario_error option) option" where
  "sc_run = RunScenario sc_world 0 sc_example ex_harness"

lemma scenario_eval:
  "scenario_Validate sc_example = None \<and>
   (case snd sc_run of Some (r, Some e) \<Rightarrow> length (rp_Steps r) = 3 \<and> e = UnknownStep ''explode'' | _ \<Rightarrow> False)"
  by code_simp

lemma sc_config: "snd (applyScenarioConfig sc_example h) = None"
  by (simp add: applyScenarioConfig_def sc_example_def)

text \<open>The third step is the last one that ran: it failed, the first two did not.\<close>

lemma scenario_report_exact_witness:
  "\<exists>h report. RunScenario sc_world 0 sc_example ex_harness = (h, Some (report, Some (UnknownStep ''explode''))) \<and>
     length (rp_Steps report) = 3 \<and> exact_results 0 (sc_Steps sc_example) (rp_Steps report) (Some (UnknownStep ''explode'')) \<and>
     sr_OK (rp_Steps report ! 0) \<and> sr_Name (rp_Steps report ! 1) = ''heal'' \<and> \<not> sr_OK (last (rp_Steps report))"
proof -
  obtain h report where r: "RunScenario sc_world 0 sc_example ex_harness = (h, Some (report, Some (UnknownStep ''explode'')))"
    and l: "length (rp_Steps report) = 3"
    using scenario_eval by (cases sc_run) (auto simp: sc_run_def split: option.splits)
  have v: "scenario_Validate sc_example = None" using scenario_eval by blast
  have x: "exact_results 0 (sc_Steps sc_example) (rp_Steps report) (Some (UnknownStep ''explode''))"
    using scenario_report_exact [OF r v sc_config] by blast
  obtain a b c where s: "rp_Steps report = [a, b, c]" using l by (auto simp: numeral_eq_Suc length_Suc_conv)
  have "sr_Name b = stepName (mk_step ''heal'' StepHeal) 1"
    using x by (auto simp: exact_results_def s sc_example_def dest: spec [of _ 1])
  then show ?thesis using r l x by (auto simp: exact_results_def s stepName_def mk_step_def)
qed

lemma scenario_keeps_inventory_witness: "\<exists>h r. RunScenario sc_world 0 sc_example ex_harness = (h, r) \<and> harness_wf h"
proof -
  obtain h r where r: "RunScenario sc_world 0 sc_example ex_harness = (h, r)" by fastforce
  have "harness_wf ex_harness" using New_ok [OF ex_new_eq [unfolded ex_new_def]] by simp
  moreover have "\<forall>k h. harness_step\<^sup>*\<^sup>* h (sw_live (sc_world k) h)" by (simp add: sc_world_def)
  ultimately show ?thesis using scenario_keeps_inventory [OF r] r by blast
qed

section \<open>A measurement\<close>

text \<open>Every write is answered; they take 9, 4 and 6 ms.\<close>

definition ms_sample :: "nat \<Rightarrow> sample" where
  "ms_sample i = \<lparr>sm_write = \<lparr>wv_dial = \<lambda>_. None, wv_listen = Some ''h:9'',
       wv_calls = \<lambda>_ _ _ _. Answer \<lparr>wr_Result = ex_result\<lparr>cr_RequestID := sample_id ''demo'' ''a'' i\<rparr>, wr_Redirect = [], wr_Error = []\<rparr>,
       wv_tries = \<lambda>_. 1, wv_events = \<lambda>_. [OnGlobal None, CtxDone]\<rparr>,
     sm_elapsed = [9, 4, 6] ! i * millisecond, sm_events = []\<rparr>"

definition ms_leader :: LeaderInfo where
  "ms_leader = \<lparr>li_NodeID = ''a1'', li_DomainID = ''a'', li_GlobalTerm = 1, li_Address = ''h:1''\<rparr>"

definition ms_loop :: "Harness \<times> (scenario_error + measured) option" where
  "ms_loop = measure_loop (sc_Name sc_example) ''a'' (li_Address ms_leader) (sp_Trace (mk_step [] StepWriteOverhead)) 1 second 0 (sample_total 2 1)
     ms_sample \<lparr>me_durations = [], me_winner = [], me_trace = []\<rparr> ex_harness"

lemma measurement_eval: "case snd ms_loop of Some (Inr _) \<Rightarrow> True | _ \<Rightarrow> False"
  by code_simp


lemma duration_stats_ordered_witness:
  "ls_P50 (durationStats [4, 9, 6]) = 6 \<and> ls_Min (durationStats [4, 9, 6]) \<le> ls_Mean (durationStats [4, 9, 6]) \<and>
   ls_P95 (durationStats [4, 9, 6]) \<in> {4, 9, 6}"
proof -
  have "ls_P50 (durationStats [4, 9, 6]) = 6" by code_simp
  then show ?thesis using duration_stats_ordered [of "[4, 9, 6]", OF _ _ _ refl] by (intro conjI) auto
qed

end
