(* ===== verification/Command_Examples.thy ===== *)
theory Command_Examples
  imports Command_Facts Scenario_Examples
begin

text \<open>The commands on concrete inputs: a client that reads three times, once in vain; a harness run that fails; a node that starts.\<close>

definition cm_world :: client_world where
  "cm_world =
     \<lparr>cw_dial = (\<lambda>_. None), cw_status = (\<lambda>_. Inl ''down''), cw_metrics = (\<lambda>_. Inl ''down''), cw_move = (\<lambda>_ _ _. Inl ''down''),
      cw_discover = (\<lambda>_ _. Failed ''down'' False), cw_tries = 0, cw_ping = (\<lambda>_. None), cw_report = (\<lambda>_ _. Inl ''down''),
      cw_unixNano = 7, cw_writes = (\<lambda>_. ex_meets []),
      cw_reads = (\<lambda>i. \<lparr>rv_dial = \<lambda>_. None,
        rv_calls = \<lambda>_ _ _. if i = 2 then Failed ''down'' True else Answer \<lparr>rr_Value = ''v'', rr_Redirect = [], rr_Error = []\<rparr>,
        rv_tries = \<lambda>_. 1\<rparr>),
      cw_elapsed = (\<lambda>i. int i * millisecond)\<rparr>"

definition cm_flags :: client_flags where
  "cm_flags = \<lparr>fl_target = ''h:1'', fl_origin = ''a'', fl_requestID = [], fl_key = ''k'', fl_value = [], fl_count = 3, fl_callbackListen = [],
     fl_replyRoute = [], fl_status = False, fl_metrics = False, fl_move = [], fl_moveReason = [], fl_discover = False,
     fl_reportFloatingLatency = False\<rparr>"

definition cm_run :: "RPCClient \<times> command_result option" where
  "cm_run = client_main cm_world cm_flags"

lemma client_eval:
  "case snd cm_run of Some (ls, code) \<Rightarrow> code = 0 \<and> last ls = SummaryLine 3 2 1 (4 * millisecond) (2 * millisecond) millisecond (3 * millisecond)
     | None \<Rightarrow> False"
  by code_simp

lemma client_command_counts_witness:
  "\<exists>c ls. client_main cm_world cm_flags = (c, Some (ls, 0)) \<and> inj (cwr_RequestID \<circ> op_request cm_world cm_flags) \<and>
     (\<exists>os l. ls = os @ [DashLine, l] \<and> map op_number os = map Some [1..<4])"
proof -
  obtain c ls where m: "client_main cm_world cm_flags = (c, Some (ls, 0))"
    using client_eval by (cases cm_run) (auto simp: cm_run_def split: option.splits)
  have "{1..<4} = {1, 2, 3 :: nat}" by auto
  then have "(\<Sum>k = 1..<1 + nat (max 1 (fl_count cm_flags)). cw_elapsed cm_world k) < 2 ^ 63"
    by (simp add: cm_flags_def cm_world_def millisecond_def)
  moreover have "\<forall>k. 0 \<le> cw_elapsed cm_world k" by (simp add: cm_world_def millisecond_def)
  ultimately have "inj (cwr_RequestID \<circ> op_request cm_world cm_flags) \<and> (\<exists>os l. ls = os @ [DashLine, l] \<and> map op_number os = map Some [1..<4])"
    using client_command_counts [OF m] by (auto simp: cm_flags_def)
  then show ?thesis using m by blast
qed

definition cm_files :: files where
  "cm_files = \<lparr>fs_scenarios = \<lambda>_. Inr sc_example, fs_base = \<lambda>p. p, fs_configs = \<lambda>_. Inr ex_config, fs_mkdir = \<lambda>_. None, fs_write = \<lambda>_ _. None,
     fs_tempReport = ''r'', fs_tempDir = None, fs_open = \<lambda>_ _. Inl ''no database'', fs_free = \<lambda>_. None\<rparr>"

definition hm_flags :: harness_flags where
  "hm_flags = \<lparr>hf_scenario = [], hf_scenarioFile = ''f'', hf_out = [], hf_fastReturn = False, hf_config = ''c'', hf_store = ''memory'', hf_dataDir = []\<rparr>"

definition hm_end :: "harness_end option" where
  "hm_end = harness_main cm_files sc_world 0 hm_flags"

lemma harness_command_eval: "case hm_end of Some (Ended h r e) \<Rightarrow> e \<noteq> None | _ \<Rightarrow> False"
  by code_simp

lemma harness_command_cleanup_witness:
  "\<exists>h report e. harness_main cm_files sc_world 0 hm_flags = Some (Ended h report (Some e)) \<and> \<not> hs_closed h \<and> \<not> hs_dirRemoved h"
proof -
  obtain h report e where m: "harness_main cm_files sc_world 0 hm_flags = Some (Ended h report (Some e))"
    using harness_command_eval by (auto simp: hm_end_def split: option.splits harness_end.splits)
  moreover have "\<forall>k h. same_open h (sw_live (sc_world k) h)" by (simp add: sc_world_def same_open_def)
  ultimately show ?thesis using harness_command_cleanup [OF m] by auto
qed

definition nm_run :: "harness_error + RPCNode option" where
  "nm_run = node_main (\<lambda>_. Inr ex_config) (\<lambda>_ _. Inr (MemoryStore NewMemoryStore)) ex_env (True, True) ''cluster.json'' ''a1'' ''data''"

lemma node_command_eval: "case nm_run of Inr _ \<Rightarrow> True | Inl _ \<Rightarrow> False"
  by code_simp

lemma node_command_starts_witness:
  "\<exists>n. node_main (\<lambda>_. Inr ex_config) (\<lambda>_ _. Inr (MemoryStore NewMemoryStore)) ex_env (True, True) ''cluster.json'' ''a1'' ''data'' = Inr (Some n) \<and>
     rn_server n \<and> rn_globalLeaseEnabled n"
proof -
  obtain r where m: "node_main (\<lambda>_. Inr ex_config) (\<lambda>_ _. Inr (MemoryStore NewMemoryStore)) ex_env (True, True) ''cluster.json'' ''a1'' ''data'' = Inr r"
    using node_command_eval by (auto simp: nm_run_def split: sum.splits)
  from node_command_starts [OF this] m show ?thesis by auto
qed

end
