(* ===== verification/Spec2Isabelle.thy ===== *)
theory Spec2Isabelle
  imports Stores Log_History Transitions Topology Kv_Store Race Stats Write_Cost Optimizer Mover
    Write_Trace Sim_Unique Sim_Split Sim_Write_Examples Rpc_Cluster Command_Examples
begin

text \<open>
  \<^bold>\<open>A verification library for CD-Raft\<close> (the Go program under \<open>src/\<close>).

  CD-Raft runs Raft in two layers.  The nodes of a domain elect a Domain Leader; the Domain Leaders elect one
  Global Leader, which orders all writes.  An entry is committed when the domain of the Global Leader and one
  more domain hold it by majority.  A client gets its answer from the Global Leader or, earlier, as a Fast
  Return from the Domain Leader of its own domain, and takes whichever comes first.  The leadership can be
  handed over to another domain; a controller outside the cluster recommends where to.

  \<^bold>\<open>Parts, theories and sources.\<close>

  \<^item> \<open>Prelude\<close>: Go maps as finite maps, \<open>uint64\<close> as a 64-bit word, \<open>int64\<close> as an integer with the wrap-around
    written out, lemmas on folds and words.
  \<^item> \<open>Types\<close> (\<open>internal/cdraft/types.go\<close>): identities, entries, results, quorum sizes; the locale
    \<open>quorum_system\<close> is the intersection argument of every election.
  \<^item> \<open>Json\<close>, \<open>Persistence\<close>, \<open>Stores\<close> (\<open>store.go\<close>): the persistent state, its JSON form, the memory and the file
    store with failing system calls; the locale \<open>store\<close> is their interface.
  \<^item> \<open>Raft_Log\<close>, \<open>Log_History\<close> (\<open>log.go\<close>): append, checked append, apply, compaction, snapshots; the invariant
    \<open>wf_state\<close>, Log Matching, and replicas as refinements of one decided history.
  \<^item> \<open>Transitions\<close> (\<open>transitions.go\<close>): the eleven election transitions.
  \<^item> \<open>Topology\<close> (\<open>internal/topology/config.go\<close>): the configuration, its validation and its queries.
  \<^item> \<open>Kv_Store\<close> (\<open>kvstore.go\<close>, \<open>leveldb_store.go\<close>): the incremental store over an engine.
  \<^item> \<open>Race\<close> (\<open>race.go\<close>), \<open>Stats\<close> (\<open>stats.go\<close>), \<open>Write_Cost\<close> (\<open>write_cost.go\<close>), \<open>Write_Trace\<close>
    (\<open>write_trace.go\<close>), \<open>Optimizer\<close> (\<open>internal/optimizer/optimizer.go\<close>), \<open>Mover\<close> (\<open>cmd/cdraft-mover/main.go\<close>).
  \<^item> The simulated cluster (\<open>internal/cdraft/sim\<close>): \<open>Sim_Network\<close> (\<open>network.go\<close>), \<open>Sim_Model\<close> (\<open>model.go\<close>),
    \<open>Sim_Data\<close> (\<open>data.go\<close>).  \<open>Sim_Frames\<close>, \<open>Sim_Steps\<close>, \<open>Sim_Runs\<close> set up runs of public operations;
    \<open>Sim_Elections\<close>, \<open>Sim_Global\<close>, \<open>Sim_Unique\<close>, \<open>Sim_Writes\<close> hold the theorems on all runs, \<open>Sim_Examples\<close>,
    \<open>Sim_Write_Examples\<close>, \<open>Sim_Split\<close> concrete ones.
  \<^item> The production node (\<open>rpc_node.go\<close>, \<open>telemetry.go\<close>, \<open>metrics.go\<close>): \<open>Rpc_Node\<close> (state, start and stop, leases,
    election services, commit knowledge), \<open>Rpc_Elect\<close> (campaigns, failure detection, heartbeats), \<open>Rpc_Log\<close>
    (\<open>Replicate\<close>, Fast Return, \<open>Commit\<close>, \<open>InstallSnapshot\<close>), \<open>Rpc_Client\<close> (\<open>Write\<close>, \<open>Read\<close>, the commit of a write, the
    choice of the responder), \<open>Rpc_Migrate\<close> (recovery of marks and commits, backfill, catch-up, telemetry, handoff),
    \<open>Rpc_Views\<close> (status, topology, metrics, probes, \<open>runCatchUp\<close>, \<open>handleMove\<close>, \<open>beginMigration\<close>).
    The theorems are in \<open>Rpc_Steps\<close> (what every section keeps), \<open>Rpc_Votes\<close>, \<open>Rpc_Acks\<close>, \<open>Rpc_Commit\<close>,
    \<open>Rpc_Serve\<close>, \<open>Rpc_Heal\<close>, \<open>Rpc_Views\<close>; \<open>Rpc_Scenarios\<close> holds concrete runs, \<open>Rpc_Cluster\<close> the runs of
    several nodes that exchange ballots.
    \<open>Rpc_Net\<close> is the outgoing side: settings, injected faults, link delays and \<open>callNode\<close>.
  \<^item> \<open>Client\<close> (\<open>rpc_client.go\<close>): leader cache, redirect loops, callback router, a write as a race.
  \<^item> The harness (\<open>internal/harness\<close>): \<open>Harness\<close> (\<open>harness.go\<close>: a cluster in one process, its operations and faults),
    \<open>Scenario\<close> and \<open>Scenario_Run\<close> (\<open>scenario.go\<close>, \<open>write_overhead.go\<close>, parts of \<open>report.go\<close>: steps, statistics, measurements,
    the run of a scenario).  The theorems are in \<open>Harness_Facts\<close>, \<open>Scenario_Facts\<close> and \<open>Scenario\<close>, concrete runs in
    \<open>Harness_Examples\<close> and \<open>Scenario_Examples\<close>.
  \<^item> \<open>Commands\<close>, \<open>Command_Facts\<close>, \<open>Command_Examples\<close> (\<open>cmd/cdraft\<close>, \<open>cmd/cdraft-client\<close>, \<open>cmd/cdraft-harness\<close>): flags to
    printed lines and exit codes.

  \<^bold>\<open>How code becomes definitions.\<close>  A struct is a record, a method a function on it, an error or a panic a
  value (\<open>None\<close> where the code would panic).  The simulation is sequential and is modelled call by call.  The
  production node is concurrent: a handler is one or two critical sections of its mutex, each a function on the
  node record.  What a section takes from outside is an argument: the results of \<open>time.Now()\<close> and of the
  random draws (\<open>env\<close>), the replies of peers, which members confirmed (\<open>acked\<close>), what other handlers did between
  two sections (\<open>others\<close>).two sections (\<open>others\<close>).  \<open>rpc_step\<close> is any section \<open>node_life\<close> adds a disk that fails and
  recovers, and restarts from the store.  \<open>harness_step\<close> is any operation of the harness, or a section of one of its
  nodes.  A step of a scenario meets a \<open>step_world\<close>: the answers of the nodes, the clock, and what the nodes did meanwhile.

  \<^bold>\<open>What is shown.\<close>

  \<^item> Elections.  In every run of the simulation leaders of one term are unique (for global leaders as long
    as no domain loses its recorded leader; \<open>Sim_Split\<close> shows that this is needed).  A production node casts one
    ballot per term through every interleaving, disk fault and restart (locale \<open>memory\<close>, interpreted for the
    domain and for the global ballot), so in every run of a production cluster the winner of a domain term is
    unique, and the winner of a global term is too unless a domain voted through two nodes in it (locale
    \<open>balloting\<close>, interpreted for both kinds of ballot).  Leases exclude a rival of a leader that has been heard;
    a run in \<open>Rpc_Scenarios\<close> shows that the window before the first heartbeat is not covered.
  \<^item> Log and state machine.  Appends keep the log well-formed and committed entries fixed, keep Log Matching,
    and lower the quorum marks when they overwrite; replicas that applied equally many entries agree;
    compaction, snapshots and restarts lose nothing that is applied.
  \<^item> Writes and reads.  A fast answer in the simulation is held by majorities of two domains; the commit rule
    commits exactly what two domains hold; reads see answered writes.  In production every positive answer is
    durable, commit knowledge advances only to an identified entry and on the evidence of two domains, a
    request is ordered once, a Fast Return is sent once, and reads wait for the barrier.
    Another run shows how a mark can vouch for a replaced entry.
  \<^item> Healing and handoff.  The tail that is collected is exact, one round of it brings a healthy domain to the
    barrier, and a handoff leaves one serving leader; the case in which collecting
    panics is shown too.
  \<^item> Client.  A stable leader is found within three calls, Fast Returns reach their own write, and the race
    returns a valid result of the request on which both paths agree.
  \<^item> Calls between nodes.  A call makes its attempts in turn and stops at the first one that is answered for good, so
    it takes effect once; it ends within its retries times its deadlines and delays; over a lossy link it gets through
    when one attempt does, and through a partition never.  With no retries allowed it reports success without a call.
  \<^item> Harness and scenarios.  The harness keeps one node per configured one through every operation, a failed
    construction cleans up; retried writes end within their budget and return what was asked; a restart keeps the
    store and the settings but not the injected faults, so a partition becomes one-way.  The report of a
    scenario is exact; a measurement uses the samples after the warm-up, and its percentiles are ordered.
  \<^item> Commands.  The client counts its operations and sends each as a request of its own, the harness runner cleans up
    after a success only, a node that starts passes the check of its lease timing.
  \<^item> Storage, configuration, placement: round trip of the incremental store, validation equivalent to a
    declarative predicate, partition of the nodes, optimal recommendation, confirmed migration.

  \<^bold>\<open>Bounds.\<close>  Loops over a finite list or up to an index are structural or have a measure, and so are total.
  A loop that a context or a ticker ends is recursion on the number of rounds that are left; the theorems say how
  many rounds are enough; the retried writes of the harness end when the rounds outlast the budget, each of them being
  a pause apart.  Indices are 64-bit words: where an operation would wrap, a hypothesis says that the
  last index is not the largest word (\<open>max_u64\<close>), and where \<open>make\<close> could panic, that a distance is below \<open>2 ^ 63\<close>.
  \<open>float64\<close> is modelled by exact rationals.  Time is an integer of nanoseconds.

  \<^bold>\<open>Parameters.\<close>  The goleveldb engine (locale of \<open>Kv_Store\<close>), gRPC calls and replies, the operating system
  calls of the file store, the decoded configuration and scenario files, free ports, temporary directories, the clock
  and randomness.

  \<^bold>\<open>Not modelled.\<close>  gRPC servers and generated code; tickers and goroutine scheduling (any order of sections is allowed
  instead); calls of the trace recorder inside handlers and log output; the text of the Markdown report (its data is);
  the parsing of flags and the handling of signals.  \<open>exports_for_sim.go\<close> only gives exported names to functions that
  are modelled under their own.

  \<^bold>\<open>Left for later.\<close>  Replication and commit over the runs of a production cluster (they cover elections so far);
  the commit recovery of a new Global Leader as a theorem.
\<close>

end
